(* ===== verification/Prelude.thy ===== *)
theory Prelude
  imports Complex_Main "HOL-Library.AList" "HOL-Library.While_Combinator"
begin

text \<open>
  What the components share: fact collections, updates of the first matching list element
  (how a Python reference into a list is written back), association lists as Python
  dictionaries (insertion order is kept, an existing key keeps its position), and the parts
  of Python's string type the program uses.
\<close>

named_theorems frame_simps
  \<open>fields an operation leaves unchanged\<close>

named_theorems node_defs
  \<open>definitions of the workflow nodes and of what they call\<close>

section \<open>References into lists\<close>

text \<open>
  \<open>find P xs\<close> is the Python loop that returns the first element satisfying \<open>P\<close>; the object it
  returns is an alias of the list element, so a later mutation of it is \<open>upd_first P f xs\<close>.
\<close>

fun upd_first :: "('a \<Rightarrow> bool) \<Rightarrow> ('a \<Rightarrow> 'a) \<Rightarrow> 'a list \<Rightarrow> 'a list" where
  "upd_first P f [] = []"
| "upd_first P f (x # xs) = (if P x then f x # xs else x # upd_first P f xs)"

lemma length_upd_first [simp]: "length (upd_first P f xs) = length xs"
  by (induction xs) auto

lemma upd_first_eq_Nil [simp]: "upd_first P f xs = [] \<longleftrightarrow> xs = []"
  by (cases xs) auto

lemma find_SomeD: "find P xs = Some x \<Longrightarrow> P x \<and> x \<in> set xs"
  by (induction xs) (auto split: if_splits)

lemma find_None_iff': "find P xs = None \<longleftrightarrow> (\<forall>x\<in>set xs. \<not> P x)"
  by (induction xs) auto

lemma set_upd_firstE:
  assumes "y \<in> set (upd_first P f xs)"
  obtains "y \<in> set xs" | x where "find P xs = Some x" "y = f x"
  using assms by (induction xs) (auto split: if_splits)

lemma find_upd_first:
  assumes "\<And>x. P (f x) = P x" shows "find P (upd_first P f xs) = map_option f (find P xs)"
  using assms by (induction xs) auto

lemma map_upd_first:
  assumes "\<And>x. P x \<Longrightarrow> g (f x) = g x" shows "map g (upd_first P f xs) = map g xs"
  using assms by (induction xs) auto

lemma upd_first_upd_first:
  assumes "\<And>x. P x \<Longrightarrow> P (f x)"
  shows "upd_first P g (upd_first P f xs) = upd_first P (g \<circ> f) xs"
  using assms by (induction xs) auto

lemma upd_first_absent: "find P xs = None \<Longrightarrow> upd_first P f xs = xs"
  by (induction xs) (auto split: if_splits)

text \<open>With distinct keys, the first element with a key is the only one.\<close>

lemma find_distinct:
  "distinct (map k xs) \<Longrightarrow> x \<in> set xs \<Longrightarrow> find (\<lambda>y. k y = k x) xs = Some x"
  by (induction xs) (auto simp: rev_image_eqI)

lemma upd_first_distinct:
  "distinct (map k xs) \<Longrightarrow>
   upd_first (\<lambda>y. k y = i) f xs = map (\<lambda>y. if k y = i then f y else y) xs"
proof (induction xs)
  case (Cons x xs)
  then have "k x = i \<Longrightarrow> map (\<lambda>y. if k y = i then f y else y) xs = xs"
    by (intro map_idI) (force simp: image_iff)
  with Cons show ?case by auto
qed simp

lemma sum_list_upd_first:
  fixes m :: "'a \<Rightarrow> nat"
  assumes "find P xs = Some x"
  shows "sum_list (map m (upd_first P f xs)) + m x = sum_list (map m xs) + m (f x)"
  using assms by (induction xs) (auto split: if_splits)

lemma length_filter_strict:
  assumes "\<And>y. Q y \<Longrightarrow> P y" "x \<in> set xs" "P x" "\<not> Q x"
  shows "length (filter Q xs) < length (filter P xs)"
proof -
  have "filter Q xs = filter Q (filter P xs)" using assms(1) by (induction xs) auto
  then show ?thesis using assms length_filter_less[of x "filter P xs" Q] by simp
qed

text \<open>A comprehension with a condition is \<open>List.map_filter\<close>.\<close>

lemma set_map_filter: "set (List.map_filter f xs) = {y. \<exists>x\<in>set xs. f x = Some y}"
  by (induction xs) (auto simp: map_filter_simps split: option.splits)

lemma distinct_map_filter:
  assumes "distinct (map k xs)" "\<And>x y. f x = Some y \<Longrightarrow> g y = k x"
  shows "distinct (map g (List.map_filter f xs))"
  using assms(1)
proof (induction xs)
  case (Cons x xs)
  have "g ` set (List.map_filter f xs) \<subseteq> k ` set xs"
    using assms(2) by (auto simp: set_map_filter)
  with Cons assms(2)[of x] show ?case
    by (cases "f x") (auto simp: map_filter_simps)
qed (simp add: map_filter_simps)

section \<open>Dictionaries\<close>

text \<open>
  \<open>d[k] = v\<close> is \<open>AList.update k v d\<close>, \<open>d.get(k)\<close> is \<open>map_of d k\<close>, \<open>del d[k]\<close> and
  \<open>d.pop(k, None)\<close> are \<open>AList.delete k d\<close>.
\<close>

abbreviation dkeys :: "('k \<times> 'v) list \<Rightarrow> 'k list" where
  "dkeys d \<equiv> map fst d"

definition dget :: "('k \<times> 'v) list \<Rightarrow> 'k \<Rightarrow> 'v \<Rightarrow> 'v" where
  "dget d k v = (case map_of d k of None \<Rightarrow> v | Some w \<Rightarrow> w)"

definition dict_update :: "('k \<times> 'v) list \<Rightarrow> ('k \<times> 'v) list \<Rightarrow> ('k \<times> 'v) list" where
  "dict_update d e = fold (\<lambda>(k, v) acc. AList.update k v acc) e d"

lemma map_of_AList_update [simp]: "map_of (AList.update k v d) = (map_of d)(k \<mapsto> v)"
  by (rule update_conv')

lemma dkeys_update:
  "dkeys (AList.update k v d) = (if k \<in> set (dkeys d) then dkeys d else dkeys d @ [k])"
  by (rule update_keys)

lemma map_of_AList_delete [simp]: "map_of (AList.delete k d) = (map_of d)(k := None)"
  by (rule AList.delete_conv')

lemma map_of_Some_dkeys: "map_of d k = Some v \<Longrightarrow> k \<in> set (dkeys d)"
  by (force dest: map_of_SomeD)

lemma dkeys_delete: "dkeys (AList.delete k d) = filter (\<lambda>x. x \<noteq> k) (dkeys d)"
  by (auto simp: AList.delete_eq filter_map comp_def intro!: arg_cong[where f = "map fst"] filter_cong)

lemma update_new_key: "k \<notin> set (dkeys d) \<Longrightarrow> AList.update k v d = d @ [(k, v)]"
  by (induction d) auto

lemma set_AList_update: "set (AList.update k v d) \<subseteq> insert (k, v) (set d)"
  by (induction d) auto

lemma set_AList_delete: "set (AList.delete k d) = {p \<in> set d. fst p \<noteq> k}"
  by (auto simp: AList.delete_eq)

text \<open>
  The keyed containers of the program (tool registry, state stores, ledger, windows) answer
  look-ups as finite maps do. What a client relies on follows from two laws.
\<close>

locale keyed_store =
  fixes lookup :: "'s \<Rightarrow> 'k \<Rightarrow> 'v option"
    and insert :: "'k \<Rightarrow> 'v \<Rightarrow> 's \<Rightarrow> 's"
    and remove :: "'k \<Rightarrow> 's \<Rightarrow> 's"
  assumes lookup_insert: "lookup (insert k v s) j = (if j = k then Some v else lookup s j)"
    and lookup_remove: "lookup (remove k s) j = (if j = k then None else lookup s j)"
begin

text \<open>A history of writes: \<open>(k, Some v)\<close> stores, \<open>(k, None)\<close> removes.\<close>

definition apply_write :: "'k \<times> 'v option \<Rightarrow> 's \<Rightarrow> 's" where
  "apply_write op s = (case op of (k, Some v) \<Rightarrow> insert k v s | (k, None) \<Rightarrow> remove k s)"

lemma lookup_apply_write: "lookup (apply_write op s) j = (if j = fst op then snd op else lookup s j)"
  by (cases op; cases "snd op") (simp_all add: apply_write_def lookup_insert lookup_remove)

lemma last_write_wins:
  "lookup (fold apply_write ops s) j =
     (case map_of (rev ops) j of None \<Rightarrow> lookup s j | Some v \<Rightarrow> v)"
  by (induction ops rule: rev_induct) (auto simp: lookup_apply_write)

lemma insert_insert_other:
  "j \<noteq> k \<Longrightarrow> lookup (insert j u (insert k v s)) i = lookup (insert k v (insert j u s)) i"
  by (simp add: lookup_insert)

lemma remove_idem: "lookup (remove k (remove k s)) i = lookup (remove k s) i"
  by (simp add: lookup_remove)

end

section \<open>Python strings\<close>

text \<open>Strings are lists of ASCII characters here; \<open>str\<close> methods are written out for them.\<close>

definition py_space :: "char \<Rightarrow> bool" where
  "py_space c \<longleftrightarrow> c \<in> {CHR '' '', CHR 0x09, CHR 0x0A, CHR 0x0B, CHR 0x0C, CHR 0x0D,
          CHR 0x1C, CHR 0x1D, CHR 0x1E, CHR 0x1F}"

definition py_strip :: "string \<Rightarrow> string" where
  "py_strip s = rev (dropWhile py_space (rev (dropWhile py_space s)))"

definition py_lower_char :: "char \<Rightarrow> char" where
  "py_lower_char c = (let n = of_char c :: nat in if 65 \<le> n \<and> n \<le> 90 then char_of (n + 32) else c)"

definition py_lower :: "string \<Rightarrow> string" where
  "py_lower = map py_lower_char"

fun starts_with :: "'a list \<Rightarrow> 'a list \<Rightarrow> bool" where
  "starts_with [] s = True"
| "starts_with (p # ps) [] = False"
| "starts_with (p # ps) (c # s) = (p = c \<and> starts_with ps s)"

definition ends_with :: "'a list \<Rightarrow> 'a list \<Rightarrow> bool" where
  "ends_with suf s = starts_with (rev suf) (rev s)"

text \<open>\<open>s.replace(old, new)\<close> for a non-empty \<open>old\<close>: left to right, non-overlapping.\<close>

function py_replace :: "string \<Rightarrow> string \<Rightarrow> string \<Rightarrow> string" where
  "py_replace old new s =
     (if s = [] then []
      else if old \<noteq> [] \<and> starts_with old s then new @ py_replace old new (drop (length old) s)
      else hd s # py_replace old new (tl s))"
  by pat_completeness auto
termination
  by (relation "measure (\<lambda>(old, new, s). length s)") auto

declare py_replace.simps [simp del]

fun show_nat :: "nat \<Rightarrow> string" where
  "show_nat n = (if n < 10 then [char_of (48 + n)]
                 else show_nat (n div 10) @ [char_of (48 + n mod 10)])"

declare show_nat.simps [simp del]

definition show_int :: "int \<Rightarrow> string" where
  "show_int i = (if i < 0 then CHR ''-'' # show_nat (nat (- i)) else show_nat (nat i))"

fun join_with :: "string \<Rightarrow> string list \<Rightarrow> string" where
  "join_with sep [] = []"
| "join_with sep [x] = x"
| "join_with sep (x # y # ys) = x @ sep @ join_with sep (y # ys)"

text \<open>Facts on the string functions.\<close>

lemma starts_with_append [simp]: "starts_with p (p @ s)"
  by (induction p) auto

lemma starts_with_iff: "starts_with p s \<longleftrightarrow> (\<exists>t. s = p @ t)"
  by (induction p s rule: starts_with.induct) auto

lemma py_strip_Nil [simp]: "py_strip [] = []"
  by (simp add: py_strip_def)

lemma py_strip_eq_Nil: "py_strip s = [] \<longleftrightarrow> (\<forall>c\<in>set s. py_space c)"
  by (auto simp: py_strip_def dropWhile_eq_Nil_conv dest: set_dropWhileD)
     (metis dropWhile_eq_Nil_conv set_dropWhileD takeWhile_dropWhile_id Un_iff set_append set_takeWhileD)

lemma show_nat_nonempty [simp]: "show_nat n \<noteq> []"
  by (subst show_nat.simps) auto

text \<open>Decimal notation reads back, so it is injective.\<close>

definition read_nat :: "string \<Rightarrow> nat" where
  "read_nat = foldl (\<lambda>n c. 10 * n + (of_char c - 48)) 0"

lemma read_show_nat: "read_nat (show_nat n) = n"
proof (induction n rule: show_nat.induct)
  case (1 n)
  then show ?case
    by (subst show_nat.simps) (auto simp: read_nat_def of_char_of mod_less)
qed

lemma show_nat_inject [simp]: "show_nat m = show_nat n \<longleftrightarrow> m = n"
  by (metis read_show_nat)

end
