(* ===== verification/PyValue.thy ===== *)
theory PyValue
  imports Prelude
begin

text \<open>
  The values that travel in the program's \<open>Dict[str, Any]\<close> fields: JSON values plus
  \<open>datetime\<close> objects (as \<open>PTime\<close>), which model dumps contain. Floats are exact rationals.
  Truthiness, equality across the numeric types, \<open>str\<close>/\<open>repr\<close> and the \<open>Optional\<close> formatting
  of f-strings are written out; a dictionary is an association list in insertion order.
\<close>

section \<open>Values\<close>

type_synonym time = nat

datatype pyval =
    PNone
  | PBool bool
  | PInt int
  | PFloat rat
  | PStr string
  | PTime time
  | PList "pyval list"
  | PDict "(string \<times> pyval) list"

type_synonym dict = "(string \<times> pyval) list"

text \<open>\<open>bool(v)\<close>.\<close>

fun truthy :: "pyval \<Rightarrow> bool" where
  "truthy PNone = False"
| "truthy (PBool b) = b"
| "truthy (PInt i) = (i \<noteq> 0)"
| "truthy (PFloat r) = (r \<noteq> 0)"
| "truthy (PStr s) = (s \<noteq> [])"
| "truthy (PTime t) = True"
| "truthy (PList vs) = (vs \<noteq> [])"
| "truthy (PDict d) = (d \<noteq> [])"

definition is_dict :: "pyval \<Rightarrow> bool" where
  "is_dict v = (case v of PDict _ \<Rightarrow> True | _ \<Rightarrow> False)"

fun num_of :: "pyval \<Rightarrow> rat option" where
  "num_of (PBool b) = Some (if b then 1 else 0)"
| "num_of (PInt i) = Some (of_int i)"
| "num_of (PFloat r) = Some r"
| "num_of _ = None"

text \<open>
  \<open>v == w\<close>: numbers compare across types (\<open>True == 1 == 1.0\<close>), dictionaries as maps.
\<close>

primrec py_eq :: "pyval \<Rightarrow> pyval \<Rightarrow> bool" where
  "py_eq PNone = (\<lambda>w. w = PNone)"
| "py_eq (PBool b) = (\<lambda>w. num_of w = num_of (PBool b))"
| "py_eq (PInt i) = (\<lambda>w. num_of w = num_of (PInt i))"
| "py_eq (PFloat r) = (\<lambda>w. num_of w = num_of (PFloat r))"
| "py_eq (PStr s) = (\<lambda>w. w = PStr s)"
| "py_eq (PTime t) = (\<lambda>w. w = PTime t)"
| "py_eq (PList vs) =
     (\<lambda>w. case w of PList ws \<Rightarrow> list_all2 (\<lambda>f w. f w) (map py_eq vs) ws | _ \<Rightarrow> False)"
| "py_eq (PDict d) =
     (\<lambda>w. case w of
        PDict e \<Rightarrow> length d = length e
          \<and> list_all (\<lambda>(k, f). case map_of e k of None \<Rightarrow> False | Some w' \<Rightarrow> f w')
              (map (map_prod id py_eq) d)
      | _ \<Rightarrow> False)"

section \<open>Text\<close>

text \<open>
  \<open>repr\<close> of a string: single quotes unless the text has a single and no double quote;
  backslash, the quote and control characters are escaped.
\<close>

definition hex_digit :: "nat \<Rightarrow> char" where
  "hex_digit n = char_of (if n < 10 then 48 + n else 87 + n)"

definition esc_char :: "char \<Rightarrow> char \<Rightarrow> string" where
  "esc_char q c =
     (if c = CHR 0x5C \<or> c = q then [CHR 0x5C, c]
      else if c = CHR 0x0A then [CHR 0x5C, CHR ''n'']
      else if c = CHR 0x0D then [CHR 0x5C, CHR ''r'']
      else if c = CHR 0x09 then [CHR 0x5C, CHR ''t'']
      else let n = of_char c :: nat in
        if n < 32 \<or> n = 127 then [CHR 0x5C, CHR ''x'', hex_digit (n div 16), hex_digit (n mod 16)]
        else [c])"

definition repr_str :: "string \<Rightarrow> string" where
  "repr_str s =
     (let q = (if CHR 0x27 \<in> set s \<and> CHR 0x22 \<notin> set s then CHR 0x22 else CHR 0x27)
      in [q] @ concat (map (esc_char q) s) @ [q])"

text \<open>
  A float prints as its decimal expansion, here cut at 16 fractional digits, with trailing
  zeros removed but at least one fractional digit kept.
\<close>

fun frac_digits :: "nat \<Rightarrow> rat \<Rightarrow> string" where
  "frac_digits 0 r = []"
| "frac_digits (Suc n) r =
     (let d = \<lfloor>10 * r\<rfloor> in char_of (48 + nat d) # frac_digits n (10 * r - of_int d))"

definition repr_float :: "rat \<Rightarrow> string" where
  "repr_float r =
     (let a = \<bar>r\<bar>; w = \<lfloor>a\<rfloor>;
          ds = rev (dropWhile (\<lambda>c. c = CHR ''0'') (rev (frac_digits 16 (a - of_int w))))
      in (if r < 0 then ''-'' else '''') @ show_nat (nat w) @ ''.'' @ (if ds = [] then ''0'' else ds))"

primrec py_repr :: "pyval \<Rightarrow> string" where
  "py_repr PNone = ''None''"
| "py_repr (PBool b) = (if b then ''True'' else ''False'')"
| "py_repr (PInt i) = show_int i"
| "py_repr (PFloat r) = repr_float r"
| "py_repr (PStr s) = repr_str s"
| "py_repr (PTime t) = ''datetime.datetime('' @ show_nat t @ '')''"
| "py_repr (PList vs) = ''['' @ join_with '', '' (map py_repr vs) @ '']''"
| "py_repr (PDict d) =
     ''{'' @ join_with '', '' (map (\<lambda>(k, r). repr_str k @ '': '' @ r) (map (map_prod id py_repr) d))
       @ ''}''"

definition py_str :: "pyval \<Rightarrow> string" where
  "py_str v = (case v of PStr s \<Rightarrow> s | _ \<Rightarrow> py_repr v)"

text \<open>An \<open>Optional[str]\<close> as a value, and inside an f-string.\<close>

definition opt_str :: "string option \<Rightarrow> pyval" where
  "opt_str s = (case s of None \<Rightarrow> PNone | Some x \<Rightarrow> PStr x)"

definition fmt_opt :: "string option \<Rightarrow> string" where
  "fmt_opt s = py_str (opt_str s)"

definition opt_truthy :: "string option \<Rightarrow> bool" where
  "opt_truthy s = truthy (opt_str s)"

text \<open>\<open>s or other\<close> for an \<open>Optional[str]\<close>.\<close>

definition str_or :: "string option \<Rightarrow> string \<Rightarrow> string" where
  "str_or s other = (case s of None \<Rightarrow> other | Some x \<Rightarrow> if x = [] then other else x)"

definition opt_dict :: "dict option \<Rightarrow> pyval" where
  "opt_dict d = (case d of None \<Rightarrow> PNone | Some e \<Rightarrow> PDict e)"

text \<open>\<open>d or {}\<close> for an \<open>Optional[Dict]\<close>.\<close>

definition dict_or_empty :: "dict option \<Rightarrow> dict" where
  "dict_or_empty d = (case d of None \<Rightarrow> [] | Some e \<Rightarrow> e)"

section \<open>Facts\<close>

lemma opt_truthy_simps [simp]:
  "opt_truthy None = False" "opt_truthy (Some s) = (s \<noteq> [])"
  by (simp_all add: opt_truthy_def opt_str_def)

lemma str_or_simps [simp]:
  "str_or None t = t" "str_or (Some s) t = (if s = [] then t else s)"
  by (simp_all add: str_or_def)

lemma dict_or_empty_simps [simp]:
  "dict_or_empty None = []" "dict_or_empty (Some d) = d"
  by (simp_all add: dict_or_empty_def)

lemma py_eq_PStr_right: "py_eq v (PStr s) \<longleftrightarrow> v = PStr s"
  by (cases v) auto

end
