(* ===== verification/Errors.thy ===== *)
theory Errors
  imports PyValue
begin

text \<open>
  The exception taxonomy of \<open>errors/exceptions.py\<close> (and the one subclass declared in
  \<open>execution/idempotency.py\<close>): the class hierarchy, what each constructor stores, and the
  \<open>isinstance\<close> test the handlers use. An exception is a value; a function that may raise
  returns \<open>exc + 'a\<close>.
\<close>

section \<open>Classes\<close>

text \<open>\<open>Foreign n\<close> stands for a class \<open>n\<close> outside the framework (built in, or of a library).\<close>

datatype exc_class =
    OrchestratorError
  | ValidationError
  | ConfigurationError
  | ProviderError
  | ProviderUnavailableError
  | ToolError
  | ToolNotFoundError
  | ToolExecutionError
  | RetrievalError
  | OrchestrationError
  | TaskDependencyError
  | TimeoutError
  | HumanInterventionRequired
  | AuthenticationError
  | AuthorizationError
  | IdempotencyConflictError
  | Foreign string

fun base_class :: "exc_class \<Rightarrow> exc_class option" where
  "base_class OrchestratorError = None"
| "base_class (Foreign n) = None"
| "base_class ProviderUnavailableError = Some ProviderError"
| "base_class ToolNotFoundError = Some ToolError"
| "base_class ToolExecutionError = Some ToolError"
| "base_class TaskDependencyError = Some OrchestrationError"
| "base_class IdempotencyConflictError = Some OrchestrationError"
| "base_class c = Some OrchestratorError"

fun class_depth :: "exc_class \<Rightarrow> nat" where
  "class_depth OrchestratorError = 0"
| "class_depth (Foreign n) = 0"
| "class_depth ProviderUnavailableError = 2"
| "class_depth ToolNotFoundError = 2"
| "class_depth ToolExecutionError = 2"
| "class_depth TaskDependencyError = 2"
| "class_depth IdempotencyConflictError = 2"
| "class_depth c = 1"

lemma base_class_depth: "base_class c = Some d \<Longrightarrow> class_depth d < class_depth c"
  by (cases c) auto

function subclass_of :: "exc_class \<Rightarrow> exc_class \<Rightarrow> bool" where
  "subclass_of c d = (c = d \<or> (case base_class c of None \<Rightarrow> False | Some b \<Rightarrow> subclass_of b d))"
  by pat_completeness auto
termination
  by (relation "measure (class_depth \<circ> fst)") (auto dest: base_class_depth)

declare subclass_of.simps [simp del]

section \<open>Exceptions\<close>

record exc =
  e_class :: exc_class
  e_raw_message :: string
  e_message :: string
  e_code :: string
  e_retryable :: bool
  e_details :: dict

definition isinstance :: "exc \<Rightarrow> exc_class \<Rightarrow> bool" where
  "isinstance e c = subclass_of (e_class e) c"

text \<open>
  \<open>sanitize_message\<close>: every pattern longer than four characters is replaced, in the order of
  the list; \<open>None\<close> is the empty list.
\<close>

definition sanitize_message :: "string \<Rightarrow> string list \<Rightarrow> string" where
  "sanitize_message message sensitive_patterns =
     (if message = [] then message
      else fold (\<lambda>pattern sanitized.
             if pattern \<noteq> [] \<and> length pattern > 4
             then py_replace pattern ''[REDACTED_SECRET]'' sanitized else sanitized)
           sensitive_patterns message)"

definition orchestrator_init :: "exc_class \<Rightarrow> string \<Rightarrow> string \<Rightarrow> bool \<Rightarrow> dict \<Rightarrow> exc" where
  "orchestrator_init c message code retryable details =
     \<lparr>e_class = c, e_raw_message = message, e_message = sanitize_message message [],
      e_code = code, e_retryable = retryable, e_details = details\<rparr>"

definition mk_ValidationError :: "string \<Rightarrow> string \<Rightarrow> bool \<Rightarrow> dict \<Rightarrow> exc" where
  "mk_ValidationError message code retryable details =
     orchestrator_init ValidationError message code retryable details"

definition mk_ConfigurationError :: "string \<Rightarrow> string \<Rightarrow> bool \<Rightarrow> dict \<Rightarrow> exc" where
  "mk_ConfigurationError message code retryable details =
     orchestrator_init ConfigurationError message code retryable details"

definition provider_details :: "string \<Rightarrow> int option \<Rightarrow> dict \<Rightarrow> dict" where
  "provider_details provider_name status_code details =
     (let d = AList.update ''provider_name'' (PStr provider_name) details
      in case status_code of None \<Rightarrow> d | Some c \<Rightarrow> AList.update ''status_code'' (PInt c) d)"

definition mk_ProviderError ::
    "string \<Rightarrow> string \<Rightarrow> string \<Rightarrow> int option \<Rightarrow> bool \<Rightarrow> dict \<Rightarrow> exc" where
  "mk_ProviderError message provider_name code status_code retryable details =
     orchestrator_init ProviderError message code retryable
       (provider_details provider_name status_code details)"

definition mk_ProviderUnavailableError ::
    "string \<Rightarrow> string \<Rightarrow> int option \<Rightarrow> dict \<Rightarrow> exc" where
  "mk_ProviderUnavailableError message provider_name status_code details =
     orchestrator_init ProviderUnavailableError message ''PROVIDER_UNAVAILABLE'' True
       (provider_details provider_name status_code details)"

definition mk_ToolError :: "exc_class \<Rightarrow> string \<Rightarrow> string \<Rightarrow> string \<Rightarrow> bool \<Rightarrow> dict \<Rightarrow> exc" where
  "mk_ToolError c message tool_name code retryable details =
     orchestrator_init c message code retryable
       (AList.update ''tool_name'' (PStr tool_name) details)"

definition mk_ToolNotFoundError :: "string \<Rightarrow> dict \<Rightarrow> exc" where
  "mk_ToolNotFoundError tool_name details =
     mk_ToolError ToolNotFoundError
       (''Tool '' @ [CHR 0x27] @ tool_name @ [CHR 0x27] @ '' is not registered in the tool registry.'')
       tool_name ''TOOL_NOT_FOUND'' False details"

definition mk_ToolExecutionError :: "string \<Rightarrow> string \<Rightarrow> bool \<Rightarrow> dict \<Rightarrow> exc" where
  "mk_ToolExecutionError message tool_name retryable details =
     mk_ToolError ToolExecutionError message tool_name ''TOOL_EXECUTION_ERROR'' retryable details"

definition mk_RetrievalError :: "string \<Rightarrow> string \<Rightarrow> bool \<Rightarrow> dict \<Rightarrow> exc" where
  "mk_RetrievalError message code retryable details =
     orchestrator_init RetrievalError message code retryable details"

definition mk_OrchestrationError :: "string \<Rightarrow> string \<Rightarrow> bool \<Rightarrow> dict \<Rightarrow> exc" where
  "mk_OrchestrationError message code retryable details =
     orchestrator_init OrchestrationError message code retryable details"

definition mk_TaskDependencyError :: "string \<Rightarrow> string list \<Rightarrow> dict \<Rightarrow> exc" where
  "mk_TaskDependencyError task_id unmet details =
     orchestrator_init TaskDependencyError
       (''Task '' @ [CHR 0x27] @ task_id @ [CHR 0x27] @ '' cannot execute. Unmet dependencies: ''
          @ py_repr (PList (map PStr unmet)))
       ''TASK_DEPENDENCY_ERROR'' False
       (AList.update ''unmet_dependencies'' (PList (map PStr unmet))
         (AList.update ''task_id'' (PStr task_id) details))"

definition mk_TimeoutError :: "string \<Rightarrow> rat \<Rightarrow> string \<Rightarrow> bool \<Rightarrow> dict \<Rightarrow> exc" where
  "mk_TimeoutError message timeout_seconds code retryable details =
     orchestrator_init TimeoutError message code retryable
       (AList.update ''timeout_seconds'' (PFloat timeout_seconds) details)"

definition mk_HumanInterventionRequired :: "string \<Rightarrow> string \<Rightarrow> dict \<Rightarrow> exc" where
  "mk_HumanInterventionRequired reason request_id details =
     orchestrator_init HumanInterventionRequired
       (''Human intervention required for request '' @ [CHR 0x27] @ request_id @ [CHR 0x27]
          @ '': '' @ reason)
       ''HUMAN_INTERVENTION_REQUIRED'' False
       (AList.update ''request_id'' (PStr request_id) details)"

definition mk_AuthenticationError :: "string \<Rightarrow> string \<Rightarrow> dict \<Rightarrow> exc" where
  "mk_AuthenticationError message code details =
     orchestrator_init AuthenticationError message code False details"

definition mk_AuthorizationError :: "string \<Rightarrow> string \<Rightarrow> dict \<Rightarrow> exc" where
  "mk_AuthorizationError message code details =
     orchestrator_init AuthorizationError message code False details"

definition mk_IdempotencyConflictError :: exc where
  "mk_IdempotencyConflictError =
     orchestrator_init IdempotencyConflictError
       ''Idempotency key already used with a different request payload.''
       ''IDEMPOTENCY_CONFLICT'' False []"

text \<open>An exception of another class: only its class name and its text matter.\<close>

definition mk_Foreign :: "string \<Rightarrow> string \<Rightarrow> exc" where
  "mk_Foreign name message =
     \<lparr>e_class = Foreign name, e_raw_message = message, e_message = message,
      e_code = [], e_retryable = False, e_details = []\<rparr>"

text \<open>The error of the validation library for a field that breaks its constraint.\<close>

definition validation_failure :: "string \<Rightarrow> exc" where
  "validation_failure field = mk_Foreign ''ValidationError'' field"

text \<open>Iterating over a value.\<close>

definition py_iter :: "pyval \<Rightarrow> exc + pyval list" where
  "py_iter v =
     (case v of
        PList vs \<Rightarrow> Inr vs
      | PDict d \<Rightarrow> Inr (map PStr (dkeys d))
      | PStr s \<Rightarrow> Inr (map (\<lambda>c. PStr [c]) s)
      | _ \<Rightarrow> Inl (mk_Foreign ''TypeError'' ''object is not iterable''))"

text \<open>\<open>to_dict\<close>; \<open>class_name\<close> is \<open>self.__class__.__name__\<close>.\<close>

fun class_name :: "exc_class \<Rightarrow> string" where
  "class_name OrchestratorError = ''OrchestratorError''"
| "class_name ValidationError = ''ValidationError''"
| "class_name ConfigurationError = ''ConfigurationError''"
| "class_name ProviderError = ''ProviderError''"
| "class_name ProviderUnavailableError = ''ProviderUnavailableError''"
| "class_name ToolError = ''ToolError''"
| "class_name ToolNotFoundError = ''ToolNotFoundError''"
| "class_name ToolExecutionError = ''ToolExecutionError''"
| "class_name RetrievalError = ''RetrievalError''"
| "class_name OrchestrationError = ''OrchestrationError''"
| "class_name TaskDependencyError = ''TaskDependencyError''"
| "class_name TimeoutError = ''TimeoutError''"
| "class_name HumanInterventionRequired = ''HumanInterventionRequired''"
| "class_name AuthenticationError = ''AuthenticationError''"
| "class_name AuthorizationError = ''AuthorizationError''"
| "class_name IdempotencyConflictError = ''IdempotencyConflictError''"
| "class_name (Foreign n) = n"

definition exc_to_dict :: "exc \<Rightarrow> dict" where
  "exc_to_dict e =
     [(''error_type'', PStr (class_name (e_class e))),
      (''code'', PStr (e_code e)),
      (''message'', PStr (e_message e)),
      (''retryable'', PBool (e_retryable e)),
      (''details'', PDict (e_details e))]"

section \<open>Facts\<close>

lemma sanitize_none [simp]: "sanitize_message m [] = m"
  by (simp add: sanitize_message_def)

lemmas exc_defs =
  orchestrator_init_def mk_ValidationError_def mk_ConfigurationError_def mk_ProviderError_def
  mk_ProviderUnavailableError_def mk_ToolError_def mk_ToolNotFoundError_def
  mk_ToolExecutionError_def mk_RetrievalError_def mk_OrchestrationError_def
  mk_TaskDependencyError_def mk_TimeoutError_def mk_HumanInterventionRequired_def
  mk_AuthenticationError_def mk_AuthorizationError_def mk_IdempotencyConflictError_def
  mk_Foreign_def

lemma isinstance_refl [simp]: "e_class e = c \<Longrightarrow> isinstance e c"
  by (simp add: isinstance_def subclass_of.simps)

text \<open>The classes below one class, computed from the hierarchy.\<close>

lemma subclass_of_ProviderError:
  "subclass_of c ProviderError \<longleftrightarrow> c = ProviderError \<or> c = ProviderUnavailableError"
  by (cases c) (simp_all add: subclass_of.simps)

lemma subclass_of_leaf:
  "subclass_of c ProviderUnavailableError \<longleftrightarrow> c = ProviderUnavailableError"
  "subclass_of c TimeoutError \<longleftrightarrow> c = TimeoutError"
  "subclass_of c ToolNotFoundError \<longleftrightarrow> c = ToolNotFoundError"
  "subclass_of c ToolExecutionError \<longleftrightarrow> c = ToolExecutionError"
  "subclass_of c ValidationError \<longleftrightarrow> c = ValidationError"
  "subclass_of c AuthenticationError \<longleftrightarrow> c = AuthenticationError"
  by (cases c; simp add: subclass_of.simps)+

lemma subclass_of_OrchestratorError:
  "subclass_of c OrchestratorError \<longleftrightarrow> (\<forall>n. c \<noteq> Foreign n)"
  by (cases c) (simp_all add: subclass_of.simps)

lemmas isinstance_simps =
  isinstance_def subclass_of_leaf subclass_of_ProviderError subclass_of_OrchestratorError

end
