(* ===== verification/Access_Control.thy ===== *)
theory Access_Control
  imports Errors
begin

text \<open>
  Role based access control (\<open>security/models.py\<close>, \<open>security/authorizers.py\<close>): roles,
  permissions, the permission matrix, verified identities and the three authorization
  dependencies. Python sets of roles and permissions are sets; where the code iterates over a set
  of roles, the order is the order of declaration, which the instance of \<open>linorder\<close> fixes.
\<close>

section \<open>Roles and permissions (security/models.py)\<close>

datatype Role = ADMIN | OPERATOR | REVIEWER | VIEWER

datatype Permission =
    RUNS_CREATE | RUNS_READ | RUNS_CANCEL | RUNS_DELETE | RUNS_STREAM
  | HITL_READ | HITL_APPROVE | HITL_REJECT | HITL_MODIFY
  | METRICS_READ | AUDIT_READ

fun role_value :: "Role \<Rightarrow> string" where
  "role_value ADMIN = ''admin''"
| "role_value OPERATOR = ''operator''"
| "role_value REVIEWER = ''reviewer''"
| "role_value VIEWER = ''viewer''"

fun permission_value :: "Permission \<Rightarrow> string" where
  "permission_value RUNS_CREATE = ''runs:create''"
| "permission_value RUNS_READ = ''runs:read''"
| "permission_value RUNS_CANCEL = ''runs:cancel''"
| "permission_value RUNS_DELETE = ''runs:delete''"
| "permission_value RUNS_STREAM = ''runs:stream''"
| "permission_value HITL_READ = ''hitl:read''"
| "permission_value HITL_APPROVE = ''hitl:approve''"
| "permission_value HITL_REJECT = ''hitl:reject''"
| "permission_value HITL_MODIFY = ''hitl:modify''"
| "permission_value METRICS_READ = ''metrics:read''"
| "permission_value AUDIT_READ = ''audit:read''"

text \<open>\<open>Role(s)\<close>: the member with value \<open>s\<close>, or \<open>ValueError\<close> (\<open>None\<close>).\<close>

definition all_roles :: "Role list" where
  "all_roles = [ADMIN, OPERATOR, REVIEWER, VIEWER]"

definition Role_of :: "string \<Rightarrow> Role option" where
  "Role_of s = find (\<lambda>r. role_value r = s) all_roles"

fun role_rank :: "Role \<Rightarrow> nat" where
  "role_rank ADMIN = 0"
| "role_rank OPERATOR = 1"
| "role_rank REVIEWER = 2"
| "role_rank VIEWER = 3"

lemma role_rank_inject: "role_rank r = role_rank q \<Longrightarrow> r = q"
  by (cases r; cases q) auto

instantiation Role :: linorder
begin

definition less_eq_Role :: "Role \<Rightarrow> Role \<Rightarrow> bool" where
  "less_eq_Role r q \<longleftrightarrow> role_rank r \<le> role_rank q"

definition less_Role :: "Role \<Rightarrow> Role \<Rightarrow> bool" where
  "less_Role r q \<longleftrightarrow> role_rank r < role_rank q"

instance
  by standard (auto simp: less_eq_Role_def less_Role_def dest: role_rank_inject)

end

fun ROLE_PERMISSIONS :: "Role \<Rightarrow> Permission set" where
  "ROLE_PERMISSIONS ADMIN =
     {RUNS_CREATE, RUNS_READ, RUNS_CANCEL, RUNS_DELETE, RUNS_STREAM, HITL_READ, HITL_APPROVE,
      HITL_REJECT, HITL_MODIFY, METRICS_READ, AUDIT_READ}"
| "ROLE_PERMISSIONS OPERATOR =
     {RUNS_CREATE, RUNS_READ, RUNS_CANCEL, RUNS_STREAM, HITL_READ, HITL_APPROVE, HITL_REJECT,
      HITL_MODIFY, METRICS_READ}"
| "ROLE_PERMISSIONS REVIEWER =
     {RUNS_READ, RUNS_STREAM, HITL_READ, HITL_APPROVE, HITL_REJECT, HITL_MODIFY}"
| "ROLE_PERMISSIONS VIEWER = {RUNS_READ, RUNS_STREAM, HITL_READ, METRICS_READ}"

section \<open>Identities\<close>

record AuthenticatedIdentity =
  id_subject_id :: string
  id_username :: string
  id_roles :: "Role set"
  id_permissions :: "Permission set"
  id_auth_method :: string
  id_is_authenticated :: bool
  id_metadata :: dict

definition has_permission :: "AuthenticatedIdentity \<Rightarrow> Permission \<Rightarrow> bool" where
  "has_permission i p \<longleftrightarrow>
     (if p \<in> id_permissions i then True
      else (\<exists>role\<in>id_roles i. p \<in> ROLE_PERMISSIONS role))"

definition has_role :: "AuthenticatedIdentity \<Rightarrow> Role \<Rightarrow> bool" where
  "has_role i r \<longleftrightarrow> r \<in> id_roles i"

section \<open>Authorization dependencies (security/authorizers.py)\<close>

text \<open>\<open>[r.value for r in identity.roles]\<close>.\<close>

definition role_names :: "AuthenticatedIdentity \<Rightarrow> pyval" where
  "role_names i = PList (map (PStr \<circ> role_value) (sorted_list_of_set (id_roles i)))"

definition require_authenticated_user ::
    "AuthenticatedIdentity option \<Rightarrow> exc + AuthenticatedIdentity" where
  "require_authenticated_user identity =
     (case identity of
        None \<Rightarrow> Inl (mk_AuthorizationError ''Forbidden: Unverified principal.'' ''FORBIDDEN'' [])
      | Some i \<Rightarrow>
          if id_is_authenticated i then Inr i
          else Inl (mk_AuthorizationError ''Forbidden: Unverified principal.'' ''FORBIDDEN'' []))"

definition lacks_permission :: "AuthenticatedIdentity \<Rightarrow> Permission \<Rightarrow> string \<Rightarrow> exc" where
  "lacks_permission i p suffix =
     mk_AuthorizationError
       (''Forbidden: Principal lacks required permission '' @ [CHR 0x27] @ permission_value p
          @ [CHR 0x27] @ suffix)
       ''FORBIDDEN'' [(''required_permission'', PStr (permission_value p)), (''roles'', role_names i)]"

definition require_permission ::
    "Permission \<Rightarrow> AuthenticatedIdentity \<Rightarrow> exc + AuthenticatedIdentity" where
  "require_permission p i =
     (if \<not> has_permission i p then Inl (lacks_permission i p ''.'') else Inr i)"

definition require_role :: "Role \<Rightarrow> AuthenticatedIdentity \<Rightarrow> exc + AuthenticatedIdentity" where
  "require_role r i =
     (if \<not> has_role i r
      then Inl (mk_AuthorizationError
        (''Forbidden: Principal lacks required role '' @ [CHR 0x27] @ role_value r @ [CHR 0x27] @ ''.'')
        ''FORBIDDEN'' [(''required_role'', PStr (role_value r)), (''roles'', role_names i)])
      else Inr i)"

section \<open>Facts\<close>

lemma Role_of_value [simp]: "Role_of (role_value r) = Some r"
  by (cases r) (simp_all add: Role_of_def all_roles_def)

lemma Role_of_SomeD: "Role_of s = Some r \<Longrightarrow> s = role_value r"
  by (auto simp: Role_of_def dest: find_SomeD)

lemma require_permission_Inr: "require_permission p i = Inr j \<longleftrightarrow> j = i \<and> has_permission i p"
  by (auto simp: require_permission_def)

lemma require_permission_Inl:
  "require_permission p i = Inl e \<longleftrightarrow> \<not> has_permission i p \<and> e = lacks_permission i p ''.''"
  by (auto simp: require_permission_def)

text \<open>
  Identities made by an authenticator: the explicit permissions are exactly those of the roles,
  so the fall-back over the roles in \<open>has_permission\<close> adds nothing.
\<close>

definition permissions_of :: "Role set \<Rightarrow> Permission set" where
  "permissions_of rs = (\<Union>r\<in>rs. ROLE_PERMISSIONS r)"

definition well_granted :: "AuthenticatedIdentity \<Rightarrow> bool" where
  "well_granted i \<longleftrightarrow>
     id_is_authenticated i \<and> id_subject_id i \<noteq> [] \<and> id_roles i \<noteq> {}
     \<and> id_permissions i = permissions_of (id_roles i)"

lemma has_permission_well_granted:
  "well_granted i \<Longrightarrow> has_permission i p \<longleftrightarrow> (\<exists>r\<in>id_roles i. p \<in> ROLE_PERMISSIONS r)"
  by (auto simp: well_granted_def has_permission_def permissions_of_def)

lemma permissions_of_simps [simp]:
  "permissions_of {} = {}" "permissions_of (insert r rs) = ROLE_PERMISSIONS r \<union> permissions_of rs"
  by (simp_all add: permissions_of_def)

text \<open>
  The matrix: permissions only grow from reviewer to operator to administrator and from viewer to
  operator; deleting runs and reading the audit log are the administrator's alone.
\<close>

lemma matrix_monotone:
  "ROLE_PERMISSIONS REVIEWER \<subseteq> ROLE_PERMISSIONS OPERATOR"
  "ROLE_PERMISSIONS VIEWER \<subseteq> ROLE_PERMISSIONS OPERATOR"
  "ROLE_PERMISSIONS OPERATOR \<subseteq> ROLE_PERMISSIONS ADMIN"
  by auto

lemma admin_all: "p \<in> ROLE_PERMISSIONS ADMIN"
  by (cases p) auto

lemma admin_only: "p \<in> {RUNS_DELETE, AUDIT_READ} \<Longrightarrow> p \<in> ROLE_PERMISSIONS r \<longleftrightarrow> r = ADMIN"
  by (cases r) auto

lemma everyone_reads: "{RUNS_READ, RUNS_STREAM, HITL_READ} \<subseteq> ROLE_PERMISSIONS r"
  by (cases r) auto

end
