(* ===== verification/Py_Text.thy ===== *)
theory Py_Text
  imports PyValue
begin

text \<open>
  More of Python's text functions: \<open>split\<close> in its three uses, iteration over a value, \<open>int(text)\<close>
  and \<open>bool\<close>-like flags. As in the prelude, text is ASCII.
\<close>

section \<open>Splitting\<close>

text \<open>\<open>s.split(maxsplit=1)\<close>: at most two parts, separated by the first run of white space.\<close>

definition split_words2 :: "string \<Rightarrow> string list" where
  "split_words2 s =
     (let s1 = dropWhile py_space s;
          w = takeWhile (\<lambda>c. \<not> py_space c) s1;
          rest = dropWhile py_space (dropWhile (\<lambda>c. \<not> py_space c) s1)
      in if s1 = [] then [] else if rest = [] then [w] else [w, rest])"

text \<open>\<open>s.split(c)\<close> for a single character.\<close>

fun split_on :: "'a \<Rightarrow> 'a list \<Rightarrow> 'a list list" where
  "split_on c [] = [[]]"
| "split_on c (x # xs) =
     (if x = c then [] # split_on c xs
      else case split_on c xs of [] \<Rightarrow> [[x]] | y # ys \<Rightarrow> (x # y) # ys)"

lemma split_on_nonempty [simp]: "split_on c s \<noteq> []"
  by (induction s) (auto split: list.split)

lemma split_on_absent: "c \<notin> set s \<Longrightarrow> split_on c s = [s]"
  by (induction s) auto

lemma split_on_append:
  "c \<notin> set s \<Longrightarrow> split_on c (s @ c # t) = s # split_on c t"
  by (induction s) auto

lemma split_join:
  assumes "\<forall>s\<in>set ss. c \<notin> set s" "ss \<noteq> []"
  shows "split_on c (join_with [c] ss) = ss"
  using assms
proof (induction "[c]" ss rule: join_with.induct)
  case (3 x y ys)
  then show ?case using split_on_append[of c x] by simp
qed (auto simp: split_on_absent)

text \<open>A text of lines, each with its end.\<close>

lemma split_on_lines:
  assumes "\<forall>l\<in>set ls. c \<notin> set l"
  shows "split_on c (concat (map (\<lambda>l. l @ [c]) ls)) = ls @ [[]]"
  using assms by (induction ls) (simp_all add: split_on_append)

section \<open>Numbers\<close>

definition is_digit :: "char \<Rightarrow> bool" where
  "is_digit c \<longleftrightarrow> (let n = of_char c :: nat in 48 \<le> n \<and> n \<le> 57)"

text \<open>
  The digits of an \<open>int\<close> literal: single underscores may stand between digits. \<open>None\<close> is
  \<open>ValueError\<close>; \<open>prev\<close> tells whether the character before was a digit.
\<close>

fun read_digits :: "bool \<Rightarrow> nat \<Rightarrow> string \<Rightarrow> nat option" where
  "read_digits prev n [] = (if prev then Some n else None)"
| "read_digits prev n (c # cs) =
     (if is_digit c then read_digits True (10 * n + (of_char c - 48)) cs
      else if c = CHR ''_'' \<and> prev then read_digits False n cs
      else None)"

definition py_int :: "string \<Rightarrow> int option" where
  "py_int s =
     (case py_strip s of
        [] \<Rightarrow> None
      | c # cs \<Rightarrow>
          if c = CHR ''-'' then map_option (\<lambda>n. - int n) (read_digits False 0 cs)
          else if c = CHR ''+'' then map_option int (read_digits False 0 cs)
          else map_option int (read_digits False 0 (c # cs)))"

lemma show_nat_digits: "c \<in> set (show_nat n) \<Longrightarrow> is_digit c"
proof (induction n rule: show_nat.induct)
  case (1 n)
  have "is_digit (char_of (48 + k))" if "k < 10" for k :: nat
    using that by (simp add: is_digit_def Let_def of_char_of)
  then show ?case using 1 by (subst (asm) show_nat.simps) (auto split: if_splits)
qed

lemma read_digits_append:
  "\<forall>c\<in>set s. is_digit c \<Longrightarrow> s \<noteq> [] \<Longrightarrow>
   read_digits prev n (s @ t) = read_digits True (foldl (\<lambda>n c. 10 * n + (of_char c - 48)) n s) t"
proof (induction s arbitrary: n prev)
  case (Cons c s)
  then show ?case by (cases "s = []") auto
qed simp

text \<open>\<open>int(str(n)) == n\<close>.\<close>

lemma py_int_show_nat: "py_int (show_nat n) = Some (int n)"
proof -
  obtain c cs where s: "show_nat n = c # cs" by (metis list.exhaust show_nat_nonempty)
  have digits: "is_digit d" if "d \<in> set (c # cs)" for d
    using that s show_nat_digits by metis
  have nospace: "\<not> py_space d" if "d \<in> set (c # cs)" for d
    using digits[OF that] by (auto simp: py_space_def is_digit_def Let_def)
  have strip: "py_strip (c # cs) = c # cs"
  proof -
    have "dropWhile py_space (rev (c # cs)) = rev (c # cs)"
      using nospace by (metis dropWhile_eq_self_iff hd_in_set rev_is_Nil_conv set_rev)
    moreover have "dropWhile py_space (c # cs) = c # cs" using nospace by simp
    ultimately show ?thesis by (simp only: py_strip_def rev_rev_ident)
  qed
  have sign: "c \<noteq> CHR ''-''" "c \<noteq> CHR ''+''"
    using digits[of c] by (auto simp: is_digit_def Let_def)
  have "read_digits False 0 (c # cs) = Some n"
    using read_digits_append[of "c # cs" False 0 "[]"] digits read_show_nat[of n]
    by (simp add: s read_nat_def)
  then show ?thesis unfolding s by (simp add: py_int_def strip sign)
qed

text \<open>\<open>text.lower() in ("true", "1", "yes")\<close>.\<close>

definition env_flag :: "string \<Rightarrow> bool" where
  "env_flag s \<longleftrightarrow> py_lower s \<in> {''true'', ''1'', ''yes''}"

end
