(* ===== verification/Authenticators.thy ===== *)
theory Authenticators
  imports Access_Control Py_Text
begin

text \<open>
  The authentication providers of \<open>security/authenticators.py\<close>. A request is its header look-up;
  an authenticator maps it to an identity or raises. SHA-256 and the decoder of JSON web tokens
  are arguments.
\<close>

type_synonym headers = "string \<Rightarrow> string option"
type_synonym authenticator = "headers \<Rightarrow> exc + AuthenticatedIdentity"

definition auth_error :: "string \<Rightarrow> string \<Rightarrow> exc" where
  "auth_error message code = mk_AuthenticationError message code []"

text \<open>
  \<open>AuthenticatedIdentity(...)\<close>: the validation library wants text for the two names, not empty
  for the first.
\<close>

definition new_identity ::
    "pyval \<Rightarrow> pyval \<Rightarrow> Role set \<Rightarrow> Permission set \<Rightarrow> string \<Rightarrow> dict \<Rightarrow> exc + AuthenticatedIdentity" where
  "new_identity subject_id username roles permissions auth_method metadata =
     (case subject_id of
        PStr sub \<Rightarrow>
          if sub = [] then Inl (validation_failure ''subject_id'')
          else (case username of
                  PStr u \<Rightarrow> Inr \<lparr>id_subject_id = sub, id_username = u, id_roles = roles,
                                id_permissions = permissions, id_auth_method = auth_method,
                                id_is_authenticated = True, id_metadata = metadata\<rparr>
                | _ \<Rightarrow> Inl (validation_failure ''username''))
      | _ \<Rightarrow> Inl (validation_failure ''subject_id''))"

text \<open>\<open>for r in raw_roles: try: roles.add(Role(f(r))) except ValueError: continue\<close>.\<close>

definition roles_among :: "(string \<Rightarrow> string) \<Rightarrow> pyval list \<Rightarrow> Role set" where
  "roles_among f vs = set (List.map_filter (\<lambda>v. Role_of (f (py_str v))) vs)"

definition or_viewer :: "Role set \<Rightarrow> Role set" where
  "or_viewer rs = (if rs = {} then {VIEWER} else rs)"

section \<open>Hashed API keys\<close>

record HashedAPIKeyAuthenticator =
  ak_api_key_hashes :: "(string \<times> pyval) list"
  ak_header_name :: string

definition new_api_key_authenticator :: "dict \<Rightarrow> string \<Rightarrow> HashedAPIKeyAuthenticator" where
  "new_api_key_authenticator api_key_hashes header_name =
     \<lparr>ak_api_key_hashes = dict_update [] (map (\<lambda>(k, v). (py_strip (py_lower k), v)) api_key_hashes),
      ak_header_name = header_name\<rparr>"

definition api_key_scheme :: "string \<Rightarrow> bool" where
  "api_key_scheme s \<longleftrightarrow> py_lower s \<in> {''apikey'', ''api-key''}"

definition extract_raw_key :: "HashedAPIKeyAuthenticator \<Rightarrow> headers \<Rightarrow> exc + string option" where
  "extract_raw_key a h =
     (case h (ak_header_name a) of
        Some header_val \<Rightarrow>
          (let val = py_strip header_val in
           if val = [] then Inl (auth_error ''Missing API Key header.'' ''MISSING_CREDENTIALS'')
           else Inr (Some val))
      | None \<Rightarrow>
          (case h ''Authorization'' of
             None \<Rightarrow> Inr None
           | Some auth_header \<Rightarrow>
               (case split_words2 (py_strip auth_header) of
                  [scheme, rest] \<Rightarrow>
                    if api_key_scheme scheme then
                      let val = py_strip rest in
                      if val = [] then Inl (auth_error ''Missing API Key header.'' ''MISSING_CREDENTIALS'')
                      else Inr (Some val)
                    else Inl (auth_error ''Malformed or unrecognized Authorization scheme for API key.''
                           ''AUTHENTICATION_FAILED'')
                | [scheme] \<Rightarrow>
                    if api_key_scheme scheme then
                      Inl (auth_error ''Missing API Key credential in Authorization header.''
                        ''MISSING_CREDENTIALS'')
                    else Inl (auth_error ''Malformed or unrecognized Authorization scheme for API key.''
                           ''AUTHENTICATION_FAILED'')
                | _ \<Rightarrow> Inl (auth_error ''Malformed or unrecognized Authorization scheme for API key.''
                         ''AUTHENTICATION_FAILED''))))"

text \<open>The identity a matched entry \<open>(hash, value)\<close> of the configuration stands for.\<close>

definition api_key_identity :: "string \<Rightarrow> pyval \<Rightarrow> exc + AuthenticatedIdentity" where
  "api_key_identity stored_hash matched_val =
     (let prefix = take 8 stored_hash;
          subject_id = PStr (''apikey_'' @ prefix);
          username = PStr (''apikey_user_'' @ prefix);
          finish = (\<lambda>sub user roles.
            let rs = or_viewer roles in new_identity sub user rs (permissions_of rs) ''api_key'' [])
      in case matched_val of
           PStr s \<Rightarrow>
             let name = py_strip (py_lower s) in
             finish subject_id (PStr (''apikey_'' @ name))
               (case Role_of name of Some r \<Rightarrow> {r} | None \<Rightarrow> {VIEWER})
         | PDict d \<Rightarrow>
             (let raw = dget d ''roles'' (PList [PStr ''VIEWER'']);
                  raw' = (case raw of PStr s \<Rightarrow> PList [raw] | _ \<Rightarrow> raw)
              in case py_iter raw' of
                   Inl e \<Rightarrow> Inl e
                 | Inr vs \<Rightarrow> finish (dget d ''subject_id'' subject_id) (dget d ''username'' username)
                              (roles_among (py_strip \<circ> py_lower) vs))
         | _ \<Rightarrow> finish subject_id username {})"

definition authenticate_api_key ::
    "(string \<Rightarrow> string) \<Rightarrow> HashedAPIKeyAuthenticator \<Rightarrow> authenticator" where
  "authenticate_api_key sha256_hex a h =
     (case extract_raw_key a h of
        Inl e \<Rightarrow> Inl e
      | Inr None \<Rightarrow> Inl (auth_error ''Missing API Key credentials.'' ''MISSING_CREDENTIALS'')
      | Inr (Some raw_key) \<Rightarrow>
          (let incoming_hash = py_lower (sha256_hex raw_key) in
           case find (\<lambda>(stored, v). stored = incoming_hash) (ak_api_key_hashes a) of
             None \<Rightarrow> Inl (auth_error ''Invalid or unrecognized API Key.'' ''AUTHENTICATION_FAILED'')
           | Some (stored, v) \<Rightarrow>
               if v = PNone
               then Inl (auth_error ''Invalid or unrecognized API Key.'' ''AUTHENTICATION_FAILED'')
               else api_key_identity stored v))"

section \<open>Bearer tokens\<close>

text \<open>The failures of the token library that the code tells apart, in the order of its handlers.\<close>

datatype jwt_error =
    ExpiredSignatureError
  | InvalidAlgorithmError
  | MissingRequiredClaimError string
  | PyJWTError string

type_synonym jwt_decoder = "string \<Rightarrow> string \<Rightarrow> string list \<Rightarrow> jwt_error + dict"

record BearerTokenAuthenticator =
  bt_secret_key :: string
  bt_algorithm :: string
  bt_allowed_algorithms :: "string list"

definition new_bearer_authenticator ::
    "string option \<Rightarrow> string \<Rightarrow> string list option \<Rightarrow> exc + BearerTokenAuthenticator" where
  "new_bearer_authenticator secret_key algorithm allowed =
     (case secret_key of
        None \<Rightarrow> Inl (mk_ConfigurationError
          ''BearerTokenAuthenticator requires a non-empty JWT secret key.'' ''CONFIGURATION_ERROR'' False [])
      | Some k \<Rightarrow>
          if py_strip k = [] then Inl (mk_ConfigurationError
            ''BearerTokenAuthenticator requires a non-empty JWT secret key.'' ''CONFIGURATION_ERROR'' False [])
          else Inr \<lparr>bt_secret_key = k, bt_algorithm = algorithm,
                    bt_allowed_algorithms = (case allowed of
                        None \<Rightarrow> [algorithm] | Some as \<Rightarrow> if as = [] then [algorithm] else as)\<rparr>)"

definition extract_token :: "headers \<Rightarrow> exc + string option" where
  "extract_token h =
     (case h ''Authorization'' of
        None \<Rightarrow> Inr None
      | Some auth_header \<Rightarrow>
          if auth_header = [] then Inr None
          else (case split_words2 (py_strip auth_header) of
                  [scheme, rest] \<Rightarrow>
                    if py_lower scheme = ''bearer'' then Inr (Some (py_strip rest)) else Inr None
                | [scheme] \<Rightarrow>
                    if py_lower scheme = ''bearer''
                    then Inl (auth_error ''Missing Bearer token credential in Authorization header.''
                           ''MISSING_CREDENTIALS'')
                    else Inr None
                | _ \<Rightarrow> Inr None))"

definition jwt_failure :: "jwt_error \<Rightarrow> exc" where
  "jwt_failure e =
     (case e of
        ExpiredSignatureError \<Rightarrow> auth_error ''Bearer token has expired.'' ''TOKEN_EXPIRED''
      | InvalidAlgorithmError \<Rightarrow>
          auth_error ''Unsupported or unallowed token signing algorithm.'' ''INVALID_TOKEN''
      | MissingRequiredClaimError m \<Rightarrow>
          auth_error (''Bearer token missing required claim: '' @ m) ''INVALID_CLAIMS''
      | PyJWTError m \<Rightarrow> auth_error (''Invalid Bearer token: '' @ m) ''INVALID_TOKEN'')"

text \<open>\<open>x or y\<close> on values.\<close>

definition py_or :: "pyval \<Rightarrow> pyval \<Rightarrow> pyval" where
  "py_or x y = (if truthy x then x else y)"

definition token_identity :: "dict \<Rightarrow> exc + AuthenticatedIdentity" where
  "token_identity payload =
     (let sub = dget payload ''sub'' PNone in
      if \<not> truthy sub then Inl (auth_error (''Bearer token missing '' @ [CHR 0x27] @ ''sub'' @ [CHR 0x27] @ '' claim.'') ''INVALID_CLAIMS'')
      else
        let subject = PStr (py_str sub);
            username = PStr (py_str (py_or (py_or (dget payload ''name'' PNone)
                                                  (dget payload ''username'' PNone)) subject));
            raw = dget payload ''roles'' (PList [PStr ''viewer'']);
            raw' = (case raw of PStr s \<Rightarrow> PList [raw] | _ \<Rightarrow> raw)
        in case py_iter raw' of
             Inl e \<Rightarrow> Inl e
           | Inr vs \<Rightarrow>
               let rs = or_viewer (roles_among py_lower vs) in
               new_identity subject username rs (permissions_of rs) ''bearer_token''
                 [(''claims'', PDict (filter (\<lambda>(k, v). k \<notin> {''sub'', ''roles''}) payload))])"

text \<open>\<open>None\<close> for the decoder: the package is not installed.\<close>

definition authenticate_bearer ::
    "jwt_decoder option \<Rightarrow> BearerTokenAuthenticator \<Rightarrow> authenticator" where
  "authenticate_bearer jwt a h =
     (case extract_token h of
        Inl e \<Rightarrow> Inl e
      | Inr token \<Rightarrow>
          if \<not> opt_truthy token
          then Inl (auth_error ''Missing Bearer token in Authorization header.'' ''MISSING_CREDENTIALS'')
          else (case jwt of
                  None \<Rightarrow> Inl (mk_ConfigurationError
                    (''PyJWT is required for Bearer token verification. Install with '' @ [CHR 0x27]
                       @ ''pip install pyjwt'' @ [CHR 0x27] @ ''.'') ''CONFIGURATION_ERROR'' False [])
                | Some decode \<Rightarrow>
                    (case decode (str_or token []) (bt_secret_key a) (bt_allowed_algorithms a) of
                       Inl e \<Rightarrow> Inl (jwt_failure e)
                     | Inr payload \<Rightarrow> token_identity payload)))"

section \<open>Development bypass\<close>

definition new_dev_bypass :: "string \<Rightarrow> exc + string" where
  "new_dev_bypass environment =
     (if environment = ''production''
      then Inl (mk_ConfigurationError
        ''DevelopmentBypassAuthenticator cannot be used in a production environment.''
        ''CONFIGURATION_ERROR'' False [])
      else Inr environment)"

definition authenticate_dev :: authenticator where
  "authenticate_dev h =
     new_identity (PStr ''dev-admin'') (PStr ''development_administrator'') {ADMIN}
       (ROLE_PERMISSIONS ADMIN) ''development_bypass'' []"

section \<open>Several authenticators in turn\<close>

text \<open>
  The loop of \<open>CompositeAuthenticator.authenticate\<close>; \<open>last_error\<close> is the exception to raise when
  no authenticator succeeds. Only \<open>AuthenticationError\<close> is caught.
\<close>

fun composite_loop :: "authenticator list \<Rightarrow> exc \<Rightarrow> authenticator" where
  "composite_loop [] last_error h = Inl last_error"
| "composite_loop (auth # auths) last_error h =
     (case auth h of
        Inr identity \<Rightarrow>
          if id_is_authenticated identity then Inr identity else composite_loop auths last_error h
      | Inl e \<Rightarrow>
          if isinstance e AuthenticationError
          then composite_loop auths (if e_code e \<noteq> ''MISSING_CREDENTIALS'' then e else last_error) h
          else Inl e)"

definition authenticate_composite :: "authenticator list \<Rightarrow> authenticator" where
  "authenticate_composite auths h =
     (if auths = [] then Inl (auth_error ''No authenticators configured.'' ''CONFIGURATION_ERROR'')
      else composite_loop auths
             (auth_error ''Missing authentication credentials.'' ''MISSING_CREDENTIALS'') h)"

section \<open>The test authenticator\<close>

definition TEST_KEYS :: "(string \<times> Role) list" where
  "TEST_KEYS =
     [(''test-key-admin'', ADMIN), (''test-key-operator'', OPERATOR),
      (''test-key-reviewer'', REVIEWER), (''test-key-viewer'', VIEWER)]"

definition test_key :: "headers \<Rightarrow> string option" where
  "test_key h =
     (let key = h ''X-API-Key'' in
      if opt_truthy key then key
      else let auth_header = (case h ''Authorization'' of None \<Rightarrow> [] | Some a \<Rightarrow> a) in
        if starts_with ''Bearer test-token-'' auth_header
        then Some (py_replace ''Bearer test-token-'' ''test-key-'' auth_header)
        else if starts_with ''ApiKey '' auth_header
        then Some (drop 1 (dropWhile (\<lambda>c. c \<noteq> CHR '' '') auth_header))
        else key)"

definition authenticate_test :: authenticator where
  "authenticate_test h =
     (let test_subject = h ''X-Test-Subject''; test_roles_raw = h ''X-Test-Roles'' in
      if opt_truthy test_subject \<or> opt_truthy test_roles_raw then
        let roles = (if opt_truthy test_roles_raw
              then set (List.map_filter (\<lambda>r. Role_of (py_lower (py_strip r)))
                          (split_on (CHR '','') (str_or test_roles_raw [])))
              else {});
            rs = (if roles = {} then {ADMIN} else roles)
        in new_identity (PStr (str_or test_subject ''test-runner''))
             (PStr (str_or test_subject ''test_runner'')) rs (permissions_of rs)
             ''test_authenticator'' []
      else case (case test_key h of None \<Rightarrow> None | Some k \<Rightarrow> map_of TEST_KEYS k) of
        Some role \<Rightarrow>
          new_identity (PStr (''test_'' @ role_value role)) (PStr (''test_'' @ role_value role @ ''_user''))
            {role} (ROLE_PERMISSIONS role) ''test_authenticator'' []
      | None \<Rightarrow>
          new_identity (PStr ''test-runner'') (PStr ''test_runner'') {ADMIN} (ROLE_PERMISSIONS ADMIN)
            ''test_authenticator'' [])"

section \<open>Facts\<close>

lemma new_identity_Inr:
  "new_identity sub user rs ps m d = Inr i \<longleftrightarrow>
     (\<exists>s u. sub = PStr s \<and> s \<noteq> [] \<and> user = PStr u
        \<and> i = \<lparr>id_subject_id = s, id_username = u, id_roles = rs, id_permissions = ps,
               id_auth_method = m, id_is_authenticated = True, id_metadata = d\<rparr>)"
  by (auto simp: new_identity_def split: pyval.splits)

lemma new_identity_well_granted:
  assumes "new_identity sub user rs ps m d = Inr i" "rs \<noteq> {}" "ps = permissions_of rs"
  shows "well_granted i \<and> id_roles i = rs"
  using assms by (auto simp: new_identity_Inr well_granted_def)

lemma or_viewer_nonempty [simp]: "or_viewer rs \<noteq> {}"
  by (simp add: or_viewer_def)

lemmas granted = new_identity_well_granted[OF _ _ refl, THEN conjunct1]

lemma api_key_identity_granted:
  assumes "api_key_identity stored v = Inr i"
  shows "well_granted i"
  using assms by (auto simp: api_key_identity_def Let_def split: pyval.splits sum.splits
      intro: granted[OF _ or_viewer_nonempty])

lemma token_identity_granted: "token_identity payload = Inr i \<Longrightarrow> well_granted i"
  by (auto simp: token_identity_def Let_def split: if_splits sum.splits
      intro: granted[OF _ or_viewer_nonempty])

lemma api_key_granted: "authenticate_api_key sha a h = Inr i \<Longrightarrow> well_granted i"
  by (auto simp: authenticate_api_key_def Let_def split: sum.splits option.splits if_splits
      dest: api_key_identity_granted)

lemma bearer_granted: "authenticate_bearer jwt a h = Inr i \<Longrightarrow> well_granted i"
  by (auto simp: authenticate_bearer_def split: sum.splits option.splits if_splits
      dest: token_identity_granted)

lemma dev_granted: "authenticate_dev h = Inr i \<Longrightarrow> well_granted i"
  unfolding authenticate_dev_def
  by (rule new_identity_well_granted[THEN conjunct1], assumption) simp_all

lemma test_granted: "authenticate_test h = Inr i \<Longrightarrow> well_granted i"
  unfolding authenticate_test_def Let_def
  by (auto split: if_splits option.splits
      elim!: new_identity_well_granted[THEN conjunct1])

text \<open>What a sequence of authenticators returns.\<close>

lemma composite_loop_Inr:
  "composite_loop auths e0 h = Inr i \<Longrightarrow> \<exists>a\<in>set auths. a h = Inr i \<and> id_is_authenticated i"
  by (induction auths arbitrary: e0) (auto split: sum.splits if_splits)

lemma composite_loop_first:
  assumes "\<forall>a\<in>set pre. \<exists>e. a h = Inl e \<and> isinstance e AuthenticationError"
    and "auth h = Inr i" "id_is_authenticated i"
  shows "composite_loop (pre @ auth # post) e0 h = Inr i"
  using assms by (induction pre arbitrary: e0) auto

lemma composite_loop_missing:
  assumes "composite_loop auths e0 h = Inl e" "e_code e0 = ''MISSING_CREDENTIALS''"
    and "e_code e = ''MISSING_CREDENTIALS''"
    and "\<forall>a\<in>set auths. \<forall>x. a h = Inl x \<longrightarrow> isinstance x AuthenticationError"
    and "a \<in> set auths" "a h = Inl x"
  shows "e_code x = ''MISSING_CREDENTIALS''"
proof -
  have keep: "e_code e \<noteq> ''MISSING_CREDENTIALS''"
    if "composite_loop as e1 h = Inl e" "e_code e1 \<noteq> ''MISSING_CREDENTIALS''"
      "\<forall>a\<in>set as. \<forall>x. a h = Inl x \<longrightarrow> isinstance x AuthenticationError" for as e1
    using that by (induction as arbitrary: e1) (auto split: sum.splits if_splits)
  show ?thesis using assms
  proof (induction auths arbitrary: e0)
    case (Cons b auths)
    show ?case
    proof (cases "b h")
      case (Inr j)
      then show ?thesis using Cons by (auto split: if_splits)
    next
      case (Inl y)
      then have y: "isinstance y AuthenticationError" using Cons.prems(4) by simp
      show ?thesis
      proof (cases "e_code y = ''MISSING_CREDENTIALS''")
        case True
        then have "composite_loop auths e0 h = Inl e" using Cons.prems(1) Inl y by simp
        then show ?thesis using Cons Inl True by (cases "a = b") auto
      next
        case False
        then have "composite_loop auths y h = Inl e" using Cons.prems(1) Inl y by simp
        then show ?thesis using keep[OF _ False] Cons.prems(3,4) by auto
      qed
    qed
  qed simp
qed

section \<open>Properties\<close>

definition providers :: "(string \<Rightarrow> string) \<Rightarrow> jwt_decoder option \<Rightarrow> authenticator set" where
  "providers sha256_hex jwt =
     range (authenticate_api_key sha256_hex) \<union> range (authenticate_bearer jwt)
     \<union> {authenticate_dev, authenticate_test}"

lemma providers_granted: "a \<in> providers sha jwt \<Longrightarrow> a h = Inr i \<Longrightarrow> well_granted i"
  unfolding providers_def
  by (auto dest: api_key_granted bearer_granted dev_granted test_granted)

text \<open>C13: whatever chain of authenticators admits a request, the identity is authenticated, has a
  subject and at least one role, and may do exactly what its roles allow in the permission matrix.\<close>

theorem admitted_identities_well_granted:
  assumes "set auths \<subseteq> providers sha256_hex jwt" "authenticate_composite auths h = Inr i"
  shows "id_is_authenticated i \<and> id_subject_id i \<noteq> [] \<and> id_roles i \<noteq> {}
    \<and> (\<forall>p. has_permission i p \<longleftrightarrow> (\<exists>r\<in>id_roles i. p \<in> ROLE_PERMISSIONS r))"
proof -
  obtain a where "a \<in> set auths" "a h = Inr i"
    using assms(2) composite_loop_Inr by (fastforce simp: authenticate_composite_def split: if_splits)
  then have g: "well_granted i" using assms(1) providers_granted by blast
  then show ?thesis using has_permission_well_granted[OF g] by (simp add: well_granted_def)
qed

definition no_headers :: headers where
  "no_headers = (\<lambda>_. None)"

theorem admitted_identities_well_granted_witness:
  "\<exists>i. authenticate_composite [authenticate_dev] no_headers = Inr i \<and> id_roles i \<noteq> {}
    \<and> (\<forall>p. has_permission i p \<longleftrightarrow> (\<exists>r\<in>id_roles i. p \<in> ROLE_PERMISSIONS r))"
proof -
  obtain i where i: "authenticate_composite [authenticate_dev] no_headers = Inr i"
    by (simp add: authenticate_composite_def authenticate_dev_def new_identity_def)
  have sub: "set [authenticate_dev] \<subseteq> providers id None" by (simp add: providers_def)
  from i admitted_identities_well_granted[OF sub i] show ?thesis by blast
qed

text \<open>C14: a chain of authenticators fails closed. Authenticators that fail before one succeeds are
  skipped; when none succeeds the request is refused with an authentication error, and it is
  reported as lacking credentials only if every authenticator that refused found none: a wrong
  credential is never reported as a missing one.\<close>

theorem composite_fails_closed:
  assumes "\<forall>a\<in>set auths. \<forall>e. a h = Inl e \<longrightarrow> isinstance e AuthenticationError"
  shows "(\<forall>pre auth post i. auths = pre @ auth # post \<and> (\<forall>a\<in>set pre. \<exists>e. a h = Inl e)
       \<and> auth h = Inr i \<and> id_is_authenticated i \<longrightarrow> authenticate_composite auths h = Inr i)
    \<and> ((\<forall>a\<in>set auths. \<exists>e. a h = Inl e) \<longrightarrow>
        (\<exists>e. authenticate_composite auths h = Inl e \<and> isinstance e AuthenticationError
          \<and> (e_code e = ''MISSING_CREDENTIALS'' \<longrightarrow>
              (\<forall>a\<in>set auths. \<forall>x. a h = Inl x \<longrightarrow> e_code x = ''MISSING_CREDENTIALS''))))"
proof (intro conjI allI impI)
  fix pre auth post i
  assume h: "auths = pre @ auth # post \<and> (\<forall>a\<in>set pre. \<exists>e. a h = Inl e)
       \<and> auth h = Inr i \<and> id_is_authenticated i"
  then have "\<forall>a\<in>set pre. \<exists>e. a h = Inl e \<and> isinstance e AuthenticationError"
    using assms by force
  with h composite_loop_first[of pre h auth i post] show "authenticate_composite auths h = Inr i"
    by (simp add: authenticate_composite_def)
next
  assume fail: "\<forall>a\<in>set auths. \<exists>e. a h = Inl e"
  let ?e0 = "auth_error ''Missing authentication credentials.'' ''MISSING_CREDENTIALS''"
  have e0: "isinstance ?e0 AuthenticationError" "e_code ?e0 = ''MISSING_CREDENTIALS''"
    by (simp_all add: auth_error_def exc_defs isinstance_simps)
  have run: "\<exists>e. composite_loop as e1 h = Inl e \<and> isinstance e AuthenticationError"
    if "set as \<subseteq> set auths" "isinstance e1 AuthenticationError" for as e1
    using that
  proof (induction as arbitrary: e1)
    case (Cons b as)
    then obtain x where "b h = Inl x" "isinstance x AuthenticationError" using fail assms by force
    then show ?case using Cons by simp
  qed simp
  show "\<exists>e. authenticate_composite auths h = Inl e \<and> isinstance e AuthenticationError
      \<and> (e_code e = ''MISSING_CREDENTIALS'' \<longrightarrow>
          (\<forall>a\<in>set auths. \<forall>x. a h = Inl x \<longrightarrow> e_code x = ''MISSING_CREDENTIALS''))"
  proof (cases "auths = []")
    case True
    then show ?thesis by (simp add: authenticate_composite_def auth_error_def exc_defs isinstance_simps)
  next
    case False
    from run[OF subset_refl e0(1)] obtain e
      where e: "composite_loop auths ?e0 h = Inl e" "isinstance e AuthenticationError" by blast
    then show ?thesis using False composite_loop_missing[OF e(1) e0(2) _ assms]
      by (auto simp: authenticate_composite_def)
  qed
qed

definition example_keys :: HashedAPIKeyAuthenticator where
  "example_keys = new_api_key_authenticator [(''AB'', PStr ''operator'')] ''X-API-Key''"

definition example_headers :: headers where
  "example_headers = (\<lambda>n. if n = ''X-API-Key'' then Some ''wrong'' else None)"

theorem composite_fails_closed_witness:
  "\<exists>e. authenticate_composite [authenticate_api_key id example_keys] example_headers = Inl e
    \<and> e_code e = ''AUTHENTICATION_FAILED''"
proof -
  let ?a = "authenticate_api_key id example_keys"
  have wrong: "?a example_headers = Inl (auth_error ''Invalid or unrecognized API Key.'' ''AUTHENTICATION_FAILED'')"
    by code_simp
  then have "\<forall>a\<in>set [?a]. \<forall>e. a example_headers = Inl e \<longrightarrow> isinstance e AuthenticationError"
    by (simp add: auth_error_def exc_defs isinstance_simps)
  from composite_fails_closed[OF this] wrong
  have "\<exists>e. authenticate_composite [?a] example_headers = Inl e \<and> isinstance e AuthenticationError"
    by auto
  with wrong show ?thesis
    by (auto simp: authenticate_composite_def auth_error_def exc_defs isinstance_simps)
qed

text \<open>The roles a configured value names.\<close>

definition names_role :: "pyval \<Rightarrow> Role \<Rightarrow> bool" where
  "names_role v r \<longleftrightarrow>
     (case v of
        PStr s \<Rightarrow> py_strip (py_lower s) = role_value r
      | PDict d \<Rightarrow>
          (case dget d ''roles'' PNone of
             PStr s \<Rightarrow> py_strip (py_lower s) = role_value r
           | PList vs \<Rightarrow> (\<exists>x\<in>set vs. py_strip (py_lower (py_str x)) = role_value r)
           | PDict e \<Rightarrow> (\<exists>k\<in>set (dkeys e). py_strip (py_lower k) = role_value r)
           | _ \<Rightarrow> False)
      | _ \<Rightarrow> False)"

lemma roles_amongD: "r \<in> roles_among f vs \<Longrightarrow> \<exists>v\<in>set vs. f (py_str v) = role_value r"
  by (auto simp: roles_among_def set_map_filter dest: Role_of_SomeD)

lemma api_key_identity_roles:
  assumes "api_key_identity stored v = Inr i" "r \<in> id_roles i" "r \<noteq> VIEWER"
  shows "names_role v r"
proof (cases v)
  case (PStr s)
  then show ?thesis using assms
    by (auto simp: api_key_identity_def Let_def names_role_def new_identity_Inr or_viewer_def
        split: option.splits dest: Role_of_SomeD)
next
  case (PDict d)
  let ?raw = "dget d ''roles'' (PList [PStr ''VIEWER''])"
  obtain vs where vs: "py_iter (case ?raw of PStr s \<Rightarrow> PList [?raw] | _ \<Rightarrow> ?raw) = Inr vs"
    and ro: "id_roles i = or_viewer (roles_among (py_strip \<circ> py_lower) vs)"
    using assms(1) PDict by (auto simp: api_key_identity_def Let_def new_identity_Inr split: sum.splits)
  have "r \<in> roles_among (py_strip \<circ> py_lower) vs"
    using assms(2,3) ro by (auto simp: or_viewer_def split: if_splits)
  from roles_amongD[OF this] obtain x where x: "x \<in> set vs" "py_strip (py_lower (py_str x)) = role_value r"
    by auto
  show ?thesis
  proof (cases "map_of d ''roles''")
    case None
    then have "vs = [PStr ''VIEWER'']" using vs by (simp add: dget_def py_iter_def)
    moreover have "py_strip (py_lower ''VIEWER'') = role_value VIEWER" by code_simp
    ultimately show ?thesis using x assms(3) by (cases r) (auto simp: py_str_def)
  next
    case (Some w)
    then show ?thesis using vs x PDict
      by (cases w; simp add: dget_def names_role_def py_iter_def py_str_def; force simp: py_str_def)
  qed
qed (use assms in \<open>auto simp: api_key_identity_def Let_def new_identity_Inr or_viewer_def\<close>)

text \<open>An API key is admitted only if the digest of the presented key is one of the configured
  digests, and the identity holds no role, other than viewer, that the configuration does not name
  for this digest.\<close>

theorem api_key_least_privilege:
  assumes "authenticate_api_key sha256_hex a h = Inr i"
  shows "\<exists>raw_key v. extract_raw_key a h = Inr (Some raw_key) \<and> raw_key \<noteq> []
    \<and> (py_lower (sha256_hex raw_key), v) \<in> set (ak_api_key_hashes a)
    \<and> (\<forall>r\<in>id_roles i. r = VIEWER \<or> names_role v r)"
proof -
  obtain key where key: "extract_raw_key a h = Inr (Some key)"
    using assms by (auto simp: authenticate_api_key_def split: sum.splits option.splits)
  then have ne: "key \<noteq> []"
    by (auto simp: extract_raw_key_def Let_def split: option.splits if_splits list.splits)
  obtain v where v: "find (\<lambda>(stored, v). stored = py_lower (sha256_hex key)) (ak_api_key_hashes a)
        = Some (py_lower (sha256_hex key), v)"
      "api_key_identity (py_lower (sha256_hex key)) v = Inr i"
    using assms key
    by (auto simp: authenticate_api_key_def Let_def split: option.splits if_splits dest: find_SomeD)
  show ?thesis
    using key ne find_SomeD[OF v(1)] api_key_identity_roles[OF v(2)] by blast
qed

theorem api_key_least_privilege_witness:
  "\<exists>i v. authenticate_api_key id example_keys (\<lambda>_. Some '' ab '') = Inr i
    \<and> (\<forall>r\<in>id_roles i. r = VIEWER \<or> names_role v r)"
proof -
  have "case authenticate_api_key id example_keys (\<lambda>_. Some '' ab '') of Inr i \<Rightarrow> True | Inl e \<Rightarrow> False"
    by code_simp
  then obtain i where i: "authenticate_api_key id example_keys (\<lambda>_. Some '' ab '') = Inr i"
    by (auto split: sum.splits)
  from i api_key_least_privilege[OF i] show ?thesis by blast
qed

end
