(* ===== verification/Http.thy ===== *)
theory Http
  imports Errors
begin

text \<open>
  What the transport layer raises and returns: \<open>HTTPException\<close> values beside the exceptions of the
  framework, and responses with a status, a body and headers.
\<close>

record http_exception =
  hx_status_code :: nat
  hx_detail :: string
  hx_headers :: "(string \<times> string) list"

datatype failure = Http_Exception http_exception | Raised_exc exc

definition http_error :: "nat \<Rightarrow> string \<Rightarrow> failure" where
  "http_error status detail =
     Http_Exception \<lparr>hx_status_code = status, hx_detail = detail, hx_headers = []\<rparr>"

text \<open>Exceptions of the framework pass through the transport layer.\<close>

definition lift_exc :: "exc + 'a \<Rightarrow> failure + 'a" where
  "lift_exc r = (case r of Inl e \<Rightarrow> Inl (Raised_exc e) | Inr x \<Rightarrow> Inr x)"

text \<open>\<open>'x\<close> in single quotes.\<close>

definition quoted :: "string \<Rightarrow> string" where
  "quoted s = [CHR 0x27] @ s @ [CHR 0x27]"

lemma lift_exc_simps [simp]:
  "lift_exc (Inl e) = Inl (Raised_exc e)" "lift_exc (Inr x) = Inr x"
  by (simp_all add: lift_exc_def)

end
