(* ===== verification/Core_State.thy ===== *)
theory Core_State
  imports Errors
begin

text \<open>
  The domain model of \<open>core/\<close> and \<open>validation/models.py\<close>: the enumerations, tasks and
  execution plans, human escalation requests and decisions, run metadata and the
  orchestration state, with the methods of each class. A method that mutates \<open>self\<close> returns
  the updated record; \<open>now\<close> stands for what \<open>utc_now()\<close> returns and the identifiers a
  constructor draws from \<open>uuid4\<close> are arguments.
\<close>

section \<open>Enumerations (core/types.py)\<close>

datatype TaskStatus = PENDING | IN_PROGRESS | COMPLETED | FAILED | BLOCKED | SKIPPED | CANCELLED

datatype TaskType = PLANNING | RETRIEVAL | TOOL_EXECUTION | VALIDATION | SYNTHESIS | CUSTOM

datatype AgentRole = SUPERVISOR | PLANNER | RETRIEVER | TOOL_EXECUTOR | VALIDATOR | CUSTOM

datatype ExecutionStatus = IDLE | RUNNING | PAUSED_FOR_HUMAN | COMPLETED | FAILED | CANCELLED

datatype ValidationStatus = VALID | INVALID | NEEDS_RETRY | NEEDS_HUMAN_REVIEW

datatype HumanRequestStatus = PENDING | APPROVED | REJECTED | MODIFIED | TIMEOUT

fun task_status_value :: "TaskStatus \<Rightarrow> string" where
  "task_status_value TaskStatus.PENDING = ''pending''"
| "task_status_value TaskStatus.IN_PROGRESS = ''in_progress''"
| "task_status_value TaskStatus.COMPLETED = ''completed''"
| "task_status_value TaskStatus.FAILED = ''failed''"
| "task_status_value TaskStatus.BLOCKED = ''blocked''"
| "task_status_value TaskStatus.SKIPPED = ''skipped''"
| "task_status_value TaskStatus.CANCELLED = ''cancelled''"

fun task_type_value :: "TaskType \<Rightarrow> string" where
  "task_type_value TaskType.PLANNING = ''planning''"
| "task_type_value TaskType.RETRIEVAL = ''retrieval''"
| "task_type_value TaskType.TOOL_EXECUTION = ''tool_execution''"
| "task_type_value TaskType.VALIDATION = ''validation''"
| "task_type_value TaskType.SYNTHESIS = ''synthesis''"
| "task_type_value TaskType.CUSTOM = ''custom''"

fun agent_role_value :: "AgentRole \<Rightarrow> string" where
  "agent_role_value AgentRole.SUPERVISOR = ''supervisor''"
| "agent_role_value AgentRole.PLANNER = ''planner''"
| "agent_role_value AgentRole.RETRIEVER = ''retriever''"
| "agent_role_value AgentRole.TOOL_EXECUTOR = ''tool_executor''"
| "agent_role_value AgentRole.VALIDATOR = ''validator''"
| "agent_role_value AgentRole.CUSTOM = ''custom''"

fun execution_status_value :: "ExecutionStatus \<Rightarrow> string" where
  "execution_status_value ExecutionStatus.IDLE = ''idle''"
| "execution_status_value ExecutionStatus.RUNNING = ''running''"
| "execution_status_value ExecutionStatus.PAUSED_FOR_HUMAN = ''paused_for_human''"
| "execution_status_value ExecutionStatus.COMPLETED = ''completed''"
| "execution_status_value ExecutionStatus.FAILED = ''failed''"
| "execution_status_value ExecutionStatus.CANCELLED = ''cancelled''"

fun validation_status_value :: "ValidationStatus \<Rightarrow> string" where
  "validation_status_value ValidationStatus.VALID = ''valid''"
| "validation_status_value ValidationStatus.INVALID = ''invalid''"
| "validation_status_value ValidationStatus.NEEDS_RETRY = ''needs_retry''"
| "validation_status_value ValidationStatus.NEEDS_HUMAN_REVIEW = ''needs_human_review''"

fun human_request_status_value :: "HumanRequestStatus \<Rightarrow> string" where
  "human_request_status_value HumanRequestStatus.PENDING = ''pending''"
| "human_request_status_value HumanRequestStatus.APPROVED = ''approved''"
| "human_request_status_value HumanRequestStatus.REJECTED = ''rejected''"
| "human_request_status_value HumanRequestStatus.MODIFIED = ''modified''"
| "human_request_status_value HumanRequestStatus.TIMEOUT = ''timeout''"

text \<open>\<open>HumanRequestStatus(s)\<close>: the member with value \<open>s\<close>, or \<open>ValueError\<close> (\<open>None\<close>).\<close>

definition HumanRequestStatus_of :: "string \<Rightarrow> HumanRequestStatus option" where
  "HumanRequestStatus_of s =
     find (\<lambda>m. human_request_status_value m = s)
       [HumanRequestStatus.PENDING, HumanRequestStatus.APPROVED, HumanRequestStatus.REJECTED,
        HumanRequestStatus.MODIFIED, HumanRequestStatus.TIMEOUT]"

section \<open>Tasks and plans (core/task.py)\<close>

record Task =
  t_id :: string
  t_title :: string
  t_description :: string
  t_task_type :: TaskType
  t_assigned_agent :: "AgentRole option"
  t_dependencies :: "string list"
  t_status :: TaskStatus
  t_input_data :: dict
  t_output_data :: "dict option"
  t_error :: "string option"
  t_retry_count :: nat
  t_max_retries :: nat
  t_created_at :: time
  t_completed_at :: "time option"

definition mark_in_progress :: "Task \<Rightarrow> Task" where
  "mark_in_progress t = t\<lparr>t_status := TaskStatus.IN_PROGRESS\<rparr>"

definition mark_completed :: "time \<Rightarrow> dict \<Rightarrow> Task \<Rightarrow> Task" where
  "mark_completed now output t =
     t\<lparr>t_status := TaskStatus.COMPLETED, t_output_data := Some output, t_completed_at := Some now\<rparr>"

definition mark_failed :: "time \<Rightarrow> string \<Rightarrow> Task \<Rightarrow> Task" where
  "mark_failed now error_message t =
     t\<lparr>t_status := TaskStatus.FAILED, t_error := Some error_message, t_completed_at := Some now\<rparr>"

definition can_retry :: "Task \<Rightarrow> bool" where
  "can_retry t \<longleftrightarrow> t_retry_count t < t_max_retries t"

record ExecutionPlan =
  p_plan_id :: string
  p_tasks :: "Task list"
  p_current_task_id :: "string option"
  p_rationale :: "string option"
  p_created_at :: time

definition get_task :: "ExecutionPlan \<Rightarrow> string \<Rightarrow> Task option" where
  "get_task p task_id = find (\<lambda>t. t_id t = task_id) (p_tasks p)"

definition completed_ids :: "Task list \<Rightarrow> string list" where
  "completed_ids ts = map t_id (filter (\<lambda>t. t_status t = TaskStatus.COMPLETED) ts)"

definition get_ready_tasks :: "ExecutionPlan \<Rightarrow> Task list" where
  "get_ready_tasks p =
     filter (\<lambda>task. t_status task = TaskStatus.PENDING
               \<and> list_all (\<lambda>dep. dep \<in> set (completed_ids (p_tasks p))) (t_dependencies task))
       (p_tasks p)"

definition all_completed :: "ExecutionPlan \<Rightarrow> bool" where
  "all_completed p \<longleftrightarrow>
     p_tasks p \<noteq> [] \<and>
     list_all (\<lambda>t. t_status t = TaskStatus.COMPLETED \<or> t_status t = TaskStatus.SKIPPED) (p_tasks p)"

definition has_failed_tasks :: "ExecutionPlan \<Rightarrow> bool" where
  "has_failed_tasks p \<longleftrightarrow> list_ex (\<lambda>t. t_status t = TaskStatus.FAILED) (p_tasks p)"

section \<open>Human review, validation verdicts, metadata\<close>

record HumanEscalationRequest =
  h_request_id :: string
  h_run_id :: string
  h_task_id :: "string option"
  h_reason :: string
  h_requested_action :: string
  h_context :: dict
  h_status :: HumanRequestStatus
  h_created_at :: time
  h_resolved_at :: "time option"

record HumanDecision =
  d_request_id :: string
  d_status :: HumanRequestStatus
  d_decision_note :: "string option"
  d_modified_payload :: "dict option"
  d_reviewer_id :: "string option"
  d_resolved_at :: time

record ValidationResult =
  v_validation_id :: string
  v_is_valid :: bool
  v_status :: ValidationStatus
  v_score :: rat
  v_feedback :: "string option"
  v_issues :: "string list"
  v_needs_retry :: bool
  v_needs_human_review :: bool
  v_validator_name :: string
  v_evaluated_task_id :: "string option"
  v_metadata :: dict

record ExecutionMetadata =
  m_run_id :: string
  m_correlation_id :: "string option"
  m_session_id :: "string option"
  m_created_at :: time
  m_updated_at :: time
  m_current_agent :: "string option"
  m_current_step :: nat
  m_retry_count :: nat
  m_max_retries :: nat
  m_total_tokens_used :: nat
  m_execution_time_ms :: rat
  m_status :: ExecutionStatus
  m_custom_tags :: dict

definition meta_touch :: "time \<Rightarrow> ExecutionMetadata \<Rightarrow> ExecutionMetadata" where
  "meta_touch now m = m\<lparr>m_updated_at := now\<rparr>"

section \<open>The orchestration state (core/state.py)\<close>

record OrchestrationState =
  s_run_id :: string
  s_request :: string
  s_normalized_request :: "string option"
  s_plan :: "ExecutionPlan option"
  s_current_step :: nat
  s_agent_outputs :: dict
  s_tool_results :: dict
  s_retrieved_context :: "dict list"
  s_validation_results :: "ValidationResult list"
  s_errors :: "dict list"
  s_retry_count :: nat
  s_max_retries :: nat
  s_requires_human :: bool
  s_human_requests :: "HumanEscalationRequest list"
  s_final_response :: "string option"
  s_metadata :: ExecutionMetadata
  s_custom_context :: dict

abbreviation s_status :: "OrchestrationState \<Rightarrow> ExecutionStatus" where
  "s_status s \<equiv> m_status (s_metadata s)"

definition touch :: "time \<Rightarrow> OrchestrationState \<Rightarrow> OrchestrationState" where
  "touch now s = s\<lparr>s_metadata := meta_touch now (s_metadata s)\<rparr>"

definition set_status :: "ExecutionStatus \<Rightarrow> OrchestrationState \<Rightarrow> OrchestrationState" where
  "set_status x s = s\<lparr>s_metadata := (s_metadata s)\<lparr>m_status := x\<rparr>\<rparr>"

definition create_initial ::
    "time \<Rightarrow> string \<Rightarrow> string \<Rightarrow> string option \<Rightarrow> string option \<Rightarrow> nat \<Rightarrow> dict option
     \<Rightarrow> OrchestrationState" where
  "create_initial now run_id request correlation_id session_id max_retries custom_context =
     \<lparr>s_run_id = run_id, s_request = request, s_normalized_request = None, s_plan = None,
      s_current_step = 0, s_agent_outputs = [], s_tool_results = [], s_retrieved_context = [],
      s_validation_results = [], s_errors = [], s_retry_count = 0, s_max_retries = max_retries,
      s_requires_human = False, s_human_requests = [], s_final_response = None,
      s_metadata =
        \<lparr>m_run_id = run_id, m_correlation_id = correlation_id, m_session_id = session_id,
         m_created_at = now, m_updated_at = now, m_current_agent = None, m_current_step = 0,
         m_retry_count = 0, m_max_retries = max_retries, m_total_tokens_used = 0,
         m_execution_time_ms = 0, m_status = ExecutionStatus.RUNNING, m_custom_tags = []\<rparr>,
      s_custom_context = dict_or_empty custom_context\<rparr>"

definition add_agent_output :: "time \<Rightarrow> string \<Rightarrow> pyval \<Rightarrow> OrchestrationState \<Rightarrow> OrchestrationState" where
  "add_agent_output now agent_name output s =
     touch now (s\<lparr>s_agent_outputs := AList.update agent_name output (s_agent_outputs s)\<rparr>)"

definition add_tool_result :: "time \<Rightarrow> string \<Rightarrow> pyval \<Rightarrow> OrchestrationState \<Rightarrow> OrchestrationState" where
  "add_tool_result now tool_name result s =
     touch now (s\<lparr>s_tool_results := AList.update tool_name result (s_tool_results s)\<rparr>)"

definition add_retrieved_context :: "time \<Rightarrow> dict \<Rightarrow> OrchestrationState \<Rightarrow> OrchestrationState" where
  "add_retrieved_context now item s =
     touch now (s\<lparr>s_retrieved_context := s_retrieved_context s @ [item]\<rparr>)"

definition add_validation_result ::
    "time \<Rightarrow> ValidationResult \<Rightarrow> OrchestrationState \<Rightarrow> OrchestrationState" where
  "add_validation_result now validation s =
     touch now (s\<lparr>s_validation_results := s_validation_results s @ [validation]\<rparr>)"

definition record_error :: "time \<Rightarrow> dict \<Rightarrow> OrchestrationState \<Rightarrow> OrchestrationState" where
  "record_error now error_dict s = touch now (s\<lparr>s_errors := s_errors s @ [error_dict]\<rparr>)"

definition increment_step :: "time \<Rightarrow> string option \<Rightarrow> OrchestrationState \<Rightarrow> OrchestrationState" where
  "increment_step now current_agent s =
     (let n = Suc (s_current_step s);
          m = (s_metadata s)\<lparr>m_current_step := n\<rparr>;
          m' = (if opt_truthy current_agent then m\<lparr>m_current_agent := current_agent\<rparr> else m)
      in touch now (s\<lparr>s_current_step := n, s_metadata := m'\<rparr>))"

definition new_escalation ::
    "time \<Rightarrow> string \<Rightarrow> string \<Rightarrow> string \<Rightarrow> string \<Rightarrow> dict \<Rightarrow> string option \<Rightarrow> HumanEscalationRequest" where
  "new_escalation now request_id run_id reason requested_action context task_id =
     \<lparr>h_request_id = request_id, h_run_id = run_id, h_task_id = task_id, h_reason = reason,
      h_requested_action = requested_action, h_context = context,
      h_status = HumanRequestStatus.PENDING, h_created_at = now, h_resolved_at = None\<rparr>"

definition request_human_escalation ::
    "time \<Rightarrow> string \<Rightarrow> string \<Rightarrow> string \<Rightarrow> dict option \<Rightarrow> string option
     \<Rightarrow> OrchestrationState \<Rightarrow> OrchestrationState" where
  "request_human_escalation now request_id reason requested_action context task_id s =
     (let req = new_escalation now request_id (s_run_id s) reason requested_action
                  (dict_or_empty context) task_id;
          s1 = s\<lparr>s_human_requests := s_human_requests s @ [req], s_requires_human := True\<rparr>
      in touch now (set_status ExecutionStatus.PAUSED_FOR_HUMAN s1))"

text \<open>\<open>any(r.status == PENDING for r in self.human_requests)\<close>.\<close>

definition has_pending :: "OrchestrationState \<Rightarrow> bool" where
  "has_pending s \<longleftrightarrow> list_ex (\<lambda>r. h_status r = HumanRequestStatus.PENDING) (s_human_requests s)"

definition apply_human_decision ::
    "time \<Rightarrow> HumanDecision \<Rightarrow> OrchestrationState \<Rightarrow> OrchestrationState" where
  "apply_human_decision now decision s =
     (let s1 = s\<lparr>s_human_requests :=
                   upd_first (\<lambda>r. h_request_id r = d_request_id decision)
                     (\<lambda>r. r\<lparr>h_status := d_status decision, h_resolved_at := Some (d_resolved_at decision)\<rparr>)
                     (s_human_requests s)\<rparr>;
          s2 = s1\<lparr>s_requires_human := has_pending s1\<rparr>;
          s3 = (if has_pending s1 then s2 else set_status ExecutionStatus.RUNNING s2)
      in touch now s3)"

definition complete_run :: "time \<Rightarrow> string \<Rightarrow> OrchestrationState \<Rightarrow> OrchestrationState" where
  "complete_run now final_response s =
     touch now (set_status ExecutionStatus.COMPLETED (s\<lparr>s_final_response := Some final_response\<rparr>))"

definition fail_run :: "time \<Rightarrow> string \<Rightarrow> OrchestrationState \<Rightarrow> OrchestrationState" where
  "fail_run now error_summary s =
     touch now (set_status ExecutionStatus.FAILED
       (record_error now [(''fatal_error'', PStr error_summary)] s))"

section \<open>The plan inside the state\<close>

text \<open>
  \<open>state.plan.get_task(task_id) if (state.plan and task_id) else None\<close>, and the write-back of
  a mutation of the task it returned.
\<close>

definition state_tasks :: "OrchestrationState \<Rightarrow> Task list" where
  "state_tasks s = (case s_plan s of None \<Rightarrow> [] | Some p \<Rightarrow> p_tasks p)"

definition active_task :: "OrchestrationState \<Rightarrow> string option \<Rightarrow> Task option" where
  "active_task s task_id =
     (case s_plan s of
        None \<Rightarrow> None
      | Some p \<Rightarrow> (case task_id of
                     None \<Rightarrow> None
                   | Some i \<Rightarrow> if i = [] then None else get_task p i))"

definition upd_task :: "string \<Rightarrow> (Task \<Rightarrow> Task) \<Rightarrow> OrchestrationState \<Rightarrow> OrchestrationState" where
  "upd_task i f s =
     s\<lparr>s_plan := map_option (\<lambda>p. p\<lparr>p_tasks := upd_first (\<lambda>t. t_id t = i) f (p_tasks p)\<rparr>) (s_plan s)\<rparr>"

end
