(* ===== verification/Telemetry.thy ===== *)
theory Telemetry
  imports Core_State
begin

text \<open>
  The calls the orchestration code makes to its telemetry collaborators, as values: a node
  returns the list of calls in the order it makes them, and the metrics registry of
  \<open>observability/metrics\<close> gives the metric calls their meaning. Floats are exact rationals;
  \<open>round(x, 4)\<close> is rounding half to even at four decimals.
\<close>

section \<open>Audit events and spans (observability/audit/models.py, tracing/models.py)\<close>

datatype AuditEventType =
    RUN_STARTED | RUN_COMPLETED | RUN_FAILED | PLAN_CREATED | TASK_STARTED | TASK_COMPLETED
  | TASK_FAILED | TOOL_INVOKED | RETRIEVAL_EXECUTED | VALIDATION_VERDICT | RETRY_TRIGGERED
  | HUMAN_ESCALATED | HUMAN_DECISION_APPLIED

text \<open>The identifier, the time and the schema version of an event come from field defaults.\<close>

record AuditEvent =
  a_run_id :: string
  a_correlation_id :: "string option"
  a_session_id :: "string option"
  a_event_type :: AuditEventType
  a_actor :: string
  a_component :: string
  a_action :: string
  a_outcome :: string
  a_metadata :: dict

datatype SpanKind = WORKFLOW | NODE | AGENT | LLM | TOOL | RETRIEVAL | VALIDATOR | HUMAN_GATE

datatype SpanStatus = OK | ERROR

record span_args =
  sp_name :: string
  sp_kind :: SpanKind
  sp_attributes :: dict
  sp_run_id :: "string option"
  sp_correlation_id :: "string option"
  sp_session_id :: "string option"

text \<open>
  One telemetry call. \<open>SpanEnd n e\<close> is \<open>tracer.end_span(span, error=e)\<close> on the span started
  under name \<open>n\<close>, with the text of the error.
\<close>

datatype effect =
    Audit AuditEvent
  | CounterInc string
  | GaugeInc string
  | GaugeDec string
  | GaugeSet string rat
  | Observe string rat
  | SpanStart span_args
  | SpanEnd string "string option"

section \<open>Metric instruments (observability/metrics/models.py)\<close>

text \<open>\<open>Counter.inc\<close>: \<open>None\<close> is the \<open>ValueError\<close> for a negative amount.\<close>

definition counter_inc :: "rat \<Rightarrow> rat \<Rightarrow> rat option" where
  "counter_inc amount v = (if amount < 0 then None else Some (v + amount))"

definition gauge_set :: "rat \<Rightarrow> rat \<Rightarrow> rat" where
  "gauge_set value v = value"

definition gauge_inc :: "rat \<Rightarrow> rat \<Rightarrow> rat" where
  "gauge_inc amount v = v + amount"

definition gauge_dec :: "rat \<Rightarrow> rat \<Rightarrow> rat" where
  "gauge_dec amount v = v - amount"

definition histogram_observe :: "rat \<Rightarrow> rat list \<Rightarrow> rat list" where
  "histogram_observe value obs = obs @ [value]"

definition py_round :: "nat \<Rightarrow> rat \<Rightarrow> rat" where
  "py_round n q =
     (let s = 10 ^ n; x = q * s; f = \<lfloor>x\<rfloor>; d = x - of_int f;
          r = (if d < 1/2 then f else if d > 1/2 then f + 1 else if even f then f else f + 1)
      in of_int r / s)"

text \<open>\<open>_calc_percentile\<close> on the sorted observations.\<close>

definition calc_percentile :: "rat list \<Rightarrow> rat \<Rightarrow> rat" where
  "calc_percentile vals p =
     (let count = length vals in
      if count = 1 then vals ! 0
      else let k = of_nat (count - 1) * p; f = \<lfloor>k\<rfloor>; c = \<lceil>k\<rceil> in
        if f = c then vals ! nat f
        else vals ! nat f * (of_int c - k) + vals ! nat c * (k - of_int f))"

record hist_summary =
  hs_count :: rat
  hs_sum :: rat
  hs_mean :: rat
  hs_min :: rat
  hs_max :: rat
  hs_p50 :: rat
  hs_p90 :: rat
  hs_p95 :: rat
  hs_p99 :: rat

definition get_summary :: "rat list \<Rightarrow> hist_summary" where
  "get_summary observations =
     (let vals = sort observations; count = length vals in
      if count = 0 then
        \<lparr>hs_count = 0, hs_sum = 0, hs_mean = 0, hs_min = 0, hs_max = 0,
         hs_p50 = 0, hs_p90 = 0, hs_p95 = 0, hs_p99 = 0\<rparr>
      else let total = sum_list vals; mean = total / of_nat count in
        \<lparr>hs_count = of_nat count, hs_sum = py_round 4 total, hs_mean = py_round 4 mean,
         hs_min = py_round 4 (vals ! 0), hs_max = py_round 4 (last vals),
         hs_p50 = py_round 4 (calc_percentile vals (50/100)),
         hs_p90 = py_round 4 (calc_percentile vals (90/100)),
         hs_p95 = py_round 4 (calc_percentile vals (95/100)),
         hs_p99 = py_round 4 (calc_percentile vals (99/100))\<rparr>)"

section \<open>The metrics registry (observability/metrics/registry.py)\<close>

record MetricsRegistry =
  mr_counters :: "(string \<times> rat) list"
  mr_gauges :: "(string \<times> rat) list"
  mr_histograms :: "(string \<times> rat list) list"

text \<open>\<open>counter(name)\<close>, \<open>gauge(name)\<close>, \<open>histogram(name)\<close>: get the instrument, creating it first.\<close>

definition ensure_key :: "'v \<Rightarrow> string \<Rightarrow> (string \<times> 'v) list \<Rightarrow> (string \<times> 'v) list" where
  "ensure_key v name d = (if name \<in> set (dkeys d) then d else d @ [(name, v)])"

definition reg_counter :: "string \<Rightarrow> MetricsRegistry \<Rightarrow> MetricsRegistry" where
  "reg_counter name r = r\<lparr>mr_counters := ensure_key 0 name (mr_counters r)\<rparr>"

definition reg_gauge :: "string \<Rightarrow> MetricsRegistry \<Rightarrow> MetricsRegistry" where
  "reg_gauge name r = r\<lparr>mr_gauges := ensure_key 0 name (mr_gauges r)\<rparr>"

definition reg_histogram :: "string \<Rightarrow> MetricsRegistry \<Rightarrow> MetricsRegistry" where
  "reg_histogram name r = r\<lparr>mr_histograms := ensure_key [] name (mr_histograms r)\<rparr>"

definition standard_counters :: "string list" where
  "standard_counters =
     [''runs_started_total'', ''runs_completed_total'', ''runs_failed_total'',
      ''llm_requests_total'', ''llm_fallbacks_total'', ''human_escalations_total'',
      ''human_decisions_approved_total'', ''human_decisions_rejected_total'',
      ''human_decisions_modified_total'', ''validator_retries_total'',
      ''tool_executions_total'', ''retrieval_queries_total'']"

definition standard_gauges :: "string list" where
  "standard_gauges = [''active_runs'', ''pending_human_reviews'']"

definition standard_histograms :: "string list" where
  "standard_histograms =
     [''run_duration_seconds'', ''step_count'', ''llm_duration_seconds'',
      ''planner_duration_seconds'', ''retrieval_duration_seconds'', ''tool_duration_seconds'',
      ''validator_duration_seconds'', ''prompt_tokens'', ''completion_tokens'']"

definition init_standard_metrics :: "MetricsRegistry \<Rightarrow> MetricsRegistry" where
  "init_standard_metrics r =
     fold reg_histogram standard_histograms
       (fold reg_gauge standard_gauges (fold reg_counter standard_counters r))"

definition new_registry :: MetricsRegistry where
  "new_registry = init_standard_metrics \<lparr>mr_counters = [], mr_gauges = [], mr_histograms = []\<rparr>"

definition clear_registry :: "MetricsRegistry \<Rightarrow> MetricsRegistry" where
  "clear_registry r =
     init_standard_metrics (r\<lparr>mr_counters := [], mr_gauges := [], mr_histograms := []\<rparr>)"

definition get_snapshot ::
    "MetricsRegistry \<Rightarrow> (string \<times> rat) list \<times> (string \<times> rat) list \<times> (string \<times> hist_summary) list" where
  "get_snapshot r =
     (mr_counters r, mr_gauges r, map (\<lambda>(k, h). (k, get_summary h)) (mr_histograms r))"

text \<open>Updating an instrument obtained by name.\<close>

definition upd_key :: "('v \<Rightarrow> 'v) \<Rightarrow> string \<Rightarrow> (string \<times> 'v) list \<Rightarrow> (string \<times> 'v) list" where
  "upd_key f name d = map (\<lambda>(k, v). if k = name then (k, f v) else (k, v)) d"

fun apply_metric :: "effect \<Rightarrow> MetricsRegistry \<Rightarrow> MetricsRegistry" where
  "apply_metric (CounterInc n) r =
     (let r1 = reg_counter n r
      in r1\<lparr>mr_counters := upd_key (\<lambda>v. case counter_inc 1 v of None \<Rightarrow> v | Some w \<Rightarrow> w) n (mr_counters r1)\<rparr>)"
| "apply_metric (GaugeInc n) r =
     (let r1 = reg_gauge n r in r1\<lparr>mr_gauges := upd_key (gauge_inc 1) n (mr_gauges r1)\<rparr>)"
| "apply_metric (GaugeDec n) r =
     (let r1 = reg_gauge n r in r1\<lparr>mr_gauges := upd_key (gauge_dec 1) n (mr_gauges r1)\<rparr>)"
| "apply_metric (GaugeSet n x) r =
     (let r1 = reg_gauge n r in r1\<lparr>mr_gauges := upd_key (gauge_set x) n (mr_gauges r1)\<rparr>)"
| "apply_metric (Observe n x) r =
     (let r1 = reg_histogram n r
      in r1\<lparr>mr_histograms := upd_key (histogram_observe x) n (mr_histograms r1)\<rparr>)"
| "apply_metric (Audit e) r = r"
| "apply_metric (SpanStart a) r = r"
| "apply_metric (SpanEnd n e) r = r"

definition apply_metrics :: "effect list \<Rightarrow> MetricsRegistry \<Rightarrow> MetricsRegistry" where
  "apply_metrics es r = fold apply_metric es r"

definition counter_value :: "MetricsRegistry \<Rightarrow> string \<Rightarrow> rat" where
  "counter_value r n = dget (mr_counters r) n 0"

definition gauge_value :: "MetricsRegistry \<Rightarrow> string \<Rightarrow> rat" where
  "gauge_value r n = dget (mr_gauges r) n 0"

definition histogram_values :: "MetricsRegistry \<Rightarrow> string \<Rightarrow> rat list" where
  "histogram_values r n = dget (mr_histograms r) n []"

section \<open>Facts about the registry\<close>

lemma ensure_key_Nil: "ensure_key v n [] = [(n, v)]"
  by (simp add: ensure_key_def)

lemma ensure_key_Cons: "ensure_key v n (p # d) = (if fst p = n then p # d else p # ensure_key v n d)"
  by (auto simp: ensure_key_def)

lemma map_of_ensure_key:
  "map_of (ensure_key v n d) k = (if k = n \<and> map_of d k = None then Some v else map_of d k)"
  by (induction d) (auto simp: ensure_key_Nil ensure_key_Cons)

lemma map_of_upd_key:
  "map_of (upd_key f n d) k = (if k = n then map_option f (map_of d k) else map_of d k)"
  by (induction d) (auto simp: upd_key_def)

lemma dget_upd_ensure:
  "dget (upd_key f n (ensure_key v n d)) k v = (if k = n then f (dget d k v) else dget d k v)"
  by (auto simp: dget_def map_of_upd_key map_of_ensure_key split: option.splits)

text \<open>A metric call changes the value of its own instrument only.\<close>

lemma counter_value_apply:
  "counter_value (apply_metric e r) n = counter_value r n + (if e = CounterInc n then 1 else 0)"
  by (cases e)
     (auto simp: counter_value_def Let_def dget_upd_ensure reg_counter_def reg_gauge_def
        reg_histogram_def counter_inc_def)

lemma gauge_value_apply:
  "gauge_value (apply_metric e r) n =
     (if e = GaugeInc n then gauge_value r n + 1
      else if e = GaugeDec n then gauge_value r n - 1
      else case e of GaugeSet m x \<Rightarrow> if m = n then x else gauge_value r n | _ \<Rightarrow> gauge_value r n)"
  by (cases e)
     (auto simp: gauge_value_def Let_def dget_upd_ensure reg_counter_def reg_gauge_def
        reg_histogram_def gauge_inc_def gauge_dec_def gauge_set_def)

lemma histogram_values_apply:
  "histogram_values (apply_metric e r) n =
     histogram_values r n @ (case e of Observe m x \<Rightarrow> if m = n then [x] else [] | _ \<Rightarrow> [])"
  by (cases e)
     (auto simp: histogram_values_def Let_def dget_upd_ensure reg_counter_def reg_gauge_def
        reg_histogram_def histogram_observe_def)

text \<open>Over a whole list of calls a counter counts its own increments.\<close>

lemma counter_value_apply_list:
  "counter_value (apply_metrics es r) n =
     counter_value r n + of_nat (length (filter (\<lambda>e. e = CounterInc n) es))"
  unfolding apply_metrics_def
  by (induction es arbitrary: r) (auto simp: counter_value_apply)

definition no_gauge_set :: "string \<Rightarrow> effect list \<Rightarrow> bool" where
  "no_gauge_set n es \<longleftrightarrow> (\<forall>x. GaugeSet n x \<notin> set es)"

lemma gauge_value_apply_list:
  assumes "no_gauge_set n es"
  shows "gauge_value (apply_metrics es r) n =
     gauge_value r n + of_nat (length (filter (\<lambda>e. e = GaugeInc n) es))
       - of_nat (length (filter (\<lambda>e. e = GaugeDec n) es))"
  using assms unfolding apply_metrics_def no_gauge_set_def
  by (induction es arbitrary: r) (auto simp: gauge_value_apply split: effect.splits)

section \<open>Rounding and percentiles\<close>

lemma py_round_mono: "a \<le> b \<Longrightarrow> py_round n a \<le> py_round n b"
proof -
  let ?s = "10 ^ n :: rat"
  let ?r = "\<lambda>x :: rat. let f = \<lfloor>x\<rfloor>; d = x - of_int f in
    (if d < 1/2 then f else if d > 1/2 then f + 1 else if even f then f else f + 1)"
  assume "a \<le> b"
  then have le: "a * ?s \<le> b * ?s" by simp
  have "?r x \<le> ?r y" if "x \<le> y" for x y :: rat
  proof (cases "\<lfloor>x\<rfloor> = \<lfloor>y\<rfloor>")
    case True
    then show ?thesis using that by (simp add: Let_def)
  next
    case False
    then have "\<lfloor>x\<rfloor> + 1 \<le> \<lfloor>y\<rfloor>" using floor_mono[OF that] by linarith
    then show ?thesis by (auto simp: Let_def)
  qed
  from this[OF le] show ?thesis
    by (simp add: py_round_def Let_def divide_right_mono)
qed

text \<open>Percentiles: linear interpolation on a sorted list is monotone and stays in range.\<close>

definition interp :: "rat list \<Rightarrow> rat \<Rightarrow> rat" where
  "interp vals k =
     (if \<lfloor>k\<rfloor> = \<lceil>k\<rceil> then vals ! nat \<lfloor>k\<rfloor>
      else vals ! nat \<lfloor>k\<rfloor> * (of_int \<lceil>k\<rceil> - k) + vals ! nat \<lceil>k\<rceil> * (k - of_int \<lfloor>k\<rfloor>))"

lemma calc_percentile_interp:
  assumes "vals \<noteq> []" "0 \<le> p" "p \<le> 1"
  shows "calc_percentile vals p = interp vals (of_nat (length vals - 1) * p)"
  using assms by (cases "length vals = 1") (simp_all add: calc_percentile_def interp_def Let_def)

lemma ceiling_cases: "\<lfloor>k\<rfloor> \<noteq> \<lceil>k\<rceil> \<Longrightarrow> \<lceil>k\<rceil> = \<lfloor>k\<rfloor> + 1" for k :: rat
  by (metis ceiling_altdef)

lemma interp_linear:
  "\<lfloor>k\<rfloor> \<noteq> \<lceil>k\<rceil> \<Longrightarrow> interp vals k =
     vals ! nat \<lfloor>k\<rfloor> + (vals ! nat (\<lfloor>k\<rfloor> + 1) - vals ! nat \<lfloor>k\<rfloor>) * (k - of_int \<lfloor>k\<rfloor>)"
  using ceiling_cases[of k] by (simp add: interp_def algebra_simps)

lemma interp_bounds:
  assumes "sorted vals" "0 \<le> k" "k \<le> of_nat (length vals - 1)" "vals \<noteq> []"
  shows "vals ! nat \<lfloor>k\<rfloor> \<le> interp vals k" "interp vals k \<le> vals ! nat \<lceil>k\<rceil>"
proof -
  have c: "nat \<lceil>k\<rceil> < length vals"
    using assms(3,4) by (metis One_nat_def Suc_pred ceiling_le_iff length_greater_0_conv less_Suc_eq_le
        nat_le_iff of_int_of_nat_eq)
  have le: "vals ! nat \<lfloor>k\<rfloor> \<le> vals ! nat \<lceil>k\<rceil>"
    using assms(1) c by (intro sorted_nth_mono) (auto simp: nat_mono floor_le_ceiling)
  have "vals ! nat \<lfloor>k\<rfloor> \<le> interp vals k \<and> interp vals k \<le> vals ! nat \<lceil>k\<rceil>"
  proof (cases "\<lfloor>k\<rfloor> = \<lceil>k\<rceil>")
    case False
    let ?a = "vals ! nat \<lfloor>k\<rfloor>" and ?b = "vals ! nat \<lceil>k\<rceil>" and ?t = "k - of_int \<lfloor>k\<rfloor>"
    have "interp vals k = ?a + (?b - ?a) * ?t"
      using False ceiling_cases[OF False] by (simp add: interp_def algebra_simps)
    moreover have "0 \<le> (?b - ?a) * ?t" using le by simp
    moreover have "(?b - ?a) * ?t \<le> (?b - ?a) * 1"
      using le by (intro mult_left_mono) (simp_all add: less_imp_le floor_less_iff diff_le_eq, linarith)
    ultimately show ?thesis by simp
  qed (simp add: interp_def)
  then show "vals ! nat \<lfloor>k\<rfloor> \<le> interp vals k" "interp vals k \<le> vals ! nat \<lceil>k\<rceil>" by auto
qed

lemma interp_mono:
  assumes s: "sorted vals" "vals \<noteq> []" and k: "0 \<le> k" "k \<le> l" "l \<le> of_nat (length vals - 1)"
  shows "interp vals k \<le> interp vals l"
proof (cases "\<lceil>k\<rceil> \<le> \<lfloor>l\<rfloor>")
  case True
  have "nat \<lfloor>l\<rfloor> < length vals"
    using k(3) s(2) by (metis One_nat_def Suc_pred floor_mono floor_of_nat length_greater_0_conv
        less_Suc_eq_le nat_le_iff)
  then have "vals ! nat \<lceil>k\<rceil> \<le> vals ! nat \<lfloor>l\<rfloor>"
    using s(1) True by (intro sorted_nth_mono) auto
  then show ?thesis using interp_bounds(2)[of vals k] interp_bounds(1)[of vals l] s k by force
next
  case False
  have k_frac: "\<lfloor>k\<rfloor> \<noteq> \<lceil>k\<rceil>"
    using False floor_mono[OF k(2)] by auto
  note ck = ceiling_cases[OF k_frac]
  have fl: "\<lfloor>l\<rfloor> = \<lfloor>k\<rfloor>"
    using False floor_mono[OF k(2)] ck by linarith
  have l_frac: "\<lfloor>l\<rfloor> \<noteq> \<lceil>l\<rceil>"
    using ceiling_mono[OF k(2)] ck fl by linarith
  let ?f = "\<lfloor>k\<rfloor>"
  have "nat (?f + 1) < length vals"
  proof -
    have "\<lceil>l\<rceil> \<le> int (length vals - 1)" using k(3) by (simp add: ceiling_le_iff)
    then show ?thesis using ceiling_cases[OF l_frac] fl s(2) by (cases vals) auto
  qed
  then have "vals ! nat ?f \<le> vals ! nat (?f + 1)"
    using s(1) by (intro sorted_nth_mono) auto
  then have "(vals ! nat (?f + 1) - vals ! nat ?f) * (k - of_int ?f)
      \<le> (vals ! nat (?f + 1) - vals ! nat ?f) * (l - of_int ?f)"
    using k(2) by (intro mult_left_mono) auto
  then show ?thesis
    by (simp add: interp_linear[OF k_frac] interp_linear[OF l_frac, unfolded fl])
qed

lemma interp_ends:
  assumes "vals \<noteq> []"
  shows "interp vals 0 = vals ! 0" "interp vals (of_nat (length vals - 1)) = last vals"
  using assms by (simp_all add: interp_def last_conv_nth)

section \<open>Properties\<close>

text \<open>In the summary of a non-empty histogram, minimum, 50th, 90th, 95th and 99th percentile and
  maximum are in order, rounding included.\<close>

theorem summary_ordered:
  assumes "obs \<noteq> []"
  shows "hs_min (get_summary obs) \<le> hs_p50 (get_summary obs)
    \<and> hs_p50 (get_summary obs) \<le> hs_p90 (get_summary obs)
    \<and> hs_p90 (get_summary obs) \<le> hs_p95 (get_summary obs)
    \<and> hs_p95 (get_summary obs) \<le> hs_p99 (get_summary obs)
    \<and> hs_p99 (get_summary obs) \<le> hs_max (get_summary obs)"
proof -
  let ?vals = "sort obs" and ?m = "of_nat (length obs - 1) :: rat"
  have v: "sorted ?vals" "?vals \<noteq> []" using assms by (simp_all, metis length_0_conv length_sort)
  have pc: "calc_percentile ?vals p = interp ?vals (?m * p)" if "0 \<le> p" "p \<le> 1" for p
    using calc_percentile_interp[OF v(2) that] by simp
  have ps: "calc_percentile ?vals (50/100) = interp ?vals (?m * (50/100))"
    "calc_percentile ?vals (90/100) = interp ?vals (?m * (90/100))"
    "calc_percentile ?vals (95/100) = interp ?vals (?m * (95/100))"
    "calc_percentile ?vals (99/100) = interp ?vals (?m * (99/100))"
    by (rule pc; simp)+
  have mono: "interp ?vals (?m * p) \<le> interp ?vals (?m * q)" if "0 \<le> p" "p \<le> q" "q \<le> 1" for p q
    using that by (intro interp_mono v) (auto intro: mult_left_mono mult_left_le)
  have ends: "?vals ! 0 = interp ?vals (?m * 0)" "last ?vals = interp ?vals (?m * 1)"
    using interp_ends[OF v(2)] by simp_all
  have len: "length ?vals \<noteq> 0" using assms by simp
  show ?thesis
    unfolding get_summary_def Let_def if_not_P[OF len] hist_summary.simps ends ps
    by (intro conjI py_round_mono mono) simp_all
qed

theorem summary_ordered_witness:
  "hs_min (get_summary [3, 1]) \<le> hs_p50 (get_summary [3, 1])"
  using summary_ordered[of "[3, 1]"] by simp

end
