(* ===== verification/Rate_Limiter.thy ===== *)
theory Rate_Limiter
  imports Access_Control Http Telemetry
begin

text \<open>
  The sliding window rate limiter of \<open>security/rate_limiter.py\<close>. Times are rational seconds;
  \<open>now\<close> is what \<open>time.time()\<close> returns. The ordered dictionary is an association list whose order
  is the order of last use.
\<close>

section \<open>The limiter\<close>

record rate_limiter =
  rl_max_keys :: nat
  rl_store :: "(string \<times> rat list) list"

definition new_limiter :: "nat \<Rightarrow> rate_limiter" where
  "new_limiter max_keys = \<lparr>rl_max_keys = max_keys, rl_store = []\<rparr>"

definition reset_limiter :: "rate_limiter \<Rightarrow> rate_limiter" where
  "reset_limiter l = l\<lparr>rl_store := []\<rparr>"

text \<open>The clean-up: only when there are more keys than allowed, only keys idle for two windows.\<close>

definition evict_stale :: "rat \<Rightarrow> int \<Rightarrow> rate_limiter \<Rightarrow> (string \<times> rat list) list" where
  "evict_stale now window_seconds l =
     (if length (rl_store l) > rl_max_keys l then
        let stale_cutoff = now - of_int (window_seconds * 2);
            stale_keys = map fst (filter (\<lambda>(k, ts). ts = [] \<or> last ts < stale_cutoff) (rl_store l))
        in fold AList.delete stale_keys (rl_store l)
      else rl_store l)"

text \<open>\<open>self._store[key] = ts; self._store.move_to_end(key)\<close>.\<close>

definition put_last :: "string \<Rightarrow> rat list \<Rightarrow> (string \<times> rat list) list \<Rightarrow> (string \<times> rat list) list" where
  "put_last key ts st = AList.delete key st @ [(key, ts)]"

text \<open>
  \<open>check_rate_limit\<close>: \<open>(is_allowed, remaining, retry_after)\<close> and the limiter. With a limit of
  zero or less and an empty window \<open>valid_timestamps[0]\<close> raises \<open>IndexError\<close>.
\<close>

definition check_rate_limit ::
    "rat \<Rightarrow> string \<Rightarrow> int \<Rightarrow> int \<Rightarrow> rate_limiter \<Rightarrow> (exc + bool \<times> int \<times> rat) \<times> rate_limiter" where
  "check_rate_limit now key max_requests window_seconds l =
     (let window_start = now - of_int window_seconds;
          st = evict_stale now window_seconds l;
          valid = filter (\<lambda>t. t > window_start) (dget st key [])
      in if int (length valid) \<ge> max_requests then
           (case valid of
              [] \<Rightarrow> (Inl (mk_Foreign ''IndexError'' ''list index out of range''), l\<lparr>rl_store := st\<rparr>)
            | earliest_event # _ \<Rightarrow>
                (Inr (False, 0, max (1/10) (py_round 2 (of_int window_seconds - (now - earliest_event)))),
                 l\<lparr>rl_store := put_last key valid st\<rparr>))
         else
           let valid' = valid @ [now] in
           (Inr (True, max 0 (max_requests - int (length valid')), 0),
            l\<lparr>rl_store := put_last key valid' st\<rparr>))"

section \<open>The route dependency\<close>

text \<open>\<open>str(int(retry_after) or 1)\<close>.\<close>

definition retry_header :: "rat \<Rightarrow> string" where
  "retry_header retry_after =
     (let n = (if retry_after < 0 then - \<lfloor>- retry_after\<rfloor> else \<lfloor>retry_after\<rfloor>)
      in show_int (if n = 0 then 1 else n))"

definition limit_headers :: "int \<Rightarrow> rat \<Rightarrow> (string \<times> string) list" where
  "limit_headers limit retry_after =
     [(''Retry-After'', retry_header retry_after), (''X-RateLimit-Limit'', show_int limit),
      (''X-RateLimit-Remaining'', ''0''), (''X-RateLimit-Reset'', retry_header retry_after)]"

text \<open>
  \<open>require_rate_limit(max_requests, window_seconds)\<close>; \<open>enabled\<close> and \<open>per_minute\<close> are the two
  settings it reads.
\<close>

definition require_rate_limit ::
    "int option \<Rightarrow> int \<Rightarrow> bool \<Rightarrow> int \<Rightarrow> rat \<Rightarrow> AuthenticatedIdentity \<Rightarrow> rate_limiter
     \<Rightarrow> (failure + AuthenticatedIdentity) \<times> rate_limiter" where
  "require_rate_limit max_requests window_seconds enabled per_minute now identity l =
     (if \<not> enabled then (Inr identity, l)
      else
        let limit = (case max_requests of None \<Rightarrow> per_minute | Some n \<Rightarrow> if n = 0 then per_minute else n);
            key = ''sub:'' @ id_subject_id identity
        in case check_rate_limit now key limit window_seconds l of
             (Inl e, l') \<Rightarrow> (Inl (Raised_exc e), l')
           | (Inr (is_allowed, remaining, retry_after), l') \<Rightarrow>
               if \<not> is_allowed then
                 (Inl (Http_Exception
                    \<lparr>hx_status_code = 429,
                     hx_detail = ''Rate limit exceeded. Try again in '' @ repr_float retry_after @ '' seconds.'',
                     hx_headers = limit_headers limit retry_after\<rparr>), l')
               else (Inr identity, l'))"

section \<open>Facts about the store\<close>

lemma map_of_put_last: "map_of (put_last k ts st) j = (if j = k then Some ts else map_of st j)"
  by (auto simp: put_last_def map_add_def split: option.splits)

lemma map_of_fold_delete:
  "map_of (fold AList.delete ks st) j = (if j \<in> set ks then None else map_of st j)"
  by (induction ks arbitrary: st) auto

text \<open>What is read from the store is not changed by the clean-up, except for idle keys.\<close>

lemma dget_evict:
  "distinct (dkeys (rl_store l)) \<Longrightarrow> dget (evict_stale now w l) j [] =
     (if length (rl_store l) > rl_max_keys l
         \<and> (let ts = dget (rl_store l) j [] in ts = [] \<or> last ts < now - of_int (w * 2))
      then [] else dget (rl_store l) j [])"
proof -
  assume d: "distinct (dkeys (rl_store l))"
  define c where "c = now - rat_of_int (w * 2)"
  let ?P = "\<lambda>(k :: string, ts). ts = [] \<or> last ts < c"
  have mem: "j \<in> set (map fst (filter ?P (rl_store l))) \<longleftrightarrow>
      (\<exists>ts. map_of (rl_store l) j = Some ts \<and> ?P (j, ts))"
    using d by (force simp: map_of_eq_Some_iff)
  show ?thesis
    unfolding evict_stale_def Let_def c_def[symmetric]
    by (cases "map_of (rl_store l) j") (auto simp: dget_def map_of_fold_delete mem simp del: set_map set_filter)
qed

lemma distinct_evict: "distinct (dkeys (rl_store l)) \<Longrightarrow> distinct (dkeys (evict_stale now w l))"
proof -
  have "distinct (dkeys st) \<Longrightarrow> distinct (dkeys (fold AList.delete ks st))" for ks and st :: "(string \<times> rat list) list"
    by (induction ks arbitrary: st) (auto simp: dkeys_delete)
  then show "distinct (dkeys (rl_store l)) \<Longrightarrow> ?thesis" by (simp add: evict_stale_def Let_def)
qed

lemma distinct_put_last: "distinct (dkeys st) \<Longrightarrow> distinct (dkeys (put_last k ts st))"
  by (simp add: put_last_def dkeys_delete)

section \<open>The window bound\<close>

text \<open>
  A history of calls with one limit and one window, in the order of the clock: for each key the
  times at which a call was admitted.
\<close>

type_synonym admitted = "string \<Rightarrow> rat list"

definition rl_call ::
    "int \<Rightarrow> int \<Rightarrow> rat \<times> string \<Rightarrow> rate_limiter \<times> admitted \<Rightarrow> rate_limiter \<times> admitted" where
  "rl_call n w c st =
     (case c of (now, key) \<Rightarrow>
        (case st of (l, A) \<Rightarrow>
           (case check_rate_limit now key n w l of
              (Inr (True, _, _), l') \<Rightarrow> (l', A(key := A key @ [now]))
            | (_, l') \<Rightarrow> (l', A))))"

definition rl_run :: "int \<Rightarrow> int \<Rightarrow> (rat \<times> string) list \<Rightarrow> nat \<Rightarrow> rate_limiter \<times> admitted" where
  "rl_run n w cs max_keys = fold (rl_call n w) cs (new_limiter max_keys, \<lambda>_. [])"

definition in_window :: "rat \<Rightarrow> rat \<Rightarrow> rat list \<Rightarrow> rat list" where
  "in_window a b ts = filter (\<lambda>t. a < t \<and> t \<le> b) ts"

definition newer :: "rat \<Rightarrow> rat list \<Rightarrow> rat list" where
  "newer a ts = filter (\<lambda>t. t > a) ts"

text \<open>
  The invariant at clock time \<open>now\<close>: the store agrees with the admitted times on the current
  window, and no window holds more than \<open>n\<close> of them.
\<close>

definition rl_inv :: "int \<Rightarrow> int \<Rightarrow> rat \<Rightarrow> rate_limiter \<times> admitted \<Rightarrow> bool" where
  "rl_inv n w now st \<longleftrightarrow>
     (case st of (l, A) \<Rightarrow>
        distinct (dkeys (rl_store l))
        \<and> (\<forall>k. newer (now - of_int w) (A k) = newer (now - of_int w) (dget (rl_store l) k [])
              \<and> sorted (dget (rl_store l) k []) \<and> (\<forall>t\<in>set (A k). t \<le> now)
              \<and> (\<forall>t\<in>set (dget (rl_store l) k []). t \<le> now)
              \<and> (\<forall>x. int (length (in_window x (x + of_int w) (A k))) \<le> max 0 n)))"

lemma newer_newer: "b \<le> a \<Longrightarrow> newer a (newer b ts) = newer a ts"
  by (auto simp: newer_def intro: filter_cong)

lemma newer_idle: "sorted ts \<Longrightarrow> (ts = [] \<or> last ts < c) \<Longrightarrow> c \<le> a \<Longrightarrow> newer a ts = []"
  by (induction ts rule: rev_induct) (force simp: newer_def filter_empty_conv sorted_append)+

lemma newer_evict:
  assumes "distinct (dkeys (rl_store l))" "sorted (dget (rl_store l) k [])" "0 \<le> w"
  shows "newer (now - of_int w) (dget (evict_stale now w l) k []) =
    newer (now - of_int w) (dget (rl_store l) k [])"
  using newer_idle[OF assms(2), of "now - of_int (w * 2)" "now - of_int w"] assms(3)
  by (simp add: dget_evict[OF assms(1)] Let_def newer_def)

lemma dget_evict_sub:
  "distinct (dkeys (rl_store l)) \<Longrightarrow>
   dget (evict_stale now w l) k [] = [] \<or> dget (evict_stale now w l) k [] = dget (rl_store l) k []"
  by (simp add: dget_evict)

lemma dget_put_last: "dget (put_last k ts st) j [] = (if j = k then ts else dget st j [])"
  by (simp add: dget_def map_of_put_last)

lemma in_window_snoc:
  assumes "\<forall>t\<in>set ts. t \<le> now" "a < now" "now \<le> a + v" "now - v \<le> a"
  shows "length (in_window a (a + v) ts) \<le> length (newer (now - v) ts)"
proof -
  have "in_window a (a + v) ts = filter (\<lambda>t. a < t \<and> t \<le> a + v) (newer (now - v) ts)"
    using assms(4) unfolding in_window_def newer_def filter_filter by (intro filter_cong) auto
  then show ?thesis by simp
qed

lemma rl_call_inv:
  assumes inv: "rl_inv n w now st" and le: "now \<le> now'" "0 \<le> w"
  shows "rl_inv n w now' (rl_call n w (now', key) st)"
proof -
  obtain l A where st: "st = (l, A)" by fastforce
  let ?a = "now' - rat_of_int w" and ?b = "now - rat_of_int w"
  let ?g = "\<lambda>k. dget (rl_store l) k []" and ?e = "\<lambda>k. dget (evict_stale now' w l) k []"
  have d: "distinct (dkeys (rl_store l))" using inv by (simp add: rl_inv_def st)
  have old: "newer ?b (A k) = newer ?b (?g k)" "sorted (?g k)" "\<forall>t\<in>set (A k). t \<le> now"
    "\<forall>t\<in>set (?g k). t \<le> now" "int (length (in_window x (x + of_int w) (A k))) \<le> max 0 n" for k x
    using inv by (auto simp: rl_inv_def st)
  have le': "t \<le> now'" if "t \<le> now" for t using that le(1) by simp
  have ev: "newer ?a (?e k) = newer ?a (A k)" for k
    using newer_evict[OF d old(2) le(2), of now' k] old(1)[of k] newer_newer[of ?b ?a] le(1)
    by (metis diff_right_mono)
  have ev_s: "sorted (?e k)" and ev_le: "\<forall>t\<in>set (?e k). t \<le> now'" for k
    using dget_evict_sub[OF d, of now' w k] old(2,4)[of k] le' by auto
  have sub: "sorted (newer a ts)" "set (newer a ts) \<subseteq> set ts" if "sorted ts" for a and ts :: "rat list"
    using that by (auto simp: newer_def sorted_wrt_filter)
  have A_le: "\<forall>t\<in>set (A k). t \<le> now'" for k using old(3) le' by blast
  let ?v = "newer ?a (?e key)"
  note dist = distinct_put_last[OF distinct_evict[OF d]]
  note call = st rl_call_def check_rate_limit_def Let_def newer_def[symmetric]
  show ?thesis
  proof (cases "int (length ?v) \<ge> n")
    case full: True
    then show ?thesis
    proof (cases ?v)
      case Nil
      then show ?thesis using full ev ev_s ev_le A_le old(5) distinct_evict[OF d]
        by (simp add: call rl_inv_def)
    next
      case (Cons t ts)
      have k: "newer ?a (t # ts) = t # ts" using newer_newer[of ?a ?a "?e key"] Cons by simp
      have "sorted (t # ts)" "\<forall>u\<in>set (t # ts). u \<le> now'"
        using sub[OF ev_s, of ?a key] ev_le[of key] unfolding Cons by blast+
      then show ?thesis using full Cons ev[of key] ev ev_s ev_le A_le old(5) dist k
        by (simp add: call rl_inv_def dget_put_last)
    qed
  next
    case room: False
    have "int (length (in_window x (x + of_int w) (A key @ [now']))) \<le> max 0 n" for x
    proof (cases "x < now' \<and> now' \<le> x + of_int w")
      case True
      then have "length (in_window x (x + of_int w) (A key)) \<le> length (newer ?a (A key))"
        by (intro in_window_snoc A_le) auto
      moreover have "in_window x (x + of_int w) (A key @ [now']) = in_window x (x + of_int w) (A key) @ [now']"
        using True by (simp add: in_window_def)
      ultimately show ?thesis using room ev[of key] by simp
    next
      case False
      then have "in_window x (x + of_int w) (A key @ [now']) = in_window x (x + of_int w) (A key)"
        by (auto simp: in_window_def)
      then show ?thesis using old(5) by simp
    qed
    moreover have "newer ?a (A key @ [now']) = newer ?a (?v @ [now'])"
      using newer_newer[of ?a ?a "?e key"] ev[of key] by (simp add: newer_def)
    moreover have "sorted (?v @ [now'])" "\<forall>t\<in>set (?v @ [now']). t \<le> now'"
      using sub[OF ev_s, of ?a key] ev_le[of key] by (auto simp: sorted_append)
    ultimately show ?thesis using room ev ev_s ev_le A_le old(5) dist
      by (simp add: call rl_inv_def dget_put_last)
  qed
qed

lemma rl_inv_start: "rl_inv n w now (new_limiter m, \<lambda>_. [])"
  by (simp add: rl_inv_def new_limiter_def dget_def in_window_def)

lemma rl_run_inv:
  "rl_inv n w now st \<Longrightarrow> sorted (now # map fst cs) \<Longrightarrow> 0 \<le> w \<Longrightarrow> \<exists>t. rl_inv n w t (fold (rl_call n w) cs st)"
proof (induction cs arbitrary: now st)
  case (Cons c cs)
  obtain t k where c: "c = (t, k)" by fastforce
  have "rl_inv n w t (rl_call n w c st)" using rl_call_inv[of n w now st t k] Cons.prems c by simp
  then show ?case using Cons.IH[of t "rl_call n w c st"] Cons.prems c by simp
qed auto

section \<open>The clean-up is not observable\<close>

fun rl_outcomes ::
    "int \<Rightarrow> int \<Rightarrow> (rat \<times> string) list \<Rightarrow> rate_limiter \<Rightarrow> (exc + bool \<times> int \<times> rat) list" where
  "rl_outcomes n w [] l = []"
| "rl_outcomes n w ((now, key) # cs) l =
     (case check_rate_limit now key n w l of (r, l') \<Rightarrow> r # rl_outcomes n w cs l')"

definition rl_agree :: "rat \<Rightarrow> int \<Rightarrow> rate_limiter \<Rightarrow> rate_limiter \<Rightarrow> bool" where
  "rl_agree now w l1 l2 \<longleftrightarrow>
     distinct (dkeys (rl_store l1)) \<and> distinct (dkeys (rl_store l2))
     \<and> (\<forall>k. newer (now - of_int w) (dget (rl_store l1) k []) = newer (now - of_int w) (dget (rl_store l2) k [])
          \<and> sorted (dget (rl_store l1) k []) \<and> sorted (dget (rl_store l2) k [])
          \<and> (\<forall>t\<in>set (dget (rl_store l1) k []) \<union> set (dget (rl_store l2) k []). t \<le> now))"

text \<open>The result depends on the current window of the called key only.\<close>

definition rl_decide :: "rat \<Rightarrow> int \<Rightarrow> int \<Rightarrow> rat list \<Rightarrow> (exc + bool \<times> int \<times> rat) \<times> rat list option" where
  "rl_decide now n w valid =
     (if int (length valid) \<ge> n then
        (case valid of
           [] \<Rightarrow> (Inl (mk_Foreign ''IndexError'' ''list index out of range''), None)
         | e # _ \<Rightarrow> (Inr (False, 0, max (1/10) (py_round 2 (of_int w - (now - e)))), Some valid))
      else (Inr (True, max 0 (n - int (length (valid @ [now]))), 0), Some (valid @ [now])))"

lemma check_decide:
  "check_rate_limit now key n w l =
     (let st = evict_stale now w l; d = rl_decide now n w (newer (now - of_int w) (dget st key []))
      in (fst d, l\<lparr>rl_store := (case snd d of None \<Rightarrow> st | Some ts \<Rightarrow> put_last key ts st)\<rparr>))"
  by (simp add: check_rate_limit_def rl_decide_def newer_def[symmetric] Let_def split: list.split)

lemma rl_decide_sub:
  "snd (rl_decide now n w valid) = Some ts \<Longrightarrow> ts = valid \<or> ts = valid @ [now]"
  by (auto simp: rl_decide_def split: if_splits list.splits)

lemma rl_agree_step:
  assumes ag: "rl_agree now w l1 l2" and le: "now \<le> now'" "0 \<le> w"
  shows "fst (check_rate_limit now' key n w l1) = fst (check_rate_limit now' key n w l2)
    \<and> rl_agree now' w (snd (check_rate_limit now' key n w l1)) (snd (check_rate_limit now' key n w l2))"
proof -
  let ?a = "now' - rat_of_int w" and ?b = "now - rat_of_int w"
  let ?st = "\<lambda>l. evict_stale now' w l"
  let ?d = "\<lambda>l. rl_decide now' n w (newer ?a (dget (?st l) key []))"
  have dist: "distinct (dkeys (rl_store l1))" "distinct (dkeys (rl_store l2))"
    and eq: "newer ?b (dget (rl_store l1) k []) = newer ?b (dget (rl_store l2) k [])"
    and so: "sorted (dget (rl_store l1) k [])" "sorted (dget (rl_store l2) k [])"
    and up: "\<forall>t\<in>set (dget (rl_store l1) k []) \<union> set (dget (rl_store l2) k []). t \<le> now" for k
    using ag by (auto simp: rl_agree_def)
  have ev: "newer ?a (dget (?st l1) k []) = newer ?a (dget (?st l2) k [])" for k
    using newer_evict[OF dist(1) so(1) le(2), of now' k] newer_evict[OF dist(2) so(2) le(2), of now' k]
      eq[of k] newer_newer[of ?b ?a] le(1) by (metis diff_right_mono)
  have so': "sorted (dget (?st l1) k [])" "sorted (dget (?st l2) k [])" for k
    using dget_evict_sub[OF dist(1), of now' w k] dget_evict_sub[OF dist(2), of now' w k] so[of k] by auto
  have up': "\<forall>t\<in>set (dget (?st l1) k []) \<union> set (dget (?st l2) k []). t \<le> now'" for k
    using dget_evict_sub[OF dist(1), of now' w k] dget_evict_sub[OF dist(2), of now' w k] up[of k]
    by (elim disjE) (auto intro: order_trans[OF _ le(1)])
  have d: "?d l1 = ?d l2" by (simp only: ev)
  have new: "sorted ts \<and> (\<forall>t\<in>set ts. t \<le> now')" if "snd (?d l2) = Some ts" for ts
    using rl_decide_sub[OF that] so'(2)[of key] up'[of key]
    by (auto simp: newer_def sorted_wrt_filter sorted_append)
  have "rl_agree now' w (l1\<lparr>rl_store := (case snd (?d l2) of None \<Rightarrow> ?st l1 | Some ts \<Rightarrow> put_last key ts (?st l1))\<rparr>)
      (l2\<lparr>rl_store := (case snd (?d l2) of None \<Rightarrow> ?st l2 | Some ts \<Rightarrow> put_last key ts (?st l2))\<rparr>)"
    using ev so' up' new distinct_evict[OF dist(1), of now' w] distinct_evict[OF dist(2), of now' w]
    by (auto simp: rl_agree_def dget_put_last distinct_put_last split: option.split)
  then show ?thesis unfolding check_decide Let_def d by simp
qed

lemma rl_outcomes_agree:
  "rl_agree now w l1 l2 \<Longrightarrow> sorted (now # map fst cs) \<Longrightarrow> 0 \<le> w \<Longrightarrow>
   rl_outcomes n w cs l1 = rl_outcomes n w cs l2"
proof (induction cs arbitrary: now l1 l2)
  case (Cons c cs)
  obtain t k where c: "c = (t, k)" by fastforce
  have "now \<le> t" "sorted (t # map fst cs)" using Cons.prems(2) c by auto
  then show ?case using rl_agree_step[OF Cons.prems(1), of t k n] Cons.IH[of t] Cons.prems(3) c
    by (simp add: case_prod_beta)
qed simp

section \<open>Waiting helps\<close>

lemma py_round_error: "\<bar>py_round n q - q\<bar> \<le> 1 / (2 * 10 ^ n)"
proof -
  let ?s = "10 ^ n :: rat"
  define x where "x = q * ?s"
  define r where "r = (let f = \<lfloor>x\<rfloor>; d = x - of_int f in
      if d < 1/2 then f else if d > 1/2 then f + 1 else if even f then f else f + 1)"
  have "of_int \<lfloor>x\<rfloor> \<le> x" "x < of_int \<lfloor>x\<rfloor> + 1" by linarith+
  moreover have "r = \<lfloor>x\<rfloor> \<and> x - of_int \<lfloor>x\<rfloor> \<le> 1/2 \<or> r = \<lfloor>x\<rfloor> + 1 \<and> 1/2 \<le> x - of_int \<lfloor>x\<rfloor>"
    by (auto simp: r_def Let_def)
  ultimately have half: "\<bar>of_int r - x\<bar> \<le> 1/2"
    by (elim disjE conjE; simp only: of_int_add of_int_1 abs_le_iff; linarith)
  have "py_round n q - q = (of_int r - x) / ?s"
    by (simp add: py_round_def r_def x_def Let_def diff_divide_distrib)
  then have "\<bar>py_round n q - q\<bar> = \<bar>of_int r - x\<bar> / ?s"
    by (simp add: abs_divide)
  moreover note half divide_right_mono[of "\<bar>of_int r - x\<bar>" "1/2" ?s]
  ultimately show ?thesis by (simp add: mult.commute)
qed

section \<open>Properties\<close>

text \<open>C15: with the clock running forward, no key is ever admitted more than \<open>max_requests\<close> times
  within any window of the configured length, wherever the window starts and whatever the clean-up
  of idle keys removes.\<close>

theorem window_never_exceeded:
  assumes "sorted (map fst cs)" "0 \<le> w"
  shows "int (length (in_window x (x + of_int w) (snd (rl_run n w cs max_keys) key))) \<le> max 0 n"
proof (cases cs)
  case Nil
  then show ?thesis by (simp add: rl_run_def in_window_def)
next
  case (Cons c cs')
  then have "sorted (fst c # map fst cs)" using assms(1) by simp
  from rl_run_inv[OF rl_inv_start this assms(2)] obtain t
    where "rl_inv n w t (rl_run n w cs max_keys)" unfolding rl_run_def by blast
  then show ?thesis by (cases "rl_run n w cs max_keys") (simp add: rl_inv_def)
qed

theorem window_never_exceeded_witness:
  "int (length (in_window 0 (0 + of_int 60) (snd (rl_run 2 60 [(1, ''k''), (2, ''k''), (3, ''k'')] 10) ''k''))) \<le> max 0 2"
  by (rule window_never_exceeded) simp_all

text \<open>The clean-up only saves memory: with one window for all calls, two limiters that differ in
  the number of keys they may keep answer every sequence of calls alike.\<close>

theorem eviction_unobservable:
  assumes "sorted (map fst cs)" "0 \<le> w"
  shows "rl_outcomes n w cs (new_limiter m1) = rl_outcomes n w cs (new_limiter m2)"
proof (cases cs)
  case (Cons c cs')
  then have "sorted (fst c # map fst cs)" using assms(1) by simp
  moreover have "rl_agree (fst c) w (new_limiter m1) (new_limiter m2)"
    by (simp add: rl_agree_def new_limiter_def dget_def)
  ultimately show ?thesis using rl_outcomes_agree assms(2) by blast
qed simp

theorem eviction_unobservable_witness:
  "rl_outcomes 1 60 [(1, ''a''), (2, ''b''), (200, ''a'')] (new_limiter 0)
     = rl_outcomes 1 60 [(1, ''a''), (2, ''b''), (200, ''a'')] (new_limiter 10)"
  by (rule eviction_unobservable) simp_all

text \<open>A refused caller that waits for the announced time, plus the rounding error of at most
  half a hundredth of a second, is admitted when it alone uses its key.\<close>

theorem waiting_readmits:
  assumes "check_rate_limit now key n w l = (Inr (False, rem, retry), l')"
    and "distinct (dkeys (rl_store l))" "int (length (dget (rl_store l) key [])) \<le> n"
    and "sorted (dget (rl_store l) key [])" "now + retry + 1/200 \<le> now'" "0 \<le> w"
  shows "\<exists>rem' l''. check_rate_limit now' key n w l' = (Inr (True, rem', 0), l'')"
proof -
  let ?st = "evict_stale now w l"
  define valid where "valid = newer (now - of_int w) (dget ?st key [])"
  obtain e es where v: "valid = e # es" and full: "int (length valid) \<ge> n"
    and r: "retry = max (1/10) (py_round 2 (of_int w - (now - e)))"
    and l': "l' = l\<lparr>rl_store := put_last key valid ?st\<rparr>"
    using assms(1) unfolding check_decide Let_def valid_def[symmetric] rl_decide_def
    by (auto split: if_splits list.splits)
  have "length valid \<le> length (dget (rl_store l) key [])"
    using dget_evict_sub[OF assms(2), of now w key] by (auto simp: valid_def newer_def)
  then have len: "int (length valid) = n" using full assms(3) by simp
  have "py_round 2 (of_int w - (now - e)) \<ge> of_int w - (now - e) - 1/200"
  proof -
    have "\<bar>py_round 2 (of_int w - (now - e)) - (of_int w - (now - e))\<bar> \<le> 1/200"
      using py_round_error[of 2 "of_int w - (now - e)"] by simp
    then show ?thesis unfolding abs_le_iff by linarith
  qed
  then have "e \<le> now' - of_int w" using assms(5) r by linarith
  then have short: "length (newer (now' - of_int w) valid) < length valid"
    using v by (simp add: newer_def less_Suc_eq_le)
  have d': "distinct (dkeys (rl_store l'))"
    using distinct_put_last[OF distinct_evict[OF assms(2)]] by (simp add: l')
  have "dget (rl_store l') key [] = valid" by (simp add: l' dget_put_last)
  then have "int (length (newer (now' - of_int w) (dget (evict_stale now' w l') key []))) < n"
    using dget_evict_sub[OF d', of now' w key] short len by (auto simp: newer_def v)
  then show ?thesis by (simp add: check_decide rl_decide_def Let_def)
qed

definition example_limiter :: rate_limiter where
  "example_limiter = \<lparr>rl_max_keys = 5, rl_store = [(''k'', [100])]\<rparr>"

theorem waiting_readmits_witness:
  "\<exists>rem' l''. check_rate_limit 161 ''k'' 1 60
      (snd (check_rate_limit 110 ''k'' 1 60 example_limiter)) = (Inr (True, rem', 0), l'')"
proof -
  have refused: "check_rate_limit 110 ''k'' 1 60 example_limiter =
      (Inr (False, 0, 50), snd (check_rate_limit 110 ''k'' 1 60 example_limiter))"
    by (simp add: check_rate_limit_def example_limiter_def evict_stale_def put_last_def dget_def py_round_def Let_def)
  show ?thesis
    by (rule waiting_readmits[OF refused]) (simp_all add: example_limiter_def dget_def)
qed

end
