(* ===== verification/Plan_Graph.thy ===== *)
theory Plan_Graph
  imports Core_State
begin

text \<open>
  Plan validation: \<open>PlannerAgent.validate_plan_dag\<close> of \<open>agents/planner.py\<close>. The work-list loop of
  Kahn's algorithm is a \<open>while_option\<close> over the queue, the counter of visited nodes and the
  in-degree table; it is proved to stop and to count all nodes exactly when the dependency
  relation is acyclic. The plan scorer of \<open>evaluation/scorers/planning.py\<close> runs the same loop.
\<close>

section \<open>Kahn's algorithm\<close>

text \<open>An edge \<open>(d, t)\<close> says that \<open>t\<close> depends on \<open>d\<close>.\<close>

type_synonym edges = "(string \<times> string) list"

type_synonym degrees = "string \<Rightarrow> int"

text \<open>
  \<open>in_degree\<close> and \<open>dependents\<close> after the two nested loops over tasks and their dependencies, one
  edge at a time.
\<close>

definition add_edge ::
    "string \<times> string \<Rightarrow> (string \<Rightarrow> string list) \<times> degrees \<Rightarrow> (string \<Rightarrow> string list) \<times> degrees" where
  "add_edge e acc =
     (case (e, acc) of ((dep, t), (dependents, in_degree)) \<Rightarrow>
        (dependents(dep := dependents dep @ [t]), in_degree(t := in_degree t + 1)))"

definition build_graph :: "edges \<Rightarrow> (string \<Rightarrow> string list) \<times> degrees" where
  "build_graph es = fold add_edge es (\<lambda>_. [], \<lambda>_. 0)"

text \<open>\<open>for nxt in dependents[node]\<close>: decrement, and enqueue what reaches zero.\<close>

fun relax :: "string list \<Rightarrow> degrees \<Rightarrow> string list \<Rightarrow> degrees \<times> string list" where
  "relax [] in_degree queue = (in_degree, queue)"
| "relax (nxt # rest) in_degree queue =
     (let in_degree' = in_degree(nxt := in_degree nxt - 1)
      in relax rest in_degree' (if in_degree' nxt = 0 then queue @ [nxt] else queue))"

type_synonym kahn_state = "string list \<times> nat \<times> degrees"

definition kahn_body :: "(string \<Rightarrow> string list) \<Rightarrow> kahn_state \<Rightarrow> kahn_state" where
  "kahn_body dependents st =
     (case st of (queue, visited_count, in_degree) \<Rightarrow>
        (case relax (dependents (hd queue)) in_degree (tl queue) of
           (in_degree', queue') \<Rightarrow> (queue', Suc visited_count, in_degree')))"

definition kahn_pending :: "kahn_state \<Rightarrow> bool" where
  "kahn_pending st \<longleftrightarrow> fst st \<noteq> []"

definition kahn_start :: "string list \<Rightarrow> degrees \<Rightarrow> kahn_state" where
  "kahn_start ids in_degree = (filter (\<lambda>i. in_degree i = 0) ids, 0, in_degree)"

definition kahn_visited :: "string list \<Rightarrow> edges \<Rightarrow> nat" where
  "kahn_visited ids es =
     (case build_graph es of (dependents, in_degree) \<Rightarrow>
        fst (snd (while kahn_pending (kahn_body dependents) (kahn_start ids in_degree))))"

section \<open>What the loop computes\<close>

definition outs :: "edges \<Rightarrow> string \<Rightarrow> string list" where
  "outs es d = map snd (filter (\<lambda>e. fst e = d) es)"

definition indeg_except :: "edges \<Rightarrow> string set \<Rightarrow> string \<Rightarrow> nat" where
  "indeg_except es V t = length (filter (\<lambda>e. snd e = t \<and> fst e \<notin> V) es)"

lemma build_graph_eq: "build_graph es = (outs es, \<lambda>t. int (indeg_except es {} t))"
proof -
  have "fold add_edge es (f, g) =
      (\<lambda>d. f d @ outs es d, \<lambda>t. g t + int (indeg_except es {} t))" for f g
    by (induction es arbitrary: f g) (auto simp: add_edge_def outs_def indeg_except_def fun_eq_iff)
  then show ?thesis by (simp add: build_graph_def)
qed

lemma indeg_except_insert:
  "d \<notin> V \<Longrightarrow> indeg_except es (insert d V) t + count_list (outs es d) t = indeg_except es V t"
  by (induction es) (auto simp: indeg_except_def outs_def)

lemma indeg_except_0_iff:
  "indeg_except es V t = 0 \<longleftrightarrow> (\<forall>d. (d, t) \<in> set es \<longrightarrow> d \<in> V)"
  by (induction es) (auto simp: indeg_except_def)

text \<open>The inner loop: every successor is decremented once per edge, and enqueued at zero.\<close>

lemma relax_spec:
  assumes "\<forall>t. int (count_list ns t) \<le> g t"
  shows "\<exists>new. relax ns g q = (\<lambda>t. g t - int (count_list ns t), q @ new)
           \<and> distinct new \<and> set new = {t \<in> set ns. g t = int (count_list ns t)}"
  using assms
proof (induction ns arbitrary: g q)
  case Nil
  then show ?case by auto
next
  case (Cons n ns)
  let ?g = "g(n := g n - 1)"
  let ?q = "if ?g n = 0 then q @ [n] else q"
  have pre: "\<forall>t. int (count_list ns t) \<le> ?g t"
    using Cons.prems by (smt (verit) count_list.simps(2) fun_upd_apply of_nat_1 of_nat_add)
  from Cons.IH[OF pre, of ?q] obtain new where
    new: "relax ns ?g ?q = (\<lambda>t. ?g t - int (count_list ns t), ?q @ new)"
      "distinct new" "set new = {t \<in> set ns. ?g t = int (count_list ns t)}" by blast
  have step: "relax (n # ns) g q = relax ns ?g ?q" by (simp add: Let_def)
  have table: "(\<lambda>t. ?g t - int (count_list ns t)) = (\<lambda>t. g t - int (count_list (n # ns) t))"
    by (rule ext) simp
  note run = step[unfolded new(1) table]
  have cn: "int (count_list ns n) \<le> g n - 1" using pre by (metis fun_upd_same)
  show ?case
  proof (cases "g n = 1")
    case True
    with cn have "n \<notin> set ns" by (auto simp: count_list_0_iff)
    then have "relax (n # ns) g q = (\<lambda>t. g t - int (count_list (n # ns) t), q @ n # new)"
      using run True by simp
    moreover have "distinct (n # new)" using new(2,3) \<open>n \<notin> set ns\<close> by auto
    moreover have "t \<in> set (n # new) \<longleftrightarrow> t \<in> set (n # ns) \<and> g t = int (count_list (n # ns) t)" for t
      using True \<open>n \<notin> set ns\<close> by (cases "t = n") (simp_all add: new(3) count_notin)
    ultimately show ?thesis by blast
  next
    case False
    then have "relax (n # ns) g q = (\<lambda>t. g t - int (count_list (n # ns) t), q @ new)"
      using run by simp
    moreover have "t \<in> set new \<longleftrightarrow> t \<in> set (n # ns) \<and> g t = int (count_list (n # ns) t)" for t
    proof (cases "t = n")
      case t: True
      show ?thesis
        using False by (cases "n \<in> set ns") (simp_all add: t new(3) count_notin algebra_simps)
    qed (simp add: new(3))
    ultimately show ?thesis using new(2) by blast
  qed
qed

text \<open>
  The loop invariant: with \<open>vis\<close> the nodes dequeued so far, the table holds the in-degrees
  without the edges out of \<open>vis\<close>, and exactly the nodes of degree zero have been enqueued.
\<close>

definition topo :: "edges \<Rightarrow> string list \<Rightarrow> bool" where
  "topo es vis \<longleftrightarrow> (\<forall>i < length vis. \<forall>d. (d, vis ! i) \<in> set es \<longrightarrow> d \<in> set (take i vis))"

lemma topo_Nil [simp]: "topo es []"
  by (simp add: topo_def)

lemma topo_snoc:
  "topo es vis \<Longrightarrow> (\<And>d. (d, n) \<in> set es \<Longrightarrow> d \<in> set vis) \<Longrightarrow> topo es (vis @ [n])"
  by (auto simp: topo_def nth_append less_Suc_eq)

lemma topo_acyclic:
  assumes topo: "topo es vis" and dist: "distinct vis" and nodes: "snd ` set es \<subseteq> set vis"
  shows "acyclic (set es)"
proof -
  let ?R = "{(vis ! j, vis ! i) | j i. j < i \<and> i < length vis}"
  have "trans ?R"
    by (rule transI) (force simp: nth_eq_iff_index_eq[OF dist])
  moreover have "irrefl ?R"
    by (auto simp: irrefl_def nth_eq_iff_index_eq[OF dist])
  ultimately have "acyclic ?R"
    by (simp add: acyclic_irrefl trancl_id)
  moreover have "set es \<subseteq> ?R"
  proof
    fix e assume e: "e \<in> set es"
    then have "snd e \<in> set vis" using nodes by auto
    then obtain i where i: "i < length vis" "vis ! i = snd e" by (auto simp: in_set_conv_nth)
    then have "fst e \<in> set (take i vis)" using topo e by (cases e) (auto simp: topo_def)
    then obtain j where "j < i" "vis ! j = fst e" using i(1) by (auto simp: in_set_conv_nth)
    with i show "e \<in> ?R" by (cases e) force
  qed
  ultimately show ?thesis by (rule acyclic_subset)
qed

definition kahn_inv :: "string list \<Rightarrow> edges \<Rightarrow> string list \<Rightarrow> kahn_state \<Rightarrow> bool" where
  "kahn_inv ids es vis st =
     (case st of (queue, visited_count, in_degree) \<Rightarrow>
        visited_count = length vis
        \<and> topo es vis
        \<and> distinct (vis @ queue)
        \<and> set (vis @ queue) = {t \<in> set ids. indeg_except es (set vis) t = 0}
        \<and> in_degree = (\<lambda>t. int (indeg_except es (set vis) t)))"

lemma kahn_inv_init:
  assumes "distinct ids" "build_graph es = (dependents, in_degree)"
  shows "kahn_inv ids es [] (filter (\<lambda>i. in_degree i = 0) ids, 0, in_degree)"
  using assms by (auto simp: kahn_inv_def build_graph_eq)

lemma kahn_inv_step:
  assumes inv: "kahn_inv ids es vis st" and st: "fst st \<noteq> []"
    and nodes: "snd ` set es \<subseteq> set ids"
  shows "kahn_inv ids es (vis @ [hd (fst st)]) (kahn_body (outs es) st)"
proof -
  obtain n q c g where st_eq: "st = (n # q, c, g)"
    using st by (cases st; cases "fst st") auto
  have c: "c = length vis" and dist: "distinct (vis @ n # q)"
    and sets: "set (vis @ n # q) = {t \<in> set ids. indeg_except es (set vis) t = 0}"
    and g: "g = (\<lambda>t. int (indeg_except es (set vis) t))"
    using inv by (auto simp: kahn_inv_def st_eq)
  have n: "n \<notin> set vis" using dist by auto
  note step = indeg_except_insert[OF n, of es]
  have le: "\<forall>t. int (count_list (outs es n) t) \<le> g t"
    using step by (auto simp: g) (metis le_add2)
  obtain new where new: "relax (outs es n) g q = (\<lambda>t. g t - int (count_list (outs es n) t), q @ new)"
      "distinct new" "set new = {t \<in> set (outs es n). g t = int (count_list (outs es n) t)}"
    using relax_spec[OF le] by blast
  have deg: "(\<lambda>t. g t - int (count_list (outs es n) t)) =
      (\<lambda>t. int (indeg_except es (insert n (set vis)) t))"
    using step by (auto simp: g fun_eq_iff algebra_simps simp flip: of_nat_add)
  have new_set: "set new = {t \<in> set (outs es n). indeg_except es (insert n (set vis)) t = 0}"
    using new(3) step by (auto simp: g) (metis add_eq_self_zero add.commute, metis add_0)
  have pos: "indeg_except es (set vis) t \<noteq> 0" if "t \<in> set (outs es n)" for t
    using that n unfolding indeg_except_0_iff by (auto simp: outs_def)
  have outs_ids: "set (outs es n) \<subseteq> set ids" using nodes by (auto simp: outs_def)
  have same: "indeg_except es (insert n (set vis)) t = indeg_except es (set vis) t"
    if "t \<notin> set (outs es n)" for t
    using step[of t] that by (simp add: count_notin)
  have "set (vis @ n # q) \<union> set new = {t \<in> set ids. indeg_except es (insert n (set vis)) t = 0}"
    (is "?l = ?r")
  proof (rule set_eqI)
    fix t show "t \<in> ?l \<longleftrightarrow> t \<in> ?r"
      unfolding sets new_set using same[of t] pos[of t] outs_ids by (cases "t \<in> set (outs es n)") auto
  qed
  moreover have "set (vis @ n # q) \<inter> set new = {}"
    unfolding sets new_set by (auto dest: pos)
  moreover have "topo es (vis @ [n])"
    using inv sets unfolding kahn_inv_def st_eq
    by (auto intro!: topo_snoc simp: indeg_except_0_iff)
  ultimately show ?thesis
    using new(1,2) dist c by (auto simp: kahn_inv_def st_eq kahn_body_def deg)
qed

lemma kahn_loop:
  assumes ids: "distinct ids" and nodes: "snd ` set es \<subseteq> set ids"
    and bg: "build_graph es = (dependents, in_degree)"
  obtains vis st where
    "while_option kahn_pending (kahn_body dependents) (kahn_start ids in_degree) = Some st"
    "kahn_inv ids es vis st" "fst st = []"
proof -
  have dep: "dependents = outs es" using bg by (simp add: build_graph_eq)
  let ?s = "kahn_start ids in_degree"
  let ?P = "\<lambda>st. \<exists>vis. kahn_inv ids es vis st"
  have step: "?P (kahn_body dependents s)" if "?P s" "kahn_pending s" for s
    using that kahn_inv_step[OF _ _ nodes] by (fastforce simp: dep kahn_pending_def)
  have meas: "length ids - fst (snd (kahn_body dependents s)) < length ids - fst (snd s)"
    if P: "?P s" and b: "kahn_pending s" for s
  proof -
    obtain n q c g where s: "s = (n # q, c, g)"
      using b unfolding kahn_pending_def by (cases s; cases "fst s") auto
    obtain vis where "kahn_inv ids es vis s" using P by blast
    then have "c = length vis" "distinct (vis @ n # q)" "set (vis @ n # q) \<subseteq> set ids"
      by (auto simp: kahn_inv_def s)
    then have "length (vis @ n # q) \<le> length ids" "c = length vis"
      by (metis distinct_card card_length card_mono List.finite_set le_trans)+
    then show ?thesis by (auto simp: s kahn_body_def split: prod.splits)
  qed
  have init: "?P ?s" using kahn_inv_init[OF ids bg] unfolding kahn_start_def by blast
  obtain t where t: "while_option kahn_pending (kahn_body dependents) ?s = Some t"
    using measure_while_option_Some[where P = ?P and b = kahn_pending and c = "kahn_body dependents"
        and f = "\<lambda>s. length ids - fst (snd s)", OF _ init] step meas by blast
  have "?P t"
    by (rule while_option_rule[where P = ?P, OF _ t init]) (blast intro: step)
  moreover have "fst t = []"
    using while_option_stop[OF t] by (simp add: kahn_pending_def)
  ultimately show ?thesis using that t by blast
qed

lemma kahn_visitedE:
  assumes ids: "distinct ids" and nodes: "snd ` set es \<subseteq> set ids"
  obtains vis where "kahn_visited ids es = length vis" "distinct vis" "topo es vis"
    "set vis = {t \<in> set ids. indeg_except es (set vis) t = 0}"
proof -
  obtain dependents deg where bg: "build_graph es = (dependents, deg)" by fastforce
  obtain vis st where "while_option kahn_pending (kahn_body dependents) (kahn_start ids deg) = Some st"
      "kahn_inv ids es vis st" "fst st = []"
    using kahn_loop[OF assms bg] .
  then show ?thesis
    using bg that by (cases st) (auto simp: kahn_visited_def while_def kahn_inv_def)
qed

text \<open>All nodes are counted exactly when the edges have no cycle.\<close>

lemma kahn_visited_le:
  assumes "distinct ids" "snd ` set es \<subseteq> set ids"
  shows "kahn_visited ids es \<le> length ids"
proof -
  obtain vis where "kahn_visited ids es = length vis" "distinct vis" "set vis \<subseteq> set ids"
    using kahn_visitedE[OF assms] by (metis (no_types, lifting) mem_Collect_eq subsetI)
  then show ?thesis
    by (metis distinct_card card_length card_mono List.finite_set le_trans)
qed

lemma kahn_visited_acyclic:
  assumes ids: "distinct ids" and nodes: "snd ` set es \<subseteq> set ids" "fst ` set es \<subseteq> set ids"
  shows "kahn_visited ids es = length ids \<longleftrightarrow> acyclic (set es)"
proof -
  obtain vis where vis: "kahn_visited ids es = length vis" "distinct vis" "topo es vis"
      "set vis = {t \<in> set ids. indeg_except es (set vis) t = 0}"
    using kahn_visitedE[OF ids nodes(1)] .
  have sub: "set vis \<subseteq> set ids" using vis(4) by auto
  then have all: "length vis = length ids \<longleftrightarrow> set vis = set ids"
    using vis(2) ids by (metis List.finite_set card_subset_eq distinct_card)
  have "set vis = set ids \<longleftrightarrow> acyclic (set es)"
  proof
    assume full: "set vis = set ids"
    then show "acyclic (set es)" using topo_acyclic[OF vis(3,2)] nodes(1) by simp
  next
    assume "acyclic (set es)"
    then have wf: "wf (set es)" by (simp add: finite_acyclic_wf)
    show "set vis = set ids"
    proof (rule ccontr)
      assume "set vis \<noteq> set ids"
      then have "set ids - set vis \<noteq> {}" using sub by auto
      then obtain t where t: "t \<in> set ids - set vis" "\<And>d. (d, t) \<in> set es \<Longrightarrow> d \<notin> set ids - set vis"
        using wf by (metis wf_eq_minimal ex_in_conv)
      then have "indeg_except es (set vis) t = 0"
        using nodes(2) unfolding indeg_except_0_iff by force
      then show False using t vis(4) by auto
    qed
  qed
  then show ?thesis using vis(1) all by simp
qed

section \<open>Validating a plan (agents/planner.py)\<close>

record PlannedTaskItem =
  pt_id :: string
  pt_title :: string
  pt_description :: string
  pt_task_type :: TaskType
  pt_assigned_agent :: AgentRole
  pt_dependencies :: "string list"
  pt_input_data :: dict

record PlannedDecompositionSchema =
  pd_rationale :: string
  pd_tasks :: "PlannedTaskItem list"

text \<open>\<open>[x for x in task_ids if x in seen or seen.add(x)]\<close>.\<close>

fun duplicates_of :: "string list \<Rightarrow> string list \<Rightarrow> string list" where
  "duplicates_of seen [] = []"
| "duplicates_of seen (x # xs) =
     (if x \<in> set seen then x # duplicates_of seen xs else duplicates_of (x # seen) xs)"

fun check_references :: "string list \<Rightarrow> PlannedTaskItem list \<Rightarrow> exc option" where
  "check_references ids [] = None"
| "check_references ids (t # ts) =
     (if pt_id t \<in> set (pt_dependencies t)
      then Some (mk_ValidationError
        (''Task '' @ [CHR 0x27] @ pt_id t @ [CHR 0x27]
           @ '' cannot depend on itself (self-dependency detected).'')
        ''SELF_DEPENDENCY'' True [])
      else case find (\<lambda>dep. dep \<notin> set ids) (pt_dependencies t) of
             Some dep \<Rightarrow> Some (mk_ValidationError
               (''Task '' @ [CHR 0x27] @ pt_id t @ [CHR 0x27]
                  @ '' references non-existent dependency '' @ [CHR 0x27] @ dep @ [CHR 0x27] @ ''.'')
               ''INVALID_DEPENDENCY_REFERENCE'' True [])
           | None \<Rightarrow> check_references ids ts)"

text \<open>The edges in the order in which the nested loops visit them.\<close>

definition planned_edges :: "PlannedTaskItem list \<Rightarrow> edges" where
  "planned_edges ts = concat (map (\<lambda>t. map (\<lambda>dep. (dep, pt_id t)) (pt_dependencies t)) ts)"

definition validate_plan_dag :: "PlannedDecompositionSchema \<Rightarrow> exc + unit" where
  "validate_plan_dag plan_data =
     (let tasks = pd_tasks plan_data; task_ids = map pt_id tasks in
      if tasks = [] then
        Inl (mk_ValidationError ''Planner generated an empty task list.'' ''EMPTY_PLAN'' True [])
      else if length task_ids \<noteq> card (set task_ids) then
        Inl (mk_ValidationError
          (''Plan contains duplicate task IDs: '' @ py_repr (PList (map PStr (duplicates_of [] task_ids))))
          ''DUPLICATE_TASK_IDS'' True [])
      else case check_references task_ids tasks of
        Some e \<Rightarrow> Inl e
      | None \<Rightarrow>
          if kahn_visited task_ids (planned_edges tasks) \<noteq> length task_ids then
            Inl (mk_ValidationError
              ''Plan contains cyclic dependencies (not a valid DAG).'' ''CYCLIC_PLAN_DEPENDENCY'' True [])
          else Inr ())"

text \<open>The specification: distinct identifiers, resolvable references, no cycle.\<close>

definition valid_dag :: "PlannedTaskItem list \<Rightarrow> bool" where
  "valid_dag ts \<longleftrightarrow>
     ts \<noteq> [] \<and> distinct (map pt_id ts)
     \<and> (\<forall>t\<in>set ts. set (pt_dependencies t) \<subseteq> set (map pt_id ts))
     \<and> acyclic {(dep, pt_id t) | dep t. t \<in> set ts \<and> dep \<in> set (pt_dependencies t)}"

lemma set_planned_edges:
  "set (planned_edges ts) = {(dep, pt_id t) | dep t. t \<in> set ts \<and> dep \<in> set (pt_dependencies t)}"
  by (auto simp: planned_edges_def)

lemma check_references_None:
  "check_references ids ts = None \<longleftrightarrow>
     (\<forall>t\<in>set ts. pt_id t \<notin> set (pt_dependencies t) \<and> set (pt_dependencies t) \<subseteq> set ids)"
  by (induction ts) (auto simp: find_None_iff' split: option.splits dest: find_SomeD)

lemma duplicates_of_eq_Nil:
  "duplicates_of seen xs = [] \<longleftrightarrow> distinct xs \<and> set seen \<inter> set xs = {}"
  by (induction seen xs rule: duplicates_of.induct) auto

lemma card_distinct_iff: "length xs = card (set xs) \<longleftrightarrow> distinct xs"
  by (metis card_distinct distinct_card)

lemma validate_plan_dag_Inr:
  "validate_plan_dag p = Inr () \<longleftrightarrow>
     pd_tasks p \<noteq> [] \<and> distinct (map pt_id (pd_tasks p))
     \<and> check_references (map pt_id (pd_tasks p)) (pd_tasks p) = None
     \<and> kahn_visited (map pt_id (pd_tasks p)) (planned_edges (pd_tasks p)) = length (pd_tasks p)"
  unfolding validate_plan_dag_def Let_def card_distinct_iff
  by (simp split: option.splits)

lemma self_dependency_cyclic:
  "t \<in> set ts \<Longrightarrow> pt_id t \<in> set (pt_dependencies t) \<Longrightarrow>
   \<not> acyclic {(dep, pt_id t) | dep t. t \<in> set ts \<and> dep \<in> set (pt_dependencies t)}"
  unfolding acyclic_def by (blast intro: r_into_trancl)

lemma validate_plan_dag_eq: "validate_plan_dag p = Inr () \<longleftrightarrow> valid_dag (pd_tasks p)"
proof (cases "check_references (map pt_id (pd_tasks p)) (pd_tasks p) = None
    \<and> distinct (map pt_id (pd_tasks p))")
  case True
  let ?ids = "map pt_id (pd_tasks p)" and ?es = "planned_edges (pd_tasks p)"
  have "snd ` set ?es \<subseteq> set ?ids" by (auto simp: set_planned_edges)
  moreover have "fst ` set ?es \<subseteq> set ?ids"
    using True by (fastforce simp: set_planned_edges check_references_None)
  ultimately have "kahn_visited ?ids ?es = length ?ids \<longleftrightarrow> acyclic (set ?es)"
    using True by (intro kahn_visited_acyclic) auto
  then show ?thesis
    using True
    by (simp add: validate_plan_dag_Inr valid_dag_def set_planned_edges check_references_None)
next
  case False
  then show ?thesis
    using self_dependency_cyclic
    unfolding validate_plan_dag_Inr valid_dag_def check_references_None by blast
qed

section \<open>A validated plan cannot deadlock\<close>

text \<open>
  \<open>plan_dag\<close> states on the domain plan what validation established of the planned items: the
  dependencies exist and have no cycle.
\<close>

definition task_edges :: "Task list \<Rightarrow> (string \<times> string) set" where
  "task_edges ts = {(dep, t_id t) | dep t. t \<in> set ts \<and> dep \<in> set (t_dependencies t)}"

definition plan_dag :: "Task list \<Rightarrow> bool" where
  "plan_dag ts \<longleftrightarrow>
     distinct (map t_id ts)
     \<and> (\<forall>t\<in>set ts. set (t_dependencies t) \<subseteq> set (map t_id ts))
     \<and> acyclic (task_edges ts)"

lemma finite_task_edges [simp]: "finite (task_edges ts)"
proof -
  have "task_edges ts \<subseteq> (\<Union>t\<in>set ts. (\<lambda>d. (d, t_id t)) ` set (t_dependencies t))"
    by (auto simp: task_edges_def)
  then show ?thesis by (rule finite_subset) auto
qed

text \<open>
  A minimal pending task has only dependencies that are not pending: when everything else is
  completed, it is ready.
\<close>

lemma ready_task_exists:
  assumes dag: "plan_dag (p_tasks p)"
    and pending: "\<exists>t\<in>set (p_tasks p). t_status t = TaskStatus.PENDING"
    and others: "\<forall>t\<in>set (p_tasks p). t_status t = TaskStatus.PENDING \<or> t_status t = TaskStatus.COMPLETED"
  shows "get_ready_tasks p \<noteq> []"
proof -
  let ?ts = "p_tasks p"
  let ?S = "{t_id t | t. t \<in> set ?ts \<and> t_status t = TaskStatus.PENDING}"
  have "wf (task_edges ?ts)" using dag by (simp add: plan_dag_def finite_acyclic_wf)
  moreover obtain i where "i \<in> ?S" using pending by blast
  ultimately obtain m where m: "m \<in> ?S" and min: "\<And>d. (d, m) \<in> task_edges ?ts \<Longrightarrow> d \<notin> ?S"
    by (metis (no_types, lifting) wf_eq_minimal)
  then obtain t where t: "t \<in> set ?ts" "t_status t = TaskStatus.PENDING" "m = t_id t" by blast
  have "d \<in> set (completed_ids ?ts)" if d: "d \<in> set (t_dependencies t)" for d
  proof -
    have "d \<in> set (map t_id ?ts)" using dag t(1) d by (auto simp: plan_dag_def)
    then obtain u where u: "u \<in> set ?ts" "t_id u = d" by auto
    have "(d, m) \<in> task_edges ?ts" using t d by (auto simp: task_edges_def)
    then have "t_status u \<noteq> TaskStatus.PENDING" using min u by blast
    then show ?thesis using others u by (force simp: completed_ids_def)
  qed
  then have "t \<in> set (get_ready_tasks p)"
    using t by (auto simp: get_ready_tasks_def list_all_iff)
  then show ?thesis by force
qed

lemma get_ready_tasks_sound:
  assumes "t \<in> set (get_ready_tasks p)"
  shows "t \<in> set (p_tasks p)" "t_status t = TaskStatus.PENDING"
    "\<And>d. d \<in> set (t_dependencies t) \<Longrightarrow>
       \<exists>u\<in>set (p_tasks p). t_id u = d \<and> t_status u = TaskStatus.COMPLETED"
  using assms by (auto simp: get_ready_tasks_def completed_ids_def list_all_iff)

section \<open>Properties\<close>

text \<open>C7: plan validation accepts exactly the well-formed plans: non-empty, distinct task
  identifiers, dependencies that exist, and no dependency cycle. Kahn's algorithm thus decides
  acyclicity.\<close>

theorem plan_validation_exact: "validate_plan_dag p = Inr () \<longleftrightarrow> valid_dag (pd_tasks p)"
  by (rule validate_plan_dag_eq)

text \<open>A plan that validation rejects is rejected with a retryable \<open>ValidationError\<close> whose code
  names the first defect found, in the order empty, duplicate, self-dependency or missing
  reference, cycle.\<close>

theorem plan_rejection_codes:
  assumes "validate_plan_dag p = Inl e"
  shows "e_class e = ValidationError \<and> e_retryable e \<and>
     (if pd_tasks p = [] then e_code e = ''EMPTY_PLAN''
      else if \<not> distinct (map pt_id (pd_tasks p)) then e_code e = ''DUPLICATE_TASK_IDS''
      else if \<exists>t\<in>set (pd_tasks p). pt_id t \<in> set (pt_dependencies t)
                \<or> \<not> set (pt_dependencies t) \<subseteq> set (map pt_id (pd_tasks p))
           then e_code e \<in> {''SELF_DEPENDENCY'', ''INVALID_DEPENDENCY_REFERENCE''}
      else e_code e = ''CYCLIC_PLAN_DEPENDENCY'')"
proof -
  let ?ids = "map pt_id (pd_tasks p)"
  have refs: "check_references ids ts = Some e' \<Longrightarrow> e_class e' = ValidationError \<and> e_retryable e'
      \<and> e_code e' \<in> {''SELF_DEPENDENCY'', ''INVALID_DEPENDENCY_REFERENCE''}" for ids ts e'
    by (induction ts) (auto simp: exc_defs split: if_splits option.splits)
  have iff: "check_references ?ids (pd_tasks p) = None \<longleftrightarrow>
      \<not> (\<exists>t\<in>set (pd_tasks p). pt_id t \<in> set (pt_dependencies t)
           \<or> \<not> set (pt_dependencies t) \<subseteq> set ?ids)"
    unfolding check_references_None by blast
  show ?thesis
  proof (cases "check_references ?ids (pd_tasks p)")
    case None
    with iff have no: "\<not> (\<exists>t\<in>set (pd_tasks p). pt_id t \<in> set (pt_dependencies t)
           \<or> \<not> set (pt_dependencies t) \<subseteq> set ?ids)" by simp
    show ?thesis unfolding if_not_P[OF no]
      using assms[unfolded validate_plan_dag_def Let_def card_distinct_iff] None
      by (auto simp: exc_defs split: if_splits)
  next
    case (Some e')
    with iff have yes: "\<exists>t\<in>set (pd_tasks p). pt_id t \<in> set (pt_dependencies t)
           \<or> \<not> set (pt_dependencies t) \<subseteq> set ?ids" by simp
    show ?thesis unfolding if_P[OF yes]
      using assms[unfolded validate_plan_dag_def Let_def card_distinct_iff] Some refs[OF Some]
      by (auto simp: exc_defs split: if_splits)
  qed
qed

definition example_item :: "string \<Rightarrow> string list \<Rightarrow> PlannedTaskItem" where
  "example_item i deps =
     \<lparr>pt_id = i, pt_title = ''t'', pt_description = [], pt_task_type = TaskType.CUSTOM,
      pt_assigned_agent = AgentRole.CUSTOM, pt_dependencies = deps, pt_input_data = []\<rparr>"

theorem plan_rejection_codes_witness:
  "\<exists>e. validate_plan_dag \<lparr>pd_rationale = ''r'', pd_tasks = [example_item ''a'' [''a'']]\<rparr> = Inl e
     \<and> e_code e \<in> {''SELF_DEPENDENCY'', ''INVALID_DEPENDENCY_REFERENCE''}"
proof -
  let ?p = "\<lparr>pd_rationale = ''r'', pd_tasks = [example_item ''a'' [''a'']]\<rparr>"
  obtain e where e: "validate_plan_dag ?p = Inl e"
    by (simp add: validate_plan_dag_def example_item_def)
  show ?thesis using e plan_rejection_codes[OF e] by (simp add: example_item_def)
qed

end
