(* ===== verification/Llm_Router.thy ===== *)
theory Llm_Router
  imports Core_State
begin

text \<open>
  Provider-agnostic requests and responses (\<open>providers/models.py\<close>) and the fallback router
  (\<open>providers/router.py\<close>). A provider is external: a function that takes the request and the
  state \<open>'w\<close> of the outside world and answers or raises. The while loop of the router is a
  recursive function; it is proved to be a single pass over a fixed order of providers.
\<close>

section \<open>Requests and responses\<close>

datatype MessageRole = SYSTEM | USER | ASSISTANT | TOOL

record Message =
  msg_role :: MessageRole
  msg_content :: string
  msg_name :: "string option"
  msg_tool_call_id :: "string option"

record TokenUsage =
  u_prompt_tokens :: nat
  u_completion_tokens :: nat
  u_total_tokens :: nat

record LLMRequest =
  q_messages :: "Message list"
  q_model :: "string option"
  q_temperature :: rat
  q_max_tokens :: "nat option"
  q_structured_schema :: "dict option"
  q_stop_sequences :: "string list"
  q_timeout_seconds :: rat
  q_metadata :: dict

record LLMResponse =
  r_content :: string
  r_structured_data :: "dict option"
  r_model :: string
  r_provider :: string
  r_usage :: TokenUsage
  r_finish_reason :: "string option"
  r_latency_ms :: rat
  r_raw_response :: "dict option"

section \<open>The router\<close>

text \<open>
  \<open>'x\<close> is what a provider call returns beside the response: \<open>unit\<close> for \<open>generate\<close>, the parsed
  model for \<open>generate_structured\<close>.
\<close>

type_synonym ('w, 'x) provider = "LLMRequest \<Rightarrow> 'w \<Rightarrow> (exc + 'x \<times> LLMResponse) \<times> 'w"

record ('w, 'x) LLMRouter =
  lr_providers :: "(string \<times> ('w, 'x) provider) list"
  lr_default_provider :: string
  lr_fallback_provider :: string
  lr_enable_fallback :: bool

text \<open>\<open>__init__\<close>: explicit arguments win over the settings, the settings over the literals.\<close>

definition new_router ::
    "(string \<times> ('w, 'x) provider) list \<Rightarrow> string option \<Rightarrow> string option \<Rightarrow> bool option
     \<Rightarrow> string \<Rightarrow> string \<Rightarrow> bool \<Rightarrow> ('w, 'x) LLMRouter" where
  "new_router providers default_provider fallback_provider enable_fallback
      settings_provider settings_fallback settings_enable =
     \<lparr>lr_providers = providers,
      lr_default_provider = str_or default_provider (str_or (Some settings_provider) ''gemini''),
      lr_fallback_provider = str_or fallback_provider (str_or (Some settings_fallback) ''groq''),
      lr_enable_fallback = (case enable_fallback of None \<Rightarrow> settings_enable | Some b \<Rightarrow> b)\<rparr>"

definition register_provider ::
    "string \<Rightarrow> ('w, 'x) provider \<Rightarrow> ('w, 'x) LLMRouter \<Rightarrow> ('w, 'x) LLMRouter" where
  "register_provider name p r = r\<lparr>lr_providers := AList.update name p (lr_providers r)\<rparr>"

definition get_provider :: "('w, 'x) LLMRouter \<Rightarrow> string \<Rightarrow> ('w, 'x) provider option" where
  "get_provider r name = map_of (lr_providers r) name"

definition list_providers :: "('w, 'x) LLMRouter \<Rightarrow> string list" where
  "list_providers r = dkeys (lr_providers r)"

definition is_retryable_failure :: "exc \<Rightarrow> bool" where
  "is_retryable_failure e \<longleftrightarrow>
     (if isinstance e ProviderUnavailableError then True
      else if isinstance e TimeoutError then True
      else if isinstance e ProviderError \<and> e_retryable e then True
      else False)"

type_synonym history = "(string \<times> string) list"

definition history_py :: "history \<Rightarrow> pyval" where
  "history_py h =
     PList (map (\<lambda>(p, e). PDict [(''failed_provider'', PStr p), (''error'', PStr e)]) h)"

definition annotate_fallback :: "string \<Rightarrow> string \<Rightarrow> history \<Rightarrow> LLMResponse \<Rightarrow> LLMResponse" where
  "annotate_fallback primary active h resp =
     resp\<lparr>r_raw_response := Some (AList.update ''router_metadata''
       (PDict [(''fallback_used'', PBool True), (''primary_provider'', PStr primary),
               (''active_provider'', PStr active), (''fallback_history'', history_py h)])
       (dict_or_empty (r_raw_response resp)))\<rparr>"

definition provider_not_found :: "string \<Rightarrow> exc" where
  "provider_not_found name =
     mk_ConfigurationError
       (''Requested LLM provider '' @ [CHR 0x27] @ name @ [CHR 0x27]
          @ '' is not registered in LLMRouter.'')
       ''PROVIDER_NOT_FOUND'' False []"

text \<open>\<open>label\<close> is the part of the message in which the two entry points differ.\<close>

definition all_providers_failed :: "string \<Rightarrow> string \<Rightarrow> string list \<Rightarrow> history \<Rightarrow> exc" where
  "all_providers_failed label primary attempted h =
     mk_ProviderError
       (''All available LLM providers failed'' @ label @ ''. Attempted: ''
          @ py_repr (PList (map PStr attempted)) @ ''. Errors: ''
          @ join_with ''; '' (map (\<lambda>(p, e). ''['' @ p @ '': '' @ e @ '']'') h))
       primary ''ALL_PROVIDERS_FAILED'' None True
       [(''attempted_providers'', PList (map PStr attempted)), (''history'', history_py h)]"

text \<open>The next candidate after a retryable failure; \<open>[]\<close> is Python's \<open>None\<close>.\<close>

definition next_target :: "('w, 'x) LLMRouter \<Rightarrow> string \<Rightarrow> string \<Rightarrow> string list \<Rightarrow> string" where
  "next_target r primary current attempted =
     (if current = primary \<and> lr_fallback_provider r \<noteq> [] \<and> lr_fallback_provider r \<noteq> primary
      then lr_fallback_provider r
      else case filter (\<lambda>p. p \<notin> set attempted) (list_providers r) of
             [] \<Rightarrow> [] | p # _ \<Rightarrow> p)"

function route_loop ::
    "('w, 'x) LLMRouter \<Rightarrow> string \<Rightarrow> LLMRequest \<Rightarrow> string \<Rightarrow> string \<Rightarrow> string list \<Rightarrow> history
     \<Rightarrow> 'w \<Rightarrow> (exc + 'x \<times> LLMResponse) \<times> 'w" where
  "route_loop r label req primary current attempted h w =
     (if current \<noteq> [] \<and> current \<notin> set attempted then
        let attempted' = attempted @ [current] in
        case get_provider r current of
          None \<Rightarrow> (Inl (provider_not_found current), w)
        | Some provider \<Rightarrow>
            (case provider req w of
               (Inr (x, resp), w') \<Rightarrow>
                 (Inr (x, if length attempted' > 1 then annotate_fallback primary current h resp
                          else resp), w')
             | (Inl e, w') \<Rightarrow>
                 if \<not> is_retryable_failure e \<or> \<not> lr_enable_fallback r then (Inl e, w')
                 else route_loop r label req primary (next_target r primary current attempted')
                        attempted' (h @ [(current, e_message e)]) w')
      else (Inl (all_providers_failed label primary attempted h), w))"
  by pat_completeness auto
termination
proof (relation "measure (\<lambda>(r, label, req, primary, current, attempted, h, w).
    length (filter (\<lambda>p. p \<notin> set attempted) (dkeys (lr_providers r))))", goal_cases)
  case (2 r label req primary current attempted h w attempted' provider res w' e)
  have "current \<in> set (dkeys (lr_providers r))"
    using 2 by (auto simp: get_provider_def dest: map_of_Some_dkeys)
  then have "length (filter (\<lambda>p. p \<notin> set (attempted @ [current])) (dkeys (lr_providers r)))
      < length (filter (\<lambda>p. p \<notin> set attempted) (dkeys (lr_providers r)))"
    using 2 by (intro length_filter_strict[of _ _ current]) auto
  then show ?case using 2 by simp
qed simp

declare route_loop.simps [simp del]

definition primary_of :: "('w, 'x) LLMRouter \<Rightarrow> string option \<Rightarrow> string" where
  "primary_of r provider_name = str_or provider_name (lr_default_provider r)"

definition generate ::
    "('w, unit) LLMRouter \<Rightarrow> LLMRequest \<Rightarrow> string option \<Rightarrow> 'w \<Rightarrow> (exc + LLMResponse) \<times> 'w" where
  "generate r req provider_name w =
     (case route_loop r [] req (primary_of r provider_name) (primary_of r provider_name) [] [] w of
        (Inl e, w') \<Rightarrow> (Inl e, w')
      | (Inr (_, resp), w') \<Rightarrow> (Inr resp, w'))"

definition generate_structured ::
    "('w, 'x) LLMRouter \<Rightarrow> LLMRequest \<Rightarrow> string option \<Rightarrow> 'w \<Rightarrow> (exc + 'x \<times> LLMResponse) \<times> 'w" where
  "generate_structured r req provider_name w =
     route_loop r '' for structured output'' req
       (primary_of r provider_name) (primary_of r provider_name) [] [] w"

section \<open>One pass over a fixed order\<close>

text \<open>
  The order in which providers are tried: the primary, the configured fallback, then the other
  registered providers in registration order. \<open>try_in_order\<close> scans it: it stops at the first
  success, at the first failure that does not warrant a fallback, or at an unregistered name.
\<close>

definition fallback_order :: "('w, 'x) LLMRouter \<Rightarrow> string \<Rightarrow> string list" where
  "fallback_order r primary =
     (let fb = lr_fallback_provider r; second = (if fb \<noteq> [] \<and> fb \<noteq> primary then [fb] else [])
      in takeWhile (\<lambda>p. p \<noteq> [])
           (primary # second @ filter (\<lambda>p. p \<notin> set (primary # second)) (list_providers r)))"

fun try_in_order ::
    "('w, 'x) LLMRouter \<Rightarrow> string \<Rightarrow> LLMRequest \<Rightarrow> string \<Rightarrow> string list \<Rightarrow> string list \<Rightarrow> history
     \<Rightarrow> 'w \<Rightarrow> (exc + 'x \<times> LLMResponse) \<times> 'w" where
  "try_in_order r label req primary [] attempted h w =
     (Inl (all_providers_failed label primary attempted h), w)"
| "try_in_order r label req primary (p # ps) attempted h w =
     (case get_provider r p of
        None \<Rightarrow> (Inl (provider_not_found p), w)
      | Some provider \<Rightarrow>
          (case provider req w of
             (Inr (x, resp), w') \<Rightarrow>
               (Inr (x, if attempted \<noteq> [] then annotate_fallback primary p h resp else resp), w')
           | (Inl e, w') \<Rightarrow>
               if \<not> is_retryable_failure e \<or> \<not> lr_enable_fallback r then (Inl e, w')
               else try_in_order r label req primary ps (attempted @ [p])
                      (h @ [(p, e_message e)]) w'))"

lemma filter_filter_Cons:
  assumes "distinct xs" "filter (\<lambda>p. p \<notin> A) xs = y # ys"
  shows "filter (\<lambda>p. p \<notin> insert y A) xs = ys"
  using assms
proof (induction xs)
  case (Cons x xs)
  then show ?case
    by (cases "x \<in> A") (auto intro!: filter_cong)
qed simp

text \<open>After the fallback: the loop takes the first registered provider not yet attempted.\<close>

lemma route_loop_rest:
  assumes "distinct (list_providers r)" "current \<notin> set attempted"
    and "current \<noteq> primary \<or> lr_fallback_provider r = [] \<or> lr_fallback_provider r = primary"
    and "primary \<in> insert current (set attempted)"
  shows "route_loop r label req primary current attempted h w =
     try_in_order r label req primary
       (takeWhile (\<lambda>p. p \<noteq> [])
          (current # filter (\<lambda>p. p \<notin> insert current (set attempted)) (list_providers r)))
       attempted h w"
  using assms
proof (induction r label req primary current attempted h w rule: route_loop.induct)
  case (1 r label req primary current attempted h w)
  show ?case
  proof (cases "current = []")
    case True
    then show ?thesis by (simp add: route_loop.simps)
  next
    case current: False
    let ?rest = "filter (\<lambda>p. p \<notin> insert current (set attempted)) (list_providers r)"
    have nxt: "next_target r primary current (attempted @ [current]) =
        (case ?rest of [] \<Rightarrow> [] | p # _ \<Rightarrow> p)"
      using "1.prems"(3) by (auto simp: next_target_def)
    show ?thesis
    proof (cases "get_provider r current")
      case None
      then show ?thesis using current "1.prems"(2) by (simp add: route_loop.simps)
    next
      case (Some prov)
      obtain res w' where pr: "prov req w = (res, w')" by fastforce
      show ?thesis
      proof (cases res)
        case (Inr y)
        then show ?thesis using current "1.prems"(2) Some pr
          by (cases y) (simp add: route_loop.simps[of r label req primary current])
      next
        case (Inl e)
        show ?thesis
        proof (cases "\<not> is_retryable_failure e \<or> \<not> lr_enable_fallback r")
          case True
          then show ?thesis using current "1.prems"(2) Some pr Inl
            by (simp add: route_loop.simps[of r label req primary current])
        next
          case retry: False
          let ?att = "attempted @ [current]" and ?h = "h @ [(current, e_message e)]"
          have unfold: "route_loop r label req primary current attempted h w =
              route_loop r label req primary (case ?rest of [] \<Rightarrow> [] | p # _ \<Rightarrow> p) ?att ?h w'"
            using current "1.prems"(2) Some pr Inl retry nxt
            by (simp add: route_loop.simps[of r label req primary current])
          have spec: "try_in_order r label req primary (current # ps) attempted h w =
              try_in_order r label req primary ps ?att ?h w'" for ps
            using Some pr Inl retry by simp
          show ?thesis
          proof (cases ?rest)
            case Nil
            then show ?thesis
              unfolding unfold using current by (simp add: spec route_loop.simps del: try_in_order.simps(2))
          next
            case (Cons q qs)
            then have q: "q \<notin> insert current (set attempted)"
              by (metis (mono_tags, lifting) filter_eq_ConsD)
            have qs: "filter (\<lambda>p. p \<notin> insert q (set ?att)) (list_providers r) = qs"
              using filter_filter_Cons[OF "1.prems"(1) Cons] by (simp add: insert_commute)
            have "q \<noteq> primary" using q "1.prems"(4) by auto
            then have ih: "route_loop r label req primary q ?att ?h w' =
                try_in_order r label req primary (takeWhile (\<lambda>p. p \<noteq> []) (q # qs)) ?att ?h w'"
              using "1.IH"[of ?att prov res w' e] current "1.prems" Some pr Inl retry nxt Cons q qs
              by simp
            have "takeWhile (\<lambda>p. p \<noteq> []) (current # q # qs) =
                current # takeWhile (\<lambda>p. p \<noteq> []) (q # qs)" using current by simp
            with ih show ?thesis unfolding unfold Cons by (simp only: list.case spec)
          qed
        qed
      qed
    qed
  qed
qed

text \<open>The whole loop, from the primary provider.\<close>

lemma route_loop_start:
  assumes "distinct (list_providers r)"
  shows "route_loop r label req primary primary [] [] w =
     try_in_order r label req primary (fallback_order r primary) [] [] w"
proof (cases "lr_fallback_provider r = [] \<or> lr_fallback_provider r = primary")
  case True
  then have "fallback_order r primary = takeWhile (\<lambda>p. p \<noteq> [])
      (primary # filter (\<lambda>p. p \<notin> {primary}) (list_providers r))"
    unfolding fallback_order_def Let_def by (elim disjE) simp_all
  then show ?thesis
    using route_loop_rest[OF assms, of primary "[]" primary] True by (simp only: list.set) simp
next
  case fb: False
  let ?fb = "lr_fallback_provider r"
  let ?rest = "filter (\<lambda>p. p \<notin> {primary, ?fb}) (list_providers r)"
  have order: "fallback_order r primary =
      (if primary = [] then [] else primary # ?fb # takeWhile (\<lambda>p. p \<noteq> []) ?rest)"
    using fb by (simp add: fallback_order_def Let_def)
  have nxt: "next_target r primary primary att = ?fb" for att
    using fb by (simp add: next_target_def)
  define order_tl where "order_tl = ?fb # takeWhile (\<lambda>p. p \<noteq> []) ?rest"
  have rest: "route_loop r label req primary ?fb [primary] h w' =
      try_in_order r label req primary order_tl [primary] h w'" for h w'
    using route_loop_rest[OF assms, of ?fb "[primary]" primary] fb
    by (simp add: insert_commute order_tl_def)
  show ?thesis
    unfolding route_loop.simps[of r label req primary primary] order nxt order_tl_def[symmetric]
    by (auto simp: rest split: option.split sum.split prod.split)
qed

lemma fallback_order_distinct:
  "distinct (list_providers r) \<Longrightarrow> distinct (fallback_order r primary)"
  unfolding fallback_order_def Let_def by (rule distinct_takeWhile) auto

section \<open>Properties\<close>

text \<open>C8: routing is one pass over a fixed list of distinct providers (primary, fallback, the other
  registered ones in order): each is called at most once, the first success or non-retryable
  failure decides, and when all have failed retryably the call raises \<open>ALL_PROVIDERS_FAILED\<close>.
  The loop thus terminates for every behaviour of the providers.\<close>

theorem router_single_pass:
  assumes "distinct (list_providers r)"
  shows "generate_structured r req name w =
      try_in_order r '' for structured output'' req (primary_of r name)
        (fallback_order r (primary_of r name)) [] [] w
    \<and> distinct (fallback_order r (primary_of r name))"
  using route_loop_start[OF assms] fallback_order_distinct[OF assms]
  by (simp add: generate_structured_def)

definition failing :: "('w, 'x) provider" where
  "failing req w = (Inl (mk_ProviderUnavailableError ''down'' ''p'' None []), w)"

definition example_llm_router :: "(unit, nat) LLMRouter" where
  "example_llm_router =
     \<lparr>lr_providers = [(''a'', failing), (''b'', failing)], lr_default_provider = ''a'',
      lr_fallback_provider = ''x'', lr_enable_fallback = True\<rparr>"

theorem router_single_pass_witness:
  "distinct (fallback_order example_llm_router (primary_of example_llm_router None))"
  using router_single_pass[of example_llm_router _ None]
  by (simp add: list_providers_def example_llm_router_def)

text \<open>When the primary fails retryably and the configured fallback name is not registered, the
  call raises \<open>PROVIDER_NOT_FOUND\<close> although further providers are registered and untried.\<close>

theorem unregistered_fallback_aborts:
  assumes "distinct (list_providers r)" "primary_of r name \<noteq> []"
    and "get_provider r (primary_of r name) = Some p" "p req w = (Inl e, w')" "is_retryable_failure e"
    and "lr_enable_fallback r" "lr_fallback_provider r \<noteq> []" "lr_fallback_provider r \<noteq> primary_of r name"
    and "get_provider r (lr_fallback_provider r) = None"
  shows "generate_structured r req name w = (Inl (provider_not_found (lr_fallback_provider r)), w')"
  using assms route_loop_start[OF assms(1), of "'' for structured output''" req "primary_of r name" w]
  by (simp add: generate_structured_def fallback_order_def Let_def)

definition example_request :: LLMRequest where
  "example_request =
     \<lparr>q_messages = [], q_model = None, q_temperature = 0, q_max_tokens = None, q_structured_schema = None,
      q_stop_sequences = [], q_timeout_seconds = 30, q_metadata = []\<rparr>"

theorem unregistered_fallback_aborts_witness:
  "generate_structured example_llm_router example_request None () = (Inl (provider_not_found ''x''), ())"
  using unregistered_fallback_aborts[of example_llm_router None failing example_request "()" _ "()"]
  by (simp add: list_providers_def example_llm_router_def primary_of_def get_provider_def failing_def
      is_retryable_failure_def isinstance_simps exc_defs)

end
