(* ===== verification/Tools.thy ===== *)
theory Tools
  imports Core_State
begin

text \<open>
  The tool contract and registry of \<open>tools/base.py\<close> and \<open>tools/registry.py\<close>. A tool's input
  schema and its \<open>execute\<close> coroutine belong to the tool: they are fields of the record. A run
  of the coroutine yields a result or an exception after some duration, and
  \<open>asyncio.wait_for\<close> replaces the outcome of one that lasts longer than the tool's timeout.
\<close>

section \<open>Tools\<close>

record ToolMetadata =
  tm_name :: string
  tm_description :: string
  tm_version :: string
  tm_timeout_seconds :: rat
  tm_requires_permissions :: "string list"
  tm_tags :: "string list"

text \<open>
  \<open>tl_schema\<close> is \<open>input_schema.model_validate\<close> (an error text or the fields of the validated
  input); \<open>tl_run\<close> is the coroutine, its dumped result and its duration in seconds.
\<close>

record 'w Tool =
  tl_metadata :: ToolMetadata
  tl_schema :: "dict \<Rightarrow> string + dict"
  tl_run :: "dict \<Rightarrow> 'w \<Rightarrow> (exc + dict) \<times> rat \<times> 'w"

definition tool_name_of :: "'w Tool \<Rightarrow> string" where
  "tool_name_of tool = tm_name (tl_metadata tool)"

definition validate_tool_input :: "'w Tool \<Rightarrow> dict \<Rightarrow> exc + dict" where
  "validate_tool_input tool raw_input =
     (case tl_schema tool raw_input of
        Inr v \<Rightarrow> Inr v
      | Inl e \<Rightarrow> Inl (mk_ValidationError
          (''Validation failed for tool '' @ [CHR 0x27] @ tool_name_of tool @ [CHR 0x27]
             @ '' input: '' @ e)
          ''VALIDATION_ERROR'' True
          [(''tool_name'', PStr (tool_name_of tool)), (''raw_input'', PDict raw_input)]))"

section \<open>The registry\<close>

type_synonym 'w ToolRegistry = "(string \<times> 'w Tool) list"

definition register_tool :: "'w Tool \<Rightarrow> 'w ToolRegistry \<Rightarrow> exc + 'w ToolRegistry" where
  "register_tool tool reg =
     (if tool_name_of tool \<in> set (dkeys reg)
      then Inl (mk_Foreign ''ValueError''
        (''Tool '' @ [CHR 0x27] @ tool_name_of tool @ [CHR 0x27] @ '' is already registered.''))
      else Inr (AList.update (tool_name_of tool) tool reg))"

definition unregister_tool :: "string \<Rightarrow> 'w ToolRegistry \<Rightarrow> bool \<times> 'w ToolRegistry" where
  "unregister_tool tool_name reg =
     (if tool_name \<in> set (dkeys reg) then (True, AList.delete tool_name reg) else (False, reg))"

definition get_tool :: "'w ToolRegistry \<Rightarrow> string \<Rightarrow> 'w Tool option" where
  "get_tool reg tool_name = map_of reg tool_name"

definition list_tools :: "'w ToolRegistry \<Rightarrow> ToolMetadata list" where
  "list_tools reg = map (\<lambda>(_, tool). tl_metadata tool) reg"

definition tool_exists :: "'w ToolRegistry \<Rightarrow> string \<Rightarrow> bool" where
  "tool_exists reg tool_name \<longleftrightarrow> tool_name \<in> set (dkeys reg)"

text \<open>\<open>asyncio.wait_for\<close>: the library's \<open>TimeoutError\<close> when the deadline passes first.\<close>

definition asyncio_timeout :: exc where
  "asyncio_timeout = mk_Foreign ''TimeoutError'' []"

definition wait_for :: "rat \<Rightarrow> (exc + 'a) \<times> rat \<times> 'w \<Rightarrow> (exc + 'a) \<times> 'w" where
  "wait_for timeout run =
     (case run of (r, duration, w) \<Rightarrow> (if duration > timeout then Inl asyncio_timeout else r, w))"

definition map_tool_error :: "string \<Rightarrow> rat \<Rightarrow> exc \<Rightarrow> exc" where
  "map_tool_error tool_name timeout_seconds e =
     (if e_class e = Foreign ''TimeoutError'' then
        mk_TimeoutError
          (''Tool '' @ [CHR 0x27] @ tool_name @ [CHR 0x27] @ '' timed out after ''
             @ repr_float timeout_seconds @ '' seconds.'')
          timeout_seconds ''TIMEOUT_ERROR'' True [(''tool_name'', PStr tool_name)]
      else if isinstance e ToolNotFoundError \<or> isinstance e TimeoutError then e
      else mk_ToolExecutionError
          (''Tool '' @ [CHR 0x27] @ tool_name @ [CHR 0x27] @ '' execution failed: '' @ e_message e)
          tool_name True [(''tool_name'', PStr tool_name), (''error'', PStr (e_message e))])"

definition execute_tool ::
    "'w ToolRegistry \<Rightarrow> string \<Rightarrow> dict \<Rightarrow> 'w \<Rightarrow> (exc + dict) \<times> 'w" where
  "execute_tool reg tool_name input_data w =
     (case get_tool reg tool_name of
        None \<Rightarrow> (Inl (mk_ToolNotFoundError tool_name []), w)
      | Some tool \<Rightarrow>
          (case validate_tool_input tool input_data of
             Inl e \<Rightarrow> (Inl e, w)
           | Inr validated \<Rightarrow>
               let timeout = tm_timeout_seconds (tl_metadata tool) in
               (case wait_for timeout (tl_run tool validated w) of
                  (Inr result, w') \<Rightarrow> (Inr result, w')
                | (Inl e, w') \<Rightarrow> (Inl (map_tool_error tool_name timeout e), w'))))"

section \<open>Facts\<close>

text \<open>Names under which tools are stored are their own names, each once.\<close>

definition registry_ok :: "'w ToolRegistry \<Rightarrow> bool" where
  "registry_ok reg \<longleftrightarrow>
     distinct (dkeys reg) \<and> list_all (\<lambda>(n, tool). n = tool_name_of tool) reg"

lemma registry_ok_Nil [simp]: "registry_ok []"
  by (simp add: registry_ok_def)

lemma register_tool_ok:
  "registry_ok reg \<Longrightarrow> register_tool tool reg = Inr reg' \<Longrightarrow> registry_ok reg'"
  by (auto simp: registry_ok_def register_tool_def update_new_key split: if_splits)

lemma unregister_tool_ok: "registry_ok reg \<Longrightarrow> registry_ok (snd (unregister_tool n reg))"
  by (auto simp: registry_ok_def unregister_tool_def list_all_iff set_AList_delete
      intro: distinct_delete)

lemma register_tool_get:
  "register_tool tool reg = Inr reg' \<Longrightarrow>
   get_tool reg' n = (if n = tool_name_of tool then Some tool else get_tool reg n)"
  by (auto simp: register_tool_def get_tool_def split: if_splits)

lemma unregister_tool_get:
  "get_tool (snd (unregister_tool n reg)) m = (if m = n then None else get_tool reg m)"
  by (auto simp: unregister_tool_def get_tool_def map_of_eq_None_iff set_AList_delete)

text \<open>The registry is a keyed store; \<open>register_tool\<close> is its insertion where it does not raise.\<close>

interpretation tool_store: keyed_store "get_tool" "\<lambda>n tool. AList.update n tool"
    "\<lambda>n reg. snd (unregister_tool n reg)"
  by unfold_locales (simp_all add: get_tool_def unregister_tool_get[unfolded get_tool_def])

text \<open>What a dispatch can raise.\<close>

lemma map_tool_error_class:
  "e_class (map_tool_error n t e) \<in> {TimeoutError, ToolNotFoundError, ToolExecutionError}"
  by (auto simp: map_tool_error_def exc_defs isinstance_simps)

lemma execute_tool_raises:
  assumes "execute_tool reg n d w = (Inl e, w')"
  shows "e_class e \<in> {ToolNotFoundError, ValidationError, TimeoutError, ToolExecutionError}"
  using assms map_tool_error_class
  by (fastforce simp: execute_tool_def validate_tool_input_def exc_defs Let_def
      split: option.splits sum.splits prod.splits)

lemma execute_tool_slow:
  assumes "get_tool reg n = Some tool" "tl_schema tool d = Inr v"
    and "tl_run tool v w = (r, duration, w')" "tm_timeout_seconds (tl_metadata tool) < duration"
  shows "\<exists>e. execute_tool reg n d w = (Inl e, w') \<and> e_class e = TimeoutError \<and> e_retryable e"
  using assms
  by (simp add: execute_tool_def validate_tool_input_def wait_for_def Let_def map_tool_error_def
      asyncio_timeout_def exc_defs)

section \<open>Properties\<close>

text \<open>C9: a dispatch raises only the framework's tool errors: an unregistered name gives
  \<open>TOOL_NOT_FOUND\<close>, rejected input a validation error before the tool runs, a run beyond its
  deadline a retryable timeout, and any other exception of the tool an execution error; it
  returns a result only when the tool produced it within its deadline.\<close>

theorem tool_dispatch_errors:
  "case execute_tool reg n d w of
     (Inr out, w') \<Rightarrow> \<exists>tool v duration. get_tool reg n = Some tool \<and> tl_schema tool d = Inr v
        \<and> tl_run tool v w = (Inr out, duration, w') \<and> duration \<le> tm_timeout_seconds (tl_metadata tool)
   | (Inl e, w') \<Rightarrow>
       (case get_tool reg n of
          None \<Rightarrow> e_class e = ToolNotFoundError \<and> \<not> e_retryable e \<and> w' = w
        | Some tool \<Rightarrow>
            (case tl_schema tool d of
               Inl _ \<Rightarrow> e_class e = ValidationError \<and> w' = w
             | Inr v \<Rightarrow> e_class e \<in> {TimeoutError, ToolNotFoundError, ToolExecutionError}
                 \<and> (case tl_run tool v w of (r, duration, _) \<Rightarrow>
                      duration > tm_timeout_seconds (tl_metadata tool) \<longrightarrow>
                      e_class e = TimeoutError \<and> e_retryable e)))"
proof (cases "get_tool reg n")
  case None
  then show ?thesis by (simp add: execute_tool_def exc_defs)
next
  case (Some tool)
  show ?thesis
  proof (cases "tl_schema tool d")
    case (Inl e)
    then show ?thesis using Some by (simp add: execute_tool_def validate_tool_input_def exc_defs)
  next
    case (Inr v)
    obtain r duration w' where run: "tl_run tool v w = (r, duration, w')" by (metis prod_cases3)
    have slow: "e_class (map_tool_error n t asyncio_timeout) = TimeoutError"
      "e_retryable (map_tool_error n t asyncio_timeout)" for t
      by (auto simp: map_tool_error_def asyncio_timeout_def exc_defs)
    show ?thesis
      using Some Inr run map_tool_error_class[of n "tm_timeout_seconds (tl_metadata tool)"] slow
      by (cases r) (auto simp: execute_tool_def validate_tool_input_def wait_for_def Let_def not_less)
  qed
qed

definition example_tool :: "unit Tool" where
  "example_tool =
     \<lparr>tl_metadata = \<lparr>tm_name = ''echo'', tm_description = ''d'', tm_version = ''0.1.0'',
        tm_timeout_seconds = 30, tm_requires_permissions = [], tm_tags = []\<rparr>,
      tl_schema = (\<lambda>d. Inr d), tl_run = (\<lambda>d w. (Inr d, 31, w))\<rparr>"

theorem tool_dispatch_errors_witness:
  "\<exists>e. execute_tool [(''echo'', example_tool)] ''echo'' [] () = (Inl e, ()) \<and> e_class e = TimeoutError"
  using tool_dispatch_errors[where reg = "[(''echo'', example_tool)]" and n = "''echo''" and d = "[]" and w = "()"]
  by (auto simp: get_tool_def example_tool_def split: prod.splits sum.splits)

end
