(* ===== verification/Document_Store.thy ===== *)
theory Document_Store
  imports Core_State "HOL-Library.Char_ord" "HOL-Library.List_Lexorder" "HOL-Library.Product_Lexorder"
begin

text \<open>
  Documents, queries and the in-memory document store of \<open>agents/retrieval.py\<close>: lexical
  token-overlap scores, metadata filters and the deterministic ranking (score descending, then
  identifier). Text is ASCII, so a word character is a letter, a digit or an underscore.
\<close>

section \<open>Documents and queries\<close>

record Document =
  doc_id :: string
  doc_content :: string
  doc_metadata :: dict

record ScoredDocument =
  sd_document :: Document
  sd_score :: rat

record RetrievalQuery =
  rq_query :: string
  rq_top_k :: nat
  rq_filters :: "dict option"

record RetrievalResult =
  rr_query :: string
  rr_matches :: "ScoredDocument list"
  rr_total_found :: nat

text \<open>
  The constructor checks the field constraints: a non-empty string, \<open>top_k >= 1\<close>, an optional
  dictionary. \<open>to_int\<close> is the validation library's coercion to \<open>int\<close>.
\<close>

definition new_RetrievalQuery ::
    "(pyval \<Rightarrow> int option) \<Rightarrow> pyval \<Rightarrow> pyval \<Rightarrow> pyval \<Rightarrow> exc + RetrievalQuery" where
  "new_RetrievalQuery to_int query top_k filters =
     (case query of
        PStr q \<Rightarrow>
          if q = [] then Inl (validation_failure ''query'')
          else (case to_int top_k of
                  None \<Rightarrow> Inl (validation_failure ''top_k'')
                | Some k \<Rightarrow>
                    if k < 1 then Inl (validation_failure ''top_k'')
                    else (case filters of
                            PNone \<Rightarrow> Inr \<lparr>rq_query = q, rq_top_k = nat k, rq_filters = None\<rparr>
                          | PDict d \<Rightarrow> Inr \<lparr>rq_query = q, rq_top_k = nat k, rq_filters = Some d\<rparr>
                          | _ \<Rightarrow> Inl (validation_failure ''filters'')))
      | _ \<Rightarrow> Inl (validation_failure ''query''))"

section \<open>The in-memory store\<close>

type_synonym doc_store = "(string \<times> Document) list"

definition word_char :: "char \<Rightarrow> bool" where
  "word_char c \<longleftrightarrow> (let n = of_char c :: nat in
     (48 \<le> n \<and> n \<le> 57) \<or> (65 \<le> n \<and> n \<le> 90) \<or> n = 95 \<or> (97 \<le> n \<and> n \<le> 122))"

text \<open>Maximal runs of word characters; \<open>cur\<close> is the run being read, reversed.\<close>

fun words_from :: "string \<Rightarrow> string \<Rightarrow> string list" where
  "words_from cur [] = (if cur = [] then [] else [rev cur])"
| "words_from cur (c # s) =
     (if word_char c then words_from (c # cur) s
      else if cur = [] then words_from [] s else rev cur # words_from [] s)"

definition tokenize :: "string \<Rightarrow> string list" where
  "tokenize text_in = remdups (words_from [] (py_lower text_in))"

definition add_documents :: "Document list \<Rightarrow> doc_store \<Rightarrow> doc_store" where
  "add_documents documents store = fold (\<lambda>d. AList.update (doc_id d) d) documents store"

definition match_filters :: "dict option \<Rightarrow> dict \<Rightarrow> bool" where
  "match_filters filters metadata =
     (if dict_or_empty filters \<noteq> []
      then list_all (\<lambda>(k, v). py_eq (dget metadata k PNone) v) (dict_or_empty filters)
      else True)"

definition overlap_count :: "string list \<Rightarrow> string list \<Rightarrow> nat" where
  "overlap_count query_tokens doc_tokens =
     length (filter (\<lambda>t. t \<in> set doc_tokens) query_tokens)"

definition score_document :: "string list \<Rightarrow> RetrievalQuery \<Rightarrow> Document \<Rightarrow> ScoredDocument option" where
  "score_document query_tokens query d =
     (if \<not> match_filters (rq_filters query) (doc_metadata d) then None
      else let overlap = overlap_count query_tokens (tokenize (doc_content d)) in
        if overlap > 0
        then Some \<lparr>sd_document = d,
                   sd_score = min 1 (of_nat overlap / of_nat (length query_tokens))\<rparr>
        else None)"

definition rank_key :: "ScoredDocument \<Rightarrow> rat \<times> string" where
  "rank_key m = (- sd_score m, doc_id (sd_document m))"

definition scored_matches :: "RetrievalQuery \<Rightarrow> doc_store \<Rightarrow> ScoredDocument list" where
  "scored_matches query store =
     sort_key rank_key
       (List.map_filter (score_document (tokenize (rq_query query)) query) (map snd store))"

definition retrieve_in_memory :: "RetrievalQuery \<Rightarrow> doc_store \<Rightarrow> RetrievalResult" where
  "retrieve_in_memory query store =
     (if tokenize (rq_query query) = [] \<or> store = [] then
        \<lparr>rr_query = rq_query query, rr_matches = [], rr_total_found = 0\<rparr>
      else let scored = scored_matches query store in
        \<lparr>rr_query = rq_query query, rr_matches = take (rq_top_k query) scored,
         rr_total_found = length scored\<rparr>)"

definition count_documents :: "doc_store \<Rightarrow> nat" where
  "count_documents store = length store"

definition clear_documents :: "doc_store \<Rightarrow> doc_store" where
  "clear_documents store = []"

section \<open>Facts\<close>

text \<open>Documents are stored under their own identifiers, each once.\<close>

definition doc_store_ok :: "doc_store \<Rightarrow> bool" where
  "doc_store_ok store \<longleftrightarrow> distinct (dkeys store) \<and> list_all (\<lambda>(i, d). i = doc_id d) store"

lemma doc_store_ok_Nil [simp]: "doc_store_ok []"
  by (simp add: doc_store_ok_def)

lemma update_doc_ok: "doc_store_ok s \<Longrightarrow> doc_store_ok (AList.update (doc_id d) d s)"
  using set_AList_update[of "doc_id d" d s]
  by (auto simp: doc_store_ok_def list_all_iff distinct_update)

lemma add_documents_ok: "doc_store_ok s \<Longrightarrow> doc_store_ok (add_documents ds s)"
  unfolding add_documents_def by (induction ds arbitrary: s) (auto simp: update_doc_ok)

lemma doc_store_ok_ids: "doc_store_ok s \<Longrightarrow> distinct (map doc_id (map snd s))"
proof -
  assume ok: "doc_store_ok s"
  then have eq: "map doc_id (map snd s) = dkeys s"
    unfolding map_map by (intro map_cong) (auto simp: doc_store_ok_def list_all_iff)
  show ?thesis unfolding eq using ok by (simp add: doc_store_ok_def)
qed

text \<open>The store after ingesting: the last document with an identifier wins.\<close>

interpretation doc_store: keyed_store map_of "AList.update" "AList.delete"
  by unfold_locales simp_all

lemma add_documents_lookup:
  "map_of (add_documents ds s) i =
     (case find (\<lambda>d. doc_id d = i) (rev ds) of None \<Rightarrow> map_of s i | Some d \<Rightarrow> Some d)"
  unfolding add_documents_def
  by (induction ds rule: rev_induct) auto

text \<open>Tokens.\<close>

lemma distinct_tokenize [simp]: "distinct (tokenize s)"
  by (simp add: tokenize_def)

lemma overlap_count_card:
  "distinct q \<Longrightarrow> overlap_count q d = card (set q \<inter> set d)"
  unfolding overlap_count_def by (subst distinct_card[symmetric]) (auto intro!: arg_cong[where f = card])

lemma overlap_count_le: "overlap_count q d \<le> length q"
  by (simp add: overlap_count_def)

text \<open>The ranking.\<close>

lemma set_scored_matches:
  "m \<in> set (scored_matches q s) \<longleftrightarrow>
     (\<exists>d\<in>set (map snd s). score_document (tokenize (rq_query q)) q d = Some m)"
  by (auto simp: scored_matches_def set_map_filter)

lemma score_document_Some:
  "score_document ts q d = Some m \<longleftrightarrow>
     match_filters (rq_filters q) (doc_metadata d) \<and> 0 < overlap_count ts (tokenize (doc_content d))
     \<and> m = \<lparr>sd_document = d,
            sd_score = of_nat (overlap_count ts (tokenize (doc_content d))) / of_nat (length ts)\<rparr>"
proof -
  have "(of_nat (overlap_count ts x) :: rat) / of_nat (length ts) \<le> 1" for x
    using overlap_count_le[of ts x] by (cases "length ts") (simp_all add: divide_le_eq)
  then show ?thesis by (auto simp: score_document_def Let_def min_absorb2)
qed

lemma scored_matches_distinct:
  assumes "doc_store_ok s"
  shows "distinct (map (\<lambda>m. doc_id (sd_document m)) (scored_matches q s))"
proof -
  let ?l = "List.map_filter (score_document (tokenize (rq_query q)) q) (map snd s)"
  have "distinct (map (\<lambda>m. doc_id (sd_document m)) ?l)"
    using doc_store_ok_ids[OF assms]
    by (rule distinct_map_filter) (auto simp: score_document_Some)
  then show ?thesis
    unfolding scored_matches_def distinct_map by (simp add: inj_on_def)
qed

lemma scored_matches_sorted: "sorted (map rank_key (scored_matches q s))"
  by (simp add: scored_matches_def)

section \<open>Properties\<close>

lemma scored_member:
  assumes "m \<in> set (scored_matches q store)"
  shows "sd_document m \<in> snd ` set store \<and> match_filters (rq_filters q) (doc_metadata (sd_document m))
    \<and> 0 < sd_score m \<and> sd_score m \<le> 1"
proof -
  obtain d where d: "d \<in> set (map snd store)" "score_document (tokenize (rq_query q)) q d = Some m"
    using assms set_scored_matches by blast
  let ?o = "overlap_count (tokenize (rq_query q)) (tokenize (doc_content d))"
  have m: "m = \<lparr>sd_document = d, sd_score = of_nat ?o / of_nat (length (tokenize (rq_query q)))\<rparr>"
    "match_filters (rq_filters q) (doc_metadata d)" "0 < ?o"
    using d(2) by (simp_all add: score_document_Some)
  have "?o \<le> length (tokenize (rq_query q))" by (rule overlap_count_le)
  moreover have "0 < length (tokenize (rq_query q))" using m(3) \<open>?o \<le> _\<close> by linarith
  ultimately have "0 < sd_score m \<and> sd_score m \<le> 1" using m by (simp add: divide_le_eq)
  then show ?thesis using d(1) m by simp
qed


definition example_doc :: Document where
  "example_doc = \<lparr>doc_id = ''d'', doc_content = ''hello world'', doc_metadata = []\<rparr>"


end
