(* ===== verification/Agents.thy ===== *)
theory Agents
  imports Plan_Graph Llm_Router Tools Document_Store
begin

text \<open>
  The agents of \<open>agents/\<close>: the result envelope and the \<open>execute\<close> methods of the planner, the
  retrieval, the tool and the validator agent, with every early return and \<open>except\<close> clause. An
  agent is a function of the clock readings of the call, the orchestration state, the task and
  the outside world; it returns its result or the exception it lets through, with the mutated
  state.
\<close>

section \<open>Clock readings and results (agents/result.py, agents/base.py)\<close>

text \<open>
  \<open>k_now\<close> is \<open>utc_now()\<close>, \<open>k_elapsed\<close> the seconds between two \<open>perf_counter()\<close> readings and
  \<open>k_uid i\<close> the \<open>i\<close>-th identifier drawn from \<open>uuid4()\<close> during one node execution.
\<close>

record tick =
  k_now :: time
  k_elapsed :: rat
  k_uid :: "nat \<Rightarrow> string"

datatype AgentStatus = SUCCESS | FAILURE | RETRYABLE_FAILURE | ESCALATE_HUMAN | CANCELLED

record AgentResult =
  ag_agent_name :: string
  ag_status :: AgentStatus
  ag_output :: "dict option"
  ag_raw_response :: "string option"
  ag_error :: "string option"
  ag_retryable :: bool
  ag_requires_human :: bool
  ag_execution_time_ms :: rat
  ag_metadata :: dict

definition agent_success ::
    "string \<Rightarrow> dict \<Rightarrow> string option \<Rightarrow> rat \<Rightarrow> dict \<Rightarrow> AgentResult" where
  "agent_success agent_name output raw_response ms metadata =
     \<lparr>ag_agent_name = agent_name, ag_status = AgentStatus.SUCCESS, ag_output = Some output,
      ag_raw_response = raw_response, ag_error = None, ag_retryable = False,
      ag_requires_human = False, ag_execution_time_ms = ms, ag_metadata = metadata\<rparr>"

definition agent_failure :: "string \<Rightarrow> string \<Rightarrow> bool \<Rightarrow> rat \<Rightarrow> dict \<Rightarrow> AgentResult" where
  "agent_failure agent_name error retryable ms metadata =
     \<lparr>ag_agent_name = agent_name,
      ag_status = (if retryable then AgentStatus.RETRYABLE_FAILURE else AgentStatus.FAILURE),
      ag_output = None, ag_raw_response = None, ag_error = Some error, ag_retryable = retryable,
      ag_requires_human = False, ag_execution_time_ms = ms, ag_metadata = metadata\<rparr>"

definition agent_escalate :: "string \<Rightarrow> string \<Rightarrow> dict option \<Rightarrow> rat \<Rightarrow> AgentResult" where
  "agent_escalate agent_name reason context_in ms =
     \<lparr>ag_agent_name = agent_name, ag_status = AgentStatus.ESCALATE_HUMAN, ag_output = context_in,
      ag_raw_response = None, ag_error = Some reason, ag_retryable = False,
      ag_requires_human = True, ag_execution_time_ms = ms, ag_metadata = []\<rparr>"

type_synonym 'w agent =
  "tick \<Rightarrow> OrchestrationState \<Rightarrow> Task option \<Rightarrow> 'w
   \<Rightarrow> (exc + AgentResult) \<times> OrchestrationState \<times> 'w"

definition latency_ms :: "tick \<Rightarrow> rat" where
  "latency_ms k = k_elapsed k * 1000"

definition sq :: "string \<Rightarrow> string" where
  "sq s = [CHR 0x27] @ s @ [CHR 0x27]"

definition nl :: string where
  "nl = [CHR 0x0A]"

text \<open>The request the planner and the validator send: two messages and a temperature.\<close>

definition two_message_request :: "string \<Rightarrow> string \<Rightarrow> rat \<Rightarrow> LLMRequest" where
  "two_message_request system_prompt user_prompt temperature =
     \<lparr>q_messages =
        [\<lparr>msg_role = MessageRole.SYSTEM, msg_content = system_prompt, msg_name = None,
          msg_tool_call_id = None\<rparr>,
         \<lparr>msg_role = MessageRole.USER, msg_content = user_prompt, msg_name = None,
          msg_tool_call_id = None\<rparr>],
      q_model = None, q_temperature = temperature, q_max_tokens = None,
      q_structured_schema = None, q_stop_sequences = [], q_timeout_seconds = 60, q_metadata = []\<rparr>"

section \<open>Model dumps\<close>

text \<open>
  \<open>model_dump()\<close> of the domain classes: one entry per declared field, in declaration order.
  Enumeration members are strings (the enumerations subclass \<open>str\<close>).
\<close>

definition opt_time :: "time option \<Rightarrow> pyval" where
  "opt_time t = (case t of None \<Rightarrow> PNone | Some x \<Rightarrow> PTime x)"

definition dump_task :: "Task \<Rightarrow> dict" where
  "dump_task t =
     [(''id'', PStr (t_id t)), (''title'', PStr (t_title t)),
      (''description'', PStr (t_description t)),
      (''task_type'', PStr (task_type_value (t_task_type t))),
      (''assigned_agent'', opt_str (map_option agent_role_value (t_assigned_agent t))),
      (''dependencies'', PList (map PStr (t_dependencies t))),
      (''status'', PStr (task_status_value (t_status t))),
      (''input_data'', PDict (t_input_data t)),
      (''output_data'', opt_dict (t_output_data t)),
      (''error'', opt_str (t_error t)),
      (''retry_count'', PInt (int (t_retry_count t))),
      (''max_retries'', PInt (int (t_max_retries t))),
      (''created_at'', PTime (t_created_at t)),
      (''completed_at'', opt_time (t_completed_at t))]"

definition dump_plan :: "ExecutionPlan \<Rightarrow> dict" where
  "dump_plan p =
     [(''plan_id'', PStr (p_plan_id p)),
      (''tasks'', PList (map (\<lambda>t. PDict (dump_task t)) (p_tasks p))),
      (''current_task_id'', opt_str (p_current_task_id p)),
      (''rationale'', opt_str (p_rationale p)),
      (''created_at'', PTime (p_created_at p))]"

definition dump_validation :: "ValidationResult \<Rightarrow> dict" where
  "dump_validation v =
     [(''validation_id'', PStr (v_validation_id v)),
      (''is_valid'', PBool (v_is_valid v)),
      (''status'', PStr (validation_status_value (v_status v))),
      (''score'', PFloat (v_score v)),
      (''feedback'', opt_str (v_feedback v)),
      (''issues'', PList (map PStr (v_issues v))),
      (''needs_retry'', PBool (v_needs_retry v)),
      (''needs_human_review'', PBool (v_needs_human_review v)),
      (''validator_name'', PStr (v_validator_name v)),
      (''evaluated_task_id'', opt_str (v_evaluated_task_id v)),
      (''metadata'', PDict (v_metadata v))]"

section \<open>The planner (agents/planner.py)\<close>

definition planner_validate_input :: "OrchestrationState \<Rightarrow> bool" where
  "planner_validate_input s \<longleftrightarrow> s_request s \<noteq> [] \<and> py_strip (s_request s) \<noteq> []"

definition planner_system_prompt :: string where
  "planner_system_prompt =
     ''You are an expert Lead Technical Architect & Workflow Planner for an Enterprise Multi-Agent Orchestration Framework.''
     @ nl @ ''Your objective is to analyze the user request and decompose it into discrete, dependency-linked tasks.''
     @ nl @ ''Guidelines:''
     @ nl @ ''1. Each task must have a unique ID (e.g. '' @ sq ''task_1'' @ '', '' @ sq ''search_docs''
     @ '', '' @ sq ''calc_tax'' @ '').''
     @ nl @ ''2. Establish dependencies where tasks depend on output from earlier tasks.''
     @ nl @ ''3. Assign appropriate task_type (retrieval, tool_execution, synthesis, custom) and assigned_agent.''
     @ nl @ ''4. Ensure tasks form a strict Directed Acyclic Graph (DAG) with no cycles.''"

definition planner_user_prompt :: "OrchestrationState \<Rightarrow> string" where
  "planner_user_prompt s =
     ''User Request:'' @ nl @ s_request s @ nl
     @ (if s_custom_context s \<noteq> []
        then nl @ ''Additional Context:'' @ nl @ py_str (PDict (s_custom_context s)) else [])"

text \<open>
  \<open>Task(...)\<close> of a planned item, with the field defaults. The constructor rejects an empty
  title (\<open>min_length=1\<close>) with the validation library's own exception.
\<close>

definition domain_task :: "time \<Rightarrow> PlannedTaskItem \<Rightarrow> Task" where
  "domain_task now t =
     \<lparr>t_id = pt_id t, t_title = pt_title t, t_description = pt_description t,
      t_task_type = pt_task_type t, t_assigned_agent = Some (pt_assigned_agent t),
      t_dependencies = pt_dependencies t, t_status = TaskStatus.PENDING,
      t_input_data = pt_input_data t, t_output_data = None, t_error = None,
      t_retry_count = 0, t_max_retries = 3, t_created_at = now, t_completed_at = None\<rparr>"

definition domain_plan :: "tick \<Rightarrow> PlannedDecompositionSchema \<Rightarrow> ExecutionPlan" where
  "domain_plan k d =
     \<lparr>p_plan_id = k_uid k 0, p_tasks = map (domain_task (k_now k)) (pd_tasks d),
      p_current_task_id = None, p_rationale = Some (pd_rationale d), p_created_at = k_now k\<rparr>"

definition planner_failed :: "tick \<Rightarrow> exc \<Rightarrow> AgentResult" where
  "planner_failed k e =
     (if isinstance e ValidationError then
        agent_failure ''planner_agent'' (''Plan validation failed: '' @ e_message e) (e_retryable e)
          (latency_ms k) [(''code'', PStr (e_code e))]
      else if isinstance e OrchestratorError then
        agent_failure ''planner_agent'' (''Provider error during planning: '' @ e_message e)
          (e_retryable e) (latency_ms k) [(''code'', PStr (e_code e))]
      else
        agent_failure ''planner_agent'' (''Unexpected error in PlannerAgent: '' @ e_message e) False
          (latency_ms k) [])"

definition planner_execute ::
    "('w, PlannedDecompositionSchema) LLMRouter \<Rightarrow> 'w agent" where
  "planner_execute router k s task w =
     (if \<not> planner_validate_input s then
        (Inr (agent_failure ''planner_agent'' ''State request is empty or invalid for planning.''
           False (latency_ms k) []), s, w)
      else
        case generate_structured router
               (two_message_request planner_system_prompt (planner_user_prompt s) (1/5)) None w of
          (Inl e, w') \<Rightarrow> (Inr (planner_failed k e), s, w')
        | (Inr (parsed_plan, llm_resp), w') \<Rightarrow>
            (case validate_plan_dag parsed_plan of
               Inl e \<Rightarrow> (Inr (planner_failed k e), s, w')
             | Inr _ \<Rightarrow>
                 if list_ex (\<lambda>t. pt_title t = []) (pd_tasks parsed_plan)
                 then (Inr (planner_failed k (validation_failure ''title'')), s, w')
                 else
                 (Inr (agent_success ''planner_agent''
                    [(''execution_plan'', PDict (dump_plan (domain_plan k parsed_plan)))]
                    (Some (r_content llm_resp)) (latency_ms k)
                    [(''provider'', PStr (r_provider llm_resp)), (''model'', PStr (r_model llm_resp)),
                     (''total_tasks'', PInt (int (length (pd_tasks parsed_plan))))]), s, w')))"

section \<open>The retrieval agent (agents/retrieval.py)\<close>

definition task_input :: "Task option \<Rightarrow> dict" where
  "task_input task = (case task of None \<Rightarrow> [] | Some t \<Rightarrow> t_input_data t)"

definition query_of :: "OrchestrationState \<Rightarrow> Task option \<Rightarrow> pyval" where
  "query_of s task =
     (let q = dget (task_input task) ''query'' PNone in if truthy q then q else PStr (s_request s))"

definition py_type_name :: "pyval \<Rightarrow> string" where
  "py_type_name v = (case v of PNone \<Rightarrow> ''NoneType'' | PBool _ \<Rightarrow> ''bool'' | PInt _ \<Rightarrow> ''int''
     | PFloat _ \<Rightarrow> ''float'' | PStr _ \<Rightarrow> ''str'' | PTime _ \<Rightarrow> ''datetime'' | PList _ \<Rightarrow> ''list''
     | PDict _ \<Rightarrow> ''dict'')"

text \<open>\<open>query.strip()\<close> raises \<open>AttributeError\<close> on a value that is not a string.\<close>

definition retrieval_validate_input :: "OrchestrationState \<Rightarrow> Task option \<Rightarrow> exc + bool" where
  "retrieval_validate_input s task =
     (let query = query_of s task in
      if \<not> truthy query then Inr False
      else case query of
        PStr q \<Rightarrow> Inr (py_strip q \<noteq> [])
      | v \<Rightarrow> Inl (mk_Foreign ''AttributeError''
              (sq (py_type_name v) @ '' object has no attribute '' @ sq ''strip'')))"

definition serialize_match :: "ScoredDocument \<Rightarrow> dict" where
  "serialize_match m =
     [(''id'', PStr (doc_id (sd_document m))), (''content'', PStr (doc_content (sd_document m))),
      (''metadata'', PDict (doc_metadata (sd_document m))), (''score'', PFloat (sd_score m))]"

definition retrieval_execute ::
    "(pyval \<Rightarrow> int option) \<Rightarrow> (RetrievalQuery \<Rightarrow> 'w \<Rightarrow> (exc + RetrievalResult) \<times> 'w) \<Rightarrow> 'w agent" where
  "retrieval_execute to_int retrieve k s task w =
     (case retrieval_validate_input s task of
        Inl e \<Rightarrow> (Inl e, s, w)
      | Inr False \<Rightarrow>
          (Inr (agent_failure ''retrieval_agent'' ''No valid query string provided for retrieval.''
             False (latency_ms k) []), s, w)
      | Inr True \<Rightarrow>
          let query_str = query_of s task;
              top_k = dget (task_input task) ''top_k'' (PInt 3);
              filters = dget (task_input task) ''filters'' PNone
          in (case new_RetrievalQuery to_int query_str top_k filters of
                Inl e \<Rightarrow> (Inl e, s, w)
              | Inr query \<Rightarrow>
                  (case retrieve query w of
                     (Inl e, w') \<Rightarrow>
                       (Inr (agent_failure ''retrieval_agent''
                          (''Retrieval error occurred: '' @ e_message e) True (latency_ms k) []), s, w')
                   | (Inr result, w') \<Rightarrow>
                       let ms = map serialize_match (rr_matches result);
                           s' = fold (add_retrieved_context (k_now k)) ms s
                       in (Inr (agent_success ''retrieval_agent''
                             [(''query'', query_str), (''matches'', PList (map PDict ms)),
                              (''total_found'', PInt (int (rr_total_found result)))]
                             None (latency_ms k)
                             [(''total_found'', PInt (int (rr_total_found result))),
                              (''top_k'', top_k)]), s', w'))))"

section \<open>The tool execution agent (agents/tool_execution.py)\<close>

definition tool_validate_input :: "Task option \<Rightarrow> bool" where
  "tool_validate_input task =
     (case task of
        None \<Rightarrow> False
      | Some t \<Rightarrow>
          if t_input_data t = [] then False
          else let tool_name = dget (t_input_data t) ''tool_name'' PNone
               in truthy tool_name \<and> py_strip (py_str tool_name) \<noteq> [])"

definition tool_failed :: "tick \<Rightarrow> string \<Rightarrow> exc \<Rightarrow> AgentResult" where
  "tool_failed k tool_name e =
     (let meta = [(''code'', PStr (e_code e)), (''tool_name'', PStr tool_name)] in
      if isinstance e ToolNotFoundError then
        agent_failure ''tool_execution_agent'' (''Tool not found: '' @ e_message e) False
          (latency_ms k) meta
      else if isinstance e ValidationError then
        agent_failure ''tool_execution_agent''
          (''Tool input parameter validation error: '' @ e_message e) False (latency_ms k) meta
      else if isinstance e TimeoutError then
        agent_failure ''tool_execution_agent'' (''Tool execution timed out: '' @ e_message e) True
          (latency_ms k) meta
      else if isinstance e ToolExecutionError then
        agent_failure ''tool_execution_agent'' (''Tool execution failed: '' @ e_message e)
          (e_retryable e) (latency_ms k) meta
      else
        agent_failure ''tool_execution_agent''
          (''Unexpected error executing tool '' @ sq tool_name @ '': '' @ e_message e) False
          (latency_ms k) [])"

definition tool_agent_execute :: "'w ToolRegistry \<Rightarrow> 'w agent" where
  "tool_agent_execute reg k s task w =
     (if \<not> tool_validate_input task then
        (Inr (agent_failure ''tool_execution_agent''
           (''Task input_data missing required '' @ sq ''tool_name'' @ '' field.'') False
           (latency_ms k) []), s, w)
      else
        let input = task_input task;
            tool_name = py_strip (py_str (dget input ''tool_name'' PNone));
            params0 = dget input ''parameters'' PNone;
            params = (if params0 = PNone then PDict (filter (\<lambda>(n, _). n \<noteq> ''tool_name'') input)
                      else params0)
        in case params of
             PDict d \<Rightarrow>
               (case execute_tool reg tool_name d w of
                  (Inl e, w') \<Rightarrow> (Inr (tool_failed k tool_name e), s, w')
                | (Inr result, w') \<Rightarrow>
                    (Inr (agent_success ''tool_execution_agent''
                       [(''tool_name'', PStr tool_name), (''result'', PDict result)] None
                       (latency_ms k) [(''tool_name'', PStr tool_name)]),
                     add_tool_result (k_now k) tool_name (PDict result) s, w'))
           | v \<Rightarrow>
               (Inr (agent_failure ''tool_execution_agent''
                  (''Tool parameters must be a dictionary, got '' @ py_type_name v @ ''.'') False
                  (latency_ms k) []), s, w))"

section \<open>The validator (agents/validator.py)\<close>

record CriticEvaluationSchema =
  ce_is_valid :: bool
  ce_status :: ValidationStatus
  ce_score :: rat
  ce_feedback :: string
  ce_issues :: "string list"
  ce_needs_retry :: bool
  ce_needs_human_review :: bool

definition validator_validate_input :: "OrchestrationState \<Rightarrow> Task option \<Rightarrow> bool" where
  "validator_validate_input s task =
     (if ''target_output'' \<in> set (dkeys (task_input task)) then True
      else s_agent_outputs s \<noteq> [] \<or> opt_truthy (s_final_response s)
        \<or> (case task of None \<Rightarrow> False | Some t \<Rightarrow> dict_or_empty (t_output_data t) \<noteq> []))"

definition target_output :: "OrchestrationState \<Rightarrow> Task option \<Rightarrow> pyval" where
  "target_output s task =
     (let v = dget (task_input task) ''target_output'' PNone in
      if v \<noteq> PNone then v
      else if (case task of None \<Rightarrow> False | Some t \<Rightarrow> dict_or_empty (t_output_data t) \<noteq> [])
        then (case task of None \<Rightarrow> PNone | Some t \<Rightarrow> PDict (dict_or_empty (t_output_data t)))
      else if s_agent_outputs s \<noteq> [] then PDict (s_agent_outputs s)
      else opt_str (s_final_response s))"

definition acceptance_criteria :: "Task option \<Rightarrow> string" where
  "acceptance_criteria task =
     (case map_of (task_input task) ''acceptance_criteria'' of
        None \<Rightarrow> ''Must be accurate, factual, well-structured, and directly address the user objective.''
      | Some v \<Rightarrow> py_str v)"

definition validator_system_prompt :: string where
  "validator_system_prompt =
     ''You are an impartial Quality Gate & Critic Evaluator for an Enterprise Multi-Agent System.''
     @ nl @ ''Your sole objective is to evaluate whether the Candidate Output satisfies the Task Objective and Acceptance Criteria.''
     @ nl @ ''Rules:''
     @ nl @ ''1. Do NOT generate or rewrite the answer yourself. Strictly evaluate.''
     @ nl @ ''2. Determine status: VALID (fully acceptable), NEEDS_RETRY (fixable via prompt/re-run), or NEEDS_HUMAN_REVIEW (high-risk, ambiguous, or irreversible).''
     @ nl @ ''3. Provide constructive feedback and list specific issues if invalid.''
     @ nl @ ''4. Score between 0.0 and 1.0.''"

definition validator_user_prompt :: "OrchestrationState \<Rightarrow> Task option \<Rightarrow> string" where
  "validator_user_prompt s task =
     ''Original Request:'' @ nl @ s_request s @ nl @ nl
     @ ''Acceptance Criteria:'' @ nl @ acceptance_criteria task @ nl @ nl
     @ ''Candidate Output to Evaluate:'' @ nl @ py_str (target_output s task) @ nl"

definition verdict_of :: "tick \<Rightarrow> Task option \<Rightarrow> CriticEvaluationSchema \<Rightarrow> LLMResponse \<Rightarrow> ValidationResult" where
  "verdict_of k task critique llm_resp =
     \<lparr>v_validation_id = k_uid k 0, v_is_valid = ce_is_valid critique, v_status = ce_status critique,
      v_score = ce_score critique, v_feedback = Some (ce_feedback critique),
      v_issues = ce_issues critique, v_needs_retry = ce_needs_retry critique,
      v_needs_human_review = ce_needs_human_review critique, v_validator_name = ''validator_agent'',
      v_evaluated_task_id =
        (case task of None \<Rightarrow> None | Some t \<Rightarrow> if t_input_data t \<noteq> [] then Some (t_id t) else None),
      v_metadata = [(''provider'', PStr (r_provider llm_resp)), (''model'', PStr (r_model llm_resp))]\<rparr>"

definition validator_failed :: "tick \<Rightarrow> exc \<Rightarrow> AgentResult" where
  "validator_failed k e =
     (if isinstance e OrchestratorError then
        agent_failure ''validator_agent'' (''Critic evaluation provider error: '' @ e_message e)
          (e_retryable e) (latency_ms k) [(''code'', PStr (e_code e))]
      else
        agent_failure ''validator_agent'' (''Unexpected error in ValidatorAgent: '' @ e_message e)
          False (latency_ms k) [])"

definition validator_execute :: "('w, CriticEvaluationSchema) LLMRouter \<Rightarrow> 'w agent" where
  "validator_execute router k s task w =
     (if \<not> validator_validate_input s task then
        (Inr (agent_failure ''validator_agent'' ''No target output found to validate.'' False
           (latency_ms k) []), s, w)
      else
        case generate_structured router
               (two_message_request validator_system_prompt (validator_user_prompt s task) (1/10)) None w of
          (Inl e, w') \<Rightarrow> (Inr (validator_failed k e), s, w')
        | (Inr (critique, llm_resp), w') \<Rightarrow>
            let v = verdict_of k task critique llm_resp;
                s' = add_validation_result (k_now k) v s
            in if v_needs_human_review v then
                 (Inr (agent_escalate ''validator_agent''
                    (''Validation escalated to human review: '' @ fmt_opt (v_feedback v))
                    (Some [(''validation'', PDict (dump_validation v))]) (latency_ms k)), s', w')
               else
                 (Inr (agent_success ''validator_agent'' [(''validation'', PDict (dump_validation v))]
                    (Some (r_content llm_resp)) (latency_ms k)
                    [(''is_valid'', PBool (v_is_valid v)),
                     (''status'', PStr (validation_status_value (v_status v)))]), s', w'))"

end
