(* ===== verification/Nodes.thy ===== *)
theory Nodes
  imports Agents Telemetry
begin

text \<open>
  The nodes of the supervisor workflow (\<open>orchestration/nodes.py\<close>) over the graph state of
  \<open>orchestration/graph_state.py\<close>. A node execution takes the clock readings of the call, the
  graph state and the outside world; it returns the next graph state, or the exception it
  raises with the orchestration state it had mutated by then, the telemetry calls in order, and
  the world. The mutations of the active task go to its place in the plan (\<open>upd_task\<close>), as the
  node holds a reference to it.
\<close>

section \<open>Graph state\<close>

datatype action =
    To_planner | To_retrieval | To_tool | To_validator | To_human_gate | To_synthesis | To_failed
  | To_supervisor | Paused | Complete

record GraphState =
  g_state :: OrchestrationState
  g_current_task_id :: "string option"
  g_next_action :: "action option"
  g_human_decision :: "HumanDecision option"
  g_error :: "string option"

text \<open>
  \<open>SupervisorWorkflowNodes.__init__\<close>: the agents, whether a tracer and an audit sink are present,
  and \<open>ExecutionPlan.model_validate\<close> of the validation library.
\<close>

record 'w nodes =
  n_planner :: "'w agent"
  n_retriever :: "'w agent"
  n_tool_executor :: "'w agent"
  n_validator :: "'w agent"
  n_tracer :: bool
  n_audit_sink :: bool
  n_plan_validate :: "pyval \<Rightarrow> exc + ExecutionPlan"

type_synonym 'w outcome = "((exc \<times> OrchestrationState) + GraphState) \<times> effect list \<times> 'w"

text \<open>\<open>_safe_audit\<close>: the call is made when a sink is present; what the sink raises is dropped.\<close>

definition safe_audit :: "'w nodes \<Rightarrow> AuditEvent \<Rightarrow> effect list" where
  "safe_audit n event = (if n_audit_sink n then [Audit event] else [])"

definition span_start :: "'w nodes \<Rightarrow> span_args \<Rightarrow> effect list" where
  "span_start n a = (if n_tracer n then [SpanStart a] else [])"

definition span_end :: "'w nodes \<Rightarrow> string \<Rightarrow> string option \<Rightarrow> effect list" where
  "span_end n name err = (if n_tracer n then [SpanEnd name err] else [])"

definition node_event ::
    "OrchestrationState \<Rightarrow> AuditEventType \<Rightarrow> string \<Rightarrow> string \<Rightarrow> string \<Rightarrow> string \<Rightarrow> dict \<Rightarrow> AuditEvent" where
  "node_event s ty actor component action_name outcome metadata =
     \<lparr>a_run_id = s_run_id s, a_correlation_id = m_correlation_id (s_metadata s),
      a_session_id = m_session_id (s_metadata s), a_event_type = ty, a_actor = actor,
      a_component = component, a_action = action_name, a_outcome = outcome, a_metadata = metadata\<rparr>"

section \<open>Supervisor\<close>

definition dispatch_action :: "TaskType \<Rightarrow> action" where
  "dispatch_action ty =
     (if ty = TaskType.RETRIEVAL then To_retrieval
      else if ty = TaskType.TOOL_EXECUTION then To_tool
      else if ty = TaskType.PLANNING then To_planner
      else if ty = TaskType.SYNTHESIS then To_synthesis
      else To_tool)"

definition supervisor_node :: "tick \<Rightarrow> GraphState \<Rightarrow> GraphState" where
  "supervisor_node k gs =
     (let s = increment_step (k_now k) (Some ''supervisor'') (g_state gs); gs1 = gs\<lparr>g_state := s\<rparr> in
      if g_human_decision gs \<noteq> None then gs1\<lparr>g_next_action := Some To_human_gate\<rparr>
      else if s_status s = ExecutionStatus.FAILED then gs1\<lparr>g_next_action := Some To_failed\<rparr>
      else if s_requires_human s then gs1\<lparr>g_next_action := Some To_human_gate\<rparr>
      else case s_plan s of
        None \<Rightarrow> gs1\<lparr>g_next_action := Some To_planner\<rparr>
      | Some p \<Rightarrow>
          (case get_ready_tasks p of
             task # _ \<Rightarrow> gs1\<lparr>g_current_task_id := Some (t_id task),
                           g_next_action := Some (dispatch_action (t_task_type task))\<rparr>
           | [] \<Rightarrow>
               if all_completed p then gs1\<lparr>g_next_action := Some To_synthesis\<rparr>
               else if has_failed_tasks p then gs1\<lparr>g_next_action := Some To_failed\<rparr>
               else gs1\<lparr>g_state := record_error (k_now k)
                          [(''error'', PStr ''Dependency deadlock: tasks remain pending with unmet dependencies.'')] s,
                        g_next_action := Some To_failed\<rparr>))"

section \<open>Planner\<close>

definition planner_node :: "'w nodes \<Rightarrow> tick \<Rightarrow> GraphState \<Rightarrow> 'w \<Rightarrow> 'w outcome" where
  "planner_node n k gs w =
     (let s1 = increment_step (k_now k) (Some ''planner_agent'') (g_state gs);
          start = span_start n \<lparr>sp_name = ''planner_node'', sp_kind = SpanKind.AGENT, sp_attributes = [],
             sp_run_id = Some (s_run_id s1), sp_correlation_id = m_correlation_id (s_metadata s1),
             sp_session_id = m_session_id (s_metadata s1)\<rparr> in
      case n_planner n k s1 None w of
        (Inl e, s2, w') \<Rightarrow>
          (Inl (e, s2), start @ span_end n ''planner_node'' (Some (e_message e)), w')
      | (Inr result, s2, w') \<Rightarrow>
          let obs = [Observe ''planner_duration_seconds'' (k_elapsed k)] in
          (case (if ag_status result = AgentStatus.SUCCESS
                 then map_of (dict_or_empty (ag_output result)) ''execution_plan'' else None) of
             Some plan_data \<Rightarrow>
               (case n_plan_validate n plan_data of
                  Inl e \<Rightarrow> (Inl (e, s2), start @ obs @ span_end n ''planner_node'' (Some (e_message e)), w')
                | Inr p \<Rightarrow>
                    let s3 = add_agent_output (k_now k) ''planner_agent'' plan_data (s2\<lparr>s_plan := Some p\<rparr>)
                    in (Inr (gs\<lparr>g_state := s3, g_next_action := Some To_supervisor\<rparr>),
                        start @ obs
                        @ safe_audit n (node_event s3 AuditEventType.PLAN_CREATED ''planner_agent'' ''planner''
                            ''generate_execution_plan'' ''SUCCESS''
                            [(''tasks_count'', PInt (int (length (p_tasks p)))),
                             (''rationale'', opt_str (p_rationale p))])
                        @ span_end n ''planner_node'' None, w'))
           | None \<Rightarrow>
               let s3 = fail_run (k_now k) (''Planner failed: '' @ fmt_opt (ag_error result)) s2
               in (Inr (gs\<lparr>g_state := s3, g_error := ag_error result, g_next_action := Some To_failed\<rparr>),
                   start @ obs
                   @ safe_audit n (node_event s3 AuditEventType.PLAN_CREATED ''planner_agent'' ''planner''
                       ''generate_execution_plan'' ''FAILURE'' [(''error'', opt_str (ag_error result))])
                   @ span_end n ''planner_node'' (Some (fmt_opt (ag_error result))), w')))"

section \<open>Retrieval and tools\<close>

definition task_not_found :: "tick \<Rightarrow> GraphState \<Rightarrow> GraphState" where
  "task_not_found k gs =
     gs\<lparr>g_state := fail_run (k_now k)
          (''Active task ID '' @ sq (fmt_opt (g_current_task_id gs)) @ '' not found in plan.'') (g_state gs),
        g_next_action := Some To_failed\<rparr>"

text \<open>\<open>task.mark_failed(...)\<close> and \<open>state.record_error(...)\<close> for an unsuccessful agent result.\<close>

definition agent_task_failed ::
    "tick \<Rightarrow> string \<Rightarrow> string \<Rightarrow> AgentResult \<Rightarrow> OrchestrationState \<Rightarrow> OrchestrationState" where
  "agent_task_failed k i default_text result s =
     record_error (k_now k) [(''task_id'', PStr i), (''error'', opt_str (ag_error result))]
       (upd_task i (mark_failed (k_now k) (str_or (ag_error result) default_text)) s)"

definition retrieval_node :: "'w nodes \<Rightarrow> tick \<Rightarrow> GraphState \<Rightarrow> 'w \<Rightarrow> 'w outcome" where
  "retrieval_node n k gs w =
     (case active_task (g_state gs) (g_current_task_id gs) of
        None \<Rightarrow> (Inr (task_not_found k gs), [], w)
      | Some t \<Rightarrow>
          let i = t_id t;
              s1 = increment_step (k_now k) (Some ''retrieval_agent'')
                     (upd_task i mark_in_progress (g_state gs));
              start = CounterInc ''retrieval_queries_total''
                # span_start n \<lparr>sp_name = ''retrieval_node'', sp_kind = SpanKind.RETRIEVAL,
                    sp_attributes = [(''task_id'', PStr i), (''task_title'', PStr (t_title t))],
                    sp_run_id = Some (s_run_id s1), sp_correlation_id = None, sp_session_id = None\<rparr> in
          (case n_retriever n k s1 (active_task s1 (Some i)) w of
             (Inl e, s2, w') \<Rightarrow>
               (Inl (e, s2), start @ span_end n ''retrieval_node'' (Some (e_message e)), w')
           | (Inr result, s2, w') \<Rightarrow>
               let obs = [Observe ''retrieval_duration_seconds'' (k_elapsed k)] in
               if ag_status result = AgentStatus.SUCCESS then
                 let s3 = add_agent_output (k_now k) ''retrieval_agent'' (opt_dict (ag_output result))
                            (upd_task i (\<lambda>t. t\<lparr>t_output_data := ag_output result\<rparr>) s2)
                 in (Inr (gs\<lparr>g_state := s3, g_next_action := Some To_validator\<rparr>),
                     start @ obs
                     @ safe_audit n (node_event s3 AuditEventType.RETRIEVAL_EXECUTED ''retrieval_agent''
                         ''retrieval'' ''query_documents'' ''SUCCESS''
                         [(''task_id'', PStr i),
                          (''result_summary'', PStr (take 200 (py_str (opt_dict (ag_output result)))))])
                     @ span_end n ''retrieval_node'' None, w')
               else
                 (Inr (gs\<lparr>g_state := agent_task_failed k i ''Retrieval failed'' result s2,
                          g_next_action := Some To_validator\<rparr>),
                  start @ obs @ span_end n ''retrieval_node'' (Some (fmt_opt (ag_error result))), w')))"

definition tool_node :: "'w nodes \<Rightarrow> tick \<Rightarrow> GraphState \<Rightarrow> 'w \<Rightarrow> 'w outcome" where
  "tool_node n k gs w =
     (case active_task (g_state gs) (g_current_task_id gs) of
        None \<Rightarrow> (Inr (task_not_found k gs), [], w)
      | Some t \<Rightarrow>
          let i = t_id t;
              s1 = increment_step (k_now k) (Some ''tool_execution_agent'')
                     (upd_task i mark_in_progress (g_state gs));
              start = CounterInc ''tool_executions_total''
                # span_start n \<lparr>sp_name = ''tool_node'', sp_kind = SpanKind.TOOL,
                    sp_attributes = [(''task_id'', PStr i), (''task_title'', PStr (t_title t))],
                    sp_run_id = Some (s_run_id s1), sp_correlation_id = None, sp_session_id = None\<rparr> in
          (case n_tool_executor n k s1 (active_task s1 (Some i)) w of
             (Inl e, s2, w') \<Rightarrow>
               (Inl (e, s2), start @ span_end n ''tool_node'' (Some (e_message e)), w')
           | (Inr result, s2, w') \<Rightarrow>
               let obs = [Observe ''tool_duration_seconds'' (k_elapsed k)] in
               if ag_status result = AgentStatus.SUCCESS then
                 let s3 = upd_task i (\<lambda>t. t\<lparr>t_output_data := ag_output result\<rparr>) s2
                 in (Inr (gs\<lparr>g_state := s3, g_next_action := Some To_validator\<rparr>),
                     start @ obs
                     @ safe_audit n (node_event s3 AuditEventType.TOOL_INVOKED ''tool_execution_agent'' ''tools''
                         ''execute_tool'' ''SUCCESS'' [(''task_id'', PStr i)])
                     @ span_end n ''tool_node'' None, w')
               else
                 let s3 = agent_task_failed k i ''Tool execution failed'' result s2
                 in (Inr (gs\<lparr>g_state := s3, g_next_action := Some To_validator\<rparr>),
                     start @ obs
                     @ safe_audit n (node_event s3 AuditEventType.TOOL_INVOKED ''tool_execution_agent'' ''tools''
                         ''execute_tool'' ''FAILURE''
                         [(''task_id'', PStr i), (''error'', opt_str (ag_error result))])
                     @ span_end n ''tool_node'' (Some (fmt_opt (ag_error result))), w')))"

section \<open>Validator\<close>

text \<open>
  What the node does with the validator's result on a task \<open>t\<close> of the state \<open>s\<close>: the new state,
  whether the task keeps the graph's focus, the next action, the telemetry calls and the error
  of the span.
\<close>

definition output_or_empty :: "Task \<Rightarrow> dict" where
  "output_or_empty t = dict_or_empty (t_output_data t)"

definition validation_data :: "AgentResult \<Rightarrow> pyval" where
  "validation_data result = dget (dict_or_empty (ag_output result)) ''validation'' (PDict [])"

definition verdict_valid :: "AgentResult \<Rightarrow> dict \<Rightarrow> bool" where
  "verdict_valid result val_data \<longleftrightarrow>
     py_eq (dget val_data ''status'' PNone) (PStr (validation_status_value ValidationStatus.VALID))
     \<or> (ag_status result = AgentStatus.SUCCESS \<and> truthy (dget val_data ''is_valid'' PNone))"

definition verdict_retry :: "dict \<Rightarrow> bool" where
  "verdict_retry val_data \<longleftrightarrow>
     py_eq (dget val_data ''status'' PNone) (PStr (validation_status_value ValidationStatus.NEEDS_RETRY))
     \<or> truthy (dget val_data ''needs_retry'' PNone)"

definition incr_retry :: "Task \<Rightarrow> Task" where
  "incr_retry t = t\<lparr>t_retry_count := Suc (t_retry_count t)\<rparr>"

definition set_pending :: "Task \<Rightarrow> Task" where
  "set_pending t = t\<lparr>t_status := TaskStatus.PENDING\<rparr>"

definition escalate_task :: "tick \<Rightarrow> Task \<Rightarrow> AgentResult \<Rightarrow> OrchestrationState \<Rightarrow> OrchestrationState" where
  "escalate_task k t result s =
     request_human_escalation (k_now k) (k_uid k 1)
       (str_or (ag_error result) ''Validation critic requested human review.'')
       ''Review and approve task output or provide guidance.''
       (Some [(''task_id'', PStr (t_id t)), (''output'', opt_dict (t_output_data t))]) (Some (t_id t)) s"

definition validator_outcome ::
    "'w nodes \<Rightarrow> tick \<Rightarrow> GraphState \<Rightarrow> Task \<Rightarrow> AgentResult \<Rightarrow> OrchestrationState
     \<Rightarrow> ((exc \<times> OrchestrationState) + GraphState) \<times> effect list" where
  "validator_outcome n k gs t result s =
     (let i = t_id t in
      if ag_status result = AgentStatus.ESCALATE_HUMAN \<or> ag_requires_human result then
        let s' = escalate_task k t result s
        in (Inr (gs\<lparr>g_state := s', g_next_action := Some To_human_gate\<rparr>),
            CounterInc ''human_escalations_total''
            # safe_audit n (node_event s' AuditEventType.HUMAN_ESCALATED ''validator_agent'' ''validator''
                ''escalate_to_human'' ''ESCALATED''
                [(''task_id'', PStr i), (''reason'', opt_str (ag_error result))])
            @ span_end n ''validator_node'' None)
      else case validation_data result of
        PDict val_data \<Rightarrow>
          if verdict_valid result val_data then
            let s' = upd_task i (mark_completed (k_now k) (output_or_empty t)) s
            in (Inr (gs\<lparr>g_state := s', g_current_task_id := None, g_next_action := Some To_supervisor\<rparr>),
                safe_audit n (node_event s' AuditEventType.VALIDATION_VERDICT ''validator_agent'' ''validator''
                  ''verify_task_output'' ''SUCCESS'' [(''task_id'', PStr i), (''verdict'', PStr ''VALID'')])
                @ span_end n ''validator_node'' None)
          else if verdict_retry val_data then
            let s1 = upd_task i incr_retry s in
            if can_retry (incr_retry t) then
              let s' = upd_task i set_pending s1
              in (Inr (gs\<lparr>g_state := s', g_next_action := Some To_supervisor\<rparr>),
                  CounterInc ''validator_retries_total''
                  # safe_audit n (node_event s' AuditEventType.RETRY_TRIGGERED ''validator_agent'' ''validator''
                      ''retry_task'' ''RETRY''
                      [(''task_id'', PStr i), (''retry_count'', PInt (int (t_retry_count (incr_retry t))))])
                  @ span_end n ''validator_node'' None)
            else
              let s' = record_error (k_now k)
                         [(''task_id'', PStr i),
                          (''error'', PStr ''Retry budget exhausted after validation failure.'')]
                         (upd_task i (mark_failed (k_now k) ''Retry budget exhausted after validation failure.'') s1)
              in (Inr (gs\<lparr>g_state := s', g_next_action := Some To_supervisor\<rparr>),
                  CounterInc ''validator_retries_total''
                  # span_end n ''validator_node'' (Some ''Retry budget exhausted.''))
          else
            (Inr (gs\<lparr>g_state := upd_task i (mark_failed (k_now k)
                        (''Task output rejected by critic: '' @ py_str (dget val_data ''feedback'' PNone))) s,
                     g_next_action := Some To_supervisor\<rparr>),
             span_end n ''validator_node'' None)
      | v \<Rightarrow>
          let e = mk_Foreign ''AttributeError''
                    (sq (py_type_name v) @ '' object has no attribute '' @ sq ''get'')
          in (Inl (e, s), span_end n ''validator_node'' (Some (e_message e))))"

definition validator_node :: "'w nodes \<Rightarrow> tick \<Rightarrow> GraphState \<Rightarrow> 'w \<Rightarrow> 'w outcome" where
  "validator_node n k gs w =
     (case active_task (g_state gs) (g_current_task_id gs) of
        None \<Rightarrow> (Inr (gs\<lparr>g_next_action := Some To_supervisor\<rparr>), [], w)
      | Some t \<Rightarrow>
          let s1 = increment_step (k_now k) (Some ''validator_agent'') (g_state gs);
              start = span_start n \<lparr>sp_name = ''validator_node'', sp_kind = SpanKind.VALIDATOR,
                 sp_attributes = [(''task_id'', PStr (t_id t))], sp_run_id = Some (s_run_id s1),
                 sp_correlation_id = None, sp_session_id = None\<rparr> in
          (case n_validator n k s1 (Some t) w of
             (Inl e, s2, w') \<Rightarrow>
               (Inl (e, s2), start @ span_end n ''validator_node'' (Some (e_message e)), w')
           | (Inr result, s2, w') \<Rightarrow>
               (case validator_outcome n k gs t result s2 of
                  (r, es) \<Rightarrow>
                    (r, start @ Observe ''validator_duration_seconds'' (k_elapsed k) # es, w'))))"

section \<open>Human gate\<close>

text \<open>
  The task a decision is about: the graph's current task, else the one named by the request the
  decision answers.
\<close>

definition str_value :: "pyval \<Rightarrow> string option" where
  "str_value v = (case v of PStr s \<Rightarrow> Some s | _ \<Rightarrow> None)"

definition decision_task_id :: "GraphState \<Rightarrow> string option" where
  "decision_task_id gs =
     (case g_human_decision gs of
        None \<Rightarrow> g_current_task_id gs
      | Some d \<Rightarrow>
          if opt_truthy (g_current_task_id gs) then g_current_task_id gs
          else (case find (\<lambda>r. h_request_id r = d_request_id d) (s_human_requests (g_state gs)) of
                  None \<Rightarrow> g_current_task_id gs
                | Some r \<Rightarrow> if opt_truthy (h_task_id r) then h_task_id r
                            else str_value (dget (h_context r) ''task_id'' PNone)))"

definition upd_task_opt :: "Task option \<Rightarrow> (Task \<Rightarrow> Task) \<Rightarrow> OrchestrationState \<Rightarrow> OrchestrationState" where
  "upd_task_opt task f s = (case task of None \<Rightarrow> s | Some t \<Rightarrow> upd_task (t_id t) f s)"

definition decision_event ::
    "OrchestrationState \<Rightarrow> HumanDecision \<Rightarrow> string \<Rightarrow> string \<Rightarrow> AuditEvent" where
  "decision_event s d action_name outcome =
     node_event s AuditEventType.HUMAN_DECISION_APPLIED ''human_reviewer'' ''human_gate'' action_name outcome
       [(''decision_note'', opt_str (d_decision_note d)), (''reviewer_id'', opt_str (d_reviewer_id d))]"

definition resume_running :: "OrchestrationState \<Rightarrow> OrchestrationState" where
  "resume_running s = set_status ExecutionStatus.RUNNING (s\<lparr>s_requires_human := False\<rparr>)"

definition apply_payload :: "dict \<Rightarrow> Task \<Rightarrow> Task" where
  "apply_payload payload t =
     t\<lparr>t_input_data := dict_update (t_input_data t) payload, t_status := TaskStatus.PENDING\<rparr>"

definition await_human :: "GraphState \<Rightarrow> OrchestrationState \<Rightarrow> GraphState" where
  "await_human gs s =
     gs\<lparr>g_state := set_status ExecutionStatus.PAUSED_FOR_HUMAN s, g_next_action := Some Paused\<rparr>"

definition human_gate_node :: "'w nodes \<Rightarrow> tick \<Rightarrow> GraphState \<Rightarrow> GraphState \<times> effect list" where
  "human_gate_node n k gs =
     (let s = g_state gs; task = active_task s (decision_task_id gs) in
      case g_human_decision gs of
        None \<Rightarrow> (await_human gs s, [])
      | Some d \<Rightarrow>
          let s1 = apply_human_decision (k_now k) d s;
              note_text = fmt_opt (d_decision_note d);
              done = (\<lambda>s' a. gs\<lparr>g_state := s', g_human_decision := None, g_current_task_id := None,
                                g_next_action := Some a\<rparr>)
          in (case d_status d of
                APPROVED \<Rightarrow>
                  let s2 = resume_running (upd_task_opt task
                             (\<lambda>t. mark_completed (k_now k) (output_or_empty t) t) s1)
                  in (done s2 To_supervisor,
                      CounterInc ''human_decisions_approved_total''
                      # safe_audit n (decision_event s2 d ''approve_decision'' ''APPROVED''))
              | MODIFIED \<Rightarrow>
                  let payload = dict_or_empty (d_modified_payload d);
                      s2 = resume_running
                             (if payload \<noteq> [] then upd_task_opt task (apply_payload payload) s1 else s1)
                  in (done s2 To_supervisor,
                      CounterInc ''human_decisions_modified_total''
                      # safe_audit n (decision_event s2 d ''modify_decision'' ''MODIFIED''))
              | REJECTED \<Rightarrow>
                  let s2 = fail_run (k_now k) (''Workflow terminated by human reviewer: '' @ note_text)
                             (upd_task_opt task
                               (mark_failed (k_now k) (''Rejected by human reviewer: '' @ note_text)) s1)
                  in (done s2 To_failed,
                      CounterInc ''human_decisions_rejected_total''
                      # safe_audit n (decision_event s2 d ''reject_decision'' ''REJECTED''))
              | _ \<Rightarrow> (await_human gs s1, [])))"

section \<open>Synthesis and failure\<close>

definition synthesize_task :: "time \<Rightarrow> Task \<Rightarrow> Task" where
  "synthesize_task now t =
     (if t_task_type t = TaskType.SYNTHESIS \<and> t_status t \<noteq> TaskStatus.COMPLETED
      then mark_completed now
             (if output_or_empty t \<noteq> [] then output_or_empty t
              else [(''status'', PStr ''synthesized'')]) t
      else t)"

definition summary_lines :: "Task \<Rightarrow> string list" where
  "summary_lines t =
     (''- Task '' @ sq (t_title t) @ '' ('' @ t_id t @ ''): '' @ task_status_value (t_status t))
     # (if output_or_empty t \<noteq> [] then [''  Output: '' @ py_str (PDict (output_or_empty t))] else [])"

definition synthesis_node :: "tick \<Rightarrow> GraphState \<Rightarrow> GraphState" where
  "synthesis_node k gs =
     (let s1 = increment_step (k_now k) (Some ''synthesis_node'') (g_state gs);
          s2 = s1\<lparr>s_plan := map_option
                 (\<lambda>p. p\<lparr>p_tasks := map (synthesize_task (k_now k)) (p_tasks p)\<rparr>) (s_plan s1)\<rparr>;
          final_text = join_with nl
            ((''Summary for Request: '' @ sq (s_request s2) @ nl)
             # concat (map summary_lines (state_tasks s2)))
      in gs\<lparr>g_state := complete_run (k_now k) final_text s2, g_next_action := Some Complete\<rparr>)"

definition failed_node :: "tick \<Rightarrow> GraphState \<Rightarrow> GraphState" where
  "failed_node k gs =
     (let s = g_state gs in
      gs\<lparr>g_state := (if s_status s \<noteq> ExecutionStatus.FAILED
                     then fail_run (k_now k) ''Workflow encountered unrecoverable errors.'' s else s),
         g_next_action := Some Complete\<rparr>)"

end
