(* ===== verification/Workflow.thy ===== *)
theory Workflow
  imports Nodes
begin

text \<open>
  The compiled supervisor graph of \<open>OrchestrationRuntime._build_graph\<close>
  (\<open>orchestration/runtime.py\<close>) and its execution. The graph library runs one node per
  super-step along the declared edges and raises when the number of super-steps reaches the
  recursion limit; the fuel of \<open>graph_loop\<close> is that limit, and \<open>None\<close> is exhaustion.
\<close>

section \<open>The graph\<close>

datatype node =
    Supervisor | Planner | Retrieval | Tool_exec | Validator | Human_gate | Synthesis | Failed_node

definition supervisor_router :: "GraphState \<Rightarrow> node" where
  "supervisor_router gs =
     (case g_next_action gs of
        Some To_planner \<Rightarrow> Planner
      | Some To_retrieval \<Rightarrow> Retrieval
      | Some To_tool \<Rightarrow> Tool_exec
      | Some To_human_gate \<Rightarrow> Human_gate
      | Some To_synthesis \<Rightarrow> Synthesis
      | _ \<Rightarrow> Failed_node)"

definition validator_router :: "GraphState \<Rightarrow> node" where
  "validator_router gs = (if g_next_action gs = Some To_human_gate then Human_gate else Supervisor)"

definition human_gate_router :: "GraphState \<Rightarrow> node option" where
  "human_gate_router gs =
     (if g_next_action gs = Some To_failed then Some Failed_node
      else if g_next_action gs = Some To_supervisor then Some Supervisor
      else None)"

text \<open>The edge taken after a node; \<open>None\<close> is \<open>END\<close>.\<close>

fun next_node :: "node \<Rightarrow> GraphState \<Rightarrow> node option" where
  "next_node Supervisor gs = Some (supervisor_router gs)"
| "next_node Planner gs = Some Supervisor"
| "next_node Retrieval gs = Some Validator"
| "next_node Tool_exec gs = Some Validator"
| "next_node Validator gs = Some (validator_router gs)"
| "next_node Human_gate gs = human_gate_router gs"
| "next_node Synthesis gs = None"
| "next_node Failed_node gs = None"

fun exec_node :: "'w nodes \<Rightarrow> node \<Rightarrow> tick \<Rightarrow> GraphState \<Rightarrow> 'w \<Rightarrow> 'w outcome" where
  "exec_node n Supervisor k gs w = (Inr (supervisor_node k gs), [], w)"
| "exec_node n Planner k gs w = planner_node n k gs w"
| "exec_node n Retrieval k gs w = retrieval_node n k gs w"
| "exec_node n Tool_exec k gs w = tool_node n k gs w"
| "exec_node n Validator k gs w = validator_node n k gs w"
| "exec_node n Human_gate k gs w =
     (case human_gate_node n k gs of (gs', es) \<Rightarrow> (Inr gs', es, w))"
| "exec_node n Synthesis k gs w = (Inr (synthesis_node k gs), [], w)"
| "exec_node n Failed_node k gs w = (Inr (failed_node k gs), [], w)"

text \<open>The result of a run, the telemetry it made, and the state as last mutated on exhaustion.\<close>

datatype graph_result =
    Finished GraphState
  | Raised exc OrchestrationState
  | Out_of_steps OrchestrationState

fun graph_loop ::
    "'w nodes \<Rightarrow> (nat \<Rightarrow> tick) \<Rightarrow> nat \<Rightarrow> nat \<Rightarrow> node \<Rightarrow> GraphState \<Rightarrow> 'w
     \<Rightarrow> graph_result \<times> effect list \<times> 'w" where
  "graph_loop n ks 0 i nd gs w = (Out_of_steps (g_state gs), [], w)"
| "graph_loop n ks (Suc fuel) i nd gs w =
     (case exec_node n nd (ks i) gs w of
        (Inl (e, s), es, w') \<Rightarrow> (Raised e s, es, w')
      | (Inr gs', es, w') \<Rightarrow>
          (case next_node nd gs' of
             None \<Rightarrow> (Finished gs', es, w')
           | Some nd' \<Rightarrow>
               (case graph_loop n ks fuel (Suc i) nd' gs' w' of
                  (r, es', w'') \<Rightarrow> (r, es @ es', w''))))"

definition run_graph ::
    "'w nodes \<Rightarrow> (nat \<Rightarrow> tick) \<Rightarrow> nat \<Rightarrow> GraphState \<Rightarrow> 'w \<Rightarrow> graph_result \<times> effect list \<times> 'w" where
  "run_graph n ks recursion_limit gs w = graph_loop n ks recursion_limit 0 Supervisor gs w"

definition start_state :: "OrchestrationState \<Rightarrow> HumanDecision option \<Rightarrow> GraphState" where
  "start_state s d =
     \<lparr>g_state = s, g_current_task_id = None, g_next_action = None, g_human_decision = d, g_error = None\<rparr>"

text \<open>The same executions as a step relation, with the telemetry left out.\<close>

type_synonym config = "node \<times> GraphState"

inductive wf_step :: "'w nodes \<Rightarrow> config \<Rightarrow> config \<Rightarrow> bool" for n where
  node_step: "exec_node n nd k gs w = (Inr gs', es, w') \<Longrightarrow> next_node nd gs' = Some nd' \<Longrightarrow>
         wf_step n (nd, gs) (nd', gs')"

inductive wf_reach :: "'w nodes \<Rightarrow> config \<Rightarrow> config \<Rightarrow> bool" for n where
  reach_refl: "wf_reach n c c"
| reach_step: "wf_reach n c d \<Longrightarrow> wf_step n d e \<Longrightarrow> wf_reach n c e"

inductive_cases wf_stepE: "wf_step n (nd, gs) (nd', gs')"

inductive_simps wf_step_iff: "wf_step n (nd, gs) (nd', gs')"

text \<open>An invariant of the nodes holds wherever a run stops.\<close>

lemma wf_reach_invariant:
  assumes "wf_reach n c d" "I c" "\<And>d e. I d \<Longrightarrow> wf_step n d e \<Longrightarrow> I e"
  shows "I d"
  using assms by (induction rule: wf_reach.induct) blast+

lemma graph_loop_reach:
  assumes "graph_loop n ks fuel i nd gs w = (Finished gs', es, w')"
  shows "\<exists>nd1 gs1 k w1 es1 w2. wf_reach n (nd, gs) (nd1, gs1)
    \<and> exec_node n nd1 k gs1 w1 = (Inr gs', es1, w2) \<and> next_node nd1 gs' = None"
  using assms
proof (induction fuel arbitrary: i nd gs w es)
  case (Suc fuel)
  then obtain gs2 es2 w2 where ex: "exec_node n nd (ks i) gs w = (Inr gs2, es2, w2)"
    by (fastforce split: prod.splits sum.splits)
  show ?case
  proof (cases "next_node nd gs2")
    case None
    then show ?thesis using Suc.prems ex wf_reach.reach_refl by (fastforce split: prod.splits)
  next
    case (Some nd2)
    with Suc.prems ex obtain es3 where "graph_loop n ks fuel (Suc i) nd2 gs2 w2 = (Finished gs', es3, w')"
      by (auto split: prod.splits)
    from Suc.IH[OF this] obtain nd1 gs1 k w1 es1 w3
      where r: "wf_reach n (nd2, gs2) (nd1, gs1)"
        and e: "exec_node n nd1 k gs1 w1 = (Inr gs', es1, w3)" "next_node nd1 gs' = None" by blast
    have "wf_step n (nd, gs) (nd2, gs2)" using ex Some by (rule wf_step.node_step)
    with r have "wf_reach n (nd, gs) (nd1, gs1)"
    proof (induction rule: wf_reach.induct)
      case (reach_refl c) then show ?case using wf_reach.reach_refl wf_reach.reach_step by blast
    next
      case (reach_step c d e) then show ?case using wf_reach.reach_step by blast
    qed
    then show ?thesis using e by blast
  qed
qed simp

section \<open>How a run ends\<close>

lemmas state_ops =
  touch_def set_status_def record_error_def increment_step_def fail_run_def complete_run_def
  meta_touch_def upd_task_def

lemma s_status_simps [simp]:
  "s_status (touch now s) = s_status s"
  "s_status (set_status x s) = x"
  "s_status (record_error now d s) = s_status s"
  "s_status (increment_step now a s) = s_status s"
  "s_status (fail_run now m s) = ExecutionStatus.FAILED"
  "s_status (complete_run now m s) = ExecutionStatus.COMPLETED"
  "s_status (upd_task i f s) = s_status s"
  by (simp_all add: state_ops Let_def)

definition terminal_status :: "ExecutionStatus \<Rightarrow> bool" where
  "terminal_status x \<longleftrightarrow>
     x \<in> {ExecutionStatus.COMPLETED, ExecutionStatus.FAILED, ExecutionStatus.PAUSED_FOR_HUMAN}"

lemma human_gate_status:
  assumes "human_gate_node n k gs = (gs', es)" "human_gate_router gs' = None"
  shows "s_status (g_state gs') = ExecutionStatus.PAUSED_FOR_HUMAN \<and> g_next_action gs' = Some Paused"
  using assms
  by (auto simp: human_gate_node_def human_gate_router_def await_human_def Let_def
      split: option.splits HumanRequestStatus.splits if_splits)

lemma exec_node_end:
  assumes "exec_node n nd k gs w = (Inr gs', es, w')" "next_node nd gs' = None"
  shows "terminal_status (s_status (g_state gs'))"
  using assms human_gate_status
  by (cases nd) (fastforce simp: terminal_status_def synthesis_node_def failed_node_def Let_def
      split: prod.splits)+

lemma graph_loop_end:
  "graph_loop n ks fuel i nd gs w = (Finished gs', es, w') \<Longrightarrow> terminal_status (s_status (g_state gs'))"
  using graph_loop_reach exec_node_end by meson

end
