(* ===== verification/Supervision.thy ===== *)
theory Supervision
  imports Workflow
begin

text \<open>
  What the workflow relies on from its agents, as locales, and what holds of every run under
  those contracts: the tasks a node may change, the invariant of a run's task list (distinct
  identifiers, no task started before its dependencies completed, retry counts within budget)
  and the number of node executions a run needs. The locales are interpreted on the default
  wiring of the runtime at the end.
\<close>

section \<open>Contracts\<close>

text \<open>An agent appends to the logs of the state; control data are not its to change.\<close>

definition frame_eq :: "OrchestrationState \<Rightarrow> OrchestrationState \<Rightarrow> bool" where
  "frame_eq s s' \<longleftrightarrow>
     s_plan s' = s_plan s \<and> s_status s' = s_status s \<and> s_requires_human s' = s_requires_human s
     \<and> s_human_requests s' = s_human_requests s \<and> s_run_id s' = s_run_id s
     \<and> s_request s' = s_request s \<and> s_errors s' = s_errors s \<and> s_current_step s' = s_current_step s"

lemma frame_eq_refl [simp]: "frame_eq s s"
  by (simp add: frame_eq_def)

lemma frame_eq_trans: "frame_eq s t \<Longrightarrow> frame_eq t u \<Longrightarrow> frame_eq s u"
  by (simp add: frame_eq_def)

lemma frame_eq_tasks: "frame_eq s s' \<Longrightarrow> state_tasks s' = state_tasks s"
  by (simp add: frame_eq_def state_tasks_def)

lemma frame_eq_active: "frame_eq s s' \<Longrightarrow> active_task s' i = active_task s i"
  by (simp add: frame_eq_def active_task_def)

locale agent_contract =
  fixes run :: "'w agent"
  assumes run_frame: "run k s t w = (r, s', w') \<Longrightarrow> frame_eq s s'"

definition fresh_task :: "Task \<Rightarrow> bool" where
  "fresh_task t \<longleftrightarrow> t_status t = TaskStatus.PENDING \<and> t_retry_count t = 0"

text \<open>The workflow: its agents keep the contract, and a plan the planner delivers is a fresh DAG.\<close>

locale supervised =
  fixes n :: "'w nodes"
  assumes planner_contract: "agent_contract (n_planner n)"
    and retriever_contract: "agent_contract (n_retriever n)"
    and tool_contract: "agent_contract (n_tool_executor n)"
    and validator_contract: "agent_contract (n_validator n)"
    and planner_plan: "n_planner n k s t w = (Inr r, s', w') \<Longrightarrow> ag_status r = AgentStatus.SUCCESS \<Longrightarrow>
      map_of (dict_or_empty (ag_output r)) ''execution_plan'' = Some d \<Longrightarrow>
      n_plan_validate n d = Inr p \<Longrightarrow> plan_dag (p_tasks p) \<and> list_all fresh_task (p_tasks p)"

section \<open>Task lists\<close>

definition same_task :: "Task \<Rightarrow> Task \<Rightarrow> bool" where
  "same_task t u \<longleftrightarrow> t_id u = t_id t \<and> t_task_type u = t_task_type t
     \<and> t_dependencies u = t_dependencies t \<and> t_max_retries u = t_max_retries t"

lemma same_task_refl [simp]: "same_task t t"
  by (simp add: same_task_def)

definition dep_done :: "Task list \<Rightarrow> string \<Rightarrow> bool" where
  "dep_done ts d \<longleftrightarrow> (\<exists>u\<in>set ts. t_id u = d \<and> t_status u = TaskStatus.COMPLETED)"

definition deps_done :: "Task list \<Rightarrow> Task \<Rightarrow> bool" where
  "deps_done ts t \<longleftrightarrow> (\<forall>d\<in>set (t_dependencies t). dep_done ts d)"

definition retry_limit :: "Task \<Rightarrow> nat" where
  "retry_limit t = max 1 (t_max_retries t)"

definition task_ok :: "Task list \<Rightarrow> Task \<Rightarrow> bool" where
  "task_ok ts t \<longleftrightarrow>
     (t_status t \<noteq> TaskStatus.PENDING \<and> t_task_type t \<noteq> TaskType.SYNTHESIS \<longrightarrow> deps_done ts t)
     \<and> t_retry_count t \<le> retry_limit t
     \<and> (t_status t = TaskStatus.PENDING \<longrightarrow> t_retry_count t < retry_limit t)"

definition tasks_inv :: "Task list \<Rightarrow> bool" where
  "tasks_inv ts \<longleftrightarrow> distinct (map t_id ts) \<and> (\<forall>t\<in>set ts. task_ok ts t)"

text \<open>Updating a task that is not completed loses no completed dependency.\<close>

lemma dep_done_upd:
  assumes "dep_done ts d" "distinct (map t_id ts)" "t \<in> set ts" "t_id t = i"
    and "t_status t \<noteq> TaskStatus.COMPLETED" "\<And>u. same_task u (f u)"
  shows "dep_done (upd_first (\<lambda>u. t_id u = i) f ts) d"
proof -
  obtain u where u: "u \<in> set ts" "t_id u = d" "t_status u = TaskStatus.COMPLETED"
    using assms(1) by (auto simp: dep_done_def)
  have "t_id u \<noteq> i"
    using u assms(2-5) by (auto simp: distinct_map dest: inj_onD)
  then have "u \<in> set (upd_first (\<lambda>u. t_id u = i) f ts)"
    using u assms(2) by (force simp: upd_first_distinct)
  then show ?thesis using u by (auto simp: dep_done_def)
qed

lemma tasks_inv_upd:
  assumes inv: "tasks_inv ts" and t: "t \<in> set ts" "t_id t = i"
    and "t_status t \<noteq> TaskStatus.COMPLETED" and same: "\<And>u. same_task u (f u)"
    and deps: "deps_done ts t"
    and retry: "t_retry_count (f t) \<le> retry_limit t"
      "t_status (f t) = TaskStatus.PENDING \<Longrightarrow> t_retry_count (f t) < retry_limit t"
  shows "tasks_inv (upd_first (\<lambda>u. t_id u = i) f ts)"
proof -
  let ?ts = "upd_first (\<lambda>u. t_id u = i) f ts"
  have d: "distinct (map t_id ts)" using inv by (simp add: tasks_inv_def)
  have ids: "map t_id ?ts = map t_id ts"
    using same by (intro map_upd_first) (simp add: same_task_def)
  have mono: "deps_done ?ts u" if "deps_done ts u" for u
    using that dep_done_upd[OF _ d t assms(4) same] by (simp add: deps_done_def)
  have "task_ok ?ts u" if u: "u \<in> set ?ts" for u
  proof -
    from u obtain v where v: "v \<in> set ts" "u = (if t_id v = i then f v else v)"
      using d by (auto simp: upd_first_distinct)
    show ?thesis
    proof (cases "t_id v = i")
      case True
      then have "v = t" using d t v(1) by (auto simp: distinct_map dest: inj_onD)
      with v(2) True have "u = f t" by simp
      moreover have "deps_done ?ts (f t)" "retry_limit (f t) = retry_limit t"
        using mono[OF deps] same[of t] by (simp_all add: deps_done_def same_task_def retry_limit_def)
      ultimately show ?thesis using retry by (auto simp: task_ok_def)
    next
      case False
      then have "u = v" using v by simp
      then show ?thesis using inv v(1) mono by (auto simp: tasks_inv_def task_ok_def)
    qed
  qed
  with ids d show ?thesis by (simp add: tasks_inv_def)
qed

lemma fresh_tasks_inv: "plan_dag ts \<Longrightarrow> list_all fresh_task ts \<Longrightarrow> tasks_inv ts"
  by (auto simp: tasks_inv_def plan_dag_def task_ok_def fresh_task_def list_all_iff retry_limit_def)

text \<open>The weight of a task bounds how often it can still be dispatched.\<close>

definition task_weight :: "Task \<Rightarrow> nat" where
  "task_weight t =
     (if t_status t = TaskStatus.PENDING then max 1 (t_max_retries t - t_retry_count t) else 0)"

definition tasks_weight :: "Task list \<Rightarrow> nat" where
  "tasks_weight ts = sum_list (map task_weight ts)"

lemma tasks_weight_upd:
  assumes "find (\<lambda>u. t_id u = i) ts = Some t" "task_weight (f t) < task_weight t"
  shows "tasks_weight (upd_first (\<lambda>u. t_id u = i) f ts) < tasks_weight ts"
  using sum_list_upd_first[OF assms(1), of task_weight f] assms(2) by (simp add: tasks_weight_def)

lemma tasks_weight_ge: "t \<in> set ts \<Longrightarrow> task_weight t \<le> tasks_weight ts"
  unfolding tasks_weight_def by (rule member_le_sum_list) auto

lemma task_weight_pending: "t_status t = TaskStatus.PENDING \<Longrightarrow> 1 \<le> task_weight t"
  by (simp add: task_weight_def)

section \<open>What the state operations leave unchanged\<close>

lemma state_tasks_simps [simp]:
  "state_tasks (touch now s) = state_tasks s"
  "state_tasks (set_status x s) = state_tasks s"
  "state_tasks (record_error now d s) = state_tasks s"
  "state_tasks (increment_step now a s) = state_tasks s"
  "state_tasks (fail_run now m s) = state_tasks s"
  "state_tasks (complete_run now m s) = state_tasks s"
  "state_tasks (add_agent_output now nm v s) = state_tasks s"
  "state_tasks (request_human_escalation now q ra rb rc rd s) = state_tasks s"
  "state_tasks (upd_task i f s) = upd_first (\<lambda>t. t_id t = i) f (state_tasks s)"
  by (simp_all add: state_ops state_tasks_def Let_def add_agent_output_def
      request_human_escalation_def split: option.split)

lemma s_plan_simps [simp]:
  "s_plan (touch now s) = s_plan s"
  "s_plan (set_status x s) = s_plan s"
  "s_plan (record_error now d s) = s_plan s"
  "s_plan (increment_step now a s) = s_plan s"
  "s_plan (fail_run now m s) = s_plan s"
  "s_plan (add_agent_output now nm v s) = s_plan s"
  by (simp_all add: state_ops Let_def add_agent_output_def)

lemma requires_human_simps [simp]:
  "s_requires_human (touch now s) = s_requires_human s"
  "s_requires_human (set_status x s) = s_requires_human s"
  "s_requires_human (record_error now d s) = s_requires_human s"
  "s_requires_human (increment_step now a s) = s_requires_human s"
  "s_requires_human (fail_run now m s) = s_requires_human s"
  "s_requires_human (add_agent_output now nm v s) = s_requires_human s"
  "s_requires_human (upd_task i f s) = s_requires_human s"
  by (simp_all add: state_ops Let_def add_agent_output_def)

lemma s_status_simps2 [simp]:
  "s_status (add_agent_output now nm v s) = s_status s"
  "s_status (request_human_escalation now q ra rb rc rd s) = ExecutionStatus.PAUSED_FOR_HUMAN"
  by (simp_all add: add_agent_output_def request_human_escalation_def Let_def)

lemma active_task_tasks:
  "active_task s (Some i) = (if i = [] then None else find (\<lambda>t. t_id t = i) (state_tasks s))"
  by (auto simp: active_task_def state_tasks_def get_task_def split: option.split)

lemma active_task_None [simp]: "active_task s None = None"
  by (simp add: active_task_def split: option.split)

lemma active_task_SomeE:
  assumes "active_task s c = Some t"
  obtains "c = Some (t_id t)" "t_id t \<noteq> []" "find (\<lambda>u. t_id u = t_id t) (state_tasks s) = Some t"
    "t \<in> set (state_tasks s)"
proof (cases c)
  case (Some i)
  with assms have f: "i \<noteq> []" "find (\<lambda>t. t_id t = i) (state_tasks s) = Some t"
    by (auto simp: active_task_tasks split: if_splits)
  from find_SomeD[OF f(2)] that f Some show ?thesis by auto
qed (use assms in \<open>simp add: active_task_def split: option.splits\<close>)

section \<open>What one node does to the tasks\<close>

definition to_work :: "TaskStatus \<Rightarrow> bool" where
  "to_work x \<longleftrightarrow> x = TaskStatus.IN_PROGRESS \<or> x = TaskStatus.FAILED"

definition worked :: "(Task \<Rightarrow> Task) \<Rightarrow> bool" where
  "worked f \<longleftrightarrow> (\<forall>u. same_task u (f u) \<and> t_retry_count (f u) = t_retry_count u \<and> to_work (t_status (f u)))"

lemma worked_simps:
  "worked mark_in_progress"
  "worked f \<Longrightarrow> worked (t_output_data_update (\<lambda>_. d) \<circ> f)"
  "worked f \<Longrightarrow> worked (mark_failed now m \<circ> f)"
  by (simp_all add: worked_def mark_in_progress_def mark_failed_def same_task_def to_work_def)

lemma worked_id: "worked f \<Longrightarrow> t_id (f u) = t_id u"
  by (simp add: worked_def same_task_def)

text \<open>One dispatch: the graph state after a work node, and its task update.\<close>

definition work_done :: "GraphState \<Rightarrow> Task \<Rightarrow> GraphState \<Rightarrow> bool" where
  "work_done gs t gs' \<longleftrightarrow>
     (\<exists>f. worked f \<and> state_tasks (g_state gs') = upd_first (\<lambda>u. t_id u = t_id t) f (state_tasks (g_state gs)))
     \<and> g_current_task_id gs' = g_current_task_id gs \<and> g_human_decision gs' = g_human_decision gs
     \<and> g_next_action gs' = Some To_validator
     \<and> s_status (g_state gs') = s_status (g_state gs)
     \<and> s_requires_human (g_state gs') = s_requires_human (g_state gs)"

lemma upd_first_twice:
  "(\<And>u. t_id (f u) = t_id u) \<Longrightarrow>
   upd_first (\<lambda>u. t_id u = i) g (upd_first (\<lambda>u. t_id u = i) f ts) = upd_first (\<lambda>u. t_id u = i) (g \<circ> f) ts"
  by (rule upd_first_upd_first) simp

lemma work_doneI:
  assumes fr: "frame_eq (increment_step now a (upd_task (t_id t) mark_in_progress (g_state gs))) s2"
    and s3: "state_tasks s3 = upd_first (\<lambda>u. t_id u = t_id t) g (state_tasks s2)"
      "s_status s3 = s_status s2" "s_requires_human s3 = s_requires_human s2"
    and g: "worked (g \<circ> mark_in_progress)"
  shows "work_done gs t (gs\<lparr>g_state := s3, g_next_action := Some To_validator\<rparr>)"
proof -
  have "state_tasks s2 = upd_first (\<lambda>u. t_id u = t_id t) mark_in_progress (state_tasks (g_state gs))"
    using frame_eq_tasks[OF fr] by simp
  then have "state_tasks s3 =
      upd_first (\<lambda>u. t_id u = t_id t) (g \<circ> mark_in_progress) (state_tasks (g_state gs))"
    unfolding s3(1) by (simp add: upd_first_twice worked_id[OF worked_simps(1)])
  moreover have "s_status s3 = s_status (g_state gs)" "s_requires_human s3 = s_requires_human (g_state gs)"
    using fr s3 by (simp_all add: frame_eq_def)
  ultimately show ?thesis using g by (auto simp: work_done_def)
qed

lemma agent_task_failed_simps [simp]:
  "state_tasks (agent_task_failed k i m r s) =
     upd_first (\<lambda>u. t_id u = i) (mark_failed (k_now k) (str_or (ag_error r) m)) (state_tasks s)"
  "s_status (agent_task_failed k i m r s) = s_status s"
  "s_requires_human (agent_task_failed k i m r s) = s_requires_human s"
  by (simp_all add: agent_task_failed_def)

lemmas worked_work =
  worked_simps(2)[OF worked_simps(1)] worked_simps(3)[OF worked_simps(1)]

text \<open>The verdict on the task \<open>t\<close>: its update, and what a task put back to pending satisfies.\<close>

definition judged :: "Task \<Rightarrow> (Task \<Rightarrow> Task) \<Rightarrow> bool" where
  "judged t f \<longleftrightarrow>
     (\<forall>u. same_task u (f u)) \<and> t_retry_count (f t) \<le> Suc (t_retry_count t)
     \<and> (t_status (f t) = TaskStatus.PENDING \<longrightarrow>
          t_retry_count (f t) = Suc (t_retry_count t) \<and> Suc (t_retry_count t) < t_max_retries t)"

definition verdict_applied :: "GraphState \<Rightarrow> Task \<Rightarrow> GraphState \<Rightarrow> bool" where
  "verdict_applied gs t gs' \<longleftrightarrow>
     (\<exists>f. judged t f \<and> state_tasks (g_state gs') = upd_first (\<lambda>u. t_id u = t_id t) f (state_tasks (g_state gs)))
     \<and> g_human_decision gs' = g_human_decision gs \<and> g_next_action gs' = Some To_supervisor
     \<and> s_status (g_state gs') = s_status (g_state gs)
     \<and> s_requires_human (g_state gs') = s_requires_human (g_state gs)"

definition escalated :: "GraphState \<Rightarrow> GraphState \<Rightarrow> bool" where
  "escalated gs gs' \<longleftrightarrow>
     state_tasks (g_state gs') = state_tasks (g_state gs)
     \<and> g_human_decision gs' = g_human_decision gs \<and> g_next_action gs' = Some To_human_gate"

lemma judged_simps:
  "judged t (mark_completed now out)"
  "judged t (mark_failed now m)"
  "judged t (mark_failed now m \<circ> incr_retry)"
  "can_retry (incr_retry t) \<Longrightarrow> judged t (set_pending \<circ> incr_retry)"
  by (simp_all add: judged_def mark_completed_def mark_failed_def incr_retry_def set_pending_def
      same_task_def can_retry_def)

lemma verdict_appliedI:
  "judged t f \<Longrightarrow>
   state_tasks (g_state gs') = upd_first (\<lambda>u. t_id u = t_id t) f (state_tasks (g_state gs)) \<Longrightarrow>
   g_human_decision gs' = g_human_decision gs \<Longrightarrow> g_next_action gs' = Some To_supervisor \<Longrightarrow>
   s_status (g_state gs') = s_status (g_state gs) \<Longrightarrow>
   s_requires_human (g_state gs') = s_requires_human (g_state gs) \<Longrightarrow> verdict_applied gs t gs'"
  unfolding verdict_applied_def by blast

lemma escalate_task_tasks [simp]: "state_tasks (escalate_task k t result s) = state_tasks s"
  by (simp add: escalate_task_def)

lemma incr_retry_id: "t_id (incr_retry u) = t_id u"
  by (simp add: incr_retry_def)

lemma validator_outcome_cases:
  assumes "validator_outcome n k gs0 t result s = (Inr gs', es)" "frame_eq (g_state gs) s"
    and "g_human_decision gs = g_human_decision gs0"
  shows "escalated gs gs' \<or> verdict_applied gs t gs'"
proof (cases "ag_status result = AgentStatus.ESCALATE_HUMAN \<or> ag_requires_human result")
  case True
  have "gs' = gs0\<lparr>g_state := escalate_task k t result s, g_next_action := Some To_human_gate\<rparr>"
    using assms(1) unfolding validator_outcome_def Let_def if_P[OF True] by simp
  then show ?thesis using assms(2,3) by (auto simp: escalated_def frame_eq_tasks)
next
  case no_esc: False
  then obtain d where d: "validation_data result = PDict d"
    using assms(1) by (cases "validation_data result") (simp_all add: validator_outcome_def Let_def)
  let ?v = "verdict_valid result d" and ?r = "verdict_retry d" and ?c = "can_retry (incr_retry t)"
  have fr: "state_tasks s = state_tasks (g_state gs)" "s_status s = s_status (g_state gs)"
    "s_requires_human s = s_requires_human (g_state gs)"
    using assms(2) frame_eq_tasks[OF assms(2)] by (simp_all add: frame_eq_def)
  note sv = assms(1)[unfolded validator_outcome_def Let_def, simplified no_esc d pyval.case, simplified]
  consider "?v" | "\<not> ?v" "?r" "?c" | "\<not> ?v" "?r" "\<not> ?c" | "\<not> ?v" "\<not> ?r" by blast
  then have "verdict_applied gs t gs'"
  proof cases
    case 1
    then show ?thesis using sv assms(3) fr
      by (intro verdict_appliedI[OF judged_simps(1)]) auto
  next
    case 2
    then show ?thesis using sv assms(3) fr
      by (intro verdict_appliedI[OF judged_simps(4)[OF 2(3)]]) (auto simp: upd_first_twice incr_retry_id)
  next
    case 3
    then show ?thesis using sv assms(3) fr
      by (intro verdict_appliedI[OF judged_simps(3)]) (auto simp: upd_first_twice incr_retry_id)
  next
    case 4
    then show ?thesis using sv assms(3) fr
      by (intro verdict_appliedI[OF judged_simps(2)]) auto
  qed
  then show ?thesis ..
qed

context supervised
begin

lemma retriever_frame: "n_retriever n k s t w = (r, s', w') \<Longrightarrow> frame_eq s s'"
  by (rule agent_contract.run_frame[OF retriever_contract])

lemma tool_frame: "n_tool_executor n k s t w = (r, s', w') \<Longrightarrow> frame_eq s s'"
  by (rule agent_contract.run_frame[OF tool_contract])

lemma validator_frame: "n_validator n k s t w = (r, s', w') \<Longrightarrow> frame_eq s s'"
  by (rule agent_contract.run_frame[OF validator_contract])

lemma planner_frame: "n_planner n k s t w = (r, s', w') \<Longrightarrow> frame_eq s s'"
  by (rule agent_contract.run_frame[OF planner_contract])

lemma tool_node_work:
  assumes t: "active_task (g_state gs) (g_current_task_id gs) = Some t"
    and node: "tool_node n k gs w = (Inr gs', es, w')"
  shows "work_done gs t gs'"
proof -
  define s1 where "s1 = increment_step (k_now k) (Some ''tool_execution_agent'')
               (upd_task (t_id t) mark_in_progress (g_state gs))"
  obtain r s2 w2 where ag: "n_tool_executor n k s1 (active_task s1 (Some (t_id t))) w = (r, s2, w2)"
    by (metis prod_cases3)
  note fr = tool_frame[OF ag, unfolded s1_def]
  obtain result where r: "r = Inr result"
    using t node ag by (cases r) (simp_all add: tool_node_def Let_def s1_def[symmetric])
  show ?thesis
  proof (cases "ag_status result = AgentStatus.SUCCESS")
    case True
    then have "gs' = gs\<lparr>g_state := upd_task (t_id t) (\<lambda>t. t\<lparr>t_output_data := ag_output result\<rparr>) s2,
        g_next_action := Some To_validator\<rparr>"
      using t node ag r by (simp add: tool_node_def Let_def s1_def[symmetric])
    then show ?thesis by (simp only:) (rule work_doneI[OF fr], simp_all, rule worked_work)
  next
    case False
    then have "gs' = gs\<lparr>g_state := agent_task_failed k (t_id t) ''Tool execution failed'' result s2,
        g_next_action := Some To_validator\<rparr>"
      using t node ag r by (simp add: tool_node_def Let_def s1_def[symmetric])
    then show ?thesis by (simp only:) (rule work_doneI[OF fr], simp_all, rule worked_work)
  qed
qed

lemma retrieval_node_work:
  assumes t: "active_task (g_state gs) (g_current_task_id gs) = Some t"
    and node: "retrieval_node n k gs w = (Inr gs', es, w')"
  shows "work_done gs t gs'"
proof -
  define s1 where "s1 = increment_step (k_now k) (Some ''retrieval_agent'')
               (upd_task (t_id t) mark_in_progress (g_state gs))"
  obtain r s2 w2 where ag: "n_retriever n k s1 (active_task s1 (Some (t_id t))) w = (r, s2, w2)"
    by (metis prod_cases3)
  note fr = retriever_frame[OF ag, unfolded s1_def]
  obtain result where r: "r = Inr result"
    using t node ag by (cases r) (simp_all add: retrieval_node_def Let_def s1_def[symmetric])
  show ?thesis
  proof (cases "ag_status result = AgentStatus.SUCCESS")
    case True
    then have "gs' = gs\<lparr>g_state := add_agent_output (k_now k) ''retrieval_agent''
          (opt_dict (ag_output result)) (upd_task (t_id t) (\<lambda>t. t\<lparr>t_output_data := ag_output result\<rparr>) s2),
        g_next_action := Some To_validator\<rparr>"
      using t node ag r by (simp add: retrieval_node_def Let_def s1_def[symmetric])
    then show ?thesis by (simp only:) (rule work_doneI[OF fr], simp_all, rule worked_work)
  next
    case False
    then have "gs' = gs\<lparr>g_state := agent_task_failed k (t_id t) ''Retrieval failed'' result s2,
        g_next_action := Some To_validator\<rparr>"
      using t node ag r by (simp add: retrieval_node_def Let_def s1_def[symmetric])
    then show ?thesis by (simp only:) (rule work_doneI[OF fr], simp_all, rule worked_work)
  qed
qed

lemma validator_node_cases:
  assumes t: "active_task (g_state gs) (g_current_task_id gs) = Some t"
    and node: "validator_node n k gs w = (Inr gs', es, w')"
  shows "escalated gs gs' \<or> verdict_applied gs t gs'"
proof -
  define s1 where "s1 = increment_step (k_now k) (Some ''validator_agent'') (g_state gs)"
  obtain r s2 w2 where ag: "n_validator n k s1 (Some t) w = (r, s2, w2)"
    by (metis prod_cases3)
  obtain result where r: "r = Inr result"
    using t node ag by (cases r) (simp_all add: validator_node_def Let_def s1_def[symmetric])
  have out: "\<exists>es. validator_outcome n k gs t result s2 = (Inr gs', es)"
    using t node ag r by (auto simp: validator_node_def Let_def s1_def[symmetric] split: prod.splits)
  define gs1 where "gs1 = gs\<lparr>g_state := s1\<rparr>"
  have "frame_eq (g_state gs1) s2" using validator_frame[OF ag] by (simp add: gs1_def)
  then have "escalated gs1 gs' \<or> verdict_applied gs1 t gs'"
    using out validator_outcome_cases[of n k gs t result s2 gs' _ gs1] by (auto simp: gs1_def)
  then show ?thesis
    by (simp add: escalated_def verdict_applied_def gs1_def s1_def)
qed

end

section \<open>The invariant of a run\<close>

definition focus_ok :: "node \<Rightarrow> Task list \<Rightarrow> Task \<Rightarrow> bool" where
  "focus_ok nd ts t \<longleftrightarrow>
     (case nd of
        Retrieval \<Rightarrow> t_status t = TaskStatus.PENDING \<and> deps_done ts t
      | Tool_exec \<Rightarrow> t_status t = TaskStatus.PENDING \<and> deps_done ts t
      | Validator \<Rightarrow> to_work (t_status t) \<and> deps_done ts t \<and> t_retry_count t < retry_limit t
      | _ \<Rightarrow> True)"

definition run_inv :: "config \<Rightarrow> bool" where
  "run_inv c \<longleftrightarrow> (case c of (nd, gs) \<Rightarrow>
     g_human_decision gs = None \<and> tasks_inv (state_tasks (g_state gs))
     \<and> (\<forall>t. active_task (g_state gs) (g_current_task_id gs) = Some t
          \<longrightarrow> focus_ok nd (state_tasks (g_state gs)) t))"

lemma deps_done_upd:
  assumes "deps_done ts u" "distinct (map t_id ts)" "t \<in> set ts" "t_id t = i"
    and "t_status t \<noteq> TaskStatus.COMPLETED" "\<And>u. same_task u (f u)"
  shows "deps_done (upd_first (\<lambda>u. t_id u = i) f ts) u"
  using assms(1) dep_done_upd[OF _ assms(2-6)] by (simp add: deps_done_def)

lemma ready_in: "t \<in> set (get_ready_tasks p) \<Longrightarrow>
    t \<in> set (p_tasks p) \<and> t_status t = TaskStatus.PENDING \<and> deps_done (p_tasks p) t"
  using get_ready_tasks_sound[of t p] by (auto simp: deps_done_def dep_done_def)

text \<open>The supervisor changes no task, and dispatches only a ready one.\<close>

lemma supervisor_tasks [simp]: "state_tasks (g_state (supervisor_node k gs)) = state_tasks (g_state gs)"
  by (simp add: supervisor_node_def Let_def split: option.split list.split)

lemma supervisor_decision [simp]: "g_human_decision (supervisor_node k gs) = g_human_decision gs"
  by (simp add: supervisor_node_def Let_def split: option.split list.split)

definition work_node :: "node \<Rightarrow> bool" where
  "work_node nd \<longleftrightarrow> nd = Retrieval \<or> nd = Tool_exec"

lemma focus_ok_work:
  "work_node nd \<Longrightarrow> focus_ok nd ts t \<longleftrightarrow> t_status t = TaskStatus.PENDING \<and> deps_done ts t"
  by (auto simp: work_node_def focus_ok_def)

lemma supervisor_dispatch:
  assumes "work_node (supervisor_router (supervisor_node k gs))"
  shows "\<exists>p t rest. s_plan (g_state gs) = Some p \<and> get_ready_tasks p = t # rest
    \<and> g_current_task_id (supervisor_node k gs) = Some (t_id t)
    \<and> g_state (supervisor_node k gs) = increment_step (k_now k) (Some ''supervisor'') (g_state gs)"
  using assms
  by (auto simp: work_node_def supervisor_router_def supervisor_node_def Let_def
      split: option.splits list.splits if_splits)

lemma supervisor_focus:
  assumes "tasks_inv (state_tasks (g_state gs))" "work_node (supervisor_router (supervisor_node k gs))"
    and "active_task (g_state (supervisor_node k gs)) (g_current_task_id (supervisor_node k gs)) = Some t"
  shows "t_status t = TaskStatus.PENDING \<and> deps_done (state_tasks (g_state gs)) t"
proof -
  obtain p u rest where p: "s_plan (g_state gs) = Some p" "get_ready_tasks p = u # rest"
    "g_current_task_id (supervisor_node k gs) = Some (t_id u)"
    using supervisor_dispatch[OF assms(2)] by blast
  have ts: "state_tasks (g_state gs) = p_tasks p" using p(1) by (simp add: state_tasks_def)
  have u: "u \<in> set (p_tasks p)" "t_status u = TaskStatus.PENDING" "deps_done (p_tasks p) u"
    using ready_in[of u p] p(2) by auto
  have "find (\<lambda>v. t_id v = t_id u) (p_tasks p) = Some u"
    using assms(1) u(1) by (intro find_distinct) (auto simp: tasks_inv_def ts)
  then have "t = u" using assms(3) p(3) by (simp add: active_task_tasks ts split: if_splits)
  then show ?thesis using u ts by simp
qed

text \<open>The two work nodes and the validator.\<close>

lemma work_done_inv:
  assumes wd: "work_done gs t gs'" and inv: "tasks_inv (state_tasks (g_state gs))"
    and act: "active_task (g_state gs) (g_current_task_id gs) = Some t"
    and foc: "t_status t = TaskStatus.PENDING" "deps_done (state_tasks (g_state gs)) t"
    and dec: "g_human_decision gs = None"
  shows "run_inv (Validator, gs')"
proof -
  let ?ts = "state_tasks (g_state gs)"
  from wd obtain f where f: "worked f"
    and ts': "state_tasks (g_state gs') = upd_first (\<lambda>u. t_id u = t_id t) f ?ts"
    and cur: "g_current_task_id gs' = g_current_task_id gs" and d: "g_human_decision gs' = None"
    using dec by (auto simp: work_done_def)
  from act obtain i: "g_current_task_id gs = Some (t_id t)" "t_id t \<noteq> []"
    and t: "find (\<lambda>u. t_id u = t_id t) ?ts = Some t" "t \<in> set ?ts"
    by (rule active_task_SomeE)
  have same: "\<And>u. same_task u (f u)" and st: "to_work (t_status (f t))"
    and rc: "t_retry_count (f t) = t_retry_count t"
    using f by (simp_all add: worked_def)
  have ok: "task_ok ?ts t" "distinct (map t_id ?ts)" using inv t by (simp_all add: tasks_inv_def)
  have nc: "t_status t \<noteq> TaskStatus.COMPLETED" using foc by simp
  have inv': "tasks_inv (state_tasks (g_state gs'))"
    unfolding ts' using ok foc st rc
    by (intro tasks_inv_upd[OF inv t(2) refl nc same foc(2)]) (auto simp: task_ok_def to_work_def)
  have "active_task (g_state gs') (g_current_task_id gs') = Some (f t)"
    using i t(1) find_upd_first[of "\<lambda>u. t_id u = t_id t" f ?ts] worked_id[OF f]
    by (simp add: cur active_task_tasks ts')
  moreover have "focus_ok Validator (state_tasks (g_state gs')) (f t)"
    using deps_done_upd[OF foc(2) ok(2) t(2) refl nc same] same[of t] st rc ok(1) foc(1)
    by (simp add: focus_ok_def ts' deps_done_def same_task_def retry_limit_def task_ok_def)
  ultimately show ?thesis using inv' d by (simp add: run_inv_def)
qed

lemma work_missing_inv:
  assumes "active_task (g_state gs) (g_current_task_id gs) = None"
    and "tasks_inv (state_tasks (g_state gs))" "g_human_decision gs = None"
  shows "run_inv (Validator, task_not_found k gs)"
  using assms
  by (cases "g_current_task_id gs")
     (auto simp: run_inv_def task_not_found_def active_task_tasks split: if_splits)

lemma judged_inv:
  assumes va: "verdict_applied gs t gs'" and inv: "tasks_inv (state_tasks (g_state gs))"
    and act: "active_task (g_state gs) (g_current_task_id gs) = Some t"
    and foc: "focus_ok Validator (state_tasks (g_state gs)) t"
  shows "tasks_inv (state_tasks (g_state gs'))"
proof -
  let ?ts = "state_tasks (g_state gs)"
  from va obtain f where f: "judged t f"
    and ts': "state_tasks (g_state gs') = upd_first (\<lambda>u. t_id u = t_id t) f ?ts"
    by (auto simp: verdict_applied_def)
  from act have t: "t \<in> set ?ts" by (rule active_task_SomeE)
  have same: "\<And>u. same_task u (f u)" using f by (simp add: judged_def)
  show ?thesis
    unfolding ts' using foc f
    by (intro tasks_inv_upd[OF inv t refl _ same])
       (auto simp: focus_ok_def to_work_def judged_def retry_limit_def)
qed

text \<open>Synthesis completes synthesis tasks only.\<close>

lemma synthesize_same: "same_task t (synthesize_task now t)"
  by (simp add: synthesize_task_def same_task_def mark_completed_def)

lemma synthesis_tasks: "state_tasks (g_state (synthesis_node k gs)) =
    map (synthesize_task (k_now k)) (state_tasks (g_state gs))"
  by (simp add: synthesis_node_def Let_def state_tasks_def complete_run_def state_ops split: option.split)

lemma synthesis_inv:
  assumes "tasks_inv ts" shows "tasks_inv (map (synthesize_task now) ts)"
proof -
  have keep: "t_status (synthesize_task now u) = TaskStatus.COMPLETED" if "t_status u = TaskStatus.COMPLETED" for u
    using that by (simp add: synthesize_task_def)
  have dd: "dep_done (map (synthesize_task now) ts) d" if "dep_done ts d" for d
    using that keep synthesize_same[of _ now] by (fastforce simp: dep_done_def same_task_def)
  have ids: "map t_id (map (synthesize_task now) ts) = map t_id ts"
    using synthesize_same[of _ now] by (simp add: same_task_def)
  have "task_ok (map (synthesize_task now) ts) (synthesize_task now u)" if u: "u \<in> set ts" for u
    using assms u dd
    by (auto simp: tasks_inv_def task_ok_def synthesize_task_def mark_completed_def deps_done_def retry_limit_def)
  then show ?thesis using assms unfolding tasks_inv_def ids by simp
qed

lemma await_tasks: "human_gate_node n k gs = (gs', es) \<Longrightarrow> g_human_decision gs = None \<Longrightarrow>
    state_tasks (g_state gs') = state_tasks (g_state gs) \<and> g_next_action gs' = Some Paused"
  by (auto simp: human_gate_node_def await_human_def Let_def)

lemma start_inv: "tasks_inv (state_tasks s) \<Longrightarrow> run_inv (Supervisor, start_state s None)"
  by (simp add: run_inv_def start_state_def focus_ok_def)

context supervised
begin

lemma planner_tasks:
  assumes "planner_node n k gs w = (Inr gs', es, w')"
  shows "g_human_decision gs' = g_human_decision gs
    \<and> (state_tasks (g_state gs') = state_tasks (g_state gs)
       \<or> plan_dag (state_tasks (g_state gs')) \<and> list_all fresh_task (state_tasks (g_state gs')))"
proof -
  define s1 where "s1 = increment_step (k_now k) (Some ''planner_agent'') (g_state gs)"
  obtain r s2 w2 where ag: "n_planner n k s1 None w = (r, s2, w2)" by (metis prod_cases3)
  obtain result where r: "r = Inr result"
    using assms ag by (cases r) (simp_all add: planner_node_def Let_def s1_def[symmetric])
  have ts: "state_tasks s2 = state_tasks (g_state gs)"
    using frame_eq_tasks[OF planner_frame[OF ag]] by (simp add: s1_def)
  define d where "d = (if ag_status result = AgentStatus.SUCCESS
    then map_of (dict_or_empty (ag_output result)) ''execution_plan'' else None)"
  show ?thesis
  proof (cases d)
    case None
    then show ?thesis using assms ag r ts
      by (auto simp: planner_node_def Let_def s1_def[symmetric] d_def[symmetric])
  next
    case (Some v)
    then have suc: "ag_status result = AgentStatus.SUCCESS"
      "map_of (dict_or_empty (ag_output result)) ''execution_plan'' = Some v"
      by (simp_all add: d_def split: if_splits)
    obtain p where p: "n_plan_validate n v = Inr p"
      using assms ag r Some
      by (cases "n_plan_validate n v") (simp_all add: planner_node_def Let_def s1_def[symmetric] d_def[symmetric])
    have "state_tasks (g_state gs') = p_tasks p" "g_human_decision gs' = g_human_decision gs"
      using assms ag r Some p
      by (auto simp: planner_node_def Let_def s1_def[symmetric] d_def[symmetric] state_tasks_def)
    then show ?thesis using planner_plan[OF ag[unfolded r] suc p] by simp
  qed
qed

lemma exec_node_inv:
  assumes inv: "run_inv (nd, gs)" and ex: "exec_node n nd k gs w = (Inr gs', es, w')"
  shows "g_human_decision gs' = None \<and> tasks_inv (state_tasks (g_state gs'))"
    and "next_node nd gs' = Some nd' \<Longrightarrow> run_inv (nd', gs')"
proof -
  have dec: "g_human_decision gs = None" and ti: "tasks_inv (state_tasks (g_state gs))"
    using inv by (simp_all add: run_inv_def)
  let ?act = "active_task (g_state gs) (g_current_task_id gs)"
  have work: "run_inv (Validator, gs')" if nd: "work_node nd"
  proof (cases ?act)
    case None
    then have "gs' = task_not_found k gs"
      using nd ex by (auto simp: work_node_def retrieval_node_def tool_node_def)
    then show ?thesis using work_missing_inv[OF None ti dec] by simp
  next
    case (Some t)
    then have "work_done gs t gs'"
      using nd ex retrieval_node_work[OF Some] tool_node_work[OF Some] by (auto simp: work_node_def)
    moreover have "t_status t = TaskStatus.PENDING" "deps_done (state_tasks (g_state gs)) t"
      using inv Some nd by (auto simp: run_inv_def focus_ok_def work_node_def)
    ultimately show ?thesis using work_done_inv[OF _ ti Some _ _ dec] by blast
  qed
  have val: "g_human_decision gs' = None \<and> tasks_inv (state_tasks (g_state gs'))" if "nd = Validator"
  proof (cases ?act)
    case None
    then show ?thesis using that ex dec ti by (auto simp: validator_node_def)
  next
    case (Some t)
    then have "escalated gs gs' \<or> verdict_applied gs t gs'"
      using validator_node_cases[OF Some] that ex by simp
    moreover have "focus_ok Validator (state_tasks (g_state gs)) t"
      using inv Some that by (simp add: run_inv_def)
    ultimately show ?thesis using judged_inv[OF _ ti Some] dec ti
      by (auto simp: escalated_def verdict_applied_def)
  qed
  show main: "g_human_decision gs' = None \<and> tasks_inv (state_tasks (g_state gs'))"
  proof (cases nd)
    case Planner
    then show ?thesis using planner_tasks[of k gs w gs' es w'] ex dec ti fresh_tasks_inv by auto
  next
    case Retrieval then show ?thesis using work by (simp add: work_node_def run_inv_def)
  next
    case Tool_exec then show ?thesis using work by (simp add: work_node_def run_inv_def)
  next
    case Human_gate
    then show ?thesis using ex dec ti await_tasks[of n k gs gs' es]
      by (auto simp: human_gate_node_def await_human_def split: prod.splits)
  next
    case Synthesis
    then show ?thesis using ex dec ti synthesis_tasks[of k gs] synthesis_inv
      by (auto simp: synthesis_node_def Let_def)
  qed (use ex dec ti val in \<open>auto simp: failed_node_def Let_def\<close>)
  show "run_inv (nd', gs')" if nx: "next_node nd gs' = Some nd'"
  proof (cases "nd' = Validator \<or> work_node nd'")
    case False
    then show ?thesis using main by (auto simp: run_inv_def focus_ok_def work_node_def split: node.split)
  next
    case True
    then consider "work_node nd" "nd' = Validator" | "nd = Supervisor" "work_node nd'"
      using nx by (cases nd) (auto simp: work_node_def supervisor_router_def validator_router_def
          human_gate_router_def split: option.splits action.splits if_splits)
    then show ?thesis
    proof cases
      case 1 then show ?thesis using work by simp
    next
      case 2
      then have "gs' = supervisor_node k gs" "work_node (supervisor_router gs')" using ex nx by auto
      then have "focus_ok nd' (state_tasks (g_state gs')) t"
        if "active_task (g_state gs') (g_current_task_id gs') = Some t" for t
        using supervisor_focus[OF ti _ that[unfolded \<open>gs' = _\<close>]] focus_ok_work[OF 2(2)] by simp
      then show ?thesis using main by (simp add: run_inv_def)
    qed
  qed
qed

text \<open>Along every run that starts without a decision.\<close>

lemma graph_loop_inv:
  assumes "run_inv (nd, gs)" "graph_loop n ks fuel i nd gs w = (Finished gs', es, w')"
  shows "tasks_inv (state_tasks (g_state gs'))"
  using assms
proof (induction fuel arbitrary: i nd gs w es)
  case (Suc fuel)
  then obtain gs2 es2 w2 where ex: "exec_node n nd (ks i) gs w = (Inr gs2, es2, w2)"
    by (fastforce split: prod.splits sum.splits)
  show ?case
  proof (cases "next_node nd gs2")
    case None
    then show ?thesis using Suc.prems ex exec_node_inv(1)[OF Suc.prems(1) ex] by auto
  next
    case (Some nd2)
    then show ?thesis
      using Suc.prems(2) ex Suc.IH[OF exec_node_inv(2)[OF Suc.prems(1) ex Some]]
      by (auto split: prod.splits)
  qed
qed simp

end

section \<open>How long a run takes\<close>

definition returns :: "graph_result \<Rightarrow> bool" where
  "returns r = (case r of Out_of_steps s \<Rightarrow> False | _ \<Rightarrow> True)"

lemma returns_simps [simp]:
  "returns (Finished gs)" "returns (Raised e s)" "\<not> returns (Out_of_steps s)"
  by (simp_all add: returns_def)

lemma returnsI:
  assumes "\<And>gs' es w' nd'. exec_node n nd (ks i) gs w = (Inr gs', es, w') \<Longrightarrow>
      next_node nd gs' = Some nd' \<Longrightarrow> returns (fst (graph_loop n ks fuel (Suc i) nd' gs' w'))"
  shows "returns (fst (graph_loop n ks (Suc fuel) i nd gs w))"
proof -
  obtain r es w' where ex: "exec_node n nd (ks i) gs w = (r, es, w')" by (metis prod_cases3)
  show ?thesis
  proof (cases r)
    case (Inl p)
    then show ?thesis using ex by (cases p) simp
  next
    case (Inr gs')
    then show ?thesis using ex assms[of gs' es w']
      by (cases "next_node nd gs'") (auto split: prod.split)
  qed
qed

lemma returns_last: "(\<And>gs. next_node nd gs = None) \<Longrightarrow> returns (fst (graph_loop n ks (Suc fuel) i nd gs w))"
  by (rule returnsI) simp

lemma returns_await:
  assumes "g_human_decision gs = None"
  shows "returns (fst (graph_loop n ks (Suc fuel) i Human_gate gs w))"
proof (rule returnsI)
  fix gs' es w' nd'
  assume "exec_node n Human_gate (ks i) gs w = (Inr gs', es, w')" "next_node Human_gate gs' = Some nd'"
  then show "returns (fst (graph_loop n ks fuel (Suc i) nd' gs' w'))"
    using await_tasks[of n "ks i" gs gs' es] assms
    by (auto simp: human_gate_router_def split: prod.splits)
qed

definition no_planning :: "Task list \<Rightarrow> bool" where
  "no_planning ts \<longleftrightarrow> list_all (\<lambda>t. t_task_type t \<noteq> TaskType.PLANNING) ts"

lemma no_planning_upd:
  "no_planning ts \<Longrightarrow> (\<And>u. same_task u (f u)) \<Longrightarrow> no_planning (upd_first P f ts)"
  unfolding no_planning_def list_all_iff
  by (metis same_task_def set_upd_firstE find_SomeD)

lemma supervisor_router_cases:
  "supervisor_router gs \<in> {Planner, Retrieval, Tool_exec, Human_gate, Synthesis, Failed_node}"
  by (simp add: supervisor_router_def split: option.split action.split)

lemma supervisor_no_planner:
  assumes "g_human_decision gs = None" "state_tasks (g_state gs) \<noteq> []" "no_planning (state_tasks (g_state gs))"
  shows "supervisor_router (supervisor_node k gs) \<noteq> Planner"
proof -
  obtain p where p: "s_plan (g_state gs) = Some p" "p_tasks p = state_tasks (g_state gs)"
    using assms(2) by (cases "s_plan (g_state gs)") (auto simp: state_tasks_def)
  have "t_task_type t \<noteq> TaskType.PLANNING" if "get_ready_tasks p = t # ts" for t ts
    using ready_in[of t p] that assms(3) p(2) by (simp add: no_planning_def list_all_iff)
  then show ?thesis using p(1) assms(1)
    by (auto simp: supervisor_router_def supervisor_node_def Let_def dispatch_action_def split: list.split)
qed

lemma work_missing_active:
  "active_task (g_state gs) (g_current_task_id gs) = None \<Longrightarrow>
   active_task (g_state (task_not_found k gs)) (g_current_task_id (task_not_found k gs)) = None"
  by (cases "g_current_task_id gs") (auto simp: task_not_found_def active_task_tasks)

lemma work_lost:
  assumes "s_status (g_state gs) = ExecutionStatus.FAILED"
    and "g_human_decision gs = None"
  shows "supervisor_router (supervisor_node k gs) = Failed_node"
  using assms by (simp add: supervisor_router_def supervisor_node_def Let_def)

definition plans_within :: "'w nodes \<Rightarrow> nat \<Rightarrow> bool" where
  "plans_within n W \<longleftrightarrow>
     (\<forall>k s w r s' w' d p. n_planner n k s None w = (Inr r, s', w') \<longrightarrow>
        map_of (dict_or_empty (ag_output r)) ''execution_plan'' = Some d \<longrightarrow> n_plan_validate n d = Inr p \<longrightarrow>
        ag_status r = AgentStatus.SUCCESS \<longrightarrow>
        p_tasks p \<noteq> [] \<and> no_planning (p_tasks p) \<and> tasks_weight (p_tasks p) \<le> W)"

lemma redo_weight:
  assumes "worked f" "judged (f t) g" "t_status t = TaskStatus.PENDING"
  shows "task_weight ((g \<circ> f) t) < task_weight t"
  using assms by (auto simp: worked_def judged_def task_weight_def same_task_def)

context supervised
begin

theorem loop_returns:
  assumes "run_inv (Supervisor, gs)" "state_tasks (g_state gs) \<noteq> []" "no_planning (state_tasks (g_state gs))"
    and "3 * tasks_weight (state_tasks (g_state gs)) + 2 \<le> fuel"
  shows "returns (fst (graph_loop n ks fuel i Supervisor gs w))"
  using assms
proof (induction "tasks_weight (state_tasks (g_state gs))" arbitrary: gs fuel i w rule: less_induct)
  case less
  let ?ts = "state_tasks (g_state gs)"
  obtain f1 where f1: "fuel = Suc (Suc f1)" using less.prems(4)
    by (metis Suc_le_D Suc_le_mono add_2_eq_Suc' )
  define gs1 where "gs1 = supervisor_node (ks i) gs"
  have dec: "g_human_decision gs1 = None" "g_human_decision gs = None" and ti: "tasks_inv ?ts"
    using less.prems(1) by (simp_all add: run_inv_def gs1_def)
  have ts1: "state_tasks (g_state gs1) = ?ts" by (simp add: gs1_def)
  have inv1: "run_inv (supervisor_router gs1, gs1)"
    using exec_node_inv(2)[OF less.prems(1), of "ks i" w gs1 "[]" w] by (simp add: gs1_def)
  have "returns (fst (graph_loop n ks (Suc f1) (Suc i) (supervisor_router gs1) gs1 w))"
  proof (cases "work_node (supervisor_router gs1)")
    case False
    then consider "supervisor_router gs1 = Human_gate" | "supervisor_router gs1 = Synthesis"
      | "supervisor_router gs1 = Failed_node"
      using supervisor_no_planner[OF dec(2) less.prems(2,3), of "ks i"] supervisor_router_cases[of gs1]
      unfolding gs1_def[symmetric] by (auto simp: work_node_def)
    then show ?thesis
    proof cases
      case 1 then show ?thesis by (simp only: returns_await[OF dec(1)])
    next
      case 2 show ?thesis unfolding 2 by (rule returns_last) simp
    next
      case 3 show ?thesis unfolding 3 by (rule returns_last) simp
    qed
  next
    case work: True
    obtain p u rest where p: "s_plan (g_state gs) = Some p" "get_ready_tasks p = u # rest"
      using supervisor_dispatch work unfolding gs1_def by blast
    have "p_tasks p = ?ts" using p(1) by (simp add: state_tasks_def)
    then have u: "u \<in> set ?ts" "t_status u = TaskStatus.PENDING" using ready_in[of u p] p(2) by auto
    have "1 \<le> tasks_weight ?ts" using tasks_weight_ge[OF u(1)] task_weight_pending[OF u(2)] by linarith
    then have "3 \<le> f1" using less.prems(4) f1 by linarith
    then obtain f2 where f2: "f1 = Suc (Suc (Suc f2))"
      by (metis add_Suc add_0 le_Suc_ex numeral_3_eq_3)
    show ?thesis
    proof (rule returnsI)
      fix gs2 es w2 nd2
      assume ex: "exec_node n (supervisor_router gs1) (ks (Suc i)) gs1 w = (Inr gs2, es, w2)"
        and "next_node (supervisor_router gs1) gs2 = Some nd2"
      then have nd2: "nd2 = Validator" using work by (auto simp: work_node_def)
      have inv2: "run_inv (Validator, gs2)"
        using exec_node_inv(2)[OF inv1 ex, of Validator] work by (auto simp: work_node_def)
      show "returns (fst (graph_loop n ks f1 (Suc (Suc i)) nd2 gs2 w2))"
        unfolding nd2 f2
      proof (rule returnsI)
        fix gs3 es3 w3 nd3
        assume ex3: "exec_node n Validator (ks (Suc (Suc i))) gs2 w2 = (Inr gs3, es3, w3)"
          and nx3: "next_node Validator gs3 = Some nd3"
        have inv3: "run_inv (nd3, gs3)" by (rule exec_node_inv(2)[OF inv2 ex3 nx3])
        show "returns (fst (graph_loop n ks (Suc (Suc f2)) (Suc (Suc (Suc i))) nd3 gs3 w3))"
        proof (cases "active_task (g_state gs1) (g_current_task_id gs1)")
          case None
          then have gs2: "gs2 = task_not_found (ks (Suc i)) gs1"
            using ex work by (auto simp: work_node_def retrieval_node_def tool_node_def)
          have "active_task (g_state gs2) (g_current_task_id gs2) = None"
            using None work_missing_active gs2 by simp
          then have gs3: "gs3 = gs2\<lparr>g_next_action := Some To_supervisor\<rparr>"
            using ex3 by (simp add: validator_node_def)
          then have nd3: "nd3 = Supervisor" using nx3 by (simp add: validator_router_def)
          have "s_status (g_state gs3) = ExecutionStatus.FAILED" by (simp add: gs3 gs2 task_not_found_def)
          then have sr: "supervisor_router (supervisor_node k gs3) = Failed_node" for k
            using work_lost inv3 by (simp add: run_inv_def)
          show ?thesis unfolding nd3
          proof (rule returnsI)
            fix gs4 es4 w4 nd4
            assume "exec_node n Supervisor (ks (Suc (Suc (Suc i)))) gs3 w3 = (Inr gs4, es4, w4)"
              "next_node Supervisor gs4 = Some nd4"
            then have "nd4 = Failed_node" using sr by auto
            then show "returns (fst (graph_loop n ks (Suc f2) (Suc (Suc (Suc (Suc i)))) nd4 gs4 w4))"
              by (simp only:) (rule returns_last, simp)
          qed
        next
          case (Some t)
          have wd: "work_done gs1 t gs2"
            using ex work retrieval_node_work[OF Some] tool_node_work[OF Some] by (auto simp: work_node_def)
          then obtain f where f: "worked f" "state_tasks (g_state gs2) = upd_first (\<lambda>u. t_id u = t_id t) f ?ts"
            and cur2: "g_current_task_id gs2 = g_current_task_id gs1"
            by (auto simp: work_done_def ts1)
          from Some obtain i1: "g_current_task_id gs1 = Some (t_id t)" "t_id t \<noteq> []"
            and t: "find (\<lambda>u. t_id u = t_id t) ?ts = Some t" by (rule active_task_SomeE) (simp add: ts1)
          have pend: "t_status t = TaskStatus.PENDING"
            using inv1 Some work by (auto simp: run_inv_def focus_ok_work)
          have act2: "active_task (g_state gs2) (g_current_task_id gs2) = Some (f t)"
            using i1 t f find_upd_first[of "\<lambda>u. t_id u = t_id t" f ?ts] worked_id[OF f(1)]
            by (simp add: cur2 active_task_tasks)
          have "validator_node n (ks (Suc (Suc i))) gs2 w2 = (Inr gs3, es3, w3)" using ex3 by simp
          from validator_node_cases[OF act2 this]
          consider "escalated gs2 gs3" | "verdict_applied gs2 (f t) gs3" by blast
          then show ?thesis
          proof cases
            case 1
            then have "nd3 = Human_gate" using nx3 by (simp add: escalated_def validator_router_def)
            moreover have "g_human_decision gs3 = None" using inv3 by (simp add: run_inv_def)
            ultimately show ?thesis by (simp only: returns_await)
          next
            case 2
            then obtain g where g: "judged (f t) g"
              and ts3: "state_tasks (g_state gs3) = upd_first (\<lambda>u. t_id u = t_id t) (g \<circ> f) ?ts"
              using f upd_first_twice[OF worked_id[OF f(1)]] worked_id[OF f(1)]
              by (auto simp: verdict_applied_def)
            have nd3: "nd3 = Supervisor" using 2 nx3 by (simp add: verdict_applied_def validator_router_def)
            have less_w: "tasks_weight (state_tasks (g_state gs3)) < tasks_weight ?ts"
              unfolding ts3 by (rule tasks_weight_upd[where t = t]) (use t redo_weight[OF f(1) g pend] in simp_all)
            have same: "same_task u ((g \<circ> f) u)" for u
              using f(1) g by (auto simp: worked_def judged_def same_task_def)
            have ne: "state_tasks (g_state gs3) \<noteq> []" and np: "no_planning (state_tasks (g_state gs3))"
              unfolding ts3 using less.prems(2) no_planning_upd[OF less.prems(3) same]
              by (simp_all only: upd_first_eq_Nil not_False_eq_True)
            have "3 * tasks_weight (state_tasks (g_state gs3)) + 2 \<le> Suc (Suc f2)"
              using less_w less.prems(4) f1 f2 by linarith
            then show ?thesis
              unfolding nd3 by (rule less.hyps[OF less_w inv3[unfolded nd3] ne np])
          qed
        qed
      qed
    qed
  qed
  then have next1: "returns (fst (graph_loop n ks (Suc f1) (Suc i) nd' gs' w'))"
    if "exec_node n Supervisor (ks i) gs w = (Inr gs', es, w')" "next_node Supervisor gs' = Some nd'"
    for gs' es w' nd' using that unfolding gs1_def by (simp only: exec_node.simps next_node.simps
        prod.inject sum.inject option.inject)
  show ?case unfolding f1 by (rule returnsI) (rule next1)
qed

text \<open>A run that starts without a plan: the planner node comes first.\<close>

lemma returns_failed:
  assumes "s_status (g_state gs) = ExecutionStatus.FAILED" "g_human_decision gs = None"
  shows "returns (fst (graph_loop n ks (Suc (Suc fuel)) i Supervisor gs w))"
proof (rule returnsI)
  fix gs' es w' nd'
  assume "exec_node n Supervisor (ks i) gs w = (Inr gs', es, w')" "next_node Supervisor gs' = Some nd'"
  then have "nd' = Failed_node" using work_lost[OF assms, of "ks i"] by auto
  then show "returns (fst (graph_loop n ks (Suc fuel) (Suc i) nd' gs' w'))"
    by (simp only:) (rule returns_last, simp)
qed

lemma planner_node_cases:
  assumes "planner_node n k gs w = (Inr gs', es, w')"
  shows "s_status (g_state gs') = ExecutionStatus.FAILED
    \<or> (\<exists>r s2 d p. n_planner n k (increment_step (k_now k) (Some ''planner_agent'') (g_state gs)) None w
          = (Inr r, s2, w') \<and> ag_status r = AgentStatus.SUCCESS
        \<and> map_of (dict_or_empty (ag_output r)) ''execution_plan'' = Some d
        \<and> n_plan_validate n d = Inr p \<and> state_tasks (g_state gs') = p_tasks p)"
proof -
  define s1 where "s1 = increment_step (k_now k) (Some ''planner_agent'') (g_state gs)"
  obtain r s2 w2 where ag: "n_planner n k s1 None w = (r, s2, w2)" by (metis prod_cases3)
  obtain result where r: "r = Inr result"
    using assms ag by (cases r) (simp_all add: planner_node_def Let_def s1_def[symmetric])
  define d where "d = (if ag_status result = AgentStatus.SUCCESS
    then map_of (dict_or_empty (ag_output result)) ''execution_plan'' else None)"
  show ?thesis
  proof (cases d)
    case None
    then show ?thesis using assms ag r
      by (auto simp: planner_node_def Let_def s1_def[symmetric] d_def[symmetric])
  next
    case (Some v)
    then have suc: "ag_status result = AgentStatus.SUCCESS"
      "map_of (dict_or_empty (ag_output result)) ''execution_plan'' = Some v"
      by (simp_all add: d_def split: if_splits)
    obtain p where p: "n_plan_validate n v = Inr p"
      using assms ag r Some
      by (cases "n_plan_validate n v") (simp_all add: planner_node_def Let_def s1_def[symmetric] d_def[symmetric])
    have "state_tasks (g_state gs') = p_tasks p" "w2 = w'"
      using assms ag r Some p
      by (auto simp: planner_node_def Let_def s1_def[symmetric] d_def[symmetric] state_tasks_def)
    then show ?thesis using ag r suc p by (auto simp: s1_def)
  qed
qed

theorem fresh_loop_returns:
  assumes "s_plan s = None" "plans_within n W" "3 * W + 4 \<le> fuel"
  shows "returns (fst (graph_loop n ks fuel i Supervisor (start_state s None) w))"
proof -
  obtain f where f: "fuel = Suc (Suc (Suc (Suc f)))"
    using assms(3) by (intro that[of "fuel - 4"]) simp
  have ts: "state_tasks s = []" using assms(1) by (simp add: state_tasks_def)
  have inv: "run_inv (Supervisor, start_state s None)" by (rule start_inv) (simp add: ts tasks_inv_def)
  show ?thesis unfolding f
  proof (rule returnsI)
    fix gs1 es w1 nd1
    assume ex: "exec_node n Supervisor (ks i) (start_state s None) w = (Inr gs1, es, w1)"
      and nx: "next_node Supervisor gs1 = Some nd1"
    have inv1: "run_inv (nd1, gs1)" by (rule exec_node_inv(2)[OF inv ex nx])
    then have dec: "g_human_decision gs1 = None" by (simp add: run_inv_def)
    have nd1: "nd1 = Human_gate \<or> nd1 = Failed_node \<or> nd1 = Planner"
      using ex nx assms(1) by (auto simp: supervisor_node_def supervisor_router_def start_state_def Let_def
          split: if_splits)
    then consider "nd1 = Human_gate" | "nd1 = Failed_node" | "nd1 = Planner" by blast
    then show "returns (fst (graph_loop n ks (Suc (Suc (Suc f))) (Suc i) nd1 gs1 w1))"
    proof cases
      case 1 show ?thesis unfolding 1 by (rule returns_await[OF dec])
    next
      case 2 show ?thesis unfolding 2 by (rule returns_last) simp
    next
      case 3
      show ?thesis unfolding 3
      proof (rule returnsI)
        fix gs2 es2 w2 nd2
        assume ex2: "exec_node n Planner (ks (Suc i)) gs1 w1 = (Inr gs2, es2, w2)"
          and nx2: "next_node Planner gs2 = Some nd2"
        have nd2: "nd2 = Supervisor" using nx2 by simp
        have inv2: "run_inv (nd2, gs2)" by (rule exec_node_inv(2)[OF inv1[unfolded 3] ex2 nx2])
        have pn: "planner_node n (ks (Suc i)) gs1 w1 = (Inr gs2, es2, w2)" using ex2 by simp
        show "returns (fst (graph_loop n ks (Suc (Suc f)) (Suc (Suc i)) nd2 gs2 w2))"
        proof (cases "s_status (g_state gs2) = ExecutionStatus.FAILED")
          case True
          then show ?thesis unfolding nd2 using inv2 by (intro returns_failed) (simp_all add: run_inv_def)
        next
          case False
          with planner_node_cases[OF pn] obtain r s2 d p where ag:
              "n_planner n (ks (Suc i)) (increment_step (k_now (ks (Suc i))) (Some ''planner_agent'') (g_state gs1))
                 None w1 = (Inr r, s2, w2)"
            and d: "ag_status r = AgentStatus.SUCCESS"
              "map_of (dict_or_empty (ag_output r)) ''execution_plan'' = Some d" "n_plan_validate n d = Inr p"
            and ts2: "state_tasks (g_state gs2) = p_tasks p" by auto
          have p: "p_tasks p \<noteq> [] \<and> no_planning (p_tasks p) \<and> tasks_weight (p_tasks p) \<le> W"
            using assms(2)[unfolded plans_within_def, rule_format, OF ag d(2,3,1)] .
          show ?thesis unfolding nd2
            by (rule loop_returns[OF inv2[unfolded nd2]]) (use p ts2 assms(3) f in simp_all)
        qed
      qed
    qed
  qed
qed

end

end
