(* ===== verification/Wiring.thy ===== *)
theory Wiring
  imports Supervision
begin

text \<open>
  The default wiring of \<open>OrchestrationRuntime.__init__\<close>: the framework's own four agents. They
  keep the agent contract, and a plan the planner delivers is a fresh DAG as soon as the
  validation library reads a dumped plan back (\<open>revalidates_dumps\<close>); so the contracts of
  \<open>Supervision\<close> hold of this wiring. \<open>load_plan\<close> is a concrete reader of dumps that meets
  the assumption.
\<close>

section \<open>The agents keep the contract\<close>

lemma frame_eq_logs:
  "frame_eq s (add_tool_result now a v s)"
  "frame_eq s (add_validation_result now r s)"
  "frame_eq s (add_retrieved_context now d s)"
  by (simp_all add: frame_eq_def add_tool_result_def add_validation_result_def
      add_retrieved_context_def state_ops)

lemma frame_eq_fold: "frame_eq s (fold (add_retrieved_context now) ds s)"
proof (induction ds arbitrary: s)
  case (Cons d ds)
  show ?case using frame_eq_trans[OF frame_eq_logs(3) Cons.IH] by simp
qed simp

interpretation planner_agent: agent_contract "planner_execute router" for router
proof
  fix k s t w r s' w'
  show "planner_execute router k s t w = (r, s', w') \<Longrightarrow> frame_eq s s'"
    by (auto simp: planner_execute_def split: if_splits prod.splits sum.splits)
qed

interpretation retrieval_agent: agent_contract "retrieval_execute to_int retrieve" for to_int retrieve
proof
  fix k s t w r s' w'
  show "retrieval_execute to_int retrieve k s t w = (r, s', w') \<Longrightarrow> frame_eq s s'"
    by (auto simp: retrieval_execute_def Let_def frame_eq_fold split: prod.splits sum.splits bool.splits)
qed

interpretation tool_agent: agent_contract "tool_agent_execute reg" for reg
proof
  fix k s t w r s' w'
  show "tool_agent_execute reg k s t w = (r, s', w') \<Longrightarrow> frame_eq s s'"
    by (auto simp: tool_agent_execute_def Let_def frame_eq_logs
        split: if_splits prod.splits sum.splits pyval.splits)
qed

interpretation validator_agent: agent_contract "validator_execute router" for router
proof
  fix k s t w r s' w'
  show "validator_execute router k s t w = (r, s', w') \<Longrightarrow> frame_eq s s'"
    by (auto simp: validator_execute_def Let_def frame_eq_logs split: if_splits prod.splits sum.splits)
qed

section \<open>The planner's plan\<close>

definition titled :: "Task list \<Rightarrow> bool" where
  "titled ts \<longleftrightarrow> list_all (\<lambda>t. t_title t \<noteq> []) ts"

text \<open>
  What the code relies on from the validation library: \<open>model_validate\<close> of a dumped plan that
  meets the field constraints gives the plan back.
\<close>

definition revalidates_dumps :: "(pyval \<Rightarrow> exc + ExecutionPlan) \<Rightarrow> bool" where
  "revalidates_dumps validate \<longleftrightarrow>
     (\<forall>p. titled (p_tasks p) \<longrightarrow> validate (PDict (dump_plan p)) = Inr p)"

lemma domain_task_simps [simp]:
  "t_id (domain_task now t) = pt_id t" "t_title (domain_task now t) = pt_title t"
  "t_dependencies (domain_task now t) = pt_dependencies t"
  "t_task_type (domain_task now t) = pt_task_type t"
  "t_status (domain_task now t) = TaskStatus.PENDING" "t_retry_count (domain_task now t) = 0"
  "t_max_retries (domain_task now t) = 3"
  by (simp_all add: domain_task_def)

lemma domain_plan_tasks [simp]:
  "p_tasks (domain_plan k d) = map (domain_task (k_now k)) (pd_tasks d)"
  by (simp add: domain_plan_def)

lemma domain_task_edges:
  "task_edges (map (domain_task now) ts) =
     {(dep, pt_id t) | dep t. t \<in> set ts \<and> dep \<in> set (pt_dependencies t)}"
  unfolding task_edges_def set_map by (auto; metis domain_task_simps(1,3) imageI)

lemma domain_plan_dag:
  assumes "valid_dag (pd_tasks d)"
  shows "plan_dag (p_tasks (domain_plan k d))" "list_all fresh_task (p_tasks (domain_plan k d))"
proof -
  have ids: "map t_id (map (domain_task now) ts) = map pt_id ts" for now ts by simp
  show "plan_dag (p_tasks (domain_plan k d))"
    using assms unfolding plan_dag_def ids domain_plan_tasks domain_task_edges valid_dag_def by auto
  show "list_all fresh_task (p_tasks (domain_plan k d))"
    by (simp add: list_all_iff fresh_task_def)
qed

lemma planner_execute_success:
  assumes "planner_execute router k s t w = (Inr r, s', w')" "ag_status r = AgentStatus.SUCCESS"
  obtains d where "validate_plan_dag d = Inr ()" "titled (p_tasks (domain_plan k d))"
    "ag_output r = Some [(''execution_plan'', PDict (dump_plan (domain_plan k d)))]"
proof -
  have failed: "ag_status (agent_failure a m b l md) \<noteq> AgentStatus.SUCCESS" for a m b l md
    by (simp add: agent_failure_def)
  then have pf: "ag_status (planner_failed k e) \<noteq> AgentStatus.SUCCESS" for e
    by (simp add: planner_failed_def)
  let ?gen = "generate_structured router
    (two_message_request planner_system_prompt (planner_user_prompt s) (1/5)) None w"
  obtain g w1 where gen: "?gen = (g, w1)" by fastforce
  have vi: "planner_validate_input s"
    by (cases "planner_validate_input s") (use assms failed in \<open>auto simp: planner_execute_def\<close>)
  obtain d resp where g: "g = Inr (d, resp)"
    using assms gen vi pf by (cases g) (auto simp: planner_execute_def)
  have v: "validate_plan_dag d = Inr ()"
    using assms gen vi pf g by (cases "validate_plan_dag d") (auto simp: planner_execute_def)
  have tt: "\<not> list_ex (\<lambda>t. pt_title t = []) (pd_tasks d)"
    using assms gen vi pf g v by (auto simp: planner_execute_def split: if_splits)
  have "ag_output r = Some [(''execution_plan'', PDict (dump_plan (domain_plan k d)))]"
    using assms gen vi g v tt by (auto simp: planner_execute_def agent_success_def)
  moreover have "titled (p_tasks (domain_plan k d))"
    using tt by (auto simp: titled_def list_all_iff list_ex_iff)
  ultimately show thesis using v that by blast
qed

section \<open>The default nodes\<close>

definition default_nodes ::
    "('w, PlannedDecompositionSchema) LLMRouter \<Rightarrow> ('w, CriticEvaluationSchema) LLMRouter
     \<Rightarrow> (pyval \<Rightarrow> int option) \<Rightarrow> (RetrievalQuery \<Rightarrow> 'w \<Rightarrow> (exc + RetrievalResult) \<times> 'w)
     \<Rightarrow> 'w ToolRegistry \<Rightarrow> bool \<Rightarrow> bool \<Rightarrow> (pyval \<Rightarrow> exc + ExecutionPlan) \<Rightarrow> 'w nodes" where
  "default_nodes planner_llm critic_llm to_int retrieve reg tracer sink validate =
     \<lparr>n_planner = planner_execute planner_llm, n_retriever = retrieval_execute to_int retrieve,
      n_tool_executor = tool_agent_execute reg, n_validator = validator_execute critic_llm,
      n_tracer = tracer, n_audit_sink = sink, n_plan_validate = validate\<rparr>"

locale plan_library =
  fixes validate :: "pyval \<Rightarrow> exc + ExecutionPlan"
  assumes revalidates: "revalidates_dumps validate"


sublocale plan_library \<subseteq> supervised "default_nodes planner_llm critic_llm to_int retrieve reg tracer sink validate"
  for planner_llm critic_llm to_int retrieve reg tracer sink
proof (rule supervised.intro)
  show "agent_contract (n_planner (default_nodes planner_llm critic_llm to_int retrieve reg tracer sink validate))"
    by (simp add: default_nodes_def planner_agent.agent_contract_axioms)
  show "agent_contract (n_retriever (default_nodes planner_llm critic_llm to_int retrieve reg tracer sink validate))"
    by (simp add: default_nodes_def retrieval_agent.agent_contract_axioms)
  show "agent_contract (n_tool_executor (default_nodes planner_llm critic_llm to_int retrieve reg tracer sink validate))"
    by (simp add: default_nodes_def tool_agent.agent_contract_axioms)
  show "agent_contract (n_validator (default_nodes planner_llm critic_llm to_int retrieve reg tracer sink validate))"
    by (simp add: default_nodes_def validator_agent.agent_contract_axioms)
next
  let ?n = "default_nodes planner_llm critic_llm to_int retrieve reg tracer sink validate"
  fix k s t w r s' w' d p
  assume ag: "n_planner ?n k s t w = (Inr r, s', w')" "ag_status r = AgentStatus.SUCCESS"
    and out: "map_of (dict_or_empty (ag_output r)) ''execution_plan'' = Some d"
    and val: "n_plan_validate ?n d = Inr p"
  obtain pd where pd: "validate_plan_dag pd = Inr ()" "titled (p_tasks (domain_plan k pd))"
    "ag_output r = Some [(''execution_plan'', PDict (dump_plan (domain_plan k pd)))]"
    using planner_execute_success[of planner_llm k s t w r s' w'] ag by (auto simp: default_nodes_def)
  have "validate (PDict (dump_plan (domain_plan k pd))) = Inr (domain_plan k pd)"
    using revalidates pd(2) by (simp add: revalidates_dumps_def)
  then have "p = domain_plan k pd" using out val pd(3) by (simp add: default_nodes_def)
  then show "plan_dag (p_tasks p) \<and> list_all fresh_task (p_tasks p)"
    using domain_plan_dag pd(1) validate_plan_dag_eq by simp
qed

context plan_library
begin

lemma supervised_default:
  "supervised (default_nodes planner_llm critic_llm to_int retrieve reg tracer sink validate)"
  by (rule supervised_axioms)

end

lemma default_supervised:
  "revalidates_dumps validate \<Longrightarrow>
   supervised (default_nodes planner_llm critic_llm to_int retrieve reg tracer sink validate)"
  by (rule plan_library.supervised_default) (rule plan_library.intro)

section \<open>A reader of dumped plans\<close>

definition as_str :: "pyval \<Rightarrow> string" where
  "as_str v = (case v of PStr s \<Rightarrow> s | _ \<Rightarrow> [])"

definition as_nat :: "pyval \<Rightarrow> nat" where
  "as_nat v = (case v of PInt i \<Rightarrow> nat i | _ \<Rightarrow> 0)"

definition as_dict :: "pyval \<Rightarrow> dict" where
  "as_dict v = (case v of PDict d \<Rightarrow> d | _ \<Rightarrow> [])"

definition as_list :: "pyval \<Rightarrow> pyval list" where
  "as_list v = (case v of PList vs \<Rightarrow> vs | _ \<Rightarrow> [])"

definition as_time :: "pyval \<Rightarrow> time" where
  "as_time v = (case v of PTime t \<Rightarrow> t | _ \<Rightarrow> 0)"

definition opt_of :: "(pyval \<Rightarrow> 'a) \<Rightarrow> pyval \<Rightarrow> 'a option" where
  "opt_of f v = (if v = PNone then None else Some (f v))"

definition member_of :: "('a \<Rightarrow> string) \<Rightarrow> 'a list \<Rightarrow> string \<Rightarrow> 'a" where
  "member_of val ms s = (case find (\<lambda>m. val m = s) ms of None \<Rightarrow> hd ms | Some m \<Rightarrow> m)"

definition TaskType_of :: "string \<Rightarrow> TaskType" where
  "TaskType_of = member_of task_type_value
     [TaskType.PLANNING, TaskType.RETRIEVAL, TaskType.TOOL_EXECUTION, TaskType.VALIDATION,
      TaskType.SYNTHESIS, TaskType.CUSTOM]"

definition TaskStatus_of :: "string \<Rightarrow> TaskStatus" where
  "TaskStatus_of = member_of task_status_value
     [TaskStatus.PENDING, TaskStatus.IN_PROGRESS, TaskStatus.COMPLETED, TaskStatus.FAILED,
      TaskStatus.BLOCKED, TaskStatus.SKIPPED, TaskStatus.CANCELLED]"

definition AgentRole_of :: "string \<Rightarrow> AgentRole" where
  "AgentRole_of = member_of agent_role_value
     [AgentRole.SUPERVISOR, AgentRole.PLANNER, AgentRole.RETRIEVER, AgentRole.TOOL_EXECUTOR,
      AgentRole.VALIDATOR, AgentRole.CUSTOM]"

definition load_task :: "dict \<Rightarrow> Task" where
  "load_task d =
     (let f = (\<lambda>k. dget d k PNone) in
      \<lparr>t_id = as_str (f ''id''), t_title = as_str (f ''title''), t_description = as_str (f ''description''),
       t_task_type = TaskType_of (as_str (f ''task_type'')),
       t_assigned_agent = opt_of (\<lambda>v. AgentRole_of (as_str v)) (f ''assigned_agent''),
       t_dependencies = map as_str (as_list (f ''dependencies'')),
       t_status = TaskStatus_of (as_str (f ''status'')), t_input_data = as_dict (f ''input_data''),
       t_output_data = opt_of as_dict (f ''output_data''), t_error = opt_of as_str (f ''error''),
       t_retry_count = as_nat (f ''retry_count''), t_max_retries = as_nat (f ''max_retries''),
       t_created_at = as_time (f ''created_at''), t_completed_at = opt_of as_time (f ''completed_at'')\<rparr>)"

definition load_plan :: "pyval \<Rightarrow> exc + ExecutionPlan" where
  "load_plan v =
     (case v of
        PDict d \<Rightarrow>
          let f = (\<lambda>k. dget d k PNone) in
          Inr \<lparr>p_plan_id = as_str (f ''plan_id''),
               p_tasks = map (\<lambda>t. load_task (as_dict t)) (as_list (f ''tasks'')),
               p_current_task_id = opt_of as_str (f ''current_task_id''),
               p_rationale = opt_of as_str (f ''rationale''), p_created_at = as_time (f ''created_at'')\<rparr>
      | _ \<Rightarrow> Inl (validation_failure ''ExecutionPlan''))"

lemma as_simps [simp]:
  "as_str (PStr s) = s" "as_nat (PInt (int n)) = n" "as_dict (PDict d) = d" "as_list (PList vs) = vs"
  "as_time (PTime t) = t"
  "opt_of f PNone = None"
  "opt_of as_str (opt_str so) = so" "opt_of as_dict (opt_dict od) = od" "opt_of as_time (opt_time ot) = ot"
  by (simp_all add: as_str_def as_nat_def as_dict_def as_list_def as_time_def opt_of_def
      opt_str_def opt_dict_def opt_time_def split: option.split)

lemma TaskType_of_value [simp]: "TaskType_of (task_type_value ty) = ty"
  by (cases ty) (simp_all add: TaskType_of_def member_of_def)

lemma TaskStatus_of_value [simp]: "TaskStatus_of (task_status_value st) = st"
  by (cases st) (simp_all add: TaskStatus_of_def member_of_def)

lemma AgentRole_of_value [simp]: "AgentRole_of (agent_role_value ro) = ro"
  by (cases ro) (simp_all add: AgentRole_of_def member_of_def)

lemma opt_role [simp]:
  "opt_of (\<lambda>v. AgentRole_of (as_str v)) (opt_str (map_option agent_role_value ro)) = ro"
  by (cases ro) (simp_all add: opt_of_def opt_str_def)

lemma load_dump_task: "load_task (dump_task t) = t"
  by (simp add: load_task_def dump_task_def dget_def comp_def)

lemma load_dump_plan: "load_plan (PDict (dump_plan p)) = Inr p"
  by (simp add: load_plan_def dump_plan_def dget_def comp_def load_dump_task)

interpretation load: plan_library load_plan
  by unfold_locales (simp add: revalidates_dumps_def load_dump_plan)

end
