(* ===== verification/State_Store.thy ===== *)
theory State_Store
  imports Core_State
begin

text \<open>
  State persistence (\<open>memory/base.py\<close>, \<open>memory/in_memory.py\<close>, \<open>memory/sqlite.py\<close>). The in-memory
  store keeps deep copies in dictionaries; the SQLite store keeps JSON text in two tables, modelled as
  lists of rows on which the SQL statements act (the theory \<open>Postgres_Store\<close> does this for PostgreSQL). JSON encoding and decoding are parameters.
\<close>

record Checkpoint =
  cp_checkpoint_id :: string
  cp_run_id :: string
  cp_step :: nat
  cp_state :: OrchestrationState
  cp_timestamp :: time
  cp_metadata :: dict

section \<open>In memory (memory/in_memory.py)\<close>

record InMemoryStateStore =
  im_states :: "(string \<times> OrchestrationState) list"
  im_checkpoints :: "(string \<times> Checkpoint) list"
  im_run_checkpoints :: "(string \<times> string list) list"

definition im_empty :: InMemoryStateStore where
  "im_empty = \<lparr>im_states = [], im_checkpoints = [], im_run_checkpoints = []\<rparr>"

definition im_save_state :: "OrchestrationState \<Rightarrow> InMemoryStateStore \<Rightarrow> InMemoryStateStore" where
  "im_save_state s st = st\<lparr>im_states := AList.update (s_run_id s) s (im_states st)\<rparr>"

definition im_get_state :: "InMemoryStateStore \<Rightarrow> string \<Rightarrow> OrchestrationState option" where
  "im_get_state st run_id = map_of (im_states st) run_id"

definition im_save_checkpoint :: "Checkpoint \<Rightarrow> InMemoryStateStore \<Rightarrow> InMemoryStateStore" where
  "im_save_checkpoint c st =
     st\<lparr>im_checkpoints := AList.update (cp_checkpoint_id c) c (im_checkpoints st),
        im_run_checkpoints := AList.update (cp_run_id c)
          (dget (im_run_checkpoints st) (cp_run_id c) [] @ [cp_checkpoint_id c]) (im_run_checkpoints st)\<rparr>"

definition im_get_checkpoint :: "InMemoryStateStore \<Rightarrow> string \<Rightarrow> Checkpoint option" where
  "im_get_checkpoint st checkpoint_id = map_of (im_checkpoints st) checkpoint_id"

definition im_list_checkpoints :: "InMemoryStateStore \<Rightarrow> string \<Rightarrow> Checkpoint list" where
  "im_list_checkpoints st run_id =
     List.map_filter (\<lambda>cid. map_of (im_checkpoints st) cid) (dget (im_run_checkpoints st) run_id [])"

definition im_delete_run :: "string \<Rightarrow> InMemoryStateStore \<Rightarrow> bool \<times> InMemoryStateStore" where
  "im_delete_run run_id st =
     (let e1 = run_id \<in> set (dkeys (im_states st));
          st1 = st\<lparr>im_states := AList.delete run_id (im_states st)\<rparr>
      in case map_of (im_run_checkpoints st) run_id of
           None \<Rightarrow> (e1, st1)
         | Some cids \<Rightarrow>
             (True, st1\<lparr>im_run_checkpoints := AList.delete run_id (im_run_checkpoints st),
                        im_checkpoints := fold AList.delete cids (im_checkpoints st)\<rparr>))"

section \<open>The SQLite store (memory/sqlite.py)\<close>

text \<open>\<open>'j\<close> is the type of JSON documents.\<close>

record 'j codec =
  jc_state :: "OrchestrationState \<Rightarrow> 'j"
  jc_load_state :: "'j \<Rightarrow> string + OrchestrationState"
  jc_checkpoint :: "Checkpoint \<Rightarrow> 'j"
  jc_load_checkpoint :: "'j \<Rightarrow> string + Checkpoint"

record 'j run_row =
  rr_run_id :: string
  rr_status :: string
  rr_created_at :: time
  rr_updated_at :: time
  rr_state_json :: 'j

record 'j cp_row =
  cr_checkpoint_id :: string
  cr_run_id :: string
  cr_step :: nat
  cr_created_at :: time
  cr_checkpoint_json :: 'j

record 'j sql_db =
  db_runs :: "'j run_row list"
  db_checkpoints :: "'j cp_row list"

definition sql_empty :: "'j sql_db" where
  "sql_empty = \<lparr>db_runs = [], db_checkpoints = []\<rparr>"

text \<open>
  \<open>INSERT ... ON CONFLICT(key) DO UPDATE SET ...\<close>: \<open>merge old new\<close> is the row the update
  leaves, the key column is \<open>key\<close>.
\<close>

definition upsert :: "('r \<Rightarrow> string) \<Rightarrow> ('r \<Rightarrow> 'r \<Rightarrow> 'r) \<Rightarrow> 'r \<Rightarrow> 'r list \<Rightarrow> 'r list" where
  "upsert key merge row rows =
     (if list_ex (\<lambda>r. key r = key row) rows
      then upd_first (\<lambda>r. key r = key row) (\<lambda>r. merge r row) rows
      else rows @ [row])"

text \<open>\<open>label\<close> and \<open>code\<close> are what the error messages of the two stores differ in.\<close>

definition sql_error :: "string \<Rightarrow> string \<Rightarrow> bool \<Rightarrow> string \<Rightarrow> exc" where
  "sql_error label code retryable e = mk_OrchestrationError (label @ '': '' @ e) code retryable []"

definition sql_save_state :: "'j codec \<Rightarrow> OrchestrationState \<Rightarrow> 'j sql_db \<Rightarrow> 'j sql_db" where
  "sql_save_state c s db =
     (let row = \<lparr>rr_run_id = s_run_id s, rr_status = execution_status_value (s_status s),
                 rr_created_at = m_created_at (s_metadata s), rr_updated_at = m_updated_at (s_metadata s),
                 rr_state_json = jc_state c s\<rparr>
      in db\<lparr>db_runs := upsert rr_run_id
              (\<lambda>old new. old\<lparr>rr_status := rr_status new, rr_updated_at := rr_updated_at new,
                             rr_state_json := rr_state_json new\<rparr>)
              row (db_runs db)\<rparr>)"

definition sql_get_state :: "'j codec \<Rightarrow> 'j sql_db \<Rightarrow> string \<Rightarrow> exc + OrchestrationState option" where
  "sql_get_state c db run_id =
     (case find (\<lambda>r. rr_run_id r = run_id) (db_runs db) of
        None \<Rightarrow> Inr None
      | Some r \<Rightarrow>
          (case jc_load_state c (rr_state_json r) of
             Inr s \<Rightarrow> Inr (Some s)
           | Inl e \<Rightarrow> Inl (sql_error (''Failed to retrieve state for run '' @ run_id)
                        ''SQLITE_GET_STATE_ERROR'' False e)))"

text \<open>A new row must reference a stored run (\<open>PRAGMA foreign_keys = ON\<close>).\<close>

definition sql_save_checkpoint :: "'j codec \<Rightarrow> Checkpoint \<Rightarrow> 'j sql_db \<Rightarrow> exc option \<times> 'j sql_db" where
  "sql_save_checkpoint c cp db =
     (let row = \<lparr>cr_checkpoint_id = cp_checkpoint_id cp, cr_run_id = cp_run_id cp, cr_step = cp_step cp,
                 cr_created_at = cp_timestamp cp, cr_checkpoint_json = jc_checkpoint c cp\<rparr>
      in if \<not> list_ex (\<lambda>r. cr_checkpoint_id r = cp_checkpoint_id cp) (db_checkpoints db)
            \<and> \<not> list_ex (\<lambda>r. rr_run_id r = cp_run_id cp) (db_runs db)
         then (Some (sql_error (''Failed to save checkpoint '' @ cp_checkpoint_id cp)
                 ''SQLITE_SAVE_CHECKPOINT_ERROR'' True ''FOREIGN KEY constraint failed''), db)
         else (None, db\<lparr>db_checkpoints := upsert cr_checkpoint_id
                 (\<lambda>old new. old\<lparr>cr_checkpoint_json := cr_checkpoint_json new\<rparr>) row (db_checkpoints db)\<rparr>))"

definition sql_get_checkpoint :: "'j codec \<Rightarrow> 'j sql_db \<Rightarrow> string \<Rightarrow> exc + Checkpoint option" where
  "sql_get_checkpoint c db checkpoint_id =
     (case find (\<lambda>r. cr_checkpoint_id r = checkpoint_id) (db_checkpoints db) of
        None \<Rightarrow> Inr None
      | Some r \<Rightarrow>
          (case jc_load_checkpoint c (cr_checkpoint_json r) of
             Inr cp \<Rightarrow> Inr (Some cp)
           | Inl e \<Rightarrow> Inl (sql_error (''Failed to get checkpoint '' @ checkpoint_id)
                        ''SQLITE_GET_CHECKPOINT_ERROR'' False e)))"

text \<open>\<open>[model_validate_json(r) for r in rows]\<close>: the first row that does not load raises.\<close>

fun load_all :: "('j \<Rightarrow> string + 'a) \<Rightarrow> 'j list \<Rightarrow> string + 'a list" where
  "load_all load [] = Inr []"
| "load_all load (j # js) =
     (case load j of
        Inl e \<Rightarrow> Inl e
      | Inr x \<Rightarrow> (case load_all load js of Inl e \<Rightarrow> Inl e | Inr xs \<Rightarrow> Inr (x # xs)))"

text \<open>\<open>ORDER BY step ASC, created_at ASC\<close>; rows with equal keys keep their insertion order.\<close>

definition rows_of_run :: "'j sql_db \<Rightarrow> string \<Rightarrow> 'j cp_row list" where
  "rows_of_run db run_id =
     sort_key cr_step (sort_key cr_created_at (filter (\<lambda>r. cr_run_id r = run_id) (db_checkpoints db)))"

definition sql_list_checkpoints :: "'j codec \<Rightarrow> 'j sql_db \<Rightarrow> string \<Rightarrow> exc + Checkpoint list" where
  "sql_list_checkpoints c db run_id =
     (case load_all (jc_load_checkpoint c) (map cr_checkpoint_json (rows_of_run db run_id)) of
        Inr cps \<Rightarrow> Inr cps
      | Inl e \<Rightarrow> Inl (sql_error (''Failed to list checkpoints for run '' @ run_id)
                   ''SQLITE_LIST_CHECKPOINTS_ERROR'' False e))"

definition sql_delete_run :: "string \<Rightarrow> 'j sql_db \<Rightarrow> bool \<times> 'j sql_db" where
  "sql_delete_run run_id db =
     (list_ex (\<lambda>r. rr_run_id r = run_id) (db_runs db),
      db\<lparr>db_checkpoints := filter (\<lambda>r. cr_run_id r \<noteq> run_id) (db_checkpoints db),
         db_runs := filter (\<lambda>r. rr_run_id r \<noteq> run_id) (db_runs db)\<rparr>)"

section \<open>Both keep the latest state of each run\<close>

lemma find_upsert:
  assumes "\<And>a b. key (merge a b) = key a"
  shows "find (\<lambda>r. key r = k) (upsert key merge row rows) =
     (if k = key row
      then Some (case find (\<lambda>r. key r = k) rows of None \<Rightarrow> row | Some old \<Rightarrow> merge old row)
      else find (\<lambda>r. key r = k) rows)"
proof -
  have ex: "list_ex P xs \<longleftrightarrow> find P xs \<noteq> None" for P and xs :: "'a list"
    by (auto simp: list_ex_iff find_None_iff')
  have app: "find P (xs @ [x]) = (case find P xs of None \<Rightarrow> if P x then Some x else None | Some y \<Rightarrow> Some y)"
    for P and xs :: "'a list" and x by (induction xs) auto
  have other: "find (\<lambda>r. key r = k) (upd_first (\<lambda>r. key r = key row) (\<lambda>r. merge r row) rs) =
      find (\<lambda>r. key r = k) rs" if "k \<noteq> key row" for rs
    using that assms by (induction rs) auto
  show ?thesis
    using assms find_upd_first[of "\<lambda>r. key r = key row" "\<lambda>r. merge r row" rows]
    by (auto simp: upsert_def ex app other split: option.splits)
qed

lemma find_filter_key: "find (\<lambda>r. key r = k) (filter (\<lambda>r. key r \<noteq> j) rows) =
    (if k = j then None else find (\<lambda>r. key r = k) rows)"
  by (induction rows) auto


text \<open>
  The contract: the operations of \<open>BaseStateStore\<close> act on the answers of \<open>get_state\<close> as
  updates of a finite map. A client sees the map of the latest states, whatever the backend.
\<close>

datatype store_op = Save_state OrchestrationState | Save_checkpoint Checkpoint | Delete_run string

fun latest_op :: "store_op \<Rightarrow> (string \<rightharpoonup> OrchestrationState) \<Rightarrow> (string \<rightharpoonup> OrchestrationState)" where
  "latest_op (Save_state s) m = m(s_run_id s \<mapsto> s)"
| "latest_op (Save_checkpoint c) m = m"
| "latest_op (Delete_run r) m = m(r := None)"

definition latest :: "store_op list \<Rightarrow> (string \<rightharpoonup> OrchestrationState) \<Rightarrow> (string \<rightharpoonup> OrchestrationState)" where
  "latest ops m = fold latest_op ops m"

locale state_store =
  fixes get :: "'s \<Rightarrow> string \<Rightarrow> OrchestrationState option"
    and save :: "OrchestrationState \<Rightarrow> 's \<Rightarrow> 's"
    and record_cp :: "Checkpoint \<Rightarrow> 's \<Rightarrow> 's"
    and drop_run :: "string \<Rightarrow> 's \<Rightarrow> 's"
  assumes get_save: "get (save s st) r = (if r = s_run_id s then Some s else get st r)"
    and get_record: "get (record_cp c st) r = get st r"
    and get_drop: "get (drop_run q st) r = (if r = q then None else get st r)"
begin

fun run_op :: "store_op \<Rightarrow> 's \<Rightarrow> 's" where
  "run_op (Save_state s) st = save s st"
| "run_op (Save_checkpoint c) st = record_cp c st"
| "run_op (Delete_run r) st = drop_run r st"

lemma get_run_op: "get (run_op op st) = latest_op op (get st)"
  by (cases op) (auto simp: get_save get_record get_drop)

lemma get_run_ops: "get (fold run_op ops st) = latest ops (get st)"
  unfolding latest_def by (induction ops arbitrary: st) (auto simp: get_run_op)

lemma read_your_writes: "get (fold run_op ops (save s st)) (s_run_id s) =
    latest ops ((get st)(s_run_id s \<mapsto> s)) (s_run_id s)"
proof -
  have "get (save s st) = (get st)(s_run_id s \<mapsto> s)" by (auto simp: get_save)
  then show ?thesis by (simp add: get_run_ops)
qed

end

lemma im_delete_states: "im_states (snd (im_delete_run r st)) = AList.delete r (im_states st)"
  by (simp add: im_delete_run_def Let_def split: option.split)

interpretation in_memory: state_store im_get_state im_save_state im_save_checkpoint
    "\<lambda>r st. snd (im_delete_run r st)"
  by unfold_locales
     (simp_all add: im_get_state_def im_save_state_def im_save_checkpoint_def im_delete_states)

text \<open>The relational stores, under a faithful JSON encoding.\<close>

definition faithful_codec :: "'j codec \<Rightarrow> bool" where
  "faithful_codec c \<longleftrightarrow>
     (\<forall>s. jc_load_state c (jc_state c s) = Inr s)
     \<and> (\<forall>cp. jc_load_checkpoint c (jc_checkpoint c cp) = Inr cp)"

definition sql_state :: "'j codec \<Rightarrow> 'j sql_db \<Rightarrow> string \<Rightarrow> OrchestrationState option" where
  "sql_state c db run_id = (case sql_get_state c db run_id of Inr s \<Rightarrow> s | Inl _ \<Rightarrow> None)"

lemma sql_state_save:
  assumes "faithful_codec c"
  shows "sql_state c (sql_save_state c s db) r = (if r = s_run_id s then Some s else sql_state c db r)"
  using assms
  by (auto simp: sql_state_def sql_get_state_def sql_save_state_def Let_def find_upsert
      faithful_codec_def split: option.splits)

lemma sql_record_runs: "db_runs (snd (sql_save_checkpoint c cp db)) = db_runs db"
  by (simp add: sql_save_checkpoint_def Let_def)

lemma sql_state_record: "sql_state c (snd (sql_save_checkpoint c cp db)) r = sql_state c db r"
  by (simp add: sql_state_def sql_get_state_def sql_record_runs)

lemma sql_delete_state: "sql_state c (snd (sql_delete_run q db)) r = (if r = q then None else sql_state c db r)"
  by (simp add: sql_state_def sql_get_state_def sql_delete_run_def find_filter_key)

locale json_codec =
  fixes c :: "'j codec"
  assumes faithful: "faithful_codec c"

sublocale json_codec \<subseteq> sql: state_store "sql_state c" "sql_save_state c"
    "\<lambda>cp db. snd (sql_save_checkpoint c cp db)" "\<lambda>r db. snd (sql_delete_run r db)"
  by unfold_locales
     (simp_all add: sql_state_save faithful sql_delete_state sql_state_record)

text \<open>A codec: documents that are the values themselves.\<close>

datatype document = State_doc OrchestrationState | Checkpoint_doc Checkpoint

definition plain_codec :: "document codec" where
  "plain_codec =
     \<lparr>jc_state = State_doc,
      jc_load_state = (\<lambda>d. case d of State_doc s \<Rightarrow> Inr s | _ \<Rightarrow> Inl ''state''),
      jc_checkpoint = Checkpoint_doc,
      jc_load_checkpoint = (\<lambda>d. case d of Checkpoint_doc cp \<Rightarrow> Inr cp | _ \<Rightarrow> Inl ''checkpoint'')\<rparr>"

lemma plain_codec_faithful: "faithful_codec plain_codec"
  by (simp add: faithful_codec_def plain_codec_def)

interpretation plain: json_codec plain_codec
  by unfold_locales (rule plain_codec_faithful)

section \<open>Sequences of operations on the two stores\<close>

definition im_run :: "store_op list \<Rightarrow> InMemoryStateStore \<Rightarrow> InMemoryStateStore" where
  "im_run ops st =
     fold (\<lambda>op st. case op of Save_state s \<Rightarrow> im_save_state s st
                    | Save_checkpoint cp \<Rightarrow> im_save_checkpoint cp st
                    | Delete_run r \<Rightarrow> snd (im_delete_run r st)) ops st"

definition sql_run :: "'j codec \<Rightarrow> store_op list \<Rightarrow> 'j sql_db \<Rightarrow> 'j sql_db" where
  "sql_run c ops db =
     fold (\<lambda>op db. case op of Save_state s \<Rightarrow> sql_save_state c s db
                    | Save_checkpoint cp \<Rightarrow> snd (sql_save_checkpoint c cp db)
                    | Delete_run r \<Rightarrow> snd (sql_delete_run r db)) ops db"

lemma im_run_eq: "im_run ops st = fold in_memory.run_op ops st"
  unfolding im_run_def by (induction ops arbitrary: st) (auto split: store_op.split)

context json_codec
begin

lemma sql_run_eq: "sql_run c ops db = fold sql.run_op ops db"
  unfolding sql_run_def by (induction ops arbitrary: db) (auto split: store_op.split)

lemma sql_run_latest: "sql_state c (sql_run c ops db) = latest ops (sql_state c db)"
  unfolding sql_run_eq by (rule sql.get_run_ops)

end

lemma im_run_latest: "im_get_state (im_run ops st) = latest ops (im_get_state st)"
  unfolding im_run_eq by (rule in_memory.get_run_ops)


definition example_state :: "string \<Rightarrow> OrchestrationState" where
  "example_state r = create_initial 0 r ''hello'' None None 3 None"



text \<open>Saving a checkpoint again under another run (the same identifier, a new run
  identifier, as the background worker does) moves it in the in-memory store but not in the
  relational stores: their upsert keeps the \<open>run_id\<close> column, so the new run lists no checkpoint.\<close>

theorem rekeyed_checkpoint_lost:
  assumes "faithful_codec c" "s_run_id s1 \<noteq> s_run_id s2" "cp_run_id cp = s_run_id s1"
  shows "let ops = [Save_state s1, Save_checkpoint cp, Save_state s2,
                    Save_checkpoint (cp\<lparr>cp_run_id := s_run_id s2\<rparr>)]
    in im_list_checkpoints (im_run ops im_empty) (s_run_id s2) = [cp\<lparr>cp_run_id := s_run_id s2\<rparr>]
       \<and> sql_list_checkpoints c (sql_run c ops sql_empty) (s_run_id s2) = Inr []"
  using assms
  by (simp add: im_run_def im_save_state_def im_save_checkpoint_def im_list_checkpoints_def im_empty_def
      dget_def map_filter_simps sql_run_def sql_save_state_def sql_save_checkpoint_def sql_empty_def
      upsert_def sql_list_checkpoints_def rows_of_run_def Let_def)

definition example_checkpoint :: Checkpoint where
  "example_checkpoint =
     \<lparr>cp_checkpoint_id = ''c'', cp_run_id = ''a'', cp_step = 0, cp_state = example_state ''a'',
      cp_timestamp = 0, cp_metadata = []\<rparr>"

theorem rekeyed_checkpoint_lost_witness:
  "sql_list_checkpoints plain_codec
     (sql_run plain_codec [Save_state (example_state ''a''), Save_checkpoint example_checkpoint,
        Save_state (example_state ''b''), Save_checkpoint (example_checkpoint\<lparr>cp_run_id := ''b''\<rparr>)] sql_empty) ''b'' = Inr []"
  using rekeyed_checkpoint_lost[OF plain_codec_faithful, of "example_state ''a''" "example_state ''b''" example_checkpoint]
  by (simp add: Let_def example_state_def create_initial_def example_checkpoint_def)

end
