(* ===== verification/Runtime.thy ===== *)
theory Runtime
  imports Wiring State_Store
begin

text \<open>
  \<open>OrchestrationRuntime.run\<close> and \<open>resume_with_human_decision\<close> (\<open>orchestration/runtime.py\<close>):
  persistence around the graph execution, the exception path and the \<open>finally\<close> block. The state
  store is part of the outside world; its operations may raise. Telemetry calls are returned in
  order.
\<close>

section \<open>The runtime\<close>

record 'w store_ops =
  st_save_state :: "OrchestrationState \<Rightarrow> 'w \<Rightarrow> exc option \<times> 'w"
  st_save_checkpoint :: "Checkpoint \<Rightarrow> 'w \<Rightarrow> exc option \<times> 'w"

text \<open>\<open>rt_graph_error\<close> is what the graph library raises when the recursion limit is reached.\<close>

record 'w runtime =
  rt_nodes :: "'w nodes"
  rt_store :: "'w store_ops"
  rt_max_steps :: nat
  rt_graph_error :: "nat \<Rightarrow> exc"

text \<open>\<open>_compiled_graph.ainvoke\<close>: the final graph state, or the exception and the mutated state.\<close>

definition ainvoke ::
    "'w runtime \<Rightarrow> (nat \<Rightarrow> tick) \<Rightarrow> GraphState \<Rightarrow> 'w
     \<Rightarrow> ((exc \<times> OrchestrationState) + OrchestrationState) \<times> effect list \<times> 'w" where
  "ainvoke rt ks gs w =
     (case run_graph (rt_nodes rt) ks (rt_max_steps rt) gs w of
        (Finished gs', es, w') \<Rightarrow> (Inr (g_state gs'), es, w')
      | (Raised e s, es, w') \<Rightarrow> (Inl (e, s), es, w')
      | (Out_of_steps s, es, w') \<Rightarrow> (Inl (rt_graph_error rt (rt_max_steps rt), s), es, w'))"

definition snapshot :: "tick \<Rightarrow> nat \<Rightarrow> OrchestrationState \<Rightarrow> Checkpoint" where
  "snapshot k i s =
     \<lparr>cp_checkpoint_id = k_uid k i, cp_run_id = s_run_id s, cp_step = s_current_step s, cp_state = s,
      cp_timestamp = k_now k, cp_metadata = []\<rparr>"

text \<open>\<open>save_state\<close> followed by \<open>save_checkpoint\<close>; the second is not reached when the first raises.\<close>

definition persist :: "'w runtime \<Rightarrow> Checkpoint \<Rightarrow> OrchestrationState \<Rightarrow> 'w \<Rightarrow> exc option \<times> 'w" where
  "persist rt cp s w =
     (case st_save_state (rt_store rt) s w of
        (Some e, w') \<Rightarrow> (Some e, w')
      | (None, w') \<Rightarrow> st_save_checkpoint (rt_store rt) cp w')"

definition run_event ::
    "OrchestrationState \<Rightarrow> string option \<Rightarrow> string option \<Rightarrow> AuditEventType \<Rightarrow> string \<Rightarrow> string \<Rightarrow> string
     \<Rightarrow> dict \<Rightarrow> AuditEvent" where
  "run_event s corr sess ty actor action_name outcome metadata =
     \<lparr>a_run_id = s_run_id s, a_correlation_id = corr, a_session_id = sess, a_event_type = ty,
      a_actor = actor, a_component = ''runtime'', a_action = action_name, a_outcome = outcome,
      a_metadata = metadata\<rparr>"

definition run_span :: "OrchestrationState \<Rightarrow> string option \<Rightarrow> string option \<Rightarrow> span_args" where
  "run_span s corr sess =
     \<lparr>sp_name = ''OrchestrationRuntime.run'', sp_kind = SpanKind.WORKFLOW,
      sp_attributes = [(''request'', PStr (take 200 (s_request s)))], sp_run_id = Some (s_run_id s),
      sp_correlation_id = corr, sp_session_id = sess\<rparr>"

text \<open>The \<open>finally\<close> block.\<close>

definition run_finally ::
    "'w runtime \<Rightarrow> tick \<Rightarrow> string option \<Rightarrow> string option \<Rightarrow> OrchestrationState \<Rightarrow> effect list" where
  "run_finally rt k corr sess st =
     [GaugeDec ''active_runs'', Observe ''run_duration_seconds'' (k_elapsed k),
      Observe ''step_count'' (of_nat (s_current_step st))]
     @ (if s_status st = ExecutionStatus.COMPLETED then
          CounterInc ''runs_completed_total''
          # safe_audit (rt_nodes rt) (run_event st corr sess AuditEventType.RUN_COMPLETED ''runtime''
              ''complete_run'' ''SUCCESS'' [(''current_step'', PInt (int (s_current_step st)))])
        else if s_status st = ExecutionStatus.FAILED then
          CounterInc ''runs_failed_total''
          # safe_audit (rt_nodes rt) (run_event st corr sess AuditEventType.RUN_FAILED ''runtime''
              ''fail_run'' ''FAILURE'' [(''errors'', PList (map PDict (s_errors st)))])
        else if s_status st = ExecutionStatus.PAUSED_FOR_HUMAN then [GaugeInc ''pending_human_reviews'']
        else [])"

text \<open>\<open>state.fail_run(...)\<close>, \<open>save_state\<close> and \<open>raise\<close> of the exception handler.\<close>

definition run_except ::
    "'w runtime \<Rightarrow> tick \<Rightarrow> exc \<Rightarrow> OrchestrationState \<Rightarrow> 'w \<Rightarrow> exc \<times> OrchestrationState \<times> 'w" where
  "run_except rt k e s w =
     (let s' = fail_run (k_now k) (''Workflow execution exception: '' @ e_message e) s in
      case st_save_state (rt_store rt) s' w of
        (Some e', w') \<Rightarrow> (e', s', w')
      | (None, w') \<Rightarrow> (e, s', w'))"

text \<open>The \<open>try\<close> statement of \<open>run\<close>, after the initial checkpoint.\<close>

definition run_try ::
    "'w runtime \<Rightarrow> tick \<Rightarrow> (nat \<Rightarrow> tick) \<Rightarrow> string option \<Rightarrow> string option \<Rightarrow> OrchestrationState \<Rightarrow> 'w
     \<Rightarrow> (exc + OrchestrationState) \<times> OrchestrationState \<times> effect list \<times> 'w" where
  "run_try rt k ks corr sess s w =
     (let failed = (\<lambda>e s es w. case run_except rt k e s w of (e', s', w') \<Rightarrow>
            (Inl e', s', es @ span_end (rt_nodes rt) ''OrchestrationRuntime.run'' (Some (e_message e))
                         @ run_finally rt k corr sess s', w'))
      in case ainvoke rt ks (start_state s None) w of
           (Inl (e, s1), es, w1) \<Rightarrow> failed e s1 es w1
         | (Inr s1, es, w1) \<Rightarrow>
             (case persist rt (snapshot k 2 s1) s1 w1 of
                (Some e, w2) \<Rightarrow> failed e s1 es w2
              | (None, w2) \<Rightarrow>
                  (Inr s1, s1, es @ span_end (rt_nodes rt) ''OrchestrationRuntime.run'' None
                               @ run_finally rt k corr sess s1, w2)))"

definition run ::
    "'w runtime \<Rightarrow> tick \<Rightarrow> (nat \<Rightarrow> tick) \<Rightarrow> string \<Rightarrow> string option \<Rightarrow> string option \<Rightarrow> dict option \<Rightarrow> 'w
     \<Rightarrow> (exc + OrchestrationState) \<times> effect list \<times> 'w" where
  "run rt k ks request corr sess custom w =
     (if request = [] then (Inl (validation_failure ''request''), [], w)
      else
        let s = create_initial (k_now k) (k_uid k 0) request corr sess 3 custom;
            started = [CounterInc ''runs_started_total'', GaugeInc ''active_runs'']
              @ safe_audit (rt_nodes rt) (run_event s corr sess AuditEventType.RUN_STARTED ''client''
                  ''start_run'' ''SUCCESS'' [(''request'', PStr (take 200 request))])
        in case persist rt (snapshot k 1 s) s w of
             (Some e, w1) \<Rightarrow> (Inl e, started, w1)
           | (None, w1) \<Rightarrow>
               (case run_try rt k ks corr sess s w1 of
                  (r, _, es, w2) \<Rightarrow> (r, started @ span_start (rt_nodes rt) (run_span s corr sess) @ es, w2)))"

definition resume_span :: "OrchestrationState \<Rightarrow> HumanDecision \<Rightarrow> span_args" where
  "resume_span s d =
     \<lparr>sp_name = ''OrchestrationRuntime.resume_with_human_decision'', sp_kind = SpanKind.HUMAN_GATE,
      sp_attributes = [(''decision_status'', PStr (human_request_status_value (d_status d)))],
      sp_run_id = Some (s_run_id s), sp_correlation_id = m_correlation_id (s_metadata s),
      sp_session_id = m_session_id (s_metadata s)\<rparr>"

definition resume_with_human_decision ::
    "'w runtime \<Rightarrow> tick \<Rightarrow> (nat \<Rightarrow> tick) \<Rightarrow> OrchestrationState \<Rightarrow> HumanDecision \<Rightarrow> 'w
     \<Rightarrow> (exc + OrchestrationState) \<times> effect list \<times> 'w" where
  "resume_with_human_decision rt k ks s d w =
     (let started = GaugeDec ''pending_human_reviews'' # span_start (rt_nodes rt) (resume_span s d);
          end = span_end (rt_nodes rt) ''OrchestrationRuntime.resume_with_human_decision''
      in case ainvoke rt ks (start_state s (Some d)) w of
           (Inl (e, _), es, w1) \<Rightarrow> (Inl e, started @ es @ end (Some (e_message e)), w1)
         | (Inr s1, es, w1) \<Rightarrow>
             (case persist rt (snapshot k 1 s1) s1 w1 of
                (Some e, w2) \<Rightarrow> (Inl e, started @ es @ end (Some (e_message e)), w2)
              | (None, w2) \<Rightarrow> (Inr s1, started @ es @ end None, w2)))"

section \<open>Telemetry of the nodes\<close>

text \<open>Nodes touch no gauge, and the counters of whole runs are not theirs.\<close>

definition node_counters :: "string list" where
  "node_counters =
     [''retrieval_queries_total'', ''tool_executions_total'', ''human_escalations_total'',
      ''validator_retries_total'', ''human_decisions_approved_total'',
      ''human_decisions_modified_total'', ''human_decisions_rejected_total'']"

fun node_effect :: "effect \<Rightarrow> bool" where
  "node_effect (CounterInc c) = (c \<in> set node_counters)"
| "node_effect (GaugeInc g) = False"
| "node_effect (GaugeDec g) = False"
| "node_effect (GaugeSet g x) = False"
| "node_effect (Observe h x) = True"
| "node_effect (Audit e) = True"
| "node_effect (SpanStart a) = True"
| "node_effect (SpanEnd m e) = True"

lemma node_effect_simps [simp]:
  "list_all node_effect (safe_audit n e)" "list_all node_effect (span_start n a)"
  "list_all node_effect (span_end n m err)"
  by (simp_all add: safe_audit_def span_start_def span_end_def)

lemma planner_effects: "planner_node n k gs w = (r, es, w') \<Longrightarrow> list_all node_effect es"
  by (auto simp: planner_node_def Let_def split: prod.splits sum.splits option.splits)

lemma retrieval_effects: "retrieval_node n k gs w = (r, es, w') \<Longrightarrow> list_all node_effect es"
  by (auto simp: retrieval_node_def Let_def node_counters_def split: prod.splits sum.splits option.splits if_splits)

lemma tool_effects: "tool_node n k gs w = (r, es, w') \<Longrightarrow> list_all node_effect es"
  by (auto simp: tool_node_def Let_def node_counters_def split: prod.splits sum.splits option.splits if_splits)

lemma validator_outcome_effects: "list_all node_effect (snd (validator_outcome n k gs t result s))"
  by (simp add: validator_outcome_def Let_def node_counters_def split: pyval.split)

lemma validator_outcome_effects':
  "validator_outcome n k gs t result s = (r, es) \<Longrightarrow> list_all node_effect es"
  using validator_outcome_effects[of n k gs t result s] by simp

lemma validator_effects: "validator_node n k gs w = (r, es, w') \<Longrightarrow> list_all node_effect es"
  by (auto simp: validator_node_def Let_def split: prod.splits sum.splits option.splits
      dest: validator_outcome_effects')

lemma human_gate_effects: "list_all node_effect (snd (human_gate_node n k gs))"
  by (simp add: human_gate_node_def Let_def node_counters_def split: option.split HumanRequestStatus.split)

lemma exec_effects: "exec_node n nd k gs w = (r, es, w') \<Longrightarrow> list_all node_effect es"
  using human_gate_effects[of n k gs]
  by (cases nd) (auto split: prod.splits
      dest: planner_effects retrieval_effects tool_effects validator_effects)

lemma loop_effects: "graph_loop n ks fuel i nd gs w = (r, es, w') \<Longrightarrow> list_all node_effect es"
proof (induction fuel arbitrary: i nd gs w r es w')
  case (Suc fuel)
  obtain r1 es1 w1 where ex: "exec_node n nd (ks i) gs w = (r1, es1, w1)" by (metis prod_cases3)
  note e1 = exec_effects[OF ex]
  show ?case
  proof (cases r1)
    case (Inl p) then show ?thesis using Suc.prems ex e1 by (cases p) auto
  next
    case (Inr gs') then show ?thesis using Suc ex e1
      by (cases "next_node nd gs'") (auto split: prod.splits)
  qed
qed simp

lemma ainvoke_effects: "ainvoke rt ks gs w = (r, es, w') \<Longrightarrow> list_all node_effect es"
  by (auto simp: ainvoke_def run_graph_def split: prod.splits graph_result.splits dest: loop_effects)

section \<open>What one run does to the metrics\<close>

lemma node_effects_none: "list_all node_effect es \<Longrightarrow> \<not> node_effect e \<Longrightarrow> filter (\<lambda>x. x = e) es = []"
  by (auto simp: list_all_iff filter_empty_conv)

lemma node_effects_no_set: "list_all node_effect es \<Longrightarrow> GaugeSet g x \<notin> set es"
  by (auto simp: list_all_iff)

text \<open>The telemetry calls of the \<open>try\<close> statement: node calls, then the \<open>finally\<close> block.\<close>

lemma run_try_effects:
  assumes "run_try rt k ks corr sess s w = (r, s', es, w')"
  shows "\<exists>es1. list_all node_effect es1 \<and> es = es1 @ run_finally rt k corr sess s'"
proof -
  obtain a es0 w1 where ai: "ainvoke rt ks (start_state s None) w = (a, es0, w1)" by (metis prod_cases3)
  note e0 = ainvoke_effects[OF ai]
  show ?thesis
  proof (cases a)
    case (Inl p)
    then show ?thesis using assms ai e0
      by (cases p) (auto simp: run_try_def Let_def split: prod.splits
          intro!: exI[of _ "es0 @ span_end (rt_nodes rt) ''OrchestrationRuntime.run'' (Some (e_message (fst p)))"])
  next
    case (Inr s1)
    obtain pe w2 where pe: "persist rt (snapshot k 2 s1) s1 w1 = (pe, w2)" by fastforce
    show ?thesis using assms ai e0 Inr pe
      by (cases pe)
         (auto simp: run_try_def Let_def split: prod.splits
          intro!: exI[of _ "es0 @ span_end (rt_nodes rt) ''OrchestrationRuntime.run'' (map_option e_message pe)"])
  qed
qed

lemma run_try_status:
  assumes "run_try rt k ks corr sess s w = (r, s', es, w')"
  shows "case r of Inr s1 \<Rightarrow> s' = s1 \<and> terminal_status (s_status s1)
         | Inl e \<Rightarrow> s_status s' = ExecutionStatus.FAILED"
proof -
  have except: "run_except rt k e s1 w1 = (e', s2, w2) \<Longrightarrow> s_status s2 = ExecutionStatus.FAILED" for e s1 w1 e' s2 w2
    by (auto simp: run_except_def Let_def split: prod.splits option.splits)
  have "ainvoke rt ks gs w = (Inr s1, es1, w1) \<Longrightarrow> terminal_status (s_status s1)" for gs s1 es1 w1
    by (auto simp: ainvoke_def run_graph_def split: prod.splits graph_result.splits dest: graph_loop_end)
  then show ?thesis using assms except
    by (auto simp: run_try_def Let_def split: prod.splits sum.splits option.splits)
qed

text \<open>The three ways a run is accounted for.\<close>

definition accounted :: "rat \<Rightarrow> rat \<Rightarrow> rat \<Rightarrow> MetricsRegistry \<Rightarrow> MetricsRegistry \<Rightarrow> bool" where
  "accounted completed failed paused m m' \<longleftrightarrow>
     counter_value m' ''runs_completed_total'' = counter_value m ''runs_completed_total'' + completed
     \<and> counter_value m' ''runs_failed_total'' = counter_value m ''runs_failed_total'' + failed
     \<and> gauge_value m' ''pending_human_reviews'' = gauge_value m ''pending_human_reviews'' + paused"

definition accounted_for :: "ExecutionStatus \<Rightarrow> MetricsRegistry \<Rightarrow> MetricsRegistry \<Rightarrow> bool" where
  "accounted_for st m m' \<longleftrightarrow>
     (if st = ExecutionStatus.COMPLETED then accounted 1 0 0 m m'
      else if st = ExecutionStatus.FAILED then accounted 0 1 0 m m'
      else if st = ExecutionStatus.PAUSED_FOR_HUMAN then accounted 0 0 1 m m'
      else accounted 0 0 0 m m')"

lemma filter_safe_audit [simp]:
  "filter (\<lambda>x. x = CounterInc c) (safe_audit n e) = []" "filter (\<lambda>x. x = GaugeInc c) (safe_audit n e) = []"
  "filter (\<lambda>x. x = GaugeDec c) (safe_audit n e) = []" "GaugeSet c v \<notin> set (safe_audit n e)"
  "filter (\<lambda>x. x = CounterInc c) (span_start n a) = []" "filter (\<lambda>x. x = GaugeInc c) (span_start n a) = []"
  "filter (\<lambda>x. x = GaugeDec c) (span_start n a) = []" "GaugeSet c v \<notin> set (span_start n a)"
  by (simp_all add: safe_audit_def span_start_def)

lemma run_metrics:
  assumes es1: "list_all node_effect es1"
    and es: "es = [CounterInc ''runs_started_total'', GaugeInc ''active_runs''] @ safe_audit n ev
      @ span_start n sp @ es1 @ run_finally rt k corr sess st"
  shows "gauge_value (apply_metrics es m) ''active_runs'' = gauge_value m ''active_runs''"
    and "counter_value (apply_metrics es m) ''runs_started_total'' = counter_value m ''runs_started_total'' + 1"
    and "accounted_for (s_status st) m (apply_metrics es m)"
proof -
  note none = node_effects_none[OF es1]
  have no_set: "no_gauge_set g es" for g
    using node_effects_no_set[OF es1] by (auto simp: es no_gauge_set_def run_finally_def)
  show "gauge_value (apply_metrics es m) ''active_runs'' = gauge_value m ''active_runs''"
    unfolding gauge_value_apply_list[OF no_set] by (simp add: es none run_finally_def)
  show "counter_value (apply_metrics es m) ''runs_started_total'' = counter_value m ''runs_started_total'' + 1"
    unfolding counter_value_apply_list by (simp add: es none run_finally_def node_counters_def)
  show "accounted_for (s_status st) m (apply_metrics es m)"
    unfolding accounted_for_def accounted_def counter_value_apply_list gauge_value_apply_list[OF no_set]
    by (simp add: es none run_finally_def node_counters_def)
qed


section \<open>Spans are balanced\<close>

text \<open>The stack of open spans after a list of telemetry calls; \<open>None\<close> when a call ends a span that
  is not the innermost open one.\<close>

fun span_run :: "effect list \<Rightarrow> string list \<Rightarrow> string list option" where
  "span_run [] st = Some st"
| "span_run (SpanStart a # es) st = span_run es (sp_name a # st)"
| "span_run (SpanEnd m e # es) st =
     (case st of [] \<Rightarrow> None | x # rest \<Rightarrow> if x = m then span_run es rest else None)"
| "span_run (_ # es) st = span_run es st"

definition balanced :: "effect list \<Rightarrow> bool" where
  "balanced es \<longleftrightarrow> (\<forall>st. span_run es st = Some st)"

lemma span_run_append: "span_run (xs @ ys) st = Option.bind (span_run xs st) (span_run ys)"
  by (induction xs st rule: span_run.induct) (auto split: list.split)

lemma balanced_simps [simp]:
  "balanced []" "balanced (safe_audit n e)"
  "balanced (CounterInc c # es) = balanced es" "balanced (Observe h x # es) = balanced es"
  "balanced (GaugeInc c # es) = balanced es" "balanced (GaugeDec c # es) = balanced es"
  by (simp_all add: balanced_def safe_audit_def)

lemma balanced_append: "balanced xs \<Longrightarrow> balanced ys \<Longrightarrow> balanced (xs @ ys)"
  by (simp add: balanced_def span_run_append)

lemma span_run_parts:
  "span_run (safe_audit n e) st = Some st"
  "span_run (safe_audit n e @ es) st = span_run es st"
  "span_run (span_start n a) st = Some (if n_tracer n then sp_name a # st else st)"
  "span_run (span_start n a @ es) st = span_run es (if n_tracer n then sp_name a # st else st)"
  "span_run (span_end n m err) (if n_tracer n then m # st else st) = Some st"
  "span_run (span_end n m err @ es) (if n_tracer n then m # st else st) = span_run es st"
  "n_tracer n \<Longrightarrow> span_run (span_end n m err) (m # st) = Some st"
  "\<not> n_tracer n \<Longrightarrow> span_run (span_end n m err) st = Some st"
  by (simp_all add: safe_audit_def span_start_def span_end_def)

lemma planner_balanced: "planner_node n k gs w = (r, es, w') \<Longrightarrow> balanced es"
  by (auto simp: planner_node_def Let_def balanced_def span_run_parts
      simp del: if_split split: prod.splits sum.splits option.splits)

lemma retrieval_balanced: "retrieval_node n k gs w = (r, es, w') \<Longrightarrow> balanced es"
  by (auto simp: retrieval_node_def Let_def balanced_def span_run_parts
      split: prod.splits sum.splits option.splits if_splits)

lemma tool_balanced: "tool_node n k gs w = (r, es, w') \<Longrightarrow> balanced es"
  by (auto simp: tool_node_def Let_def balanced_def span_run_parts
      split: prod.splits sum.splits option.splits if_splits)

lemma validator_outcome_closes:
  "validator_outcome n k gs t result s = (r, es) \<Longrightarrow>
   span_run es (if n_tracer n then ''validator_node'' # st else st) = Some st"
  by (auto simp: validator_outcome_def Let_def span_run_parts split: pyval.splits if_splits)

lemma validator_outcome_closes':
  "validator_outcome n k gs t result s = (r, es) \<Longrightarrow> n_tracer n \<Longrightarrow>
   span_run es (''validator_node'' # st) = Some st"
  "validator_outcome n k gs t result s = (r, es) \<Longrightarrow> \<not> n_tracer n \<Longrightarrow> span_run es st = Some st"
  using validator_outcome_closes[of n k gs t result s r es st] by simp_all

lemma validator_balanced: "validator_node n k gs w = (r, es, w') \<Longrightarrow> balanced es"
  by (auto simp: validator_node_def Let_def balanced_def span_run_parts validator_outcome_closes'
      simp del: if_split split: prod.splits sum.splits option.splits)

lemma human_gate_balanced: "balanced (snd (human_gate_node n k gs))"
  by (simp add: human_gate_node_def Let_def balanced_def span_run_parts
      split: option.split HumanRequestStatus.split)

lemma exec_balanced: "exec_node n nd k gs w = (r, es, w') \<Longrightarrow> balanced es"
  using human_gate_balanced[of n k gs]
  by (cases nd) (auto split: prod.splits
      dest: planner_balanced retrieval_balanced tool_balanced validator_balanced)

lemma loop_balanced: "graph_loop n ks fuel i nd gs w = (r, es, w') \<Longrightarrow> balanced es"
proof (induction fuel arbitrary: i nd gs w r es w')
  case (Suc fuel)
  obtain r1 es1 w1 where ex: "exec_node n nd (ks i) gs w = (r1, es1, w1)" by (metis prod_cases3)
  note e1 = exec_balanced[OF ex]
  show ?case
  proof (cases r1)
    case (Inl p) then show ?thesis using Suc.prems ex e1 by (cases p) auto
  next
    case (Inr gs') then show ?thesis using Suc ex e1
      by (cases "next_node nd gs'") (auto split: prod.splits intro: balanced_append)
  qed
qed simp

lemma ainvoke_balanced: "ainvoke rt ks gs w = (r, es, w') \<Longrightarrow> balanced es"
  by (auto simp: ainvoke_def run_graph_def split: prod.splits graph_result.splits dest: loop_balanced)


text \<open>The tracing spans of a run nest properly on every path, exceptions included: each started
  span is ended exactly once and innermost first, whatever the agents, the graph library and the
  store do.\<close>

theorem run_spans_balanced:
  assumes "run rt k ks request corr sess custom w = (r, es, w')"
  shows "balanced es"
proof -
  note parts = span_run_parts
  have fin: "balanced (run_finally rt k corr sess st)" for st
    by (simp add: run_finally_def)
  have try_closes: "span_run es1 (if n_tracer (rt_nodes rt) then ''OrchestrationRuntime.run'' # st else st) = Some st"
    if t: "run_try rt k ks corr sess s w1 = (r1, s1, es1, w2)" for s w1 r1 s1 es1 w2 st
  proof -
    obtain a es0 w0 where ai: "ainvoke rt ks (start_state s None) w1 = (a, es0, w0)" by (metis prod_cases3)
    have e0: "span_run (es0 @ ys) st' = span_run ys st'" for ys st'
      using ainvoke_balanced[OF ai] by (simp add: span_run_append balanced_def)
    have f: "span_run (run_finally rt k corr sess x) st' = Some st'" for x st'
      using fin by (simp add: balanced_def)
    obtain err x where "es1 = es0 @ span_end (rt_nodes rt) ''OrchestrationRuntime.run'' err @ run_finally rt k corr sess x"
      using t ai by (auto simp: run_try_def Let_def split: prod.splits sum.splits option.splits)
    then show ?thesis by (simp only: e0 parts f)
  qed
  show ?thesis
    using assms try_closes
    by (auto simp: run_def Let_def balanced_def parts run_span_def simp del: if_split
        split: if_splits prod.splits option.splits)
qed

definition lawful_store :: "('w \<Rightarrow> string \<Rightarrow> OrchestrationState option) \<Rightarrow> 'w store_ops \<Rightarrow> bool" where
  "lawful_store get ops \<longleftrightarrow>
     (\<forall>s w w'. st_save_state ops s w = (None, w') \<longrightarrow> get w' (s_run_id s) = Some s)
     \<and> (\<forall>cp w e w' r. st_save_checkpoint ops cp w = (e, w') \<longrightarrow> get w' r = get w r)"

text \<open>A run that returns a state has persisted exactly that state as the latest one of its run,
  for every store whose successful saves are read back.\<close>

theorem run_persists_result:
  assumes "lawful_store get (rt_store rt)"
    and "run rt k ks request corr sess custom w = (Inr s, es, w')"
  shows "get w' (s_run_id s) = Some s"
proof -
  have persisted: "get w2 (s_run_id x) = Some x" if "persist rt cp x w1 = (None, w2)" for cp x w1 w2
    using that assms(1) by (auto simp: persist_def lawful_store_def split: prod.splits option.splits)
  have "get w2 (s_run_id x) = Some x" if "run_try rt k ks corr sess s0 w1 = (Inr x, s1, es1, w2)" for s0 w1 x s1 es1 w2
    using that persisted by (auto simp: run_try_def Let_def split: prod.splits sum.splits option.splits)
  then show ?thesis using assms(2)
    by (auto simp: run_def Let_def split: if_splits prod.splits option.splits)
qed

text \<open>When the very first save of a run raises, the exception leaves \<open>run\<close> before the block that
  releases the gauge: \<open>active_runs\<close> stays one too high.\<close>

theorem initial_save_failure_leaks:
  assumes "request \<noteq> []"
    and "st_save_state (rt_store rt) (create_initial (k_now k) (k_uid k 0) request corr sess 3 custom) w = (Some e, w1)"
  shows "\<exists>es. run rt k ks request corr sess custom w = (Inl e, es, w1)
    \<and> gauge_value (apply_metrics es m) ''active_runs'' = gauge_value m ''active_runs'' + 1"
proof -
  obtain ev where run: "run rt k ks request corr sess custom w =
      (Inl e, [CounterInc ''runs_started_total'', GaugeInc ''active_runs''] @ safe_audit (rt_nodes rt) ev, w1)"
    using assms by (auto simp: run_def Let_def persist_def)
  have "no_gauge_set ''active_runs'' ([CounterInc ''runs_started_total'', GaugeInc ''active_runs'']
      @ safe_audit (rt_nodes rt) ev)"
    by (simp add: no_gauge_set_def)
  from gauge_value_apply_list[OF this, of m] show ?thesis using run by auto
qed

end
