(* ===== verification/Idempotency.thy ===== *)
theory Idempotency
  imports Core_State "HOL-Library.Char_ord" "HOL-Library.List_Lexorder"
begin

text \<open>
  Futures and the idempotency ledger (\<open>execution/idempotency.py\<close>). A future is an object shared by
  the ledger, the backend and the waiting callers: futures live in a heap and are named by their
  position. The ledger's lock makes each of its operations one step. SHA-256 is an argument.
\<close>

section \<open>Futures\<close>

datatype fut = Fut_pending | Fut_result OrchestrationState | Fut_exception exc | Fut_cancelled

type_synonym heap = "fut list"

definition fut_done :: "heap \<Rightarrow> nat \<Rightarrow> bool" where
  "fut_done h i \<longleftrightarrow> h ! i \<noteq> Fut_pending"

text \<open>\<open>if not future.done(): future.set_result(x)\<close>, and the same with \<open>set_exception\<close>.\<close>

definition settle :: "nat \<Rightarrow> fut \<Rightarrow> heap \<Rightarrow> heap" where
  "settle i v h = (if \<not> fut_done h i then h[i := v] else h)"

section \<open>Hashes\<close>

text \<open>\<open>json.dumps\<close> on ASCII text with its default separators; \<open>None\<close> is the \<open>TypeError\<close> for a time.\<close>

definition json_char :: "char \<Rightarrow> string" where
  "json_char c =
     (if c = CHR 0x22 \<or> c = CHR 0x5C then [CHR 0x5C, c]
      else if c = CHR 0x0A then [CHR 0x5C, CHR ''n'']
      else if c = CHR 0x0D then [CHR 0x5C, CHR ''r'']
      else if c = CHR 0x09 then [CHR 0x5C, CHR ''t'']
      else if c = CHR 0x08 then [CHR 0x5C, CHR ''b'']
      else if c = CHR 0x0C then [CHR 0x5C, CHR ''f'']
      else let n = of_char c :: nat in
        if n < 32 \<or> 127 < n then [CHR 0x5C] @ ''u00'' @ [hex_digit (n div 16), hex_digit (n mod 16)] else [c])"

definition json_str :: "string \<Rightarrow> string" where
  "json_str s = [CHR 0x22] @ concat (map json_char s) @ [CHR 0x22]"

text \<open>The values of a comprehension, or \<open>None\<close> when one of them fails.\<close>

fun all_some :: "'a option list \<Rightarrow> 'a list option" where
  "all_some [] = Some []"
| "all_some (None # xs) = None"
| "all_some (Some x # xs) = map_option ((#) x) (all_some xs)"

primrec json_dumps :: "pyval \<Rightarrow> string option" where
  "json_dumps PNone = Some ''null''"
| "json_dumps (PBool b) = Some (if b then ''true'' else ''false'')"
| "json_dumps (PInt i) = Some (show_int i)"
| "json_dumps (PFloat r) = Some (repr_float r)"
| "json_dumps (PStr s) = Some (json_str s)"
| "json_dumps (PTime t) = None"
| "json_dumps (PList vs) =
     map_option (\<lambda>ss. ''['' @ join_with '', '' ss @ '']'') (all_some (map json_dumps vs))"
| "json_dumps (PDict d) =
     map_option (\<lambda>ss. ''{'' @ join_with '', '' ss @ ''}'')
       (all_some (map (\<lambda>(k, v). map_option (\<lambda>s. json_str k @ '': '' @ s) v)
          (sort_key fst (map (map_prod id json_dumps) d))))"

definition compute_key_hash :: "(string \<Rightarrow> string) \<Rightarrow> string \<Rightarrow> string \<Rightarrow> string" where
  "compute_key_hash sha256_hex subject_id idempotency_key =
     sha256_hex (subject_id @ '':'' @ idempotency_key)"

definition compute_request_hash :: "(string \<Rightarrow> string) \<Rightarrow> string \<Rightarrow> dict option \<Rightarrow> exc + string" where
  "compute_request_hash sha256_hex request custom_context =
     (case json_dumps (PDict [(''request'', PStr request),
                              (''custom_context'', PDict (dict_or_empty custom_context))]) of
        Some s \<Rightarrow> Inr (sha256_hex s)
      | None \<Rightarrow> Inl (mk_Foreign ''TypeError'' ''Object of type datetime is not JSON serializable''))"

section \<open>The ledger\<close>

record IdempotencyRecord =
  ir_key_hash :: string
  ir_request_hash :: string
  ir_run_id :: string
  ir_created_at :: time
  ir_future :: nat
  ir_completed :: bool
  ir_cached_result :: "OrchestrationState option"

type_synonym ledger = "(string \<times> IdempotencyRecord) list"

text \<open>\<open>(is_initiator, future, cached_result)\<close>.\<close>

definition acquire_or_join ::
    "time \<Rightarrow> string \<Rightarrow> string \<Rightarrow> string \<Rightarrow> ledger \<times> heap
     \<Rightarrow> (exc + bool \<times> nat \<times> OrchestrationState option) \<times> ledger \<times> heap" where
  "acquire_or_join now key_hash request_hash run_id st =
     (case st of (l, h) \<Rightarrow>
        (case map_of l key_hash of
           Some r \<Rightarrow>
             if ir_request_hash r \<noteq> request_hash then (Inl mk_IdempotencyConflictError, l, h)
             else if ir_completed r then (Inr (False, ir_future r, ir_cached_result r), l, h)
             else (Inr (False, ir_future r, None), l, h)
         | None \<Rightarrow>
             let r = \<lparr>ir_key_hash = key_hash, ir_request_hash = request_hash, ir_run_id = run_id,
                      ir_created_at = now, ir_future = length h, ir_completed = False,
                      ir_cached_result = None\<rparr>
             in (Inr (True, ir_future r, None), AList.update key_hash r l, h @ [Fut_pending])))"

definition ledger_complete :: "string \<Rightarrow> OrchestrationState \<Rightarrow> ledger \<times> heap \<Rightarrow> ledger \<times> heap" where
  "ledger_complete key_hash result st =
     (case st of (l, h) \<Rightarrow>
        (case map_of l key_hash of
           None \<Rightarrow> (l, h)
         | Some r \<Rightarrow> (AList.update key_hash (r\<lparr>ir_completed := True, ir_cached_result := Some result\<rparr>) l,
                     settle (ir_future r) (Fut_result result) h)))"

definition ledger_fail :: "string \<Rightarrow> exc \<Rightarrow> ledger \<times> heap \<Rightarrow> ledger \<times> heap" where
  "ledger_fail key_hash error st =
     (case st of (l, h) \<Rightarrow>
        (case map_of l key_hash of
           None \<Rightarrow> (l, h)
         | Some r \<Rightarrow> (AList.delete key_hash l, settle (ir_future r) (Fut_exception error) h)))"

definition ledger_clear :: "ledger \<times> heap \<Rightarrow> ledger \<times> heap" where
  "ledger_clear st = (case st of (l, h) \<Rightarrow> ([], h))"

section \<open>Facts\<close>

lemma length_settle [simp]: "length (settle i v h) = length h"
  by (simp add: settle_def)

lemma settle_done: "i < length h \<Longrightarrow> v \<noteq> Fut_pending \<Longrightarrow> fut_done (settle i v h) i"
  by (simp add: settle_def fut_done_def)

lemma settle_keeps_done: "v \<noteq> Fut_pending \<Longrightarrow> fut_done h j \<Longrightarrow> fut_done (settle i v h) j"
  by (cases "i < length h") (auto simp: settle_def fut_done_def nth_list_update list_update_beyond)

lemma settle_other: "j \<noteq> i \<Longrightarrow> settle i v h ! j = h ! j"
  by (simp add: settle_def)

lemma settle_nth: "settle i v h ! j = (if j = i \<and> i < length h \<and> h ! i = Fut_pending then v else h ! j)"
  by (cases "i < length h") (auto simp: settle_def fut_done_def nth_list_update list_update_beyond)

text \<open>The ledger is a keyed store.\<close>

interpretation ledger_store: keyed_store "map_of :: ledger \<Rightarrow> string \<Rightarrow> IdempotencyRecord option"
    AList.update AList.delete
  by unfold_locales simp_all

section \<open>At most one run per key\<close>

text \<open>The operations the backend performs on the ledger.\<close>

datatype ledger_op =
    Acquire time string string string
  | Ledger_complete string OrchestrationState
  | Ledger_fail string exc

fun ledger_step :: "ledger_op \<Rightarrow> ledger \<times> heap \<Rightarrow> (exc + bool \<times> nat \<times> OrchestrationState option) option \<times> ledger \<times> heap" where
  "ledger_step (Acquire now kh rh r) st = (case acquire_or_join now kh rh r st of (a, st') \<Rightarrow> (Some a, st'))"
| "ledger_step (Ledger_complete kh s) st = (None, ledger_complete kh s st)"
| "ledger_step (Ledger_fail kh e) st = (None, ledger_fail kh e st)"

text \<open>The answers to the acquisitions of one key, in order.\<close>

fun answers :: "string \<Rightarrow> ledger_op list \<Rightarrow> ledger \<times> heap \<Rightarrow> (string \<times> (exc + bool \<times> nat \<times> OrchestrationState option)) list" where
  "answers kh [] st = []"
| "answers kh (Acquire now k rh r # ops) st =
     (case acquire_or_join now k rh r st of (a, st') \<Rightarrow>
        (if k = kh then [(rh, a)] else []) @ answers kh ops st')"
| "answers kh (op # ops) st = answers kh ops (snd (ledger_step op st))"

definition releases :: "string \<Rightarrow> ledger_op \<Rightarrow> bool" where
  "releases kh op \<longleftrightarrow> (\<exists>e. op = Ledger_fail kh e)"

text \<open>The record of a key, once made, keeps its request hash and its future.\<close>

definition holds_key :: "string \<Rightarrow> string \<Rightarrow> nat \<Rightarrow> ledger \<times> heap \<Rightarrow> bool" where
  "holds_key kh rh i st \<longleftrightarrow>
     (\<exists>r. map_of (fst st) kh = Some r \<and> ir_request_hash r = rh \<and> ir_future r = i)"

lemma acquire_holds:
  "acquire_or_join now kh rh r st = (Inr (b, i, c), st') \<Longrightarrow> holds_key kh rh i st'"
  by (auto simp: acquire_or_join_def holds_key_def Let_def split: prod.splits option.splits if_splits)

lemma step_keeps_key:
  assumes "holds_key kh rh i st" "\<not> releases kh op"
  shows "holds_key kh rh i (snd (ledger_step op st))"
  using assms
  by (cases op; cases st)
     (auto simp: holds_key_def releases_def acquire_or_join_def ledger_complete_def ledger_fail_def Let_def
       split: option.splits)

lemma held_key_answer:
  assumes "holds_key kh rh i st"
  shows "fst (acquire_or_join now kh rh' r st) =
      (if rh' = rh then Inr (False, i, case map_of (fst st) kh of Some x \<Rightarrow>
           (if ir_completed x then ir_cached_result x else None) | None \<Rightarrow> None)
       else Inl mk_IdempotencyConflictError)
    \<and> snd (acquire_or_join now kh rh' r st) = st"
  using assms by (cases st) (auto simp: holds_key_def acquire_or_join_def)

definition joins :: "string \<Rightarrow> nat \<Rightarrow> string \<times> (exc + bool \<times> nat \<times> OrchestrationState option) \<Rightarrow> bool" where
  "joins rh i a \<longleftrightarrow>
     (if fst a = rh then \<exists>c. snd a = Inr (False, i, c) else snd a = Inl mk_IdempotencyConflictError)"

lemma answers_held:
  assumes "holds_key kh rh i st" "\<forall>op\<in>set ops. \<not> releases kh op"
  shows "\<forall>a\<in>set (answers kh ops st). joins rh i a"
  using assms
proof (induction ops arbitrary: st)
  case (Cons op ops)
  have keep: "holds_key kh rh i (snd (ledger_step op st))"
    using step_keeps_key Cons.prems by simp
  show ?case
  proof (cases op)
    case (Acquire now k rh' r)
    obtain a st' where a: "acquire_or_join now k rh' r st = (a, st')" by (rule prod.exhaust)
    have "\<forall>a\<in>set (answers kh ops st'). joins rh i a"
      using Cons.IH[of st'] Cons.prems keep Acquire a by simp
    moreover have "k = kh \<Longrightarrow> joins rh i (rh', a)"
      using held_key_answer[OF Cons.prems(1), of now rh' r] a by (auto simp: joins_def)
    ultimately show ?thesis using Acquire a by auto
  qed (use Cons keep in auto)
qed simp

text \<open>C19: as long as no failure releases an idempotency key, exactly the first submission under it is
  told to start a run; every later one either joins the same future or, with another payload, is
  refused with \<open>IDEMPOTENCY_CONFLICT\<close>, whatever happens to other keys in between.\<close>

theorem one_initiator_per_key:
  assumes "map_of (fst st) kh = None"
    and "\<forall>op\<in>set ops. \<not> releases kh op" "answers kh ops st = (rh, a) # rest"
  shows "\<exists>i. a = Inr (True, i, None) \<and> (\<forall>b\<in>set rest. joins rh i b)"
  using assms
proof (induction ops arbitrary: st)
  case (Cons op ops)
  have absent: "map_of (fst (snd (ledger_step op st))) kh = None"
    if "\<forall>now rh r. op \<noteq> Acquire now kh rh r"
    using that Cons.prems(1)
    by (cases op; cases st)
       (auto simp: acquire_or_join_def ledger_complete_def ledger_fail_def Let_def split: option.splits)
  show ?case
  proof (cases op)
    case (Acquire now k rh' r)
    obtain a' st' where a': "acquire_or_join now k rh' r st = (a', st')" by (rule prod.exhaust)
    show ?thesis
    proof (cases "k = kh")
      case True
      then have eq: "rh' = rh" "a' = a" "rest = answers kh ops st'"
        using Cons.prems(3) Acquire a' by auto
      have a: "a = Inr (True, length (snd st), None)"
        using a' Cons.prems(1) True unfolding eq(2) acquire_or_join_def by (cases st) (auto simp: Let_def)
      then have "holds_key kh rh (length (snd st)) st'"
        using acquire_holds a' True eq by metis
      then show ?thesis using answers_held[of kh rh "length (snd st)" st' ops] Cons.prems(2) eq(3) a by auto
    next
      case False
      then show ?thesis using Cons.IH[of st'] Cons.prems absent Acquire a' by auto
    qed
  qed (use Cons absent in auto)
qed simp

theorem one_initiator_per_key_witness:
  "\<exists>i. acquire_or_join 0 ''k'' ''h'' ''r1'' ([], []) = (Inr (True, i, None), snd (acquire_or_join 0 ''k'' ''h'' ''r1'' ([], [])))
    \<and> joins ''h'' i (''h2'', fst (acquire_or_join 1 ''k'' ''h2'' ''r2'' (snd (acquire_or_join 0 ''k'' ''h'' ''r1'' ([], [])))))"
proof -
  let ?ops = "[Acquire 0 ''k'' ''h'' ''r1'', Acquire 1 ''k'' ''h2'' ''r2'']"
  have "answers ''k'' ?ops ([], []) =
      (''h'', fst (acquire_or_join 0 ''k'' ''h'' ''r1'' ([], [])))
      # [(''h2'', fst (acquire_or_join 1 ''k'' ''h2'' ''r2'' (snd (acquire_or_join 0 ''k'' ''h'' ''r1'' ([], [])))))]"
    by (simp add: acquire_or_join_def)
  from one_initiator_per_key[OF _ _ this] show ?thesis
    by (auto simp: releases_def prod_eq_iff)
qed

text \<open>The scope of a key is not recoverable from what is hashed: a subject whose name contains a
  colon shares its keys with another subject, so one principal can be answered with the run of the
  other.\<close>

theorem key_scope_ambiguous:
  "compute_key_hash sha256_hex (s @ '':'' @ t) k = compute_key_hash sha256_hex s (t @ '':'' @ k)"
  by (simp add: compute_key_hash_def)

end
