(* ===== verification/Execution_Backend.thy ===== *)
theory Execution_Backend
  imports Runtime Idempotency
begin

text \<open>
  The execution engine (\<open>execution/models.py\<close>, \<open>execution/local_async.py\<close>): a pool of worker
  coroutines over a bounded queue. Coroutines switch only at an \<open>await\<close> that suspends, so the code
  between two such points is one step: a submission, a cancellation request, a worker taking an
  item up to the call of the runtime, and a worker continuing with what the runtime delivered.
  The stores that never suspend (in memory, SQLite) are assumed; \<open>submit_run\<close> is also split at its
  \<open>await save_state\<close> for the store that does. Everything the workers and callers share is in the
  record \<open>backend\<close>; the world \<open>'w\<close> holds the state store and what the agents act on.
\<close>

section \<open>Jobs (execution/models.py)\<close>

datatype JobStatus = QUEUED | RUNNING | WAITING_FOR_HUMAN | COMPLETED | FAILED | CANCELLED

record ExecutionJob =
  j_job_id :: string
  j_run_id :: string
  j_request :: string
  j_status :: JobStatus
  j_correlation_id :: "string option"
  j_session_id :: "string option"
  j_custom_context :: "dict option"
  j_idempotency_key :: "string option"
  j_submitted_at :: time
  j_started_at :: "time option"
  j_completed_at :: "time option"
  j_is_cancelled :: bool
  j_cancellation_reason :: "string option"
  j_error :: "string option"
  j_result :: "OrchestrationState option"

definition new_job :: "tick \<Rightarrow> string \<Rightarrow> string \<Rightarrow> JobStatus \<Rightarrow> ExecutionJob" where
  "new_job k run_id request st =
     \<lparr>j_job_id = k_uid k 1, j_run_id = run_id, j_request = request, j_status = st,
      j_correlation_id = None, j_session_id = None, j_custom_context = None, j_idempotency_key = None,
      j_submitted_at = k_now k, j_started_at = None, j_completed_at = None, j_is_cancelled = False,
      j_cancellation_reason = None, j_error = None, j_result = None\<rparr>"

section \<open>State of the backend\<close>

datatype payload =
    Run_item string "string option" "string option" "dict option"
  | Resume_item OrchestrationState HumanDecision

record work_item =
  wi_run_id :: string
  wi_payload :: payload
  wi_future :: nat
  wi_key_hash :: "string option"

text \<open>
  A worker waits on the queue, or executes an item inside the runtime (with a flag: its
  cancellation has been requested), or its coroutine has ended.
\<close>

datatype worker = Waiting | Executing work_item bool | Dead

datatype backend_effect =
    Telemetry effect
  | Publish string string dict
  | Relabel_spans string string

text \<open>
  \<open>b_workers\<close> holds every worker ever started, \<open>b_pool\<close> the positions of those in
  \<open>self._workers\<close>. \<open>None\<close> in the queue is the termination sentinel. \<open>b_out\<close> collects telemetry
  calls and published events in order.
\<close>

record 'w backend =
  b_world :: 'w
  b_queue :: "work_item option list"
  b_jobs :: "(string \<times> ExecutionJob) list"
  b_futures :: "(string \<times> nat) list"
  b_heap :: heap
  b_cancelled_runs :: "string set"
  b_ledger :: ledger
  b_active_tasks :: "(string \<times> nat) list"
  b_workers :: "worker list"
  b_pool :: "nat list"
  b_is_started :: bool
  b_is_shutting_down :: bool
  b_out :: "backend_effect list"

record 'w backend_config =
  bc_runtime :: "'w runtime"
  bc_store :: "'w store_ops"
  bc_get_state :: "string \<Rightarrow> 'w \<Rightarrow> (exc + OrchestrationState option) \<times> 'w"
  bc_list_checkpoints :: "string \<Rightarrow> 'w \<Rightarrow> (exc + Checkpoint list) \<times> 'w"
  bc_max_concurrency :: nat
  bc_max_queue_size :: nat
  bc_publisher :: bool
  bc_span_tracer :: bool
  bc_audit_sink :: bool
  bc_sha256_hex :: "string \<Rightarrow> string"

definition new_backend :: "'w \<Rightarrow> 'w backend" where
  "new_backend w =
     \<lparr>b_world = w, b_queue = [], b_jobs = [], b_futures = [], b_heap = [], b_cancelled_runs = {},
      b_ledger = [], b_active_tasks = [], b_workers = [], b_pool = [], b_is_started = False,
      b_is_shutting_down = False, b_out = []\<rparr>"

section \<open>Pieces\<close>

definition emit :: "backend_effect list \<Rightarrow> 'w backend \<Rightarrow> 'w backend" where
  "emit es b = b\<lparr>b_out := b_out b @ es\<rparr>"

definition publish_event :: "'w backend_config \<Rightarrow> string \<Rightarrow> string \<Rightarrow> dict \<Rightarrow> 'w backend \<Rightarrow> 'w backend" where
  "publish_event cfg run_id event_type data b =
     (if bc_publisher cfg then emit [Publish run_id event_type data] b else b)"

definition update_metrics :: "'w backend \<Rightarrow> 'w backend" where
  "update_metrics b =
     emit [Telemetry (GaugeSet ''execution_queue_depth'' (of_nat (length (b_queue b)))),
           Telemetry (GaugeSet ''execution_active_tasks'' (of_nat (length (b_active_tasks b))))] b"

definition queue_full :: "'w backend_config \<Rightarrow> 'w backend \<Rightarrow> bool" where
  "queue_full cfg b \<longleftrightarrow> 0 < bc_max_queue_size cfg \<and> bc_max_queue_size cfg \<le> length (b_queue b)"

definition upd_job :: "string \<Rightarrow> (ExecutionJob \<Rightarrow> ExecutionJob) \<Rightarrow> 'w backend \<Rightarrow> 'w backend" where
  "upd_job run_id f b = b\<lparr>b_jobs := upd_key f run_id (b_jobs b)\<rparr>"

definition set_future :: "nat \<Rightarrow> fut \<Rightarrow> 'w backend \<Rightarrow> 'w backend" where
  "set_future i v b = b\<lparr>b_heap := settle i v (b_heap b)\<rparr>"

definition set_worker :: "nat \<Rightarrow> worker \<Rightarrow> 'w backend \<Rightarrow> 'w backend" where
  "set_worker i x b = b\<lparr>b_workers := (b_workers b)[i := x]\<rparr>"

text \<open>Calls of the state store.\<close>

definition save_in_store :: "'w backend_config \<Rightarrow> OrchestrationState \<Rightarrow> 'w backend \<Rightarrow> exc option \<times> 'w backend" where
  "save_in_store cfg s b =
     (case st_save_state (bc_store cfg) s (b_world b) of (e, w) \<Rightarrow> (e, b\<lparr>b_world := w\<rparr>))"

definition get_from_store :: "'w backend_config \<Rightarrow> string \<Rightarrow> 'w backend \<Rightarrow> (exc + OrchestrationState option) \<times> 'w backend" where
  "get_from_store cfg run_id b =
     (case bc_get_state cfg run_id (b_world b) of (r, w) \<Rightarrow> (r, b\<lparr>b_world := w\<rparr>))"

text \<open>\<open>if key_hash: await self._idempotency_ledger.complete(key_hash, state)\<close>, and \<open>fail\<close>.\<close>

definition complete_key :: "string option \<Rightarrow> OrchestrationState \<Rightarrow> 'w backend \<Rightarrow> 'w backend" where
  "complete_key key_hash s b =
     (if opt_truthy key_hash then
        (case ledger_complete (str_or key_hash []) s (b_ledger b, b_heap b) of
           (l, h) \<Rightarrow> b\<lparr>b_ledger := l, b_heap := h\<rparr>)
      else b)"

definition fail_key :: "string option \<Rightarrow> exc \<Rightarrow> 'w backend \<Rightarrow> 'w backend" where
  "fail_key key_hash e b =
     (if opt_truthy key_hash then
        (case ledger_fail (str_or key_hash []) e (b_ledger b, b_heap b) of
           (l, h) \<Rightarrow> b\<lparr>b_ledger := l, b_heap := h\<rparr>)
      else b)"

text \<open>\<open>start\<close>: the running pool is kept only if every worker of it is alive.\<close>

definition start :: "'w backend_config \<Rightarrow> 'w backend \<Rightarrow> 'w backend" where
  "start cfg b =
     (if b_is_started b \<and> b_pool b \<noteq> [] \<and> list_all (\<lambda>i. b_workers b ! i \<noteq> Dead) (b_pool b) then b
      else
        let n = length (b_workers b) in
        update_metrics
          (b\<lparr>b_is_started := True, b_is_shutting_down := False,
             b_workers := b_workers b @ replicate (bc_max_concurrency cfg) Waiting,
             b_pool := [n ..< n + bc_max_concurrency cfg]\<rparr>))"

section \<open>Cancellation of an item\<close>

definition cancel_reason :: "ExecutionJob option \<Rightarrow> pyval" where
  "cancel_reason job = (case job of None \<Rightarrow> PStr ''Cancelled'' | Some j \<Rightarrow> opt_str (j_cancellation_reason j))"

definition cancelled_error :: "string \<Rightarrow> exc" where
  "cancelled_error run_id =
     mk_Foreign ''CancelledError'' (''Run '' @ [CHR 0x27] @ run_id @ [CHR 0x27] @ '' cancelled.'')"

text \<open>Counter, audit record and event at the end of \<open>_finalize_cancelled\<close>.\<close>

definition announce_cancelled :: "'w backend_config \<Rightarrow> string \<Rightarrow> 'w backend \<Rightarrow> 'w backend" where
  "announce_cancelled cfg run_id b =
     (let reason = [(''reason'', cancel_reason (map_of (b_jobs b) run_id))] in
      publish_event cfg run_id ''run_cancelled'' reason
        (emit (Telemetry (CounterInc ''execution_cancellations_total'')
               # (if bc_audit_sink cfg
                  then [Telemetry (Audit
                    \<lparr>a_run_id = run_id, a_correlation_id = None, a_session_id = None,
                     a_event_type = AuditEventType.RUN_FAILED, a_actor = ''orchestrator'',
                     a_component = ''LocalAsyncExecutionBackend'', a_action = ''cancel_run'',
                     a_outcome = ''CANCELLED'', a_metadata = reason\<rparr>)]
                  else [])) b))"

definition finalize_cancelled ::
    "'w backend_config \<Rightarrow> tick \<Rightarrow> string \<Rightarrow> nat \<Rightarrow> string option \<Rightarrow> 'w backend \<Rightarrow> exc option \<times> 'w backend" where
  "finalize_cancelled cfg k run_id future key_hash b =
     (let b1 = upd_job run_id (\<lambda>j. j\<lparr>j_status := JobStatus.CANCELLED, j_is_cancelled := True,
                                     j_completed_at := Some (k_now k)\<rparr>) b in
      case get_from_store cfg run_id b1 of
        (Inl e, b2) \<Rightarrow> (Some e, b2)
      | (Inr None, b2) \<Rightarrow>
          (None, announce_cancelled cfg run_id
             (fail_key key_hash (cancelled_error run_id)
               (set_future future (Fut_exception (cancelled_error run_id)) b2)))
      | (Inr (Some s), b2) \<Rightarrow>
          (let s' = touch (k_now k) (set_status ExecutionStatus.CANCELLED s) in
           case save_in_store cfg s' b2 of
             (Some e, b3) \<Rightarrow> (Some e, b3)
           | (None, b3) \<Rightarrow>
               (None, announce_cancelled cfg run_id
                  (complete_key key_hash s' (set_future future (Fut_result s') b3)))))"

section \<open>A worker finishes an item\<close>

text \<open>What the runtime delivers to the suspended worker.\<close>

datatype delivery = Returned OrchestrationState | Failed exc | Was_cancelled

text \<open>Checkpoints, spans and state written by the run under its own identifier move to the job's.\<close>

fun copy_checkpoints :: "'w backend_config \<Rightarrow> string \<Rightarrow> Checkpoint list \<Rightarrow> 'w \<Rightarrow> exc option \<times> 'w" where
  "copy_checkpoints cfg run_id [] w = (None, w)"
| "copy_checkpoints cfg run_id (cp # cps) w =
     (case st_save_checkpoint (bc_store cfg) (cp\<lparr>cp_run_id := run_id\<rparr>) w of
        (Some e, w') \<Rightarrow> (Some e, w')
      | (None, w') \<Rightarrow> copy_checkpoints cfg run_id cps w')"

definition rekey_run ::
    "'w backend_config \<Rightarrow> string \<Rightarrow> OrchestrationState \<Rightarrow> 'w backend \<Rightarrow> (exc + OrchestrationState) \<times> 'w backend" where
  "rekey_run cfg run_id s b =
     (if s_run_id s = run_id then (Inr s, b)
      else case bc_list_checkpoints cfg (s_run_id s) (b_world b) of
        (Inl e, w) \<Rightarrow> (Inl e, b\<lparr>b_world := w\<rparr>)
      | (Inr cps, w) \<Rightarrow>
          (case copy_checkpoints cfg run_id cps w of
             (Some e, w') \<Rightarrow> (Inl e, b\<lparr>b_world := w'\<rparr>)
           | (None, w') \<Rightarrow>
               let b1 = (if bc_span_tracer cfg then emit [Relabel_spans (s_run_id s) run_id] (b\<lparr>b_world := w'\<rparr>)
                         else b\<lparr>b_world := w'\<rparr>);
                   s' = s\<lparr>s_run_id := run_id\<rparr>
               in (case save_in_store cfg s' b1 of
                     (Some e, b2) \<Rightarrow> (Inl e, b2)
                   | (None, b2) \<Rightarrow> (Inr s', b2))))"

definition last_reason :: "OrchestrationState \<Rightarrow> string" where
  "last_reason s = (if s_human_requests s = [] then [] else h_reason (last (s_human_requests s)))"

definition handle_result :: "'w backend_config \<Rightarrow> tick \<Rightarrow> work_item \<Rightarrow> OrchestrationState \<Rightarrow> 'w backend \<Rightarrow> 'w backend" where
  "handle_result cfg k it s b =
     (let r = wi_run_id it;
          b1 = emit [Telemetry (Observe ''execution_job_duration_seconds'' (k_elapsed k))] b;
          settled = (\<lambda>x. complete_key (wi_key_hash it) s (set_future (wi_future it) (Fut_result s) x))
      in if s_status s = ExecutionStatus.PAUSED_FOR_HUMAN then
           publish_event cfg r ''human_review_required'' [(''reason'', PStr (last_reason s))]
             (settled (upd_job r (\<lambda>j. j\<lparr>j_status := JobStatus.WAITING_FOR_HUMAN, j_result := Some s\<rparr>) b1))
         else
           let done = s_status s = ExecutionStatus.COMPLETED;
               b2 = settled (upd_job r (\<lambda>j. j\<lparr>j_status := (if done then JobStatus.COMPLETED else JobStatus.FAILED),
                                              j_completed_at := Some (k_now k), j_result := Some s\<rparr>) b1)
           in if done then publish_event cfg r ''run_completed'' [(''response'', opt_str (s_final_response s))] b2
              else publish_event cfg r ''run_failed'' [(''errors'', PList (map PDict (s_errors s)))] b2)"

definition handle_exception :: "'w backend_config \<Rightarrow> tick \<Rightarrow> work_item \<Rightarrow> exc \<Rightarrow> 'w backend \<Rightarrow> 'w backend" where
  "handle_exception cfg k it e b =
     (let r = wi_run_id it in
      publish_event cfg r ''run_failed'' [(''error'', PStr (e_message e))]
        (fail_key (wi_key_hash it) e
          (set_future (wi_future it) (Fut_exception e)
            (upd_job r (\<lambda>j. j\<lparr>j_status := JobStatus.FAILED, j_error := Some (e_message e),
                              j_completed_at := Some (k_now k)\<rparr>) b))))"

text \<open>The \<open>finally\<close> block, and what becomes of the worker.\<close>

definition release_worker :: "nat \<Rightarrow> string \<Rightarrow> worker \<Rightarrow> 'w backend \<Rightarrow> 'w backend" where
  "release_worker i run_id x b =
     set_worker i x (update_metrics (b\<lparr>b_active_tasks := AList.delete run_id (b_active_tasks b)\<rparr>))"

text \<open>From the delivery to the next \<open>queue.get()\<close>; an exception of the cancel handler ends the worker.\<close>

definition finish_item ::
    "'w backend_config \<Rightarrow> tick \<Rightarrow> nat \<Rightarrow> work_item \<Rightarrow> delivery \<Rightarrow> 'w backend \<Rightarrow> 'w backend" where
  "finish_item cfg k i it d b =
     (let r = wi_run_id it in
      case d of
        Returned s \<Rightarrow>
          (case rekey_run cfg r s b of
             (Inl e, b1) \<Rightarrow> release_worker i r Waiting (handle_exception cfg k it e b1)
           | (Inr s', b1) \<Rightarrow> release_worker i r Waiting (handle_result cfg k it s' b1))
      | Failed e \<Rightarrow> release_worker i r Waiting (handle_exception cfg k it e b)
      | Was_cancelled \<Rightarrow>
          (case finalize_cancelled cfg k r (wi_future it) (wi_key_hash it) b of
             (None, b1) \<Rightarrow> release_worker i r Waiting b1
           | (Some e, b1) \<Rightarrow> release_worker i r Dead b1))"

section \<open>A worker takes an item\<close>

definition job_cancelled :: "'w backend \<Rightarrow> string \<Rightarrow> bool" where
  "job_cancelled b run_id \<longleftrightarrow>
     run_id \<in> b_cancelled_runs b
     \<or> (case map_of (b_jobs b) run_id of None \<Rightarrow> False | Some j \<Rightarrow> j_is_cancelled j)"

text \<open>The state a resumption hands to the runtime, saved as running before.\<close>

definition resumed_state :: "tick \<Rightarrow> OrchestrationState \<Rightarrow> OrchestrationState" where
  "resumed_state k s = touch (k_now k) (set_status ExecutionStatus.RUNNING s)"

definition begin_item :: "'w backend_config \<Rightarrow> tick \<Rightarrow> nat \<Rightarrow> work_item \<Rightarrow> 'w backend \<Rightarrow> 'w backend" where
  "begin_item cfg k i it b =
     (let r = wi_run_id it;
          b1 = b\<lparr>b_active_tasks := AList.update r i (b_active_tasks b)\<rparr>;
          b2 = update_metrics (upd_job r (\<lambda>j. j\<lparr>j_status := JobStatus.RUNNING, j_started_at := Some (k_now k)\<rparr>) b1)
      in case wi_payload it of
           Run_item request corr sess custom \<Rightarrow> set_worker i (Executing it False) b2
         | Resume_item s d \<Rightarrow>
             let it' = it\<lparr>wi_payload := Resume_item (resumed_state k s) d\<rparr>
             in (case save_in_store cfg (resumed_state k s) b2 of
                   (Some e, b3) \<Rightarrow> finish_item cfg k i it' (Failed e) b3
                 | (None, b3) \<Rightarrow> set_worker i (Executing it' False) b3))"

text \<open>
  \<open>queue.get()\<close> up to the call of the runtime. An exception while finalizing a cancelled item is
  outside the \<open>try\<close> block and ends the worker.
\<close>

definition take_item :: "'w backend_config \<Rightarrow> tick \<Rightarrow> nat \<Rightarrow> 'w backend \<Rightarrow> 'w backend" where
  "take_item cfg k i b =
     (case b_queue b of
        [] \<Rightarrow> b
      | None # q \<Rightarrow> set_worker i Dead (b\<lparr>b_queue := q\<rparr>)
      | Some it # q \<Rightarrow>
          let b1 = b\<lparr>b_queue := q\<rparr> in
          if job_cancelled b1 (wi_run_id it) then
            (case finalize_cancelled cfg k (wi_run_id it) (wi_future it) (wi_key_hash it) b1 of
               (None, b2) \<Rightarrow> update_metrics b2
             | (Some e, b2) \<Rightarrow> set_worker i Dead b2)
          else begin_item cfg k i it b1)"

text \<open>
  One whole iteration of \<open>_worker_loop\<close> when nothing else runs in between: the item goes through
  \<open>run\<close> or \<open>resume_with_human_decision\<close> of the runtime.
\<close>

definition execute_payload ::
    "'w backend_config \<Rightarrow> tick \<Rightarrow> (nat \<Rightarrow> tick) \<Rightarrow> payload \<Rightarrow> 'w \<Rightarrow> delivery \<times> effect list \<times> 'w" where
  "execute_payload cfg k ks p w =
     (case (case p of
              Run_item request corr sess custom \<Rightarrow> run (bc_runtime cfg) k ks request corr sess custom w
            | Resume_item s d \<Rightarrow> resume_with_human_decision (bc_runtime cfg) k ks s d w) of
        (Inl e, es, w') \<Rightarrow> (Failed e, es, w')
      | (Inr s, es, w') \<Rightarrow> (Returned s, es, w'))"

definition worker_iteration ::
    "'w backend_config \<Rightarrow> tick \<Rightarrow> (nat \<Rightarrow> tick) \<Rightarrow> nat \<Rightarrow> 'w backend \<Rightarrow> 'w backend" where
  "worker_iteration cfg k ks i b =
     (let b1 = take_item cfg k i b in
      case b_workers b1 ! i of
        Executing it c \<Rightarrow>
          (case execute_payload cfg k ks (wi_payload it) (b_world b1) of
             (d, es, w) \<Rightarrow> finish_item cfg k i it d (emit (map Telemetry es) (b1\<lparr>b_world := w\<rparr>)))
      | _ \<Rightarrow> b1)"

section \<open>Submissions\<close>

definition shutting_down_error :: exc where
  "shutting_down_error =
     mk_OrchestrationError ''Execution backend is shutting down.'' ''SERVICE_UNAVAILABLE'' True []"

definition queue_full_error :: exc where
  "queue_full_error =
     mk_OrchestrationError ''Execution queue is at maximum capacity. Please retry later.''
       ''EXECUTION_QUEUE_FULL'' True []"

definition reject_full :: "'w backend \<Rightarrow> 'w backend" where
  "reject_full b = emit [Telemetry (CounterInc ''execution_rejections_total'')] b"

record run_request =
  rq_run_id :: string
  rq_request :: string
  rq_correlation_id :: "string option"
  rq_session_id :: "string option"
  rq_custom_context :: "dict option"
  rq_idempotency_key :: "string option"
  rq_subject_id :: "string option"

text \<open>The job a joining submission reports when its own run identifier is unknown.\<close>

definition joined_job :: "tick \<Rightarrow> run_request \<Rightarrow> OrchestrationState option \<Rightarrow> 'w backend \<Rightarrow> ExecutionJob" where
  "joined_job k q cached b =
     (case map_of (b_jobs b) (rq_run_id q) of
        Some j \<Rightarrow> j
      | None \<Rightarrow> (new_job k (rq_run_id q) (rq_request q)
                  (if cached \<noteq> None then JobStatus.COMPLETED else JobStatus.RUNNING))\<lparr>j_result := cached\<rparr>)"

text \<open>
  \<open>submit_run\<close> up to \<open>await save_state\<close>: it raises, answers at once as a duplicate, or goes on
  with the key hash and the future of the ledger.
\<close>

datatype admission =
    Joined ExecutionJob nat
  | Admitted "string option" "nat option" OrchestrationState

definition initial_state :: "tick \<Rightarrow> run_request \<Rightarrow> OrchestrationState" where
  "initial_state k q =
     set_status ExecutionStatus.IDLE
       ((create_initial (k_now k) (k_uid k 0) (rq_request q) (rq_correlation_id q) (rq_session_id q) 3
           (rq_custom_context q))\<lparr>s_run_id := rq_run_id q\<rparr>)"

definition check_capacity ::
    "'w backend_config \<Rightarrow> tick \<Rightarrow> run_request \<Rightarrow> string option \<Rightarrow> nat option \<Rightarrow> 'w backend
     \<Rightarrow> (exc + admission) \<times> 'w backend" where
  "check_capacity cfg k q key_hash future b =
     (if queue_full cfg b then (Inl queue_full_error, reject_full b)
      else if rq_request q = [] then (Inl (validation_failure ''request''), b)
      else (Inr (Admitted key_hash future (initial_state k q)), b))"

definition submit_admit ::
    "'w backend_config \<Rightarrow> tick \<Rightarrow> run_request \<Rightarrow> 'w backend \<Rightarrow> (exc + admission) \<times> 'w backend" where
  "submit_admit cfg k q b =
     (if b_is_shutting_down b then (Inl shutting_down_error, b)
      else
        let b1 = start cfg b in
        if opt_truthy (rq_idempotency_key q) \<and> opt_truthy (rq_subject_id q) then
          let kh = compute_key_hash (bc_sha256_hex cfg) (str_or (rq_subject_id q) []) (str_or (rq_idempotency_key q) [])
          in case compute_request_hash (bc_sha256_hex cfg) (rq_request q) (rq_custom_context q) of
               Inl e \<Rightarrow> (Inl e, b1)
             | Inr rh \<Rightarrow>
                 (case acquire_or_join (k_now k) kh rh (rq_run_id q) (b_ledger b1, b_heap b1) of
                    (Inl e, l, h) \<Rightarrow> (Inl e, b1)
                  | (Inr (is_initiator, future, cached), l, h) \<Rightarrow>
                      let b2 = b1\<lparr>b_ledger := l, b_heap := h\<rparr> in
                      if \<not> is_initiator then
                        (Inr (Joined (joined_job k q cached b2) future),
                         (case cached of None \<Rightarrow> b2 | Some s \<Rightarrow> set_future future (Fut_result s) b2))
                      else check_capacity cfg k q (Some kh) (Some future) b2)
        else check_capacity cfg k q None None b1)"

text \<open>\<open>submit_run\<close> after \<open>await save_state\<close>; \<open>put_nowait\<close> raises \<open>QueueFull\<close> when the queue has filled up.\<close>

definition submit_enqueue ::
    "'w backend_config \<Rightarrow> tick \<Rightarrow> run_request \<Rightarrow> string option \<Rightarrow> nat option \<Rightarrow> 'w backend
     \<Rightarrow> (exc + ExecutionJob \<times> nat) \<times> 'w backend" where
  "submit_enqueue cfg k q key_hash future b =
     (let r = rq_run_id q;
          job = (new_job k r (rq_request q) JobStatus.QUEUED)
                  \<lparr>j_correlation_id := rq_correlation_id q, j_session_id := rq_session_id q,
                   j_custom_context := rq_custom_context q, j_idempotency_key := rq_idempotency_key q\<rparr>;
          b1 = b\<lparr>b_jobs := AList.update r job (b_jobs b)\<rparr>;
          (fid, h) = (case future of Some i \<Rightarrow> (i, b_heap b1) | None \<Rightarrow> (length (b_heap b1), b_heap b1 @ [Fut_pending]));
          b2 = b1\<lparr>b_heap := h, b_futures := AList.update r fid (b_futures b1)\<rparr>;
          it = \<lparr>wi_run_id = r,
                wi_payload = Run_item (rq_request q) (rq_correlation_id q) (rq_session_id q) (rq_custom_context q),
                wi_future = fid, wi_key_hash = key_hash\<rparr>
      in if queue_full cfg b2 then (Inl (mk_Foreign ''QueueFull'' ''''), b2)
         else (Inr (job, fid),
               update_metrics (publish_event cfg r ''run_started''
                 [(''request'', PStr (rq_request q)), (''status'', PStr ''queued'')]
                 (b2\<lparr>b_queue := b_queue b2 @ [Some it]\<rparr>))))"

definition submit_run ::
    "'w backend_config \<Rightarrow> tick \<Rightarrow> run_request \<Rightarrow> 'w backend \<Rightarrow> (exc + ExecutionJob \<times> nat) \<times> 'w backend" where
  "submit_run cfg k q b =
     (case submit_admit cfg k q b of
        (Inl e, b1) \<Rightarrow> (Inl e, b1)
      | (Inr (Joined job future), b1) \<Rightarrow> (Inr (job, future), b1)
      | (Inr (Admitted key_hash future s), b1) \<Rightarrow>
          (case save_in_store cfg s b1 of
             (Some e, b2) \<Rightarrow> (Inl e, b2)
           | (None, b2) \<Rightarrow> submit_enqueue cfg k q key_hash future b2))"

definition terminal :: "ExecutionStatus \<Rightarrow> bool" where
  "terminal x \<longleftrightarrow> x \<in> {ExecutionStatus.COMPLETED, ExecutionStatus.FAILED, ExecutionStatus.CANCELLED}"

definition resume_error :: "string \<Rightarrow> string \<Rightarrow> string \<Rightarrow> exc" where
  "resume_error run_id text code =
     mk_OrchestrationError (''Run '' @ [CHR 0x27] @ run_id @ [CHR 0x27] @ text) code False []"

text \<open>The checks of \<open>submit_resume\<close> on the stored state.\<close>

definition resume_refusal :: "string \<Rightarrow> OrchestrationState option \<Rightarrow> exc option" where
  "resume_refusal run_id found =
     (case found of
        None \<Rightarrow> Some (resume_error run_id '' not found.'' ''RUN_NOT_FOUND'')
      | Some s \<Rightarrow>
          let v = execution_status_value (s_status s) in
          if \<not> s_requires_human s then
            Some (resume_error run_id ('' is not awaiting human review (status: '' @ v @ '').'')
              ''NO_HUMAN_REVIEW_PENDING'')
          else if terminal (s_status s) then
            Some (resume_error run_id ('' is in terminal status '' @ [CHR 0x27] @ v @ [CHR 0x27]
              @ '' and cannot be resumed.'') ''RUN_TERMINAL'')
          else None)"

definition submit_resume ::
    "'w backend_config \<Rightarrow> tick \<Rightarrow> string \<Rightarrow> HumanDecision \<Rightarrow> 'w backend \<Rightarrow> (exc + ExecutionJob \<times> nat) \<times> 'w backend" where
  "submit_resume cfg k run_id d b =
     (if b_is_shutting_down b then (Inl shutting_down_error, b)
      else case get_from_store cfg run_id (start cfg b) of
        (Inl e, b1) \<Rightarrow> (Inl e, b1)
      | (Inr found, b1) \<Rightarrow>
          (case (found, resume_refusal run_id found) of
             (Some s, None) \<Rightarrow>
               if queue_full cfg b1 then (Inl queue_full_error, reject_full b1)
               else
                 let job0 = (case map_of (b_jobs b1) run_id of
                               Some j \<Rightarrow> j | None \<Rightarrow> new_job k run_id (s_request s) JobStatus.QUEUED);
                     job = job0\<lparr>j_status := JobStatus.QUEUED, j_is_cancelled := False\<rparr>;
                     fid = length (b_heap b1);
                     it = \<lparr>wi_run_id = run_id, wi_payload = Resume_item s d, wi_future = fid, wi_key_hash = None\<rparr>;
                     b2 = b1\<lparr>b_jobs := AList.update run_id job (b_jobs b1),
                             b_cancelled_runs := b_cancelled_runs b1 - {run_id},
                             b_heap := b_heap b1 @ [Fut_pending],
                             b_futures := AList.update run_id fid (b_futures b1)\<rparr>;
                     b3 = publish_event cfg run_id ''human_decision_submitted''
                            [(''status'', PStr (human_request_status_value (d_status d))),
                             (''decision_note'', opt_str (d_decision_note d))] b2
                 in (Inr (job, fid), update_metrics (b3\<lparr>b_queue := b_queue b3 @ [Some it]\<rparr>))
           | (_, Some e) \<Rightarrow> (Inl e, b1)
           | (None, None) \<Rightarrow> (Inl (resume_error run_id '' not found.'' ''RUN_NOT_FOUND''), b1)))"

section \<open>Cancellation requests\<close>

text \<open>\<open>task.cancel()\<close> on a worker inside the runtime; on a waiting worker it ends the coroutine.\<close>

definition cancel_worker :: "nat \<Rightarrow> 'w backend \<Rightarrow> 'w backend" where
  "cancel_worker i b =
     (case b_workers b ! i of
        Executing it c \<Rightarrow> set_worker i (Executing it True) b
      | Waiting \<Rightarrow> set_worker i Dead b
      | Dead \<Rightarrow> b)"

definition cancel_run ::
    "'w backend_config \<Rightarrow> tick \<Rightarrow> string \<Rightarrow> string \<Rightarrow> 'w backend \<Rightarrow> (exc + bool) \<times> 'w backend" where
  "cancel_run cfg k run_id reason b =
     (let b1 = upd_job run_id (\<lambda>j. j\<lparr>j_is_cancelled := True, j_cancellation_reason := Some reason\<rparr>)
                 (b\<lparr>b_cancelled_runs := insert run_id (b_cancelled_runs b)\<rparr>) in
      case map_of (b_active_tasks b1) run_id of
        Some i \<Rightarrow> (Inr True, cancel_worker i b1)
      | None \<Rightarrow>
          (case get_from_store cfg run_id b1 of
             (Inl e, b2) \<Rightarrow> (Inl e, b2)
           | (Inr None, b2) \<Rightarrow> (Inr False, b2)
           | (Inr (Some s), b2) \<Rightarrow>
               if s_status s \<in> {ExecutionStatus.IDLE, ExecutionStatus.PAUSED_FOR_HUMAN, ExecutionStatus.RUNNING} then
                 let s' = touch (k_now k) (set_status ExecutionStatus.CANCELLED s) in
                 (case save_in_store cfg s' b2 of
                    (Some e, b3) \<Rightarrow> (Inl e, b3)
                  | (None, b3) \<Rightarrow>
                      let b4 = (case map_of (b_futures b3) run_id of
                                  None \<Rightarrow> b3 | Some i \<Rightarrow> set_future i (Fut_result s') b3);
                          b5 = upd_job run_id (\<lambda>j. j\<lparr>j_status := JobStatus.CANCELLED\<rparr>) b4;
                          b6 = emit [Telemetry (CounterInc ''execution_cancellations_total'')] b5
                      in (Inr True, publish_event cfg run_id ''run_cancelled'' [(''reason'', PStr reason)] b6))
               else (Inr False, b2)))"

definition get_job :: "'w backend \<Rightarrow> string \<Rightarrow> ExecutionJob option" where
  "get_job b run_id = map_of (b_jobs b) run_id"

section \<open>Shutdown\<close>

text \<open>Drain the queue; an exception of \<open>_finalize_cancelled\<close> leaves \<open>shutdown\<close>.\<close>

fun drain_queue ::
    "'w backend_config \<Rightarrow> tick \<Rightarrow> work_item option list \<Rightarrow> 'w backend \<Rightarrow> exc option \<times> 'w backend" where
  "drain_queue cfg k [] b = (None, b\<lparr>b_queue := []\<rparr>)"
| "drain_queue cfg k (None # q) b = drain_queue cfg k q (b\<lparr>b_queue := q\<rparr>)"
| "drain_queue cfg k (Some it # q) b =
     (case finalize_cancelled cfg k (wi_run_id it) (wi_future it) (wi_key_hash it) (b\<lparr>b_queue := q\<rparr>) of
        (Some e, b1) \<Rightarrow> (Some e, b1)
      | (None, b1) \<Rightarrow> drain_queue cfg k q b1)"

definition shutdown_begin :: "'w backend_config \<Rightarrow> tick \<Rightarrow> 'w backend \<Rightarrow> exc option \<times> 'w backend" where
  "shutdown_begin cfg k b = drain_queue cfg k (b_queue b) (b\<lparr>b_is_shutting_down := True\<rparr>)"

text \<open>
  After the wait for active tasks: cancel what still executes, put one sentinel per worker while
  there is room, cancel the workers.
\<close>

fun put_sentinels :: "'w backend_config \<Rightarrow> nat \<Rightarrow> 'w backend \<Rightarrow> 'w backend" where
  "put_sentinels cfg 0 b = b"
| "put_sentinels cfg (Suc n) b =
     put_sentinels cfg n (if queue_full cfg b then b else b\<lparr>b_queue := b_queue b @ [None]\<rparr>)"

definition shutdown_stop :: "'w backend_config \<Rightarrow> 'w backend \<Rightarrow> 'w backend" where
  "shutdown_stop cfg b =
     (let b1 = fold cancel_worker (map snd (b_active_tasks b)) b
      in fold cancel_worker (b_pool b1) (put_sentinels cfg (length (b_pool b1)) b1))"

text \<open>A cancelled worker finalizes its item, goes back to the queue and takes a sentinel if one is left.\<close>

definition settle_worker :: "'w backend_config \<Rightarrow> tick \<Rightarrow> nat \<Rightarrow> 'w backend \<Rightarrow> 'w backend" where
  "settle_worker cfg k i b =
     (case b_workers b ! i of
        Executing it True \<Rightarrow>
          (let b1 = finish_item cfg k i it Was_cancelled b
           in if b_workers b1 ! i = Waiting then take_item cfg k i b1 else b1)
      | _ \<Rightarrow> b)"

text \<open>\<open>None\<close>: \<open>gather\<close> never returns, as a worker of the pool still waits on the empty queue.\<close>

definition shutdown_close :: "'w backend \<Rightarrow> 'w backend option" where
  "shutdown_close b =
     (if list_all (\<lambda>i. b_workers b ! i = Dead) (b_pool b) then
        Some (update_metrics (b\<lparr>b_pool := [], b_active_tasks := [], b_is_started := False,
                                b_is_shutting_down := False\<rparr>))
      else None)"

text \<open>\<open>shutdown\<close> when no task finishes during the wait.\<close>

definition shutdown :: "'w backend_config \<Rightarrow> tick \<Rightarrow> 'w backend \<Rightarrow> (exc option \<times> 'w backend) option" where
  "shutdown cfg k b =
     (if \<not> b_is_started b \<or> b_is_shutting_down b then Some (None, b)
      else case shutdown_begin cfg k b of
        (Some e, b1) \<Rightarrow> Some (Some e, b1)
      | (None, b1) \<Rightarrow>
          let b2 = shutdown_stop cfg b1 in
          map_option (Pair None) (shutdown_close (fold (settle_worker cfg k) (b_pool b2) b2)))"

end
