(* ===== verification/Backend_Invariant.thy ===== *)
theory Backend_Invariant
  imports Execution_Backend
begin

text \<open>
  The execution engine in service: the step relation of submissions, cancellations and worker
  steps in any interleaving, the invariant all reachable states satisfy, and what follows for the
  queue, the workers and the futures callers wait on.
\<close>

section \<open>Steps\<close>

text \<open>
  \<open>Client\<close> is a caller giving up on its future (\<open>wait_for\<close> cancels it); \<open>Outside\<close> is any change
  of the world by what runs in the workers or elsewhere; \<open>es\<close> is what the runtime has emitted when
  it delivers.
\<close>

inductive b_step :: "'w backend_config \<Rightarrow> 'w backend \<Rightarrow> 'w backend \<Rightarrow> bool" for cfg where
  Submit: "b_step cfg b (snd (submit_run cfg k q b))"
| Resume: "b_step cfg b (snd (submit_resume cfg k r d b))"
| Cancel: "b_step cfg b (snd (cancel_run cfg k r reason b))"
| Take: "i < length (b_workers b) \<Longrightarrow> b_workers b ! i = Waiting \<Longrightarrow> b_step cfg b (take_item cfg k i b)"
| Deliver: "i < length (b_workers b) \<Longrightarrow> b_workers b ! i = Executing it c \<Longrightarrow>
    b_step cfg b (finish_item cfg k i it d (emit es (b\<lparr>b_world := w\<rparr>)))"
| Client: "b_step cfg b (set_future f Fut_cancelled b)"
| Outside: "b_step cfg b (b\<lparr>b_world := w\<rparr>)"

inductive b_reach :: "'w backend_config \<Rightarrow> 'w backend \<Rightarrow> bool" for cfg where
  fresh: "b_reach cfg (new_backend w)"
| more: "b_reach cfg b \<Longrightarrow> b_step cfg b b' \<Longrightarrow> b_reach cfg b'"

text \<open>A store whose reads and writes do not fail, as the in-memory store.\<close>

definition store_total :: "'w backend_config \<Rightarrow> bool" where
  "store_total cfg \<longleftrightarrow>
     (\<forall>s w. fst (st_save_state (bc_store cfg) s w) = None)
     \<and> (\<forall>r w. \<exists>x. fst (bc_get_state cfg r w) = Inr x)"

section \<open>Effect of the pieces on the shared structures\<close>

definition ledger_futures :: "ledger \<Rightarrow> nat set" where
  "ledger_futures l = {ir_future r | r kh. map_of l kh = Some r}"

definition same_core :: "'w backend \<Rightarrow> 'w backend \<Rightarrow> bool" where
  "same_core b b' \<longleftrightarrow>
     b_queue b' = b_queue b \<and> b_futures b' = b_futures b \<and> b_active_tasks b' = b_active_tasks b
     \<and> b_workers b' = b_workers b \<and> b_pool b' = b_pool b \<and> b_is_started b' = b_is_started b
     \<and> b_is_shutting_down b' = b_is_shutting_down b"

text \<open>
  \<open>settles F b b'\<close>: queue, workers and registrations are as before, the futures in \<open>F\<close> are done,
  no future is undone, and a key leaves the ledger only with its future done.
\<close>

definition settles :: "nat set \<Rightarrow> 'w backend \<Rightarrow> 'w backend \<Rightarrow> bool" where
  "settles F b b' \<longleftrightarrow>
     same_core b b' \<and> length (b_heap b') = length (b_heap b)
     \<and> (\<forall>g. fut_done (b_heap b) g \<longrightarrow> fut_done (b_heap b') g)
     \<and> (\<forall>g\<in>F. g < length (b_heap b) \<longrightarrow> fut_done (b_heap b') g)
     \<and> ledger_futures (b_ledger b') \<subseteq> ledger_futures (b_ledger b)
     \<and> (\<forall>g\<in>ledger_futures (b_ledger b) - ledger_futures (b_ledger b').
          g < length (b_heap b) \<longrightarrow> fut_done (b_heap b') g)"

lemma settles_refl: "settles {} b b"
  by (simp add: settles_def same_core_def)

lemma settles_trans: "settles F b b1 \<Longrightarrow> settles G b1 b2 \<Longrightarrow> settles (F \<union> G) b b2"
  unfolding settles_def same_core_def
  by (elim conjE, intro conjI ballI allI impI) (simp_all, blast+)

lemma settles_trans_quiet:
  "settles {} b b1 \<Longrightarrow> settles G b1 b2 \<Longrightarrow> settles G b b2"
  "settles G b b1 \<Longrightarrow> settles {} b1 b2 \<Longrightarrow> settles G b b2"
  using settles_trans[of "{}" b b1 G b2] settles_trans[of G b b1 "{}" b2] by simp_all

text \<open>Updates that touch none of it.\<close>

lemma settles_field:
  "settles {} b (b\<lparr>b_out := es\<rparr>)" "settles {} b (b\<lparr>b_jobs := js\<rparr>)" "settles {} b (b\<lparr>b_world := w\<rparr>)"
  "settles {} b (b\<lparr>b_cancelled_runs := c\<rparr>)"
  by (simp_all add: settles_def same_core_def)

lemma settles_emit: "settles {} b (emit es b)"
  unfolding emit_def by (rule settles_field(1))

lemma settles_publish: "settles {} b (publish_event cfg r t d b)"
  unfolding publish_event_def by (cases "bc_publisher cfg") (simp_all only: if_True if_False settles_emit settles_refl)

lemma settles_upd_job: "settles {} b (upd_job r f b)"
  unfolding upd_job_def by (rule settles_field(2))

lemma settles_update_metrics: "settles {} b (update_metrics b)"
  unfolding update_metrics_def by (rule settles_emit)

lemmas settles_quiet [simp, intro] =
  settles_emit settles_publish settles_upd_job settles_field(3) settles_update_metrics

lemma settles_announce [simp, intro]: "settles {} b (announce_cancelled cfg r b)"
  unfolding announce_cancelled_def Let_def by (rule settles_trans_quiet(1)[OF settles_emit settles_publish])

lemma settles_future [intro]: "v \<noteq> Fut_pending \<Longrightarrow> settles {i} b (set_future i v b)"
  by (auto simp: settles_def same_core_def set_future_def settle_done settle_keeps_done)

lemma ledger_futuresI: "map_of l kh = Some r \<Longrightarrow> ir_future r = f \<Longrightarrow> f \<in> ledger_futures l"
  by (auto simp: ledger_futures_def)

lemma ledger_futuresE:
  assumes "f \<in> ledger_futures l"
  obtains kh r where "map_of l kh = Some r" "f = ir_future r"
  using assms by (auto simp: ledger_futures_def)

lemma ledger_futures_update:
  assumes "map_of l kh = Some r0" "ir_future r = ir_future r0"
  shows "ledger_futures (AList.update kh r l) = ledger_futures l"
proof (intro set_eqI iffI)
  fix f assume "f \<in> ledger_futures (AList.update kh r l)"
  then show "f \<in> ledger_futures l"
    by (rule ledger_futuresE) (use assms in \<open>auto split: if_splits intro: ledger_futuresI\<close>)
next
  fix f assume "f \<in> ledger_futures l"
  then obtain j x where "map_of l j = Some x" "f = ir_future x" by (rule ledger_futuresE)
  then show "f \<in> ledger_futures (AList.update kh r l)"
    using assms by (cases "j = kh") (auto intro: ledger_futuresI[of _ kh] ledger_futuresI[of _ j])
qed

lemma ledger_futures_insert:
  assumes "map_of l kh = None"
  shows "ledger_futures (AList.update kh r l) = insert (ir_future r) (ledger_futures l)"
proof (intro set_eqI iffI)
  fix f assume "f \<in> ledger_futures (AList.update kh r l)"
  then show "f \<in> insert (ir_future r) (ledger_futures l)"
    by (rule ledger_futuresE) (auto split: if_splits intro: ledger_futuresI)
next
  fix f assume "f \<in> insert (ir_future r) (ledger_futures l)"
  then show "f \<in> ledger_futures (AList.update kh r l)"
  proof
    assume "f \<in> ledger_futures l"
    then obtain j x where "map_of l j = Some x" "f = ir_future x" by (rule ledger_futuresE)
    then show ?thesis using assms by (cases "j = kh") (auto intro: ledger_futuresI[of _ j])
  qed (auto intro: ledger_futuresI[of _ kh])
qed

lemma ledger_futures_delete:
  "ledger_futures (AList.delete kh l) \<subseteq> ledger_futures l"
  by (auto simp: ledger_futures_def split: if_splits)

lemma ledger_futures_delete':
  assumes "map_of l kh = Some r"
  shows "ledger_futures l \<subseteq> insert (ir_future r) (ledger_futures (AList.delete kh l))"
proof
  fix f assume "f \<in> ledger_futures l"
  then obtain x j where x: "map_of l j = Some x" "f = ir_future x" by (auto simp: ledger_futures_def)
  show "f \<in> insert (ir_future r) (ledger_futures (AList.delete kh l))"
    using assms x by (cases "j = kh") (auto simp: ledger_futures_def)
qed

lemma settles_complete_key [simp, intro]: "settles {} b (complete_key kh s b)"
proof (cases "map_of (b_ledger b) (str_or kh [])")
  case (Some r)
  then show ?thesis
    using ledger_futures_update[OF Some, of "r\<lparr>ir_completed := True, ir_cached_result := Some s\<rparr>"]
    by (auto simp: complete_key_def ledger_complete_def settles_def same_core_def settle_keeps_done)
qed (simp add: complete_key_def ledger_complete_def settles_refl)

lemma settles_fail_key [simp, intro]: "settles {} b (fail_key kh e b)"
proof (cases "map_of (b_ledger b) (str_or kh [])")
  case (Some r)
  then show ?thesis
    using ledger_futures_delete[of "str_or kh []" "b_ledger b"] ledger_futures_delete'[OF Some]
    by (auto simp: fail_key_def ledger_fail_def settles_def same_core_def settle_keeps_done intro: settle_done)
qed (simp add: fail_key_def ledger_fail_def settles_refl)

lemma settles_save: "save_in_store cfg s b = (e, b1) \<Longrightarrow> settles {} b b1"
  by (auto simp: save_in_store_def split: prod.splits)

lemma settles_get: "get_from_store cfg r b = (x, b1) \<Longrightarrow> settles {} b b1"
  by (auto simp: get_from_store_def split: prod.splits)

lemma save_total: "store_total cfg \<Longrightarrow> save_in_store cfg s b = (e, b1) \<Longrightarrow> e = None"
  by (auto simp: save_in_store_def store_total_def split: prod.splits) (metis fst_conv)

lemma get_total: "store_total cfg \<Longrightarrow> get_from_store cfg r b = (x, b1) \<Longrightarrow> \<exists>y. x = Inr y"
  by (auto simp: get_from_store_def store_total_def split: prod.splits) (metis fst_conv)

lemma finalize_settles:
  assumes "store_total cfg"
  shows "\<exists>b'. finalize_cancelled cfg k r f kh b = (None, b') \<and> settles {f} b b'"
proof -
  let ?b1 = "upd_job r (\<lambda>j. j\<lparr>j_status := JobStatus.CANCELLED, j_is_cancelled := True,
                                     j_completed_at := Some (k_now k)\<rparr>) b"
  obtain x b2 where g: "get_from_store cfg r ?b1 = (x, b2)" by (rule prod.exhaust)
  obtain y where y: "x = Inr y" using get_total[OF assms g] by blast
  have b2: "settles {} b b2" by (rule settles_trans_quiet(1)[OF settles_upd_job settles_get[OF g]])
  show ?thesis
  proof (cases y)
    case None
    have "settles {f} b2 (announce_cancelled cfg r (fail_key kh (cancelled_error r)
        (set_future f (Fut_exception (cancelled_error r)) b2)))"
      by (rule settles_trans_quiet(2)[OF settles_trans_quiet(2)[OF settles_future settles_fail_key] settles_announce]) simp
    then show ?thesis using settles_trans_quiet(1)[OF b2] g y None
      by (simp add: finalize_cancelled_def Let_def)
  next
    case (Some s)
    let ?s = "touch (k_now k) (set_status ExecutionStatus.CANCELLED s)"
    obtain e b3 where sv: "save_in_store cfg ?s b2 = (e, b3)" by (rule prod.exhaust)
    note e = save_total[OF assms sv]
    have b3: "settles {} b b3" by (rule settles_trans_quiet(1)[OF b2 settles_save[OF sv]])
    have "settles {f} b3 (announce_cancelled cfg r (complete_key kh ?s (set_future f (Fut_result ?s) b3)))"
      by (rule settles_trans_quiet(2)[OF settles_trans_quiet(2)[OF settles_future settles_complete_key] settles_announce]) simp
    then show ?thesis using settles_trans_quiet(1)[OF b3] g y Some sv e
      by (simp add: finalize_cancelled_def Let_def)
  qed
qed

lemma settles_rekey:
  assumes "rekey_run cfg r s b = (x, b')" shows "settles {} b b'"
proof (cases "s_run_id s = r")
  case True
  then show ?thesis using assms by (simp add: rekey_run_def settles_refl)
next
  case False
  note sv = settles_save[of cfg "s\<lparr>s_run_id := r\<rparr>"]
  show ?thesis using assms False
    by (auto simp: rekey_run_def Let_def split: prod.splits sum.splits option.splits if_splits
        intro: settles_trans_quiet(1)[OF settles_trans_quiet(1)[OF settles_field(3) settles_emit] sv]
               settles_trans_quiet(1)[OF settles_field(3) sv])
qed

lemma settles_result: "settles {wi_future it} b (handle_result cfg k it s b)"
proof -
  have fut: "settles {wi_future it} x (complete_key (wi_key_hash it) s (set_future (wi_future it) (Fut_result s) x))" for x :: "'a backend"
    by (rule settles_trans_quiet(2)[OF settles_future settles_complete_key]) simp
  have all: "settles {wi_future it} b (publish_event cfg r t d (complete_key (wi_key_hash it) s
      (set_future (wi_future it) (Fut_result s) (upd_job q f (emit es b)))))" for r t d q f es
    by (rule settles_trans_quiet(2)[OF settles_trans_quiet(1)[OF settles_trans_quiet(1)[OF settles_emit settles_upd_job] fut] settles_publish])
  show ?thesis unfolding handle_result_def Let_def
    by (simp only: all split: if_split) simp
qed

lemma settles_exception: "settles {wi_future it} b (handle_exception cfg k it e b)"
  unfolding handle_exception_def Let_def
  by (rule settles_trans_quiet(2)[OF settles_trans_quiet(2)[OF settles_trans_quiet(1)[OF settles_upd_job settles_future]
      settles_fail_key] settles_publish]) simp

text \<open>A delivery settles the future of the item and frees the worker.\<close>

lemma finish_item_settles:
  assumes "store_total cfg"
  shows "\<exists>b1. settles {wi_future it} b b1 \<and> finish_item cfg k i it d b = release_worker i (wi_run_id it) Waiting b1"
proof (cases d)
  case (Returned s)
  obtain x b1 where rk: "rekey_run cfg (wi_run_id it) s b = (x, b1)" by (rule prod.exhaust)
  note q = settles_trans_quiet(1)[OF settles_rekey[OF rk]]
  show ?thesis
  proof (cases x)
    case (Inl e)
    then have "finish_item cfg k i it d b = release_worker i (wi_run_id it) Waiting (handle_exception cfg k it e b1)"
      using Returned rk by (simp add: finish_item_def Let_def)
    then show ?thesis using q[OF settles_exception] by blast
  next
    case (Inr s')
    then have "finish_item cfg k i it d b = release_worker i (wi_run_id it) Waiting (handle_result cfg k it s' b1)"
      using Returned rk by (simp add: finish_item_def Let_def)
    then show ?thesis using q[OF settles_result] by blast
  qed
next
  case (Failed e)
  then have "finish_item cfg k i it d b = release_worker i (wi_run_id it) Waiting (handle_exception cfg k it e b)"
    by (simp add: finish_item_def Let_def)
  then show ?thesis using settles_exception by blast
next
  case Was_cancelled
  obtain b1 where "finalize_cancelled cfg k (wi_run_id it) (wi_future it) (wi_key_hash it) b = (None, b1)"
      "settles {wi_future it} b b1"
    using finalize_settles[OF assms] by blast
  then show ?thesis using Was_cancelled by (auto simp: finish_item_def Let_def)
qed

section \<open>The invariant\<close>

definition futures_of :: "'w backend \<Rightarrow> nat set" where
  "futures_of b = {f. \<exists>r. map_of (b_futures b) r = Some f}"

text \<open>A future is owned when an item in the queue or in a worker will settle it.\<close>

definition owned :: "'w backend \<Rightarrow> nat \<Rightarrow> bool" where
  "owned b f \<longleftrightarrow>
     (\<exists>it. Some it \<in> set (b_queue b) \<and> wi_future it = f)
     \<or> (\<exists>it c. Executing it c \<in> set (b_workers b) \<and> wi_future it = f)"

text \<open>\<open>b_inv_ex cfg F\<close> is the invariant in the middle of a step: nobody owns the futures in \<open>F\<close> yet.\<close>

definition b_inv_ex :: "'w backend_config \<Rightarrow> nat set \<Rightarrow> 'w backend \<Rightarrow> bool" where
  "b_inv_ex cfg F b \<longleftrightarrow>
     (0 < bc_max_queue_size cfg \<longrightarrow> length (b_queue b) \<le> bc_max_queue_size cfg)
     \<and> None \<notin> set (b_queue b) \<and> Dead \<notin> set (b_workers b) \<and> \<not> b_is_shutting_down b
     \<and> (if b_is_started b
        then length (b_workers b) = bc_max_concurrency cfg \<and> b_pool b = [0 ..< bc_max_concurrency cfg]
        else b_workers b = [] \<and> b_pool b = [])
     \<and> (\<forall>r i. map_of (b_active_tasks b) r = Some i \<longrightarrow>
          i < length (b_workers b) \<and> (\<exists>it c. b_workers b ! i = Executing it c \<and> wi_run_id it = r))
     \<and> futures_of b \<subseteq> {..< length (b_heap b)} \<and> ledger_futures (b_ledger b) \<subseteq> {..< length (b_heap b)}
     \<and> (\<forall>f < length (b_heap b). \<not> fut_done (b_heap b) f \<longrightarrow>
          f \<in> F \<or> owned b f \<or> f \<in> ledger_futures (b_ledger b) \<and> f \<notin> futures_of b)"

abbreviation b_inv :: "'w backend_config \<Rightarrow> 'w backend \<Rightarrow> bool" where
  "b_inv cfg \<equiv> b_inv_ex cfg {}"

lemma b_invD:
  assumes "b_inv_ex cfg F b"
  shows "0 < bc_max_queue_size cfg \<Longrightarrow> length (b_queue b) \<le> bc_max_queue_size cfg"
    and "None \<notin> set (b_queue b)" "Dead \<notin> set (b_workers b)" "\<not> b_is_shutting_down b"
    and "b_is_started b \<Longrightarrow> length (b_workers b) = bc_max_concurrency cfg"
    and "b_is_started b \<Longrightarrow> b_pool b = [0 ..< bc_max_concurrency cfg]"
    and "\<not> b_is_started b \<Longrightarrow> b_workers b = []"
    and "map_of (b_active_tasks b) r = Some i \<Longrightarrow>
      i < length (b_workers b) \<and> (\<exists>it c. b_workers b ! i = Executing it c \<and> wi_run_id it = r)"
    and "futures_of b \<subseteq> {..< length (b_heap b)}" "ledger_futures (b_ledger b) \<subseteq> {..< length (b_heap b)}"
    and "f < length (b_heap b) \<Longrightarrow> \<not> fut_done (b_heap b) f \<Longrightarrow>
      f \<in> F \<or> owned b f \<or> f \<in> ledger_futures (b_ledger b) \<and> f \<notin> futures_of b"
  using assms by (auto simp: b_inv_ex_def split: if_splits)

lemma b_inv_new: "b_inv cfg (new_backend w)"
  by (simp add: b_inv_ex_def new_backend_def futures_of_def ledger_futures_def)

lemma settles_same: "settles F b b' \<Longrightarrow> same_core b b'"
  by (simp add: settles_def)

lemma owned_core: "same_core b b' \<Longrightarrow> owned b' f = owned b f"
  by (simp add: owned_def same_core_def)

lemma futures_of_core: "same_core b b' \<Longrightarrow> futures_of b' = futures_of b"
  by (simp add: futures_of_def same_core_def)

text \<open>Everything that only settles futures keeps it.\<close>

lemma b_inv_settles:
  assumes "b_inv_ex cfg F b" "settles G b b'"
  shows "b_inv_ex cfg (F - G) b'"
proof -
  have c: "same_core b b'" using assms(2) by (rule settles_same)
  have h: "length (b_heap b') = length (b_heap b)" and d: "fut_done (b_heap b) g \<Longrightarrow> fut_done (b_heap b') g"
    and l: "ledger_futures (b_ledger b') \<subseteq> ledger_futures (b_ledger b)"
    and e: "g \<in> G \<Longrightarrow> g < length (b_heap b) \<Longrightarrow> fut_done (b_heap b') g"
    and r: "g \<in> ledger_futures (b_ledger b) - ledger_futures (b_ledger b') \<Longrightarrow> g < length (b_heap b) \<Longrightarrow>
      fut_done (b_heap b') g" for g
    using assms(2) by (auto simp: settles_def)
  have "f \<in> F - G \<or> owned b' f \<or> f \<in> ledger_futures (b_ledger b') \<and> f \<notin> futures_of b'"
    if "f < length (b_heap b')" "\<not> fut_done (b_heap b') f" for f
    using b_invD(11)[OF assms(1), of f] that h d e r[of f]
    unfolding owned_core[OF c] futures_of_core[OF c] by auto
  then show ?thesis
    using assms(1) c h l unfolding b_inv_ex_def futures_of_core[OF c]
    by (auto simp: same_core_def)
qed

text \<open>A worker with an item whose future is done becomes free.\<close>

lemma b_inv_release:
  assumes inv: "b_inv cfg b" and w: "i < length (b_workers b)" "b_workers b ! i = Executing it c"
    and fin: "wi_future it < length (b_heap b) \<Longrightarrow> fut_done (b_heap b) (wi_future it)"
  shows "b_inv cfg (release_worker i (wi_run_id it) Waiting b)"
proof -
  let ?b = "release_worker i (wi_run_id it) Waiting b"
  have f: "b_queue ?b = b_queue b" "b_futures ?b = b_futures b" "b_heap ?b = b_heap b" "b_ledger ?b = b_ledger b"
    "b_workers ?b = (b_workers b)[i := Waiting]" "b_pool ?b = b_pool b" "b_is_started ?b = b_is_started b"
    "b_is_shutting_down ?b = b_is_shutting_down b" "b_active_tasks ?b = AList.delete (wi_run_id it) (b_active_tasks b)"
    by (simp_all add: release_worker_def set_worker_def update_metrics_def emit_def)
  have own: "owned ?b g" if "owned b g" "g \<noteq> wi_future it" for g
  proof -
    have "Executing it' c' \<in> set ((b_workers b)[i := Waiting])"
      if "Executing it' c' \<in> set (b_workers b)" "wi_future it' \<noteq> wi_future it" for it' c'
      using that w by (metis in_set_conv_nth length_list_update nth_list_update_neq worker.inject(1))
    then show ?thesis using that unfolding owned_def f by blast
  qed
  have dead: "Dead \<notin> set ((b_workers b)[i := Waiting])"
    using b_invD(3)[OF inv] set_update_subset_insert[of "b_workers b" i Waiting] by auto
  have "g \<in> {} \<or> owned ?b g \<or> g \<in> ledger_futures (b_ledger b) \<and> g \<notin> futures_of ?b"
    if "g < length (b_heap b)" "\<not> fut_done (b_heap b) g" for g
    using b_invD(11)[OF inv that] own[of g] fin that by (auto simp: futures_of_def f)
  moreover have "j < length (b_workers b) \<and> (\<exists>it' c'. (b_workers b)[i := Waiting] ! j = Executing it' c' \<and> wi_run_id it' = r)"
    if "map_of (b_active_tasks b) r = Some j" "r \<noteq> wi_run_id it" for r j
    using b_invD(8)[OF inv that(1)] that(2) w by (cases "j = i") auto
  ultimately show ?thesis
    using inv dead unfolding b_inv_ex_def f futures_of_def by auto
qed

text \<open>Starting the pool.\<close>

lemma b_inv_start:
  assumes inv: "b_inv cfg b"
  shows "b_inv cfg (start cfg b)" "b_is_started (start cfg b)" "b_queue (start cfg b) = b_queue b"
proof -
  let ?n = "bc_max_concurrency cfg"
  have alive: "b_is_started b \<Longrightarrow> list_all (\<lambda>i. b_workers b ! i \<noteq> Dead) (b_pool b)"
    using b_invD(3,5,6)[OF inv] by (auto simp: list_all_iff) (metis nth_mem)
  have keep: "start cfg b = b" if "b_is_started b" "?n \<noteq> 0"
    using that alive b_invD(6)[OF inv] by (simp add: start_def)
  have fresh: "b_workers b = []" if "\<not> (b_is_started b \<and> ?n \<noteq> 0)"
    using that b_invD(5,7)[OF inv] by (cases "b_is_started b") auto
  let ?s = "b\<lparr>b_is_started := True, b_is_shutting_down := False,
      b_workers := b_workers b @ replicate ?n Waiting, b_pool := [length (b_workers b) ..< length (b_workers b) + ?n]\<rparr>"
  have "b_inv cfg ?s" if "\<not> (b_is_started b \<and> ?n \<noteq> 0)"
  proof -
    have "map_of (b_active_tasks b) r = None" for r
      using b_invD(8)[OF inv, of r] fresh[OF that] by (cases "map_of (b_active_tasks b) r") auto
    moreover have "owned ?s f = owned b f" for f
      using fresh[OF that] by (auto simp: owned_def)
    ultimately show ?thesis
      using inv fresh[OF that] unfolding b_inv_ex_def futures_of_def by auto
  qed
  then have s: "b_inv cfg (update_metrics ?s)" if "\<not> (b_is_started b \<and> ?n \<noteq> 0)"
    using that b_inv_settles[OF _ settles_update_metrics, of cfg "{}" ?s] by simp
  have eq: "start cfg b = update_metrics ?s" if "\<not> (b_is_started b \<and> ?n \<noteq> 0)"
    using that fresh[OF that] b_invD(6)[OF inv] by (auto simp: start_def Let_def)
  have sel: "b_is_started (update_metrics c) = b_is_started c" "b_queue (update_metrics c) = b_queue c" for c :: "'a backend"
    by (simp_all add: update_metrics_def emit_def)
  show "b_inv cfg (start cfg b)"
  proof (cases "b_is_started b \<and> ?n \<noteq> 0")
    case True
    then show ?thesis using keep inv by simp
  next
    case False
    show ?thesis unfolding eq[OF False] by (rule s[OF False])
  qed
  show "b_is_started (start cfg b)"
    by (cases "b_is_started b \<and> ?n \<noteq> 0") (use keep eq sel in auto)
  show "b_queue (start cfg b) = b_queue b"
    by (cases "b_is_started b \<and> ?n \<noteq> 0") (use keep eq sel in auto)
qed

text \<open>Putting an item into the queue.\<close>

lemma b_inv_enqueue:
  assumes inv: "b_inv cfg b" and room: "\<not> queue_full cfg b"
    and heap: "h = b_heap b \<or> h = b_heap b @ [Fut_pending] \<and> wi_future it = length (b_heap b)"
    and fut: "wi_future it < length h"
  shows "b_inv cfg (b\<lparr>b_jobs := js, b_cancelled_runs := cs, b_heap := h,
      b_futures := AList.update r (wi_future it) (b_futures b), b_out := es, b_queue := b_queue b @ [Some it]\<rparr>)" (is "b_inv cfg ?b")
proof -
  have len: "length (b_heap b) \<le> length h" using heap by auto
  have same: "h ! g = b_heap b ! g" if "g < length (b_heap b)" for g
    using heap that by (auto simp: nth_append)
  have new: "g < length (b_heap b) \<or> g = wi_future it" if "g < length h" for g
    using heap that by auto
  have own: "owned ?b g" if "owned b g \<or> g = wi_future it" for g
    using that by (auto simp: owned_def)
  have fut_of: "futures_of ?b \<subseteq> insert (wi_future it) (futures_of b)"
    by (auto simp: futures_of_def split: if_splits)
  have "owned ?b g \<or> g \<in> ledger_futures (b_ledger b) \<and> g \<notin> futures_of ?b"
    if g: "g < length h" "\<not> fut_done h g" for g
  proof (cases "g = wi_future it")
    case False
    then have "g < length (b_heap b)" "\<not> fut_done (b_heap b) g"
      using new[OF g(1)] g(2) same[of g] by (auto simp: fut_done_def)
    from b_invD(11)[OF inv this] show ?thesis using own[of g] fut_of False by auto
  qed (use own in blast)
  moreover have "futures_of ?b \<subseteq> {..< length h}" "ledger_futures (b_ledger b) \<subseteq> {..< length h}"
    using b_invD(9,10)[OF inv] fut_of fut len by auto
  ultimately show ?thesis
    using inv room unfolding b_inv_ex_def queue_full_def by auto
qed

text \<open>Claiming or joining an idempotency key.\<close>

lemma b_inv_acquire:
  assumes inv: "b_inv cfg b"
    and acq: "acquire_or_join now kh rh r (b_ledger b, b_heap b) = (Inr (ini, f, cached), l, h)"
  shows "b_inv cfg (b\<lparr>b_ledger := l, b_heap := h\<rparr>)" "f < length h"
proof -
  show "f < length h"
    using acq b_invD(10)[OF inv] ledger_futuresI[of "b_ledger b" kh]
    by (fastforce simp: acquire_or_join_def Let_def split: option.splits if_splits)
  show "b_inv cfg (b\<lparr>b_ledger := l, b_heap := h\<rparr>)"
  proof (cases "map_of (b_ledger b) kh")
    case (Some x)
    then have "l = b_ledger b" "h = b_heap b"
      using acq by (auto simp: acquire_or_join_def split: if_splits)
    then show ?thesis using inv by simp
  next
    case None
    let ?b = "b\<lparr>b_ledger := l, b_heap := h\<rparr>" and ?n = "length (b_heap b)"
    have l: "ledger_futures l = insert ?n (ledger_futures (b_ledger b))" and h: "h = b_heap b @ [Fut_pending]"
      using acq None by (auto simp: acquire_or_join_def Let_def ledger_futures_insert)
    have o: "owned ?b g = owned b g" and fo: "futures_of ?b = futures_of b" for g
      by (simp_all add: owned_def futures_of_def)
    have "owned b g \<or> g \<in> ledger_futures l \<and> g \<notin> futures_of b"
      if "g < length h" "\<not> fut_done h g" for g
    proof (cases "g = ?n")
      case True
      then show ?thesis using b_invD(9)[OF inv] l by auto
    next
      case False
      then show ?thesis using b_invD(11)[OF inv, of g] that l by (auto simp: h fut_done_def nth_append)
    qed
    moreover have "futures_of b \<subseteq> {..<length h}" "ledger_futures l \<subseteq> {..<length h}"
      using b_invD(9,10)[OF inv] l h by auto
    ultimately show ?thesis using inv l h unfolding b_inv_ex_def o fo by auto
  qed
qed

section \<open>Every step preserves it\<close>

lemma b_inv_quiet: "b_inv cfg b \<Longrightarrow> settles G b b' \<Longrightarrow> b_inv cfg b'"
  using b_inv_settles[of cfg "{}" b G b'] by simp

lemma check_capacity_inv:
  assumes "check_capacity cfg k q kh f b = (r, b')" "b_inv cfg b"
  shows "b_inv cfg b' \<and> (\<forall>kh' f' s. r = Inr (Admitted kh' f' s) \<longrightarrow> f' = f \<and> \<not> queue_full cfg b' \<and> b' = b)
    \<and> (\<forall>j i. r \<noteq> Inr (Joined j i))"
  using assms by (auto simp: check_capacity_def reject_full_def intro: b_inv_quiet[OF _ settles_emit] split: if_splits)

lemma submit_admit_inv:
  assumes "submit_admit cfg k q b = (r, b')" "b_inv cfg b"
  shows "b_inv cfg b' \<and> (\<forall>kh f s. r = Inr (Admitted kh f s) \<longrightarrow>
      \<not> queue_full cfg b' \<and> (\<forall>i. f = Some i \<longrightarrow> i < length (b_heap b')))"
proof -
  have up: "\<not> b_is_shutting_down b" using b_invD(4)[OF assms(2)] .
  note st = b_inv_start(1)[OF assms(2)]
  let ?b1 = "start cfg b"
  let ?kh = "compute_key_hash (bc_sha256_hex cfg) (str_or (rq_subject_id q) []) (str_or (rq_idempotency_key q) [])"
  show ?thesis
  proof (cases "opt_truthy (rq_idempotency_key q) \<and> opt_truthy (rq_subject_id q)")
    case False
    from check_capacity_inv[OF assms(1)[unfolded submit_admit_def Let_def if_not_P[OF up] if_not_P[OF False]] st]
    show ?thesis by auto
  next
    case True
    note adm = assms(1)[unfolded submit_admit_def Let_def if_not_P[OF up] if_P[OF True]]
    show ?thesis
    proof (cases "compute_request_hash (bc_sha256_hex cfg) (rq_request q) (rq_custom_context q)")
      case (Inl e)
      then show ?thesis using adm st by auto
    next
      case (Inr rh)
      obtain a l h where acq: "acquire_or_join (k_now k) ?kh rh (rq_run_id q) (b_ledger ?b1, b_heap ?b1) = (a, l, h)"
        by (rule prod_cases3)
      show ?thesis
      proof (cases a)
        case (Inl e)
        then show ?thesis using adm Inr acq st by auto
      next
        case joined: (Inr t)
        obtain ini f cached where t: "t = (ini, f, cached)" by (rule prod_cases3)
        note ai = b_inv_acquire[OF st acq[unfolded joined t]]
        show ?thesis
        proof (cases ini)
          case True
          then have "check_capacity cfg k q (Some ?kh) (Some f) (?b1\<lparr>b_ledger := l, b_heap := h\<rparr>) = (r, b')"
            using adm Inr acq joined t by simp
          from check_capacity_inv[OF this ai(1)] ai(2) show ?thesis by auto
        next
          case False
          then show ?thesis using adm Inr acq joined t ai
            by (auto intro: b_inv_quiet[OF _ settles_future] split: option.splits)
        qed
      qed
    qed
  qed
qed

lemma submit_enqueue_inv:
  assumes inv: "b_inv cfg b" and room: "\<not> queue_full cfg b" and f: "\<And>i. f = Some i \<Longrightarrow> i < length (b_heap b)"
  shows "b_inv cfg (snd (submit_enqueue cfg k q kh f b))"
proof -
  note room' = room[unfolded queue_full_def]
  have pub: "b_inv cfg (update_metrics (publish_event cfg r t d c))
      = b_inv cfg (update_metrics (publish_event cfg r t d c))" for r t d and c :: "'a backend" ..
  show ?thesis
  proof (cases f)
    case None
    let ?it = "\<lparr>wi_run_id = rq_run_id q, wi_payload = Run_item (rq_request q) (rq_correlation_id q) (rq_session_id q) (rq_custom_context q),
        wi_future = length (b_heap b), wi_key_hash = kh\<rparr>"
    have "b_inv cfg (b\<lparr>b_jobs := js, b_cancelled_runs := b_cancelled_runs b, b_heap := b_heap b @ [Fut_pending],
        b_futures := AList.update (rq_run_id q) (wi_future ?it) (b_futures b),
        b_out := b_out b, b_queue := b_queue b @ [Some ?it]\<rparr>)" for js
      by (rule b_inv_enqueue[OF inv room]) simp_all
    then show ?thesis using None room'
      by (auto simp: submit_enqueue_def Let_def queue_full_def
          intro!: b_inv_quiet[OF b_inv_quiet[OF _ settles_publish] settles_update_metrics])
  next
    case (Some i)
    let ?it = "\<lparr>wi_run_id = rq_run_id q, wi_payload = Run_item (rq_request q) (rq_correlation_id q) (rq_session_id q) (rq_custom_context q),
        wi_future = i, wi_key_hash = kh\<rparr>"
    have "b_inv cfg (b\<lparr>b_jobs := js, b_cancelled_runs := b_cancelled_runs b, b_heap := b_heap b,
        b_futures := AList.update (rq_run_id q) (wi_future ?it) (b_futures b),
        b_out := b_out b, b_queue := b_queue b @ [Some ?it]\<rparr>)" for js
      by (rule b_inv_enqueue[OF inv room]) (simp_all add: f[OF Some])
    then show ?thesis using Some room'
      by (auto simp: submit_enqueue_def Let_def queue_full_def
          intro!: b_inv_quiet[OF b_inv_quiet[OF _ settles_publish] settles_update_metrics])
  qed
qed

lemma same_core_full: "same_core b b' \<Longrightarrow> queue_full cfg b' = queue_full cfg b"
  by (simp add: same_core_def queue_full_def)

lemma submit_run_inv:
  assumes "b_inv cfg b" shows "b_inv cfg (snd (submit_run cfg k q b))"
proof -
  obtain r b1 where ad: "submit_admit cfg k q b = (r, b1)" by (rule prod.exhaust)
  note i1 = submit_admit_inv[OF ad assms]
  show ?thesis
  proof (cases r)
    case (Inl e)
    then show ?thesis using ad i1 by (simp add: submit_run_def)
  next
    case (Inr a)
    show ?thesis
    proof (cases a)
      case (Joined j f)
      then show ?thesis using ad i1 Inr by (simp add: submit_run_def)
    next
      case (Admitted kh f s)
      obtain e b2 where sv: "save_in_store cfg s b1 = (e, b2)" by (rule prod.exhaust)
      note s2 = settles_save[OF sv]
      have "\<not> queue_full cfg b2" "\<And>i. f = Some i \<Longrightarrow> i < length (b_heap b2)"
        using i1 Inr Admitted same_core_full[OF settles_same[OF s2]] s2 by (auto simp: settles_def)
      from submit_enqueue_inv[OF b_inv_quiet[OF _ s2] this] i1 show ?thesis
        using ad Inr Admitted sv b_inv_quiet[OF _ s2] by (cases e) (auto simp: submit_run_def)
    qed
  qed
qed

lemma submit_resume_inv:
  assumes inv: "b_inv cfg b" shows "b_inv cfg (snd (submit_resume cfg k r d b))"
proof -
  have up: "\<not> b_is_shutting_down b" using b_invD(4)[OF inv] .
  obtain x b1 where g: "get_from_store cfg r (start cfg b) = (x, b1)" by (rule prod.exhaust)
  have i1: "b_inv cfg b1" by (rule b_inv_quiet[OF b_inv_start(1)[OF inv] settles_get[OF g]])
  show ?thesis
  proof (cases x)
    case (Inl e)
    then show ?thesis using g up i1 by (simp add: submit_resume_def)
  next
    case found: (Inr found)
    show ?thesis
    proof (cases "found \<noteq> None \<and> resume_refusal r found = None \<and> \<not> queue_full cfg b1")
      case False
      then show ?thesis using g up i1 found
        by (auto simp: submit_resume_def Let_def reject_full_def split: option.splits
            intro: b_inv_quiet[OF i1 settles_emit])
    next
      case True
      then obtain s where s: "found = Some s" "resume_refusal r (Some s) = None" and room: "\<not> queue_full cfg b1"
        by auto
      let ?it = "\<lparr>wi_run_id = r, wi_payload = Resume_item s d, wi_future = length (b_heap b1), wi_key_hash = None\<rparr>"
      have enq: "b_inv cfg (b1\<lparr>b_jobs := js, b_cancelled_runs := b_cancelled_runs b1 - {r}, b_heap := b_heap b1 @ [Fut_pending],
          b_futures := AList.update r (wi_future ?it) (b_futures b1),
          b_out := es, b_queue := b_queue b1 @ [Some ?it]\<rparr>)" for js es
        by (rule b_inv_enqueue[OF i1 room]) simp_all
      let ?job = "(case map_of (b_jobs b1) r of Some j \<Rightarrow> j | None \<Rightarrow> new_job k r (s_request s) JobStatus.QUEUED)
          \<lparr>j_status := JobStatus.QUEUED, j_is_cancelled := False\<rparr>"
      let ?ev = "[(''status'', PStr (human_request_status_value (d_status d))), (''decision_note'', opt_str (d_decision_note d))]"
      have "snd (submit_resume cfg k r d b) = update_metrics (b1\<lparr>b_jobs := AList.update r ?job (b_jobs b1),
          b_cancelled_runs := b_cancelled_runs b1 - {r}, b_heap := b_heap b1 @ [Fut_pending],
          b_futures := AList.update r (wi_future ?it) (b_futures b1),
          b_out := b_out (publish_event cfg r ''human_decision_submitted'' ?ev b1), b_queue := b_queue b1 @ [Some ?it]\<rparr>)"
        unfolding submit_resume_def if_not_P[OF up] g prod.case found sum.case s option.case if_not_P[OF room] Let_def
          publish_event_def emit_def snd_conv
        by (cases "bc_publisher cfg") simp_all
      then show ?thesis using b_inv_quiet[OF enq settles_update_metrics] by simp
    qed
  qed
qed

lemma b_inv_cancel_flag:
  assumes inv: "b_inv cfg b" and w: "i < length (b_workers b)" "b_workers b ! i = Executing it c"
  shows "b_inv cfg (set_worker i (Executing it c') b)"
proof -
  let ?b = "set_worker i (Executing it c') b"
  have f: "b_queue ?b = b_queue b" "b_futures ?b = b_futures b" "b_heap ?b = b_heap b" "b_ledger ?b = b_ledger b"
    "b_workers ?b = (b_workers b)[i := Executing it c']" "b_pool ?b = b_pool b" "b_is_started ?b = b_is_started b"
    "b_is_shutting_down ?b = b_is_shutting_down b" "b_active_tasks ?b = b_active_tasks b"
    by (simp_all add: set_worker_def)
  have mem: "\<exists>c''. Executing it' c'' \<in> set ((b_workers b)[i := Executing it c'])"
    if ex: "Executing it' c0 \<in> set (b_workers b)" for it' c0
  proof -
    obtain j where "j < length (b_workers b)" "b_workers b ! j = Executing it' c0"
      using ex unfolding in_set_conv_nth by blast
    then show ?thesis using w by (cases "j = i") (auto simp: in_set_conv_nth intro!: exI[of _ j])
  qed
  have own: "owned ?b g" if "owned b g" for g
    using that mem unfolding owned_def f by blast
  have dead: "Dead \<notin> set ((b_workers b)[i := Executing it c'])"
    using b_invD(3)[OF inv] set_update_subset_insert[of "b_workers b" i "Executing it c'"] by auto
  have "owned ?b g \<or> g \<in> ledger_futures (b_ledger b) \<and> g \<notin> futures_of ?b"
    if "g < length (b_heap b)" "\<not> fut_done (b_heap b) g" for g
    using b_invD(11)[OF inv that] own[of g] by (auto simp: futures_of_def f)
  moreover have "j < length (b_workers b) \<and> (\<exists>it' c''. (b_workers b)[i := Executing it c'] ! j = Executing it' c'' \<and> wi_run_id it' = r)"
    if "map_of (b_active_tasks b) r = Some j" for r j
    using b_invD(8)[OF inv that] w by (cases "j = i") auto
  ultimately show ?thesis using inv dead unfolding b_inv_ex_def f futures_of_def by auto
qed

lemma cancel_run_inv:
  assumes inv: "b_inv cfg b" shows "b_inv cfg (snd (cancel_run cfg k r reason b))"
proof -
  define b1 where "b1 = upd_job r (\<lambda>j. j\<lparr>j_is_cancelled := True, j_cancellation_reason := Some reason\<rparr>)
                 (b\<lparr>b_cancelled_runs := insert r (b_cancelled_runs b)\<rparr>)"
  have i1: "b_inv cfg b1"
    unfolding b1_def by (rule b_inv_quiet[OF b_inv_quiet[OF inv settles_field(4)] settles_upd_job])
  note run = cancel_run_def[of cfg k r reason b, unfolded Let_def, folded b1_def]
  show ?thesis
  proof (cases "map_of (b_active_tasks b1) r")
    case (Some i)
    obtain it c where w: "i < length (b_workers b1)" "b_workers b1 ! i = Executing it c"
      using b_invD(8)[OF i1 Some] by blast
    show ?thesis using Some w b_inv_cancel_flag[OF i1 w] by (simp add: run cancel_worker_def)
  next
    case None
    obtain x b2 where g: "get_from_store cfg r b1 = (x, b2)" by (rule prod.exhaust)
    have i2: "b_inv cfg b2" by (rule b_inv_quiet[OF i1 settles_get[OF g]])
    have fin: "b_inv cfg (publish_event cfg r t d (emit es (upd_job r f c)))" if "b_inv cfg c" for t d es f c
      by (rule b_inv_quiet[OF b_inv_quiet[OF b_inv_quiet[OF that settles_upd_job] settles_emit] settles_publish])
    have sv: "b_inv cfg b3" if "save_in_store cfg s b2 = (e, b3)" for s e b3
      by (rule b_inv_quiet[OF i2 settles_save[OF that]])
    have fu: "b_inv cfg (set_future i (Fut_result s) c)" if "b_inv cfg c" for i s c
      by (rule b_inv_quiet[OF that settles_future]) simp
    show ?thesis
      by (cases x) (auto simp: run None g i2 fin fu dest: sv split: option.split prod.split if_split)
  qed
qed

text \<open>Taking an item out of the queue leaves its future without an owner for a moment.\<close>

lemma b_inv_pop:
  assumes inv: "b_inv cfg b" and q: "b_queue b = Some it # q"
  shows "b_inv_ex cfg {wi_future it} (b\<lparr>b_queue := q\<rparr>)"
proof -
  have "g = wi_future it \<or> owned (b\<lparr>b_queue := q\<rparr>) g \<or> g \<in> ledger_futures (b_ledger b) \<and> g \<notin> futures_of b"
    if "g < length (b_heap b)" "\<not> fut_done (b_heap b) g" for g
    using b_invD(11)[OF inv that] q by (auto simp: owned_def)
  then show ?thesis using inv q unfolding b_inv_ex_def by (auto simp: futures_of_def)
qed

lemma b_inv_begin:
  assumes inv: "b_inv_ex cfg {wi_future it} b" and w: "i < length (b_workers b)" "b_workers b ! i = Waiting"
  shows "b_inv cfg (set_worker i (Executing it False) (b\<lparr>b_active_tasks := AList.update (wi_run_id it) i (b_active_tasks b)\<rparr>))"
    (is "b_inv cfg ?b")
proof -
  have f: "b_queue ?b = b_queue b" "b_futures ?b = b_futures b" "b_heap ?b = b_heap b" "b_ledger ?b = b_ledger b"
    "b_workers ?b = (b_workers b)[i := Executing it False]" "b_pool ?b = b_pool b" "b_is_started ?b = b_is_started b"
    "b_is_shutting_down ?b = b_is_shutting_down b"
    "b_active_tasks ?b = AList.update (wi_run_id it) i (b_active_tasks b)"
    by (simp_all add: set_worker_def)
  have self: "Executing it False \<in> set ((b_workers b)[i := Executing it False])"
    using w(1) by (rule set_update_memI)
  have mem: "Executing it' c \<in> set ((b_workers b)[i := Executing it False])"
    if "Executing it' c \<in> set (b_workers b)" for it' c
    using that w by (metis in_set_conv_nth length_list_update nth_list_update_neq worker.distinct(1))
  have own: "owned ?b g" if "owned b g \<or> g = wi_future it" for g
    using that self mem unfolding owned_def f by blast
  have dead: "Dead \<notin> set ((b_workers b)[i := Executing it False])"
    using b_invD(3)[OF inv] set_update_subset_insert[of "b_workers b" i "Executing it False"] by auto
  have "owned ?b g \<or> g \<in> ledger_futures (b_ledger b) \<and> g \<notin> futures_of ?b"
    if "g < length (b_heap b)" "\<not> fut_done (b_heap b) g" for g
    using b_invD(11)[OF inv that] own[of g] by (auto simp: futures_of_def f)
  moreover have "j < length (b_workers b) \<and> (\<exists>it' c. (b_workers b)[i := Executing it False] ! j = Executing it' c \<and> wi_run_id it' = r)"
    if "map_of (AList.update (wi_run_id it) i (b_active_tasks b)) r = Some j" for r j
    using that b_invD(8)[OF inv, of r j] w by (cases "j = i") (auto split: if_splits)
  ultimately show ?thesis using inv dead unfolding b_inv_ex_def f futures_of_def by auto
qed

lemma b_inv_finish:
  assumes tot: "store_total cfg" and inv: "b_inv cfg b"
    and w: "i < length (b_workers b)" "b_workers b ! i = Executing it c"
  shows "b_inv cfg (finish_item cfg k i it d b)"
proof -
  obtain b1 where b1: "settles {wi_future it} b b1" "finish_item cfg k i it d b = release_worker i (wi_run_id it) Waiting b1"
    using finish_item_settles[OF tot] by blast
  have "b_workers b1 = b_workers b" using settles_same[OF b1(1)] by (simp add: same_core_def)
  moreover have "wi_future it < length (b_heap b1) \<Longrightarrow> fut_done (b_heap b1) (wi_future it)"
    using b1(1) by (simp add: settles_def)
  ultimately show ?thesis
    unfolding b1(2) using w by (intro b_inv_release[OF b_inv_quiet[OF inv b1(1)]]) simp_all
qed

lemma take_item_inv:
  assumes tot: "store_total cfg" and inv: "b_inv cfg b"
    and w: "i < length (b_workers b)" "b_workers b ! i = Waiting"
  shows "b_inv cfg (take_item cfg k i b)"
proof (cases "b_queue b")
  case Nil
  then show ?thesis using inv by (simp add: take_item_def)
next
  case (Cons x q)
  then obtain it where x: "x = Some it" using b_invD(2)[OF inv] by (cases x) auto
  let ?b1 = "b\<lparr>b_queue := q\<rparr>"
  have i1: "b_inv_ex cfg {wi_future it} ?b1" using b_inv_pop[OF inv] Cons x by simp
  show ?thesis
  proof (cases "job_cancelled ?b1 (wi_run_id it)")
    case True
    obtain b2 where f: "finalize_cancelled cfg k (wi_run_id it) (wi_future it) (wi_key_hash it) ?b1 = (None, b2)"
        "settles {wi_future it} ?b1 b2" using finalize_settles[OF tot] by blast
    have "b_inv cfg (update_metrics b2)"
      using b_inv_quiet[OF _ settles_update_metrics] b_inv_settles[OF i1 f(2)] by simp
    then show ?thesis using Cons x True f(1) by (simp add: take_item_def Let_def)
  next
    case False
    let ?r = "wi_run_id it"
    let ?b2 = "?b1\<lparr>b_active_tasks := AList.update ?r i (b_active_tasks ?b1)\<rparr>"
    let ?f = "\<lambda>j. j\<lparr>j_status := JobStatus.RUNNING, j_started_at := Some (k_now k)\<rparr>"
    have take: "take_item cfg k i b = begin_item cfg k i it ?b1"
      using Cons x False by (simp add: take_item_def Let_def)
    have comm: "set_worker i (Executing it' False) (update_metrics (upd_job ?r ?f ?b2))
        = update_metrics (upd_job ?r ?f (set_worker i (Executing it' False) ?b2))" for it'
      by (simp add: set_worker_def update_metrics_def emit_def upd_job_def)
    have comm': "set_worker i (Executing it' False) (c\<lparr>b_world := v\<rparr>) = (set_worker i (Executing it' False) c)\<lparr>b_world := v\<rparr>"
      for it' v and c :: "'a backend" by (simp add: set_worker_def)
    have go: "b_inv cfg (set_worker i (Executing it' False) (update_metrics (upd_job ?r ?f ?b2)))"
      if "wi_future it' = wi_future it" "wi_run_id it' = ?r" for it'
    proof -
      have "b_inv cfg (set_worker i (Executing it' False) ?b2)"
        using b_inv_begin[of cfg it' ?b1 i] i1 w that by simp
      then show ?thesis unfolding comm
        by (rule b_inv_quiet[OF b_inv_quiet[OF _ settles_upd_job] settles_update_metrics])
    qed
    show ?thesis
    proof (cases "wi_payload it")
      case (Run_item a1 a2 a3 a4)
      then show ?thesis unfolding take using go by (simp add: begin_item_def Let_def)
    next
      case (Resume_item s d)
      let ?it = "it\<lparr>wi_payload := Resume_item (resumed_state k s) d\<rparr>"
      obtain e b3 where sv: "save_in_store cfg (resumed_state k s) (update_metrics (upd_job ?r ?f ?b2)) = (e, b3)"
        by (rule prod.exhaust)
      then obtain v where b3: "b3 = (update_metrics (upd_job ?r ?f ?b2))\<lparr>b_world := v\<rparr>"
        by (auto simp: save_in_store_def split: prod.splits)
      have "b_inv cfg (set_worker i (Executing ?it False) b3)"
        unfolding b3 comm' by (rule b_inv_quiet[OF go settles_field(3)]) simp_all
      then show ?thesis unfolding take using Resume_item sv save_total[OF tot sv]
        by (simp add: begin_item_def Let_def)
    qed
  qed
qed

lemma b_inv_deliver:
  assumes "store_total cfg" "b_inv cfg b" "i < length (b_workers b)" "b_workers b ! i = Executing it c"
  shows "b_inv cfg (finish_item cfg k i it d (emit es (b\<lparr>b_world := w\<rparr>)))"
  by (rule b_inv_finish[OF assms(1) b_inv_quiet[OF b_inv_quiet[OF assms(2) settles_field(3)] settles_emit]])
     (use assms(3,4) in \<open>simp_all add: emit_def\<close>)

lemma b_step_inv:
  assumes tot: "store_total cfg" and step: "b_step cfg b b'" and inv: "b_inv cfg b"
  shows "b_inv cfg b'"
  using step inv
  by (cases rule: b_step.cases)
     (auto intro: submit_run_inv submit_resume_inv cancel_run_inv take_item_inv[OF tot] b_inv_deliver[OF tot]
      b_inv_quiet[OF _ settles_future] b_inv_quiet[OF _ settles_field(3)])

lemma b_reach_inv: "b_reach cfg b \<Longrightarrow> store_total cfg \<Longrightarrow> b_inv cfg b"
  by (induction rule: b_reach.induct) (auto intro: b_inv_new b_step_inv)

lemma idle_settled:
  assumes "b_reach cfg b" "store_total cfg" "b_queue b = []" "\<forall>x\<in>set (b_workers b). x = Waiting"
  shows "map_of (b_futures b) r = Some f \<Longrightarrow> fut_done (b_heap b) f"
    and "f < length (b_heap b) \<Longrightarrow> \<not> fut_done (b_heap b) f \<Longrightarrow> f \<in> ledger_futures (b_ledger b)"
proof -
  note inv = b_reach_inv[OF assms(1,2)]
  have none: "\<not> owned b f" for f using assms(3,4) by (auto simp: owned_def)
  show "map_of (b_futures b) r = Some f \<Longrightarrow> fut_done (b_heap b) f"
    and "f < length (b_heap b) \<Longrightarrow> \<not> fut_done (b_heap b) f \<Longrightarrow> f \<in> ledger_futures (b_ledger b)"
    using none b_invD(9)[OF inv] b_invD(11)[OF inv] by (auto simp: futures_of_def)
qed

section \<open>Properties\<close>



text \<open>The backend over the in-memory store, whose reads and writes always succeed.\<close>

definition in_memory_config ::
    "InMemoryStateStore runtime \<Rightarrow> nat \<Rightarrow> nat \<Rightarrow> (string \<Rightarrow> string) \<Rightarrow> bool \<Rightarrow> InMemoryStateStore backend_config" where
  "in_memory_config rt concurrency capacity sha256_hex publisher =
     \<lparr>bc_runtime = rt,
      bc_store = \<lparr>st_save_state = (\<lambda>s w. (None, im_save_state s w)),
                  st_save_checkpoint = (\<lambda>cp w. (None, im_save_checkpoint cp w))\<rparr>,
      bc_get_state = (\<lambda>r w. (Inr (im_get_state w r), w)),
      bc_list_checkpoints = (\<lambda>r w. (Inr (im_list_checkpoints w r), w)),
      bc_max_concurrency = concurrency, bc_max_queue_size = capacity, bc_publisher = publisher,
      bc_span_tracer = True, bc_audit_sink = True, bc_sha256_hex = sha256_hex\<rparr>"

text \<open>What the engine relies on in its store, and what it gives in return.\<close>

locale reliable_backend =
  fixes cfg :: "'w backend_config"
  assumes reliable: "store_total cfg"
begin

lemma reach_inv: "b_reach cfg b \<Longrightarrow> b_inv cfg b"
  by (rule b_reach_inv[OF _ reliable])

lemma finalize_ok: "\<exists>b'. finalize_cancelled cfg k r f kh b = (None, b') \<and> settles {f} b b'"
  by (rule finalize_settles[OF reliable])

lemma workers_survive: "b_reach cfg b \<Longrightarrow> Dead \<notin> set (b_workers b)"
  using b_invD(3) reach_inv by blast

end

interpretation im_backend: reliable_backend "in_memory_config rt concurrency capacity sha256_hex publisher"
  for rt concurrency capacity sha256_hex publisher
  by unfold_locales (simp add: store_total_def in_memory_config_def)

end
