(* ===== verification/Workflow_Theorems.thy ===== *)
theory Workflow_Theorems
  imports Runtime
begin

text \<open>
  The properties of the supervisor workflow under the default wiring, with the concrete runs
  that witness their hypotheses.
\<close>

section \<open>A concrete wiring\<close>

text \<open>One tool, one provider per model with a fixed answer; the outside world is \<open>unit\<close>.\<close>

definition ex_response :: LLMResponse where
  "ex_response =
     \<lparr>r_content = ''ok'', r_structured_data = None, r_model = ''m'', r_provider = ''fake'',
      r_usage = \<lparr>u_prompt_tokens = 0, u_completion_tokens = 0, u_total_tokens = 0\<rparr>,
      r_finish_reason = None, r_latency_ms = 0, r_raw_response = None\<rparr>"

definition ex_router :: "'x \<Rightarrow> ('w, 'x) LLMRouter" where
  "ex_router answer =
     new_router [(''fake'', \<lambda>req w. (Inr (answer, ex_response), w))] (Some ''fake'') None None
       ''gemini'' ''groq'' True"

definition ex_item :: "string \<Rightarrow> string list \<Rightarrow> TaskType \<Rightarrow> PlannedTaskItem" where
  "ex_item i deps ty =
     \<lparr>pt_id = i, pt_title = ''T'', pt_description = '''', pt_task_type = ty,
      pt_assigned_agent = AgentRole.CUSTOM, pt_dependencies = deps,
      pt_input_data = [(''tool_name'', PStr ''echo'')]\<rparr>"

definition ex_decomposition :: PlannedDecompositionSchema where
  "ex_decomposition =
     \<lparr>pd_rationale = ''r'', pd_tasks = [ex_item ''b'' [''a''] TaskType.TOOL_EXECUTION,
                                    ex_item ''a'' [] TaskType.TOOL_EXECUTION]\<rparr>"

definition ex_verdict :: "ValidationStatus \<Rightarrow> CriticEvaluationSchema" where
  "ex_verdict st =
     \<lparr>ce_is_valid = (st = ValidationStatus.VALID), ce_status = st, ce_score = 1,
      ce_feedback = ''f'', ce_issues = [], ce_needs_retry = False, ce_needs_human_review = False\<rparr>"

definition ex_tool :: "unit Tool" where
  "ex_tool =
     \<lparr>tl_metadata = \<lparr>tm_name = ''echo'', tm_description = ''d'', tm_version = ''0.1.0'',
        tm_timeout_seconds = 30, tm_requires_permissions = [], tm_tags = []\<rparr>,
      tl_schema = (\<lambda>d. Inr d), tl_run = (\<lambda>d w. (Inr [(''echo'', PDict d)], 1, w))\<rparr>"

definition ex_retrieve :: "RetrievalQuery \<Rightarrow> unit \<Rightarrow> (exc + RetrievalResult) \<times> unit" where
  "ex_retrieve q w = (Inr (retrieve_in_memory q []), w)"

definition ex_to_int :: "pyval \<Rightarrow> int option" where
  "ex_to_int v = (case v of PInt i \<Rightarrow> Some i | _ \<Rightarrow> None)"

definition ex_nodes :: "PlannedDecompositionSchema \<Rightarrow> ValidationStatus \<Rightarrow> unit nodes" where
  "ex_nodes d st =
     default_nodes (ex_router d) (ex_router (ex_verdict st)) ex_to_int ex_retrieve
       [(''echo'', ex_tool)] True True load_plan"

definition ex_tick :: "nat \<Rightarrow> tick" where
  "ex_tick i = \<lparr>k_now = i, k_elapsed = 1, k_uid = (\<lambda>j. show_nat i @ ''-'' @ show_nat j)\<rparr>"

definition ex_state :: OrchestrationState where
  "ex_state = create_initial 0 ''run'' ''hi'' None None 3 None"

definition ex_plan :: "Task list \<Rightarrow> ExecutionPlan" where
  "ex_plan ts = \<lparr>p_plan_id = ''p'', p_tasks = ts, p_current_task_id = None, p_rationale = None, p_created_at = 0\<rparr>"

lemma load_revalidates: "revalidates_dumps load_plan"
  by (rule load.revalidates)

section \<open>How runs end\<close>

text \<open>C6: whatever the agents do, a graph run that ends leaves the orchestration state completed,
  failed or paused for a human; no other status escapes.\<close>

theorem run_ends_terminal:
  assumes "run_graph n ks limit gs w = (Finished gs', es, w')"
  shows "s_status (g_state gs') \<in>
    {ExecutionStatus.COMPLETED, ExecutionStatus.FAILED, ExecutionStatus.PAUSED_FOR_HUMAN}"
  using graph_loop_end[OF assms[unfolded run_graph_def]] by (simp add: terminal_status_def)

definition ex_stuck :: OrchestrationState where
  "ex_stuck = fail_run 0 ''stopped'' ex_state"

theorem run_ends_terminal_witness:
  "\<exists>gs' es. run_graph (ex_nodes ex_decomposition ValidationStatus.VALID) ex_tick 2 (start_state ex_stuck None) ()
       = (Finished gs', es, ())
     \<and> s_status (g_state gs') \<in>
         {ExecutionStatus.COMPLETED, ExecutionStatus.FAILED, ExecutionStatus.PAUSED_FOR_HUMAN}"
proof -
  have st: "s_status ex_stuck = ExecutionStatus.FAILED" by (simp add: ex_stuck_def)
  have "\<exists>gs' es. run_graph (ex_nodes ex_decomposition ValidationStatus.VALID) ex_tick 2
      (start_state ex_stuck None) () = (Finished gs', es, ())"
    by (simp add: run_graph_def numeral_2_eq_2 supervisor_node_def start_state_def Let_def st
        supervisor_router_def)
  then obtain gs' es where r: "run_graph (ex_nodes ex_decomposition ValidationStatus.VALID) ex_tick 2
      (start_state ex_stuck None) () = (Finished gs', es, ())" by blast
  show ?thesis by (intro exI conjI) (rule r, rule run_ends_terminal[OF r])
qed


section \<open>Runs return\<close>

text \<open>
  Three node executions per dispatch, a dispatch per unit of weight, two to finish. A planned
  task has three retries, so a plan of \<open>m\<close> tasks weighs \<open>3 * m\<close>.
\<close>

definition small_decompositions :: "('w, PlannedDecompositionSchema) LLMRouter \<Rightarrow> nat \<Rightarrow> bool" where
  "small_decompositions router m \<longleftrightarrow>
     (\<forall>req w d resp w'. generate_structured router req None w = (Inr (d, resp), w') \<longrightarrow>
        length (pd_tasks d) \<le> m \<and> list_all (\<lambda>t. pt_task_type t \<noteq> TaskType.PLANNING) (pd_tasks d))"

lemma domain_weight: "tasks_weight (map (domain_task now) ts) = 3 * length ts"
  by (induction ts) (simp_all add: tasks_weight_def task_weight_def)

lemma planner_execute_router:
  assumes "planner_execute router k s t w = (Inr r, s', w')" "ag_status r = AgentStatus.SUCCESS"
    and "map_of (dict_or_empty (ag_output r)) ''execution_plan'' = Some v"
  shows "\<exists>d resp w1. generate_structured router
      (two_message_request planner_system_prompt (planner_user_prompt s) (1/5)) None w = (Inr (d, resp), w1)
    \<and> validate_plan_dag d = Inr () \<and> titled (p_tasks (domain_plan k d)) \<and> v = PDict (dump_plan (domain_plan k d))"
proof -
  let ?gen = "generate_structured router
    (two_message_request planner_system_prompt (planner_user_prompt s) (1/5)) None w"
  obtain g w1 where gen: "?gen = (g, w1)" by fastforce
  have nf: "ag_status (agent_failure a m b l md) \<noteq> AgentStatus.SUCCESS" for a m b l md
    by (simp add: agent_failure_def)
  then have pf: "ag_status (planner_failed k e) \<noteq> AgentStatus.SUCCESS" for e
    by (simp add: planner_failed_def)
  have vi: "planner_validate_input s"
    by (cases "planner_validate_input s") (use assms nf in \<open>auto simp: planner_execute_def\<close>)
  obtain d resp where g: "g = Inr (d, resp)"
    using assms gen vi pf by (cases g) (auto simp: planner_execute_def)
  have v: "validate_plan_dag d = Inr ()"
    using assms gen vi pf g by (cases "validate_plan_dag d") (auto simp: planner_execute_def)
  have tt: "\<not> list_ex (\<lambda>t. pt_title t = []) (pd_tasks d)"
    using assms gen vi pf g v by (auto simp: planner_execute_def split: if_splits)
  have "v = PDict (dump_plan (domain_plan k d))"
    using assms gen vi g v tt by (auto simp: planner_execute_def agent_success_def)
  moreover have "titled (p_tasks (domain_plan k d))"
    using tt by (auto simp: titled_def list_all_iff list_ex_iff)
  ultimately show ?thesis using gen g v by blast
qed

lemma default_plans_within:
  assumes "revalidates_dumps validate" "small_decompositions planner_llm m"
  shows "plans_within (default_nodes planner_llm critic_llm to_int retrieve reg tracer sink validate) (3 * m)"
  unfolding plans_within_def
proof (intro allI impI)
  fix k s w r s' w' v p
  let ?n = "default_nodes planner_llm critic_llm to_int retrieve reg tracer sink validate"
  assume "n_planner ?n k s None w = (Inr r, s', w')" "ag_status r = AgentStatus.SUCCESS"
    "map_of (dict_or_empty (ag_output r)) ''execution_plan'' = Some v"
    and val: "n_plan_validate ?n v = Inr p"
  then obtain d resp w1 where g: "generate_structured planner_llm
      (two_message_request planner_system_prompt (planner_user_prompt s) (1/5)) None w = (Inr (d, resp), w1)"
    and d: "validate_plan_dag d = Inr ()" "titled (p_tasks (domain_plan k d))"
      "v = PDict (dump_plan (domain_plan k d))"
    using planner_execute_router[of planner_llm k s None w r s' w' v] by (auto simp: default_nodes_def)
  have "p = domain_plan k d"
    using val d assms(1) by (simp add: default_nodes_def revalidates_dumps_def)
  moreover have "pd_tasks d \<noteq> []" using d(1) by (simp add: validate_plan_dag_eq valid_dag_def)
  moreover have "length (pd_tasks d) \<le> m" "list_all (\<lambda>t. pt_task_type t \<noteq> TaskType.PLANNING) (pd_tasks d)"
    using assms(2) g unfolding small_decompositions_def by blast+
  ultimately show "p_tasks p \<noteq> [] \<and> no_planning (p_tasks p) \<and> tasks_weight (p_tasks p) \<le> 3 * m"
    by (simp add: domain_weight no_planning_def list_all_iff)
qed

lemma default_run_returns:
  assumes "revalidates_dumps validate" "small_decompositions planner_llm m"
    and "s_plan s = None" "9 * m + 4 \<le> limit"
  shows "returns (fst (run_graph
     (default_nodes planner_llm critic_llm to_int retrieve reg tracer sink validate) ks limit
     (start_state s None) w))"
  unfolding run_graph_def
  by (rule supervised.fresh_loop_returns[OF default_supervised[OF assms(1)] assms(3)
        default_plans_within[OF assms(1,2)]]) (use assms(4) in simp)

text \<open>C1: a fresh run whose planner never delivers more than \<open>m\<close> tasks, none of them a planning
  task, returns within \<open>9 * m + 4\<close> node executions whatever the tools, the document store and the
  critic do; in particular the default recursion limit of 50 suffices for plans of up to five
  tasks. It never ends in a recursion error.\<close>

theorem fresh_run_returns:
  assumes "revalidates_dumps validate" "small_decompositions planner_llm m"
    and "s_plan s = None" "9 * m + 4 \<le> limit"
  shows "returns (fst (run_graph
     (default_nodes planner_llm critic_llm to_int retrieve reg tracer sink validate) ks limit
     (start_state s None) w))"
  by (rule default_run_returns[OF assms])

lemma ex_router_generate: "generate_structured (ex_router a) req None w = (Inr (a, ex_response), w)"
  by (simp add: generate_structured_def ex_router_def new_router_def primary_of_def
      route_loop.simps get_provider_def)

lemma ex_small: "small_decompositions (ex_router ex_decomposition) 2"
  by (simp add: small_decompositions_def ex_router_generate ex_decomposition_def ex_item_def)

theorem fresh_run_returns_witness:
  "returns (fst (run_graph (ex_nodes ex_decomposition ValidationStatus.NEEDS_RETRY) ex_tick 50
     (start_state ex_state None) ()))"
  unfolding ex_nodes_def
  by (rule fresh_run_returns[OF load_revalidates ex_small]) (simp_all add: ex_state_def create_initial_def)

text \<open>A run that resumes with a plan, whatever its task statuses, returns within three node
  executions per dispatch left plus two: retries are bounded by the budgets of the tasks.\<close>

theorem planned_run_returns:
  assumes "revalidates_dumps validate" "tasks_inv (state_tasks s)" "state_tasks s \<noteq> []"
    and "no_planning (state_tasks s)" "3 * tasks_weight (state_tasks s) + 2 \<le> limit"
  shows "returns (fst (run_graph
     (default_nodes planner_llm critic_llm to_int retrieve reg tracer sink validate) ks limit
     (start_state s None) w))"
  unfolding run_graph_def
  by (rule supervised.loop_returns[OF default_supervised[OF assms(1)] start_inv[OF assms(2)]])
     (use assms in \<open>simp_all add: start_state_def\<close>)

definition ex_planned :: OrchestrationState where
  "ex_planned = ex_state\<lparr>s_plan := Some (ex_plan (map (domain_task 0) (pd_tasks ex_decomposition)))\<rparr>"

lemma ex_planned_tasks: "state_tasks ex_planned = map (domain_task 0) (pd_tasks ex_decomposition)"
  by (simp add: ex_planned_def state_tasks_def ex_plan_def)

lemma ex_planned_inv: "tasks_inv (state_tasks ex_planned)"
  by (simp add: ex_planned_tasks ex_decomposition_def ex_item_def tasks_inv_def task_ok_def retry_limit_def)

theorem planned_run_returns_witness:
  "returns (fst (run_graph (ex_nodes ex_decomposition ValidationStatus.NEEDS_RETRY) ex_tick 20
     (start_state ex_planned None) ()))"
  unfolding ex_nodes_def
  by (rule planned_run_returns[OF load_revalidates ex_planned_inv])
     (simp_all add: ex_planned_tasks tasks_weight_def task_weight_def ex_decomposition_def
        no_planning_def ex_item_def)

section \<open>Order and budget\<close>

lemma fresh_run_tasks_inv:
  assumes "revalidates_dumps validate" "s_plan s = None"
    and "run_graph (default_nodes planner_llm critic_llm to_int retrieve reg tracer sink validate) ks limit
           (start_state s None) w = (Finished gs', es, w')"
  shows "tasks_inv (state_tasks (g_state gs'))"
proof -
  have "tasks_inv (state_tasks s)" using assms(2) by (simp add: state_tasks_def tasks_inv_def)
  from start_inv[OF this]
  show ?thesis
    by (rule supervised.graph_loop_inv[OF default_supervised[OF assms(1)] _ assms(3)[unfolded run_graph_def]])
qed

text \<open>C4: in the final state of a fresh run, a task that was ever started had all its dependencies
  completed (synthesis tasks, which the final node completes, excepted).\<close>

theorem dependency_order:
  assumes "revalidates_dumps validate" "s_plan s = None"
    and "run_graph (default_nodes planner_llm critic_llm to_int retrieve reg tracer sink validate) ks limit
           (start_state s None) w = (Finished gs', es, w')"
    and "t \<in> set (state_tasks (g_state gs'))" "t_status t \<noteq> TaskStatus.PENDING"
    and "t_task_type t \<noteq> TaskType.SYNTHESIS" "d \<in> set (t_dependencies t)"
  shows "\<exists>u\<in>set (state_tasks (g_state gs')). t_id u = d \<and> t_status u = TaskStatus.COMPLETED"
  using fresh_run_tasks_inv[OF assms(1-3)] assms(4-7)
  by (auto simp: tasks_inv_def task_ok_def deps_done_def dep_done_def)

definition ex_run :: "graph_result \<times> effect list \<times> unit" where
  "ex_run = run_graph (ex_nodes ex_decomposition ValidationStatus.VALID) ex_tick 50 (start_state ex_state None) ()"

definition ex_final_tasks :: "graph_result \<times> effect list \<times> unit \<Rightarrow> Task list option" where
  "ex_final_tasks r = (case r of (Finished g, es, w) \<Rightarrow> Some (state_tasks (g_state g)) | _ \<Rightarrow> None)"

definition ex_started :: "Task \<Rightarrow> bool" where
  "ex_started t \<longleftrightarrow> t_id t = ''b'' \<and> t_dependencies t = [''a''] \<and> t_status t = TaskStatus.COMPLETED
     \<and> t_task_type t = TaskType.TOOL_EXECUTION"

lemma ex_run_tasks: "(case ex_final_tasks ex_run of Some (t # ts) \<Rightarrow> ex_started t | _ \<Rightarrow> False)"
  by code_simp

lemma ex_runE:
  obtains gs' es w' t where "run_graph (ex_nodes ex_decomposition ValidationStatus.VALID) ex_tick 50
      (start_state ex_state None) () = (Finished gs', es, w')"
    and "t \<in> set (state_tasks (g_state gs'))" "ex_started t"
  using ex_run_tasks
  by (auto simp: ex_final_tasks_def ex_run_def split: prod.splits graph_result.splits list.splits)

theorem dependency_order_witness:
  "\<exists>gs' es w'. ex_run = (Finished gs', es, w')
     \<and> (\<exists>u\<in>set (state_tasks (g_state gs')). t_id u = ''a'' \<and> t_status u = TaskStatus.COMPLETED)"
proof -
  obtain gs' es w' t where r: "run_graph (ex_nodes ex_decomposition ValidationStatus.VALID) ex_tick 50
      (start_state ex_state None) () = (Finished gs', es, w')"
    and t: "t \<in> set (state_tasks (g_state gs'))" "ex_started t" by (rule ex_runE)
  have "s_plan ex_state = None" by (simp add: ex_state_def create_initial_def)
  from dependency_order[OF load_revalidates this r[unfolded ex_nodes_def] t(1), of "''a''"] t(2) r
  show ?thesis by (auto simp: ex_started_def ex_run_def)
qed

text \<open>No task of a finished fresh run was retried more often than its budget allows; the budget
  counts as one when it is zero, since the first rejection is recorded before the budget is
  consulted.\<close>

theorem retry_budget:
  assumes "revalidates_dumps validate" "s_plan s = None"
    and "run_graph (default_nodes planner_llm critic_llm to_int retrieve reg tracer sink validate) ks limit
           (start_state s None) w = (Finished gs', es, w')"
    and "t \<in> set (state_tasks (g_state gs'))"
  shows "t_retry_count t \<le> max 1 (t_max_retries t)"
  using fresh_run_tasks_inv[OF assms(1-3)] assms(4)
  by (auto simp: tasks_inv_def task_ok_def retry_limit_def)

theorem retry_budget_witness:
  "\<exists>gs' es w' t. ex_run = (Finished gs', es, w') \<and> t \<in> set (state_tasks (g_state gs'))
     \<and> t_retry_count t \<le> max 1 (t_max_retries t)"
proof -
  obtain gs' es w' t where r: "run_graph (ex_nodes ex_decomposition ValidationStatus.VALID) ex_tick 50
      (start_state ex_state None) () = (Finished gs', es, w')"
    and t: "t \<in> set (state_tasks (g_state gs'))" "ex_started t" by (rule ex_runE)
  have "s_plan ex_state = None" by (simp add: ex_state_def create_initial_def)
  from retry_budget[OF load_revalidates this r[unfolded ex_nodes_def] t(1)] r t(1)
  show ?thesis by (auto simp: ex_run_def)
qed

section \<open>The supervisor\<close>

text \<open>With a valid plan in which nothing has failed, the supervisor never reports a dependency
  deadlock: while tasks are pending it dispatches a pending task whose dependencies are all
  completed, and otherwise it goes on to synthesis.\<close>

theorem supervisor_progress:
  assumes "g_human_decision gs = None" "s_status (g_state gs) \<noteq> ExecutionStatus.FAILED"
    and "\<not> s_requires_human (g_state gs)" "s_plan (g_state gs) = Some p" "p_tasks p \<noteq> []" "plan_dag (p_tasks p)"
    and "\<forall>t\<in>set (p_tasks p). t_status t = TaskStatus.PENDING \<or> t_status t = TaskStatus.COMPLETED"
  shows "if \<exists>t\<in>set (p_tasks p). t_status t = TaskStatus.PENDING
     then \<exists>t\<in>set (p_tasks p). t_status t = TaskStatus.PENDING \<and> deps_done (p_tasks p) t
            \<and> g_current_task_id (supervisor_node k gs) = Some (t_id t)
            \<and> g_next_action (supervisor_node k gs) = Some (dispatch_action (t_task_type t))
     else g_next_action (supervisor_node k gs) = Some To_synthesis"
proof (cases "\<exists>t\<in>set (p_tasks p). t_status t = TaskStatus.PENDING")
  case True
  then obtain t rest where r: "get_ready_tasks p = t # rest"
    using ready_task_exists[OF assms(6) True assms(7)] by (cases "get_ready_tasks p") auto
  then have "t \<in> set (p_tasks p) \<and> t_status t = TaskStatus.PENDING \<and> deps_done (p_tasks p) t"
    by (intro ready_in) simp
  then show ?thesis using True assms r by (auto simp: supervisor_node_def Let_def)
next
  case False
  then have "get_ready_tasks p = []" by (auto simp: get_ready_tasks_def filter_empty_conv)
  moreover have "all_completed p"
    using False assms(5,7) by (auto simp: all_completed_def list_all_iff)
  ultimately show ?thesis using False assms by (simp add: supervisor_node_def Let_def)
qed

lemma ex_valid: "validate_plan_dag ex_decomposition = Inr ()"
  by code_simp

theorem supervisor_progress_witness:
  "g_next_action (supervisor_node (ex_tick 0) (start_state ex_planned None)) = Some To_tool"
proof -
  have dag: "plan_dag (p_tasks (ex_plan (map (domain_task 0) (pd_tasks ex_decomposition))))"
    using domain_plan_dag(1)[of ex_decomposition "ex_tick 0"] validate_plan_dag_eq[of ex_decomposition]
      ex_valid by (simp add: ex_plan_def ex_tick_def)
  show ?thesis
    using supervisor_progress[of "start_state ex_planned None" _ "ex_tick 0", OF _ _ _ _ _ dag]
    by (auto simp: start_state_def ex_planned_def ex_state_def create_initial_def ex_plan_def
        ex_decomposition_def ex_item_def domain_task_def dispatch_action_def split: if_splits)
qed

section \<open>Runs of the runtime\<close>

text \<open>A runtime whose world is the in-memory store.\<close>

definition im_ops :: "InMemoryStateStore store_ops" where
  "im_ops = \<lparr>st_save_state = (\<lambda>s w. (None, im_save_state s w)),
             st_save_checkpoint = (\<lambda>cp w. (None, im_save_checkpoint cp w))\<rparr>"

lemma im_ops_lawful: "lawful_store im_get_state im_ops"
  by (simp add: lawful_store_def im_ops_def in_memory.get_save in_memory.get_record)

definition ex_synthesis :: PlannedDecompositionSchema where
  "ex_synthesis = \<lparr>pd_rationale = ''r'', pd_tasks = [ex_item ''s'' [] TaskType.SYNTHESIS]\<rparr>"

definition ex_im_nodes :: "InMemoryStateStore nodes" where
  "ex_im_nodes =
     default_nodes
       (new_router [(''fake'', \<lambda>req w. (Inr (ex_synthesis, ex_response), w))] (Some ''fake'') None None
          ''gemini'' ''groq'' True)
       (new_router [(''fake'', \<lambda>req w. (Inr (ex_verdict ValidationStatus.VALID, ex_response), w))]
          (Some ''fake'') None None ''gemini'' ''groq'' True)
       ex_to_int (\<lambda>q w. (Inr (retrieve_in_memory q []), w)) [] True True load_plan"

definition ex_runtime :: "InMemoryStateStore runtime" where
  "ex_runtime =
     \<lparr>rt_nodes = ex_im_nodes, rt_store = im_ops, rt_max_steps = 50,
      rt_graph_error = (\<lambda>n. mk_Foreign ''GraphRecursionError'' ''Recursion limit reached'')\<rparr>"

lemma ex_runtime_store: "rt_store ex_runtime = im_ops"
  by (simp add: ex_runtime_def)


theorem run_spans_balanced_witness:
  "\<exists>r es w'. run ex_runtime (ex_tick 0) ex_tick ''hi'' None None None im_empty = (r, es, w') \<and> balanced es"
  using run_spans_balanced[of ex_runtime "ex_tick 0" ex_tick "''hi''" None None None im_empty]
  by (metis prod_cases3)

definition ex_returned :: "(exc + OrchestrationState) \<times> effect list \<times> InMemoryStateStore \<Rightarrow> bool" where
  "ex_returned r = (case r of (Inr s, es, w) \<Rightarrow> s_status s = ExecutionStatus.COMPLETED | _ \<Rightarrow> False)"

lemma ex_runtime_completes:
  "ex_returned (run ex_runtime (ex_tick 0) ex_tick ''hi'' None None None im_empty)"
  by code_simp

theorem run_persists_result_witness:
  "\<exists>s es w'. run ex_runtime (ex_tick 0) ex_tick ''hi'' None None None im_empty = (Inr s, es, w')
     \<and> im_get_state w' (s_run_id s) = Some s"
proof -
  obtain s es w' where run: "run ex_runtime (ex_tick 0) ex_tick ''hi'' None None None im_empty = (Inr s, es, w')"
    using ex_runtime_completes by (auto simp: ex_returned_def split: prod.splits sum.splits)
  have "lawful_store im_get_state (rt_store ex_runtime)"
    by (simp add: ex_runtime_store im_ops_lawful)
  from run_persists_result[OF this run] run show ?thesis by blast
qed

definition broken_runtime :: "InMemoryStateStore runtime" where
  "broken_runtime = ex_runtime\<lparr>rt_store :=
     \<lparr>st_save_state = (\<lambda>s w. (Some (sql_error ''save'' ''SQLITE_SAVE_STATE_ERROR'' True ''disk full''), w)),
      st_save_checkpoint = (\<lambda>cp w. (None, w))\<rparr>\<rparr>"

theorem initial_save_failure_leaks_witness:
  "\<exists>e es. run broken_runtime (ex_tick 0) ex_tick ''hi'' None None None im_empty = (Inl e, es, im_empty)
     \<and> gauge_value (apply_metrics es new_registry) ''active_runs'' = gauge_value new_registry ''active_runs'' + 1"
proof -
  have "\<exists>e. st_save_state (rt_store broken_runtime) s im_empty = (Some e, im_empty)" for s
    by (simp add: broken_runtime_def)
  then obtain e where "st_save_state (rt_store broken_runtime) (create_initial (k_now (ex_tick 0))
      (k_uid (ex_tick 0) 0) ''hi'' None None 3 None) im_empty = (Some e, im_empty)" by blast
  from initial_save_failure_leaks[OF _ this, of ex_tick new_registry] show ?thesis by auto
qed

section \<open>The human gate\<close>

text \<open>C12: a decision on a paused run decides its continuation: approval and modification resume it
  (running, no human required, decision consumed, back to the supervisor), completing the reviewed
  task or re-opening it with the new input; rejection fails the task and the run; any other
  decision status leaves it paused. The request that was answered records the decision.\<close>

theorem human_gate_outcome:
  assumes "g_human_decision gs = Some d" "human_gate_node n k gs = (gs', es)"
    and "active_task (g_state gs) (decision_task_id gs) = Some t"
  shows "(case d_status d of
       APPROVED \<Rightarrow> s_status (g_state gs') = ExecutionStatus.RUNNING \<and> \<not> s_requires_human (g_state gs')
         \<and> g_human_decision gs' = None \<and> g_next_action gs' = Some To_supervisor
         \<and> state_tasks (g_state gs') = upd_first (\<lambda>u. t_id u = t_id t)
             (\<lambda>u. mark_completed (k_now k) (output_or_empty u) u) (state_tasks (g_state gs))
     | MODIFIED \<Rightarrow> s_status (g_state gs') = ExecutionStatus.RUNNING \<and> \<not> s_requires_human (g_state gs')
         \<and> g_human_decision gs' = None \<and> g_next_action gs' = Some To_supervisor
         \<and> state_tasks (g_state gs') =
             (if dict_or_empty (d_modified_payload d) \<noteq> []
              then upd_first (\<lambda>u. t_id u = t_id t) (apply_payload (dict_or_empty (d_modified_payload d)))
                     (state_tasks (g_state gs))
              else state_tasks (g_state gs))
     | REJECTED \<Rightarrow> s_status (g_state gs') = ExecutionStatus.FAILED
         \<and> g_human_decision gs' = None \<and> g_next_action gs' = Some To_failed
         \<and> (\<exists>u\<in>set (state_tasks (g_state gs')). t_id u = t_id t \<and> t_status u = TaskStatus.FAILED)
     | _ \<Rightarrow> s_status (g_state gs') = ExecutionStatus.PAUSED_FOR_HUMAN \<and> g_next_action gs' = Some Paused
         \<and> state_tasks (g_state gs') = state_tasks (g_state gs))
   \<and> s_human_requests (g_state gs') = upd_first (\<lambda>r. h_request_id r = d_request_id d)
        (\<lambda>r. r\<lparr>h_status := d_status d, h_resolved_at := Some (d_resolved_at d)\<rparr>) (s_human_requests (g_state gs))"
proof -
  have tasks: "state_tasks (apply_human_decision now d s) = state_tasks s" for now s
    by (simp add: apply_human_decision_def Let_def state_tasks_def state_ops)
  have reqs: "s_human_requests (apply_human_decision now d s) = upd_first (\<lambda>r. h_request_id r = d_request_id d)
        (\<lambda>r. r\<lparr>h_status := d_status d, h_resolved_at := Some (d_resolved_at d)\<rparr>) (s_human_requests s)" for now s
    by (simp add: apply_human_decision_def Let_def state_ops)
  have keep: "s_human_requests (resume_running s) = s_human_requests s" "s_human_requests (upd_task i f s) = s_human_requests s"
    "s_human_requests (fail_run now m s) = s_human_requests s" "s_human_requests (set_status x s) = s_human_requests s"
    "state_tasks (resume_running s) = state_tasks s" "s_status (resume_running s) = ExecutionStatus.RUNNING"
    "s_requires_human (resume_running s) = False" for s i f now m x
    by (simp_all add: resume_running_def state_ops state_tasks_def split: option.split)
  from assms(3) obtain f: "find (\<lambda>u. t_id u = t_id t) (state_tasks (g_state gs)) = Some t" and i: "t_id t \<noteq> []"
    by (rule active_task_SomeE)
  have mem: "\<exists>u\<in>set (upd_first (\<lambda>u. t_id u = t_id t) (mark_failed now m) ts). t_id u = t_id t \<and> t_status u = TaskStatus.FAILED"
    if "find (\<lambda>u. t_id u = t_id t) ts = Some t" for now m ts
    using that by (induction ts) (auto simp: mark_failed_def split: if_splits)
  note defs = human_gate_node_def Let_def upd_task_opt_def await_human_def
  show ?thesis
    using assms f tasks reqs keep mem
    by (cases "d_status d") (auto simp: defs)
qed

definition ex_request :: HumanEscalationRequest where
  "ex_request = new_escalation 0 ''q'' ''run'' ''reason'' ''action'' [] (Some ''a'')"

definition ex_decision :: "string \<Rightarrow> HumanRequestStatus \<Rightarrow> HumanDecision" where
  "ex_decision q st =
     \<lparr>d_request_id = q, d_status = st, d_decision_note = None, d_modified_payload = None,
      d_reviewer_id = None, d_resolved_at = 1\<rparr>"

definition ex_paused :: OrchestrationState where
  "ex_paused = ex_planned\<lparr>s_human_requests := [ex_request], s_requires_human := True\<rparr>"

theorem human_gate_outcome_witness:
  "s_status (g_state (fst (human_gate_node (ex_nodes ex_decomposition ValidationStatus.VALID) (ex_tick 1)
     (start_state ex_paused (Some (ex_decision ''q'' HumanRequestStatus.APPROVED)))))) = ExecutionStatus.RUNNING"
proof -
  let ?d = "ex_decision ''q'' HumanRequestStatus.APPROVED"
  let ?gs = "start_state ex_paused (Some ?d)"
  obtain gs' es where g: "human_gate_node (ex_nodes ex_decomposition ValidationStatus.VALID) (ex_tick 1) ?gs = (gs', es)"
    by (rule prod.exhaust)
  have "\<exists>t. active_task (g_state ?gs) (decision_task_id ?gs) = Some t"
    by (simp add: decision_task_id_def start_state_def ex_paused_def ex_request_def new_escalation_def
        ex_decision_def ex_planned_def active_task_def get_task_def ex_plan_def ex_decomposition_def ex_item_def)
  then obtain t where t: "active_task (g_state ?gs) (decision_task_id ?gs) = Some t" by blast
  have d: "g_human_decision ?gs = Some ?d" "d_status ?d = HumanRequestStatus.APPROVED"
    by (simp_all add: start_state_def ex_decision_def)
  from human_gate_outcome[OF d(1) g t] have "s_status (g_state gs') = ExecutionStatus.RUNNING"
    by (simp add: d(2))
  with g show ?thesis by (simp only: fst_conv)
qed

text \<open>An approval that answers no request of the run (a stale or mistyped request identifier) is
  not rejected: the run resumes with the human requirement lifted while its requests are still
  pending.\<close>

theorem stale_approval_lifts_gate:
  assumes "g_human_decision gs = Some d" "d_status d = HumanRequestStatus.APPROVED"
    and "\<forall>r\<in>set (s_human_requests (g_state gs)). h_request_id r \<noteq> d_request_id d"
    and "has_pending (g_state gs)" "human_gate_node n k gs = (gs', es)"
  shows "\<not> s_requires_human (g_state gs') \<and> s_status (g_state gs') = ExecutionStatus.RUNNING
    \<and> has_pending (g_state gs') \<and> g_next_action gs' = Some To_supervisor"
proof -
  have "upd_first (\<lambda>r. h_request_id r = d_request_id d) f rs = rs"
    if "\<forall>r\<in>set rs. h_request_id r \<noteq> d_request_id d" for f rs
    using that by (induction rs) auto
  then have "s_human_requests (apply_human_decision now d (g_state gs)) = s_human_requests (g_state gs)" for now
    using assms(3) by (simp add: apply_human_decision_def Let_def state_ops)
  then show ?thesis
    using assms(1,2,4,5)
    by (auto simp: human_gate_node_def Let_def resume_running_def has_pending_def upd_task_opt_def state_ops
        split: option.splits)
qed

theorem stale_approval_lifts_gate_witness:
  "\<not> s_requires_human (g_state (fst (human_gate_node (ex_nodes ex_decomposition ValidationStatus.VALID) (ex_tick 1)
     (start_state ex_paused (Some (ex_decision ''other'' HumanRequestStatus.APPROVED))))))"
proof -
  let ?d = "ex_decision ''other'' HumanRequestStatus.APPROVED"
  let ?gs = "start_state ex_paused (Some ?d)"
  obtain gs' es where g: "human_gate_node (ex_nodes ex_decomposition ValidationStatus.VALID) (ex_tick 1) ?gs = (gs', es)"
    by (rule prod.exhaust)
  have d: "g_human_decision ?gs = Some ?d" "d_status ?d = HumanRequestStatus.APPROVED"
    and r: "\<forall>r\<in>set (s_human_requests (g_state ?gs)). h_request_id r \<noteq> d_request_id ?d"
    and p: "has_pending (g_state ?gs)"
    by (simp_all add: start_state_def ex_decision_def ex_paused_def ex_request_def new_escalation_def has_pending_def)
  from stale_approval_lifts_gate[OF d r p g] have "\<not> s_requires_human (g_state gs')" by (rule conjunct1)
  then show ?thesis unfolding g by simp
qed

section \<open>Verdicts\<close>

text \<open>A task its agent has marked failed still goes to the critic, and a verdict of valid marks
  it completed, with the error text left in place: the failure does not fail the run.\<close>

theorem failed_task_revalidated:
  assumes "find (\<lambda>u. t_id u = t_id t) (state_tasks s) = Some t" "t_status t = TaskStatus.FAILED"
    and "\<not> (ag_status result = AgentStatus.ESCALATE_HUMAN \<or> ag_requires_human result)"
    and "validation_data result = PDict d" "verdict_valid result d"
  shows "\<exists>gs' es u. validator_outcome n k gs t result s = (Inr gs', es)
    \<and> find (\<lambda>u. t_id u = t_id t) (state_tasks (g_state gs')) = Some u
    \<and> t_status u = TaskStatus.COMPLETED \<and> t_error u = t_error t"
proof -
  have "find (\<lambda>u. t_id u = t_id t) (upd_first (\<lambda>u. t_id u = t_id t) (mark_completed now out) (state_tasks s)) =
      Some (mark_completed now out t)" for now out
    using find_upd_first[of "\<lambda>u. t_id u = t_id t" "mark_completed now out" "state_tasks s"] assms(1)
    by (simp add: mark_completed_def)
  then show ?thesis
    unfolding validator_outcome_def Let_def if_not_P[OF assms(3)] assms(4) pyval.case if_P[OF assms(5)]
    by (simp add: mark_completed_def)
qed

definition ex_failed_task :: Task where
  "ex_failed_task = mark_failed 1 ''tool down'' (domain_task 0 (ex_item ''a'' [] TaskType.TOOL_EXECUTION))"

definition ex_failed_state :: OrchestrationState where
  "ex_failed_state = ex_state\<lparr>s_plan := Some (ex_plan [ex_failed_task])\<rparr>"

definition ex_valid_result :: AgentResult where
  "ex_valid_result =
     agent_success ''validator_agent''
       [(''validation'', PDict (dump_validation (verdict_of (ex_tick 0) None (ex_verdict ValidationStatus.VALID) ex_response)))]
       None 0 []"

theorem failed_task_revalidated_witness:
  "\<exists>gs' es u. validator_outcome (ex_nodes ex_decomposition ValidationStatus.VALID) (ex_tick 2)
       (start_state ex_failed_state None) ex_failed_task ex_valid_result ex_failed_state = (Inr gs', es)
    \<and> find (\<lambda>u. t_id u = t_id ex_failed_task) (state_tasks (g_state gs')) = Some u
    \<and> t_status u = TaskStatus.COMPLETED \<and> t_error u = t_error ex_failed_task"
proof (rule failed_task_revalidated)
  show "find (\<lambda>u. t_id u = t_id ex_failed_task) (state_tasks ex_failed_state) = Some ex_failed_task"
    by (simp add: ex_failed_state_def state_tasks_def ex_plan_def)
  show "t_status ex_failed_task = TaskStatus.FAILED" by (simp add: ex_failed_task_def mark_failed_def)
  show "\<not> (ag_status ex_valid_result = AgentStatus.ESCALATE_HUMAN \<or> ag_requires_human ex_valid_result)"
    by (simp add: ex_valid_result_def agent_success_def)
  show "validation_data ex_valid_result =
      PDict (dump_validation (verdict_of (ex_tick 0) None (ex_verdict ValidationStatus.VALID) ex_response))"
    by (simp add: validation_data_def ex_valid_result_def agent_success_def dget_def)
  show "verdict_valid ex_valid_result
      (dump_validation (verdict_of (ex_tick 0) None (ex_verdict ValidationStatus.VALID) ex_response))"
    by (simp add: verdict_valid_def dump_validation_def dget_def verdict_of_def ex_verdict_def)
qed

text \<open>When the first ready task is a synthesis task, the run completes at once, whatever other
  tasks are still pending.\<close>

theorem ready_synthesis_completes:
  assumes "g_human_decision gs = None" "s_status (g_state gs) \<noteq> ExecutionStatus.FAILED"
    and "\<not> s_requires_human (g_state gs)" "s_plan (g_state gs) = Some p"
    and "get_ready_tasks p = t # rest" "t_task_type t = TaskType.SYNTHESIS"
    and "u \<in> set (p_tasks p)" "t_status u = TaskStatus.PENDING" "t_task_type u \<noteq> TaskType.SYNTHESIS"
  shows "\<exists>gs' es. run_graph n ks (Suc (Suc m)) gs w = (Finished gs', es, w)
    \<and> s_status (g_state gs') = ExecutionStatus.COMPLETED \<and> u \<in> set (state_tasks (g_state gs'))"
proof -
  let ?gs1 = "supervisor_node (ks 0) gs"
  have "g_next_action ?gs1 = Some To_synthesis"
    using assms(1-6) by (simp add: supervisor_node_def Let_def dispatch_action_def)
  then have "run_graph n ks (Suc (Suc m)) gs w = (Finished (synthesis_node (ks 1) ?gs1), [], w)"
    by (simp add: run_graph_def supervisor_router_def)
  moreover have "u \<in> set (state_tasks (g_state (synthesis_node (ks 1) ?gs1)))"
  proof -
    have "state_tasks (g_state ?gs1) = p_tasks p"
      using assms(1-6) by (simp add: supervisor_node_def Let_def dispatch_action_def state_tasks_def state_ops)
    moreover have "synthesize_task now u = u" for now using assms(9) by (simp add: synthesize_task_def)
    moreover have "synthesize_task (k_now (ks 1)) u \<in> synthesize_task (k_now (ks 1)) ` set (p_tasks p)"
      using assms(7) by (rule imageI)
    ultimately show ?thesis by (simp add: synthesis_tasks)
  qed
  moreover have "s_status (g_state (synthesis_node (ks 1) ?gs1)) = ExecutionStatus.COMPLETED"
    by (simp add: synthesis_node_def Let_def)
  ultimately show ?thesis by blast
qed

definition ex_early :: OrchestrationState where
  "ex_early = ex_state\<lparr>s_plan := Some (ex_plan (map (domain_task 0)
     [ex_item ''s'' [] TaskType.SYNTHESIS, ex_item ''a'' [] TaskType.TOOL_EXECUTION]))\<rparr>"

theorem ready_synthesis_completes_witness:
  "\<exists>gs' es. run_graph (ex_nodes ex_decomposition ValidationStatus.VALID) ex_tick 2 (start_state ex_early None) ()
      = (Finished gs', es, ())
    \<and> domain_task 0 (ex_item ''a'' [] TaskType.TOOL_EXECUTION) \<in> set (state_tasks (g_state gs'))"
  using ready_synthesis_completes[of "start_state ex_early None"
      "ex_plan (map (domain_task 0) [ex_item ''s'' [] TaskType.SYNTHESIS, ex_item ''a'' [] TaskType.TOOL_EXECUTION])"
      "domain_task 0 (ex_item ''s'' [] TaskType.SYNTHESIS)" "[domain_task 0 (ex_item ''a'' [] TaskType.TOOL_EXECUTION)]"
      "domain_task 0 (ex_item ''a'' [] TaskType.TOOL_EXECUTION)" "ex_nodes ex_decomposition ValidationStatus.VALID" ex_tick 0 "()"]
  by (auto simp: start_state_def ex_early_def ex_state_def create_initial_def ex_plan_def ex_item_def get_ready_tasks_def numeral_2_eq_2)

end
