(* ===== verification/Backend_Theorems.thy ===== *)
theory Backend_Theorems
  imports Backend_Invariant Workflow_Theorems
begin

text \<open>
  Further properties of the execution engine: a free worker serves the whole queue, and the
  situations the code does not handle (an idempotency key kept by a refused submission, a decision
  submitted twice, a restart after a shutdown). The witnesses run the engine on the in-memory store.
\<close>

section \<open>One worker serves the queue\<close>

definition same_pool :: "'w backend \<Rightarrow> 'w backend \<Rightarrow> bool" where
  "same_pool b b' \<longleftrightarrow>
     b_workers b' = b_workers b \<and> length (b_heap b') = length (b_heap b)
     \<and> (\<forall>g. fut_done (b_heap b) g \<longrightarrow> fut_done (b_heap b') g)"

lemma settles_pool: "settles F b b' \<Longrightarrow> same_pool b b' \<and> b_queue b' = b_queue b"
  by (simp add: settles_def same_core_def same_pool_def)

lemma iteration_serves:
  assumes tot: "store_total cfg" and w: "i < length (b_workers b)" "b_workers b ! i = Waiting"
    and q: "b_queue b = Some it # q"
  shows "b_queue (worker_iteration cfg k ks i b) = q \<and> same_pool b (worker_iteration cfg k ks i b)
    \<and> (wi_future it < length (b_heap b) \<longrightarrow> fut_done (b_heap (worker_iteration cfg k ks i b)) (wi_future it))"
proof -
  let ?b1 = "b\<lparr>b_queue := q\<rparr>" and ?r = "wi_run_id it"
  show ?thesis
  proof (cases "job_cancelled ?b1 ?r")
    case True
    obtain b2 where fin: "finalize_cancelled cfg k ?r (wi_future it) (wi_key_hash it) ?b1 = (None, b2)"
      and s: "settles {wi_future it} ?b1 b2" using finalize_settles[OF tot] by blast
    have "take_item cfg k i b = update_metrics b2" using q True fin by (simp add: take_item_def Let_def)
    moreover have m: "settles {wi_future it} ?b1 (update_metrics b2)"
      by (rule settles_trans_quiet(2)[OF s settles_update_metrics])
    ultimately have "worker_iteration cfg k ks i b = update_metrics b2"
      using settles_pool[OF m] w by (simp add: worker_iteration_def Let_def same_pool_def)
    then show ?thesis using settles_pool[OF m] m by (simp add: same_pool_def settles_def)
  next
    case False
    let ?b2 = "update_metrics (upd_job ?r (\<lambda>j. j\<lparr>j_status := JobStatus.RUNNING, j_started_at := Some (k_now k)\<rparr>)
        (?b1\<lparr>b_active_tasks := AList.update ?r i (b_active_tasks ?b1)\<rparr>))"
    have sel: "b_queue ?b2 = q" "b_workers ?b2 = b_workers b" "b_heap ?b2 = b_heap b"
      by (simp_all add: update_metrics_def emit_def upd_job_def)
    obtain it' b3 where t: "take_item cfg k i b = set_worker i (Executing it' False) b3"
      and it': "wi_future it' = wi_future it" "wi_run_id it' = ?r" and b3: "settles {} ?b2 b3"
    proof (cases "wi_payload it")
      case (Run_item a1 a2 a3 a4)
      then have "take_item cfg k i b = set_worker i (Executing it False) ?b2"
        using q False by (simp add: take_item_def begin_item_def Let_def)
      then show ?thesis using that settles_refl by blast
    next
      case (Resume_item s d)
      obtain e b3 where sv: "save_in_store cfg (resumed_state k s) ?b2 = (e, b3)" by (rule prod.exhaust)
      have "take_item cfg k i b = set_worker i (Executing (it\<lparr>wi_payload := Resume_item (resumed_state k s) d\<rparr>) False) b3"
        using q False Resume_item sv save_total[OF tot sv] by (simp add: take_item_def begin_item_def Let_def)
      then show ?thesis using that[OF _ _ _ settles_save[OF sv]] by simp
    qed
    let ?bt = "set_worker i (Executing it' False) b3"
    have bt: "b_queue ?bt = q" "b_workers ?bt = (b_workers b)[i := Executing it' False]" "b_heap ?bt = b_heap b3"
      using settles_pool[OF b3] sel by (simp_all add: set_worker_def same_pool_def)
    have h3: "length (b_heap b3) = length (b_heap b)" "fut_done (b_heap b) g \<Longrightarrow> fut_done (b_heap b3) g" for g
      using settles_pool[OF b3] sel by (simp_all add: same_pool_def)
    obtain d es v where ex: "execute_payload cfg k ks (wi_payload it') (b_world ?bt) = (d, es, v)" by (rule prod_cases3)
    let ?be = "emit (map Telemetry es) (?bt\<lparr>b_world := v\<rparr>)"
    have be: "b_queue ?be = q" "b_workers ?be = (b_workers b)[i := Executing it' False]" "b_heap ?be = b_heap b3"
      using bt by (simp_all add: emit_def)
    obtain b4 where b4: "settles {wi_future it'} ?be b4" "finish_item cfg k i it' d ?be = release_worker i (wi_run_id it') Waiting b4"
      using finish_item_settles[OF tot] by blast
    have p4: "b_queue b4 = q" "b_workers b4 = (b_workers b)[i := Executing it' False]"
      "length (b_heap b4) = length (b_heap b)" "fut_done (b_heap b3) g \<Longrightarrow> fut_done (b_heap b4) g"
      "wi_future it < length (b_heap b) \<Longrightarrow> fut_done (b_heap b4) (wi_future it)" for g
      using settles_pool[OF b4(1)] b4(1) be h3 it' by (simp_all add: same_pool_def settles_def)
    have "worker_iteration cfg k ks i b = release_worker i (wi_run_id it') Waiting b4"
      using t bt(2) w ex b4(2) by (simp add: worker_iteration_def Let_def)
    moreover have "b_queue (release_worker i r Waiting b4) = b_queue b4" "b_heap (release_worker i r Waiting b4) = b_heap b4"
      "b_workers (release_worker i r Waiting b4) = (b_workers b4)[i := Waiting]" for r
      by (simp_all add: release_worker_def set_worker_def update_metrics_def emit_def)
    moreover have "(b_workers b)[i := Waiting] = b_workers b" using w(2) by (metis list_update_id)
    ultimately show ?thesis using p4 h3(2) by (simp add: same_pool_def)
  qed
qed

lemma total_save: "st_save_state (bc_store cfg) s w = (Some e, w') \<Longrightarrow> \<not> store_total cfg"
  by (metis fst_conv option.distinct(1) store_total_def)

lemma take_keeps_pool:
  assumes tot: "store_total cfg"
  shows "length (b_workers (take_item cfg k i b)) = length (b_workers b)"
proof (cases "b_queue b")
  case (Cons x q)
  show ?thesis
  proof (cases x)
    case (Some it)
    obtain b2 where "finalize_cancelled cfg k (wi_run_id it) (wi_future it) (wi_key_hash it) (b\<lparr>b_queue := q\<rparr>) = (None, b2)"
      and "settles {wi_future it} (b\<lparr>b_queue := q\<rparr>) b2" using finalize_settles[OF tot] by blast
    moreover have "length (b_workers (begin_item cfg k i it b')) = length (b_workers b')" for b'
      using tot by (auto simp: begin_item_def Let_def set_worker_def update_metrics_def emit_def upd_job_def
        save_in_store_def split: payload.splits prod.splits option.splits
        dest: total_save)
    ultimately show ?thesis using Cons Some settles_pool[of _ "b\<lparr>b_queue := q\<rparr>" b2]
      by (auto simp: take_item_def Let_def update_metrics_def emit_def same_pool_def)
  qed (use Cons in \<open>simp add: take_item_def set_worker_def\<close>)
qed (simp add: take_item_def)

text \<open>An iteration is a take and, unless the item was cancelled before, a delivery.\<close>

lemma iteration_reach:
  assumes "store_total cfg" "b_reach cfg b" "i < length (b_workers b)" "b_workers b ! i = Waiting"
  shows "b_reach cfg (worker_iteration cfg k ks i b)"
proof -
  have t: "b_reach cfg (take_item cfg k i b)" by (rule more[OF assms(2) Take[OF assms(3,4)]])
  show ?thesis
  proof (cases "b_workers (take_item cfg k i b) ! i")
    case (Executing it c)
    obtain d es v where "execute_payload cfg k ks (wi_payload it) (b_world (take_item cfg k i b)) = (d, es, v)"
      by (rule prod_cases3)
    then show ?thesis using more[OF t Deliver[OF _ Executing]] assms(3) take_keeps_pool[OF assms(1)] Executing
      by (simp add: worker_iteration_def Let_def)
  qed (use t in \<open>simp_all add: worker_iteration_def Let_def\<close>)
qed

definition serve_all :: "'w backend_config \<Rightarrow> tick \<Rightarrow> (nat \<Rightarrow> tick) \<Rightarrow> nat \<Rightarrow> nat \<Rightarrow> 'w backend \<Rightarrow> 'w backend" where
  "serve_all cfg k ks i n b = (worker_iteration cfg k ks i ^^ n) b"

lemma serve_all_drains:
  assumes "store_total cfg" "b_reach cfg b" "i < length (b_workers b)" "b_workers b ! i = Waiting"
  shows "b_queue (serve_all cfg k ks i (length (b_queue b)) b) = []
    \<and> same_pool b (serve_all cfg k ks i (length (b_queue b)) b)
    \<and> b_reach cfg (serve_all cfg k ks i (length (b_queue b)) b)"
  using assms
proof (induction "b_queue b" arbitrary: b)
  case Nil
  then show ?case by (simp add: serve_all_def same_pool_def)
next
  case (Cons x q)
  have "None \<notin> set (b_queue b)" using b_invD(2)[OF b_reach_inv[OF Cons.prems(2,1)]] .
  then obtain it where q: "b_queue b = Some it # q" using Cons.hyps(2)
    by (metis list.set_intros(1) option.exhaust)
  let ?b = "worker_iteration cfg k ks i b"
  have s: "b_queue ?b = q" "same_pool b ?b"
    using iteration_serves[OF Cons.prems(1,3,4) q, of k ks] by auto
  have ih: "b_queue (serve_all cfg k ks i (length (b_queue ?b)) ?b) = []
    \<and> same_pool ?b (serve_all cfg k ks i (length (b_queue ?b)) ?b)
    \<and> b_reach cfg (serve_all cfg k ks i (length (b_queue ?b)) ?b)"
    by (rule Cons.hyps(1)) (use Cons.prems iteration_reach[OF Cons.prems] s in \<open>simp_all add: same_pool_def\<close>)
  have "serve_all cfg k ks i (length (b_queue b)) b = serve_all cfg k ks i (length (b_queue ?b)) ?b"
    by (simp add: serve_all_def q s(1) funpow_swap1)
  then show ?case using ih s by (simp add: same_pool_def)
qed


section \<open>Situations the code does not handle\<close>

lemma start_neutral [simp]:
  "b_world (start cfg b) = b_world b" "b_queue (start cfg b) = b_queue b" "b_heap (start cfg b) = b_heap b"
  "b_ledger (start cfg b) = b_ledger b" "b_jobs (start cfg b) = b_jobs b" "b_futures (start cfg b) = b_futures b"
  by (simp_all add: start_def update_metrics_def emit_def Let_def)

lemma shutting_start: "\<not> b_is_shutting_down b \<Longrightarrow> \<not> b_is_shutting_down (start cfg b)"
  by (simp add: start_def update_metrics_def emit_def Let_def)

lemma publish_neutral [simp]:
  "b_world (publish_event cfg r t d b) = b_world b" "b_queue (publish_event cfg r t d b) = b_queue b"
  "b_heap (publish_event cfg r t d b) = b_heap b"
  "b_is_shutting_down (publish_event cfg r t d b) = b_is_shutting_down b"
  by (simp_all add: publish_event_def emit_def)

definition resume_item :: "string \<Rightarrow> OrchestrationState \<Rightarrow> HumanDecision \<Rightarrow> nat \<Rightarrow> work_item" where
  "resume_item r s d f = \<lparr>wi_run_id = r, wi_payload = Resume_item s d, wi_future = f, wi_key_hash = None\<rparr>"

text \<open>What an accepted decision does; nothing in it depends on a decision already queued.\<close>

lemma resume_accepted:
  assumes "bc_get_state cfg r (b_world b) = (Inr (Some s), b_world b)" "resume_refusal r (Some s) = None"
    and "\<not> queue_full cfg b" "\<not> b_is_shutting_down b"
  shows "\<exists>j b1. submit_resume cfg k r d b = (Inr (j, length (b_heap b)), b1)
    \<and> b_queue b1 = b_queue b @ [Some (resume_item r s d (length (b_heap b)))]
    \<and> b_heap b1 = b_heap b @ [Fut_pending] \<and> b_world b1 = b_world b \<and> \<not> b_is_shutting_down b1"
  using assms shutting_start[OF assms(4), of cfg]
  by (simp add: submit_resume_def get_from_store_def Let_def queue_full_def resume_item_def
      update_metrics_def emit_def)

text \<open>A human decision is accepted as often as it is submitted: until a worker takes the first one,
  the stored state still asks for review, so a second decision on the same run (a repeated request, or
  a rejection after an approval) is queued too and the run is resumed twice from the same state.\<close>

theorem decision_accepted_twice:
  assumes "bc_get_state cfg r (b_world b) = (Inr (Some s), b_world b)" "resume_refusal r (Some s) = None"
    and "bc_max_queue_size cfg = 0 \<or> length (b_queue b) + 2 \<le> bc_max_queue_size cfg" "\<not> b_is_shutting_down b"
  shows "\<exists>j1 j2 b1 b2. submit_resume cfg k r d b = (Inr (j1, length (b_heap b)), b1)
    \<and> submit_resume cfg k' r d' b1 = (Inr (j2, Suc (length (b_heap b))), b2)
    \<and> b_queue b2 = b_queue b @ [Some (resume_item r s d (length (b_heap b))),
                                Some (resume_item r s d' (Suc (length (b_heap b))))]"
proof -
  have "\<not> queue_full cfg b" using assms(3) by (auto simp: queue_full_def)
  from resume_accepted[OF assms(1,2) this assms(4), of k d] obtain j1 b1
    where one: "submit_resume cfg k r d b = (Inr (j1, length (b_heap b)), b1)"
      "b_queue b1 = b_queue b @ [Some (resume_item r s d (length (b_heap b)))]"
      "b_heap b1 = b_heap b @ [Fut_pending]" "b_world b1 = b_world b" "\<not> b_is_shutting_down b1" by blast
  have "\<not> queue_full cfg b1" using assms(3) one(2) by (auto simp: queue_full_def)
  from resume_accepted[OF _ assms(2) this one(5), of k' d'] assms(1) one obtain j2 b2
    where "submit_resume cfg k' r d' b1 = (Inr (j2, Suc (length (b_heap b))), b2)"
      "b_queue b2 = b_queue b1 @ [Some (resume_item r s d' (Suc (length (b_heap b))))]"
    by auto
  then show ?thesis using one by auto
qed

text \<open>A submission refused for lack of room keeps its idempotency key: nothing is queued, the
  future of the key stays pending, and every retry with the same key and payload is answered with that
  future instead of being queued, whatever room there is by then.\<close>

theorem refused_key_never_served:
  assumes "opt_truthy (rq_idempotency_key q)" "opt_truthy (rq_subject_id q)"
    and "kh = compute_key_hash (bc_sha256_hex cfg) (str_or (rq_subject_id q) []) (str_or (rq_idempotency_key q) [])"
    and "compute_request_hash (bc_sha256_hex cfg) (rq_request q) (rq_custom_context q) = Inr rh"
    and "map_of (b_ledger b) kh = None" "queue_full cfg b" "\<not> b_is_shutting_down b"
  shows "\<exists>b1. submit_run cfg k q b = (Inl queue_full_error, b1) \<and> b_queue b1 = b_queue b
    \<and> \<not> fut_done (b_heap b1) (length (b_heap b))
    \<and> (\<forall>b2 k' r. b_ledger b2 = b_ledger b1 \<longrightarrow> \<not> b_is_shutting_down b2 \<longrightarrow>
        (\<exists>j b3. submit_run cfg k' (q\<lparr>rq_run_id := r\<rparr>) b2 = (Inr (j, length (b_heap b)), b3)
          \<and> b_queue b3 = b_queue b2 \<and> b_heap b3 = b_heap b2))"
proof -
  let ?b0 = "start cfg b"
  let ?rec = "\<lparr>ir_key_hash = kh, ir_request_hash = rh, ir_run_id = rq_run_id q, ir_created_at = k_now k,
    ir_future = length (b_heap b), ir_completed = False, ir_cached_result = None\<rparr>"
  obtain l where l: "l = AList.update kh ?rec (b_ledger b)"
    and acq: "acquire_or_join (k_now k) kh rh (rq_run_id q) (b_ledger ?b0, b_heap ?b0)
      = (Inr (True, length (b_heap b), None), l, b_heap b @ [Fut_pending])"
    using assms(5) by (simp add: acquire_or_join_def Let_def)
  let ?b1 = "reject_full (?b0\<lparr>b_ledger := l, b_heap := b_heap b @ [Fut_pending]\<rparr>)"
  have full: "queue_full cfg (?b0\<lparr>b_ledger := l, b_heap := h\<rparr>)" for h
    using assms(6) by (simp add: queue_full_def)
  have first: "submit_run cfg k q b = (Inl queue_full_error, ?b1)"
    using assms(1,2,4,7) acq full unfolding assms(3)[symmetric]
    by (simp add: submit_run_def submit_admit_def check_capacity_def Let_def assms(3)[symmetric])
  have join: "\<exists>j. submit_run cfg k' (q\<lparr>rq_run_id := r\<rparr>) b2 = (Inr (j, length (b_heap b)), start cfg b2\<lparr>b_ledger := l, b_heap := b_heap b2\<rparr>)"
    if "b_ledger b2 = l" "\<not> b_is_shutting_down b2" for b2 k' r
    using assms(1,2,4) that l
    by (simp add: submit_run_def submit_admit_def Let_def acquire_or_join_def assms(3)[symmetric] update_conv)
  have "fut_done (b_heap ?b1) (length (b_heap b)) = False"
    by (simp add: reject_full_def emit_def fut_done_def)
  moreover have "b_queue ?b1 = b_queue b" "b_ledger ?b1 = l" by (simp_all add: reject_full_def emit_def)
  ultimately show ?thesis using first join by fastforce
qed

lemma put_sentinels_room:
  assumes "bc_max_queue_size cfg = 0 \<or> length (b_queue b) + n \<le> bc_max_queue_size cfg"
  shows "put_sentinels cfg n b = b\<lparr>b_queue := b_queue b @ replicate n None\<rparr>"
  using assms
proof (induction n arbitrary: b)
  case (Suc n)
  have "\<not> queue_full cfg b" using Suc.prems by (auto simp: queue_full_def)
  moreover have "put_sentinels cfg n (b\<lparr>b_queue := b_queue b @ [None]\<rparr>)
    = b\<lparr>b_queue := (b_queue b @ [None]) @ replicate n None\<rparr>"
    using Suc.IH[of "b\<lparr>b_queue := b_queue b @ [None]\<rparr>"] Suc.prems by auto
  ultimately show ?case by (simp add: replicate_append_same[symmetric])
qed simp

text \<open>Each of the workers in \<open>is\<close>, all waiting, ends: by a cancellation or by a sentinel.\<close>

definition kill_all :: "nat list \<Rightarrow> 'w backend \<Rightarrow> 'w backend" where
  "kill_all is b = b\<lparr>b_workers := fold (\<lambda>i ws. ws[i := Dead]) is (b_workers b)\<rparr>"

lemma fold_dead_length [simp]: "length (fold (\<lambda>i ws. ws[i := Dead]) is ws) = length ws"
  by (induction "is" arbitrary: ws) simp_all

lemma fold_dead_nth:
  "j < length ws \<Longrightarrow> fold (\<lambda>i ws. ws[i := Dead]) is ws ! j = (if j \<in> set is then Dead else ws ! j)"
  by (induction "is" arbitrary: ws) (auto simp: nth_list_update)

lemma cancel_waiting:
  "\<forall>i\<in>set is. i < length (b_workers b) \<and> b_workers b ! i \<in> {Waiting, Dead} \<Longrightarrow>
   fold cancel_worker is b = kill_all is b"
proof (induction "is" arbitrary: b)
  case (Cons j js)
  let ?b = "b\<lparr>b_workers := (b_workers b)[j := Dead]\<rparr>"
  have "cancel_worker j b = ?b"
  proof (cases "b_workers b ! j")
    case Dead
    then have "(b_workers b)[j := Dead] = b_workers b" by (metis list_update_id)
    then show ?thesis using Dead by (simp add: cancel_worker_def)
  qed (use Cons.prems in \<open>auto simp: cancel_worker_def set_worker_def\<close>)
  moreover have "fold cancel_worker js ?b = kill_all js ?b"
    by (rule Cons.IH) (use Cons.prems in \<open>auto simp: nth_list_update\<close>)
  ultimately show ?case by (simp add: kill_all_def)
qed (simp add: kill_all_def)

lemma take_sentinels:
  "b_queue b = replicate (length is) None @ q \<Longrightarrow>
   fold (take_item cfg k) is b = (kill_all is b)\<lparr>b_queue := q\<rparr>"
proof (induction "is" arbitrary: b)
  case (Cons j js)
  have "take_item cfg k j b = b\<lparr>b_queue := replicate (length js) None @ q, b_workers := (b_workers b)[j := Dead]\<rparr>"
    using Cons.prems by (simp add: take_item_def set_worker_def)
  then show ?case
    using Cons.IH[of "b\<lparr>b_queue := replicate (length js) None @ q, b_workers := (b_workers b)[j := Dead]\<rparr>"]
    by (simp add: kill_all_def)
qed (simp add: kill_all_def)

lemma settle_dead: "\<forall>i\<in>set is. b_workers b ! i = Dead \<Longrightarrow> fold (settle_worker cfg k) is b = b"
  by (induction "is") (simp_all add: settle_worker_def)

text \<open>A backend that is shut down while idle cannot be restarted cleanly: its waiting workers end by
  the cancellation, so the sentinels put for them stay in the queue, and the workers of the next
  \<open>start\<close> take those, end too, and leave every newly submitted item unserved.\<close>

theorem restart_loses_pool:
  assumes "b_is_started b" "\<not> b_is_shutting_down b" "b_queue b = []" "b_active_tasks b = []"
    and "\<forall>i\<in>set (b_pool b). i < length (b_workers b) \<and> b_workers b ! i = Waiting"
    and "length (b_pool b) = bc_max_concurrency cfg"
    and "bc_max_queue_size cfg = 0 \<or> bc_max_concurrency cfg \<le> bc_max_queue_size cfg"
  shows "\<exists>b1. shutdown cfg k b = Some (None, b1) \<and> b_queue b1 = replicate (bc_max_concurrency cfg) None
    \<and> (\<forall>b2 b3 q. b_queue b2 = b_queue b1 @ q \<longrightarrow> b_workers b2 = b_workers (start cfg b1) \<longrightarrow>
         b_pool b2 = b_pool (start cfg b1) \<longrightarrow> b3 = fold (take_item cfg k') (b_pool b2) b2 \<longrightarrow>
         b_queue b3 = q \<and> b_pool b3 = b_pool b2 \<and> list_all (\<lambda>i. b_workers b3 ! i = Dead) (b_pool b3))"
proof -
  let ?n = "bc_max_concurrency cfg" and ?b = "b\<lparr>b_is_shutting_down := True\<rparr>"
  let ?b2 = "kill_all (b_pool b) (?b\<lparr>b_queue := replicate ?n None\<rparr>)"
  have drained: "shutdown_begin cfg k b = (None, ?b)" using assms(3) by (simp add: shutdown_begin_def)
  have stop: "shutdown_stop cfg ?b = ?b2"
    using assms(3-7) put_sentinels_room[of cfg ?b ?n]
    by (simp add: shutdown_stop_def cancel_waiting)
  have dead: "\<forall>i\<in>set (b_pool ?b2). b_workers ?b2 ! i = Dead"
    using assms(5) by (simp add: kill_all_def fold_dead_nth)
  let ?b1 = "update_metrics (?b2\<lparr>b_pool := [], b_active_tasks := [], b_is_started := False, b_is_shutting_down := False\<rparr>)"
  have sd: "shutdown cfg k b = Some (None, ?b1)"
    using assms(1,2) dead settle_dead[OF dead, of cfg k]
    by (simp add: shutdown_def drained stop Let_def shutdown_close_def list_all_iff)
  have q1: "b_queue ?b1 = replicate ?n None" by (simp add: kill_all_def update_metrics_def emit_def)
  have restart: "b_workers (start cfg ?b1) = b_workers ?b1 @ replicate ?n Waiting"
    "b_pool (start cfg ?b1) = [length (b_workers ?b1) ..< length (b_workers ?b1) + ?n]"
    by (simp_all add: start_def update_metrics_def emit_def Let_def)
  have "b_queue b3 = q \<and> b_pool b3 = b_pool b2 \<and> list_all (\<lambda>i. b_workers b3 ! i = Dead) (b_pool b3)"
    if q: "b_queue b2 = b_queue ?b1 @ q" and w: "b_workers b2 = b_workers (start cfg ?b1)"
      and p: "b_pool b2 = b_pool (start cfg ?b1)" and b3: "b3 = fold (take_item cfg k') (b_pool b2) b2" for b2 b3 q
  proof -
    have "b3 = (kill_all (b_pool b2) b2)\<lparr>b_queue := q\<rparr>"
      unfolding b3 by (rule take_sentinels) (simp add: q q1 p restart(2))
    then show ?thesis using w p restart by (auto simp: kill_all_def list_all_iff fold_dead_nth)
  qed
  then show ?thesis using sd q1 by blast
qed

section \<open>Witnesses\<close>

text \<open>One worker, room for one item, the in-memory store, the runtime of the workflow examples.\<close>

definition ex_config :: "InMemoryStateStore backend_config" where
  "ex_config = in_memory_config ex_runtime 1 1 (\<lambda>s. s) True"

definition ex_submission :: "string \<Rightarrow> run_request" where
  "ex_submission r =
     \<lparr>rq_run_id = r, rq_request = ''hi'', rq_correlation_id = None, rq_session_id = None,
      rq_custom_context = None, rq_idempotency_key = Some r, rq_subject_id = Some ''alice''\<rparr>"

definition ex_queued :: "InMemoryStateStore backend" where
  "ex_queued = snd (submit_run ex_config (ex_tick 0) (ex_submission ''r1'') (new_backend im_empty))"

lemma ex_total: "store_total ex_config"
  by (simp add: ex_config_def in_memory_config_def store_total_def)

lemma ex_queued_reach: "b_reach ex_config ex_queued"
  unfolding ex_queued_def by (rule more[OF fresh Submit])

lemma ex_queued_shape:
  "(b_workers ex_queued, length (b_queue ex_queued), b_is_started ex_queued, b_is_shutting_down ex_queued,
    b_heap ex_queued) = ([Waiting], 1, True, False, [Fut_pending])"
  by code_simp

lemma ex_queued_fields:
  "b_workers ex_queued = [Waiting]" "length (b_queue ex_queued) = 1"
  "b_is_started ex_queued" "\<not> b_is_shutting_down ex_queued" "b_heap ex_queued = [Fut_pending]"
  using ex_queued_shape by simp_all

lemma ex_limits [simp]: "bc_max_queue_size ex_config = 1" "bc_max_concurrency ex_config = 1"
  by (simp_all add: ex_config_def in_memory_config_def)




theorem refused_key_never_served_witness:
  "\<exists>b1 j b3. submit_run ex_config (ex_tick 1) (ex_submission ''r2'') ex_queued = (Inl queue_full_error, b1)
    \<and> submit_run ex_config (ex_tick 2) (ex_submission ''r2'') (b1\<lparr>b_queue := []\<rparr>) = (Inr (j, 1), b3)
    \<and> b_queue b3 = [] \<and> \<not> fut_done (b_heap b3) 1"
proof -
  obtain rh where rh: "compute_request_hash (bc_sha256_hex ex_config) (rq_request (ex_submission ''r2''))
      (rq_custom_context (ex_submission ''r2'')) = Inr rh"
    by (simp add: compute_request_hash_def ex_submission_def dict_or_empty_def)
  have fresh_key: "map_of (b_ledger ex_queued) (compute_key_hash (bc_sha256_hex ex_config)
      (str_or (rq_subject_id (ex_submission ''r2'')) []) (str_or (rq_idempotency_key (ex_submission ''r2'')) [])) = None"
    by code_simp
  have key: "opt_truthy (rq_idempotency_key (ex_submission ''r2''))" "opt_truthy (rq_subject_id (ex_submission ''r2''))"
    by (simp_all add: ex_submission_def)
  have full: "queue_full ex_config ex_queued" using ex_queued_fields(2) by (simp add: queue_full_def)
  have same: "(ex_submission ''r2'')\<lparr>rq_run_id := ''r2''\<rparr> = ex_submission ''r2''" by (simp add: ex_submission_def)
  obtain b1 where b1: "submit_run ex_config (ex_tick 1) (ex_submission ''r2'') ex_queued = (Inl queue_full_error, b1)"
    "\<not> fut_done (b_heap b1) 1"
    and again: "\<And>b2 k' r. b_ledger b2 = b_ledger b1 \<Longrightarrow> \<not> b_is_shutting_down b2 \<Longrightarrow>
        \<exists>j b3. submit_run ex_config k' ((ex_submission ''r2'')\<lparr>rq_run_id := r\<rparr>) b2 = (Inr (j, 1), b3)
          \<and> b_queue b3 = b_queue b2 \<and> b_heap b3 = b_heap b2"
    using refused_key_never_served[OF key refl rh fresh_key full ex_queued_fields(4), of "ex_tick 1"]
    unfolding ex_queued_fields(5) by auto
  have "\<not> b_is_shutting_down b1"
    using b_reach_inv[OF more[OF ex_queued_reach Submit] ex_total, of "ex_tick 1" "ex_submission ''r2''"] b1(1)
    by (simp add: b_inv_ex_def)
  then show ?thesis using again[of "b1\<lparr>b_queue := []\<rparr>" "ex_tick 2" "''r2''"] b1 same by auto
qed

definition ex_wide_config :: "InMemoryStateStore backend_config" where
  "ex_wide_config = in_memory_config ex_runtime 1 2 (\<lambda>s. s) True"

definition ex_awaiting :: "InMemoryStateStore backend" where
  "ex_awaiting = new_backend (im_save_state (set_status ExecutionStatus.PAUSED_FOR_HUMAN ex_paused) im_empty)"

theorem decision_accepted_twice_witness:
  "\<exists>j1 j2 b1 b2 s. submit_resume ex_wide_config (ex_tick 0) ''run'' (ex_decision ''q'' HumanRequestStatus.APPROVED) ex_awaiting = (Inr (j1, 0), b1)
    \<and> submit_resume ex_wide_config (ex_tick 1) ''run'' (ex_decision ''q'' HumanRequestStatus.REJECTED) b1 = (Inr (j2, 1), b2)
    \<and> b_queue b2 = [Some (resume_item ''run'' s (ex_decision ''q'' HumanRequestStatus.APPROVED) 0),
                    Some (resume_item ''run'' s (ex_decision ''q'' HumanRequestStatus.REJECTED) 1)]"
proof -
  let ?s = "set_status ExecutionStatus.PAUSED_FOR_HUMAN ex_paused"
  have run: "s_run_id ?s = ''run''" by code_simp
  have stored: "bc_get_state ex_wide_config ''run'' (b_world ex_awaiting) = (Inr (Some ?s), b_world ex_awaiting)"
    using run by (simp add: ex_wide_config_def in_memory_config_def ex_awaiting_def new_backend_def
        im_get_state_def im_save_state_def update_conv)
  have pending: "resume_refusal ''run'' (Some ?s) = None"
    by (simp add: resume_refusal_def Let_def ex_paused_def set_status_def terminal_def)
  show ?thesis
    using decision_accepted_twice[OF stored pending, of "ex_tick 0" "ex_decision ''q'' HumanRequestStatus.APPROVED"
        "ex_tick 1" "ex_decision ''q'' HumanRequestStatus.REJECTED"]
    by (auto simp: ex_awaiting_def new_backend_def ex_wide_config_def in_memory_config_def)
qed

definition ex_idle :: "InMemoryStateStore backend" where
  "ex_idle = start ex_config (new_backend im_empty)"

theorem restart_loses_pool_witness:
  "\<exists>b1. shutdown ex_config (ex_tick 0) ex_idle = Some (None, b1)
    \<and> list_all (\<lambda>i. b_workers (fold (take_item ex_config (ex_tick 1)) (b_pool (start ex_config b1)) (start ex_config b1)) ! i = Dead)
        (b_pool (start ex_config b1))"
proof -
  have "b_is_started ex_idle" "\<not> b_is_shutting_down ex_idle" "b_queue ex_idle = []" "b_active_tasks ex_idle = []"
    and "\<forall>i\<in>set (b_pool ex_idle). i < length (b_workers ex_idle) \<and> b_workers ex_idle ! i = Waiting"
    and "length (b_pool ex_idle) = bc_max_concurrency ex_config"
    by (simp_all add: ex_idle_def start_def new_backend_def update_metrics_def emit_def Let_def)
  from restart_loses_pool[OF this, of "ex_tick 0" "ex_tick 1"] obtain b1
    where sd: "shutdown ex_config (ex_tick 0) ex_idle = Some (None, b1)"
      and after: "\<forall>b2 b3 q. b_queue b2 = b_queue b1 @ q \<longrightarrow> b_workers b2 = b_workers (start ex_config b1) \<longrightarrow>
         b_pool b2 = b_pool (start ex_config b1) \<longrightarrow> b3 = fold (take_item ex_config (ex_tick 1)) (b_pool b2) b2 \<longrightarrow>
         b_queue b3 = q \<and> b_pool b3 = b_pool b2 \<and> list_all (\<lambda>i. b_workers b3 ! i = Dead) (b_pool b3)"
    by auto
  let ?b3 = "fold (take_item ex_config (ex_tick 1)) (b_pool (start ex_config b1)) (start ex_config b1)"
  have "b_pool ?b3 = b_pool (start ex_config b1) \<and> list_all (\<lambda>i. b_workers ?b3 ! i = Dead) (b_pool ?b3)"
    by (rule after[rule_format, of "start ex_config b1" "[]" ?b3, THEN conjunct2]) simp_all
  then have "list_all (\<lambda>i. b_workers ?b3 ! i = Dead) (b_pool (start ex_config b1))" by metis
  then show ?thesis using sd by metis
qed

end
