(* ===== verification/Chunking.thy ===== *)
theory Chunking
  imports Document_Store
begin

text \<open>
  Document chunking (\<open>retrieval/chunking.py\<close>): the sliding window chunker, its constructor and the
  batch operation. The window loop is a partial function, so that its termination is a theorem.
\<close>

section \<open>Chunks and the chunker\<close>

record DocumentChunk =
  dc_id :: string
  dc_document_id :: string
  dc_chunk_index :: nat
  dc_content :: string
  dc_metadata :: dict

record SimpleTextChunker =
  tc_chunk_size :: nat
  tc_chunk_overlap :: nat

definition value_error :: "string \<Rightarrow> exc" where
  "value_error msg = mk_Foreign ''ValueError'' msg"

definition new_chunker :: "int \<Rightarrow> int \<Rightarrow> exc + SimpleTextChunker" where
  "new_chunker chunk_size chunk_overlap =
     (if chunk_size \<le> 0 then Inl (value_error ''chunk_size must be greater than 0'')
      else if chunk_overlap < 0 then Inl (value_error ''chunk_overlap must be non-negative'')
      else if chunk_overlap \<ge> chunk_size then
        Inl (value_error ''chunk_overlap must be strictly less than chunk_size'')
      else Inr \<lparr>tc_chunk_size = nat chunk_size, tc_chunk_overlap = nat chunk_overlap\<rparr>)"

text \<open>\<open>s[a:b]\<close> for \<open>0 <= a\<close> and \<open>0 <= b\<close>.\<close>

definition py_slice :: "'a list \<Rightarrow> nat \<Rightarrow> nat \<Rightarrow> 'a list" where
  "py_slice s a b = drop a (take b s)"

definition make_chunk :: "Document \<Rightarrow> nat \<Rightarrow> string \<Rightarrow> nat \<Rightarrow> nat \<Rightarrow> DocumentChunk" where
  "make_chunk d idx content start_char end_char =
     \<lparr>dc_id = doc_id d @ ''_chunk_'' @ show_nat idx, dc_document_id = doc_id d, dc_chunk_index = idx,
      dc_content = content,
      dc_metadata = dict_update (doc_metadata d)
        [(''source_doc_id'', PStr (doc_id d)), (''chunk_index'', PInt (int idx)),
         (''start_char'', PInt (int start_char)), (''end_char'', PInt (int end_char))]\<rparr>"

text \<open>The \<open>while\<close> loop, with the variables \<open>start\<close>, \<open>chunk_idx\<close> and \<open>chunks\<close>.\<close>

partial_function (option) chunk_loop ::
    "SimpleTextChunker \<Rightarrow> Document \<Rightarrow> string \<Rightarrow> nat \<Rightarrow> nat \<Rightarrow> DocumentChunk list \<Rightarrow> DocumentChunk list option" where
  "chunk_loop tc d body start chunk_idx chunks =
     (if start < length body then
        let stop = min (start + tc_chunk_size tc) (length body);
            chunk_text = py_strip (py_slice body start stop);
            idx' = (if chunk_text \<noteq> [] then Suc chunk_idx else chunk_idx);
            chunks' = (if chunk_text \<noteq> [] then chunks @ [make_chunk d chunk_idx chunk_text start stop] else chunks)
        in if stop = length body then Some chunks'
           else chunk_loop tc d body (start + (tc_chunk_size tc - tc_chunk_overlap tc)) idx' chunks'
      else Some chunks)"

definition chunk_document :: "SimpleTextChunker \<Rightarrow> Document \<Rightarrow> DocumentChunk list option" where
  "chunk_document tc d =
     (let body = py_strip (doc_content d) in
      if body = [] then Some []
      else if length body \<le> tc_chunk_size tc then Some [make_chunk d 0 body 0 (length body)]
      else chunk_loop tc d body 0 0 [])"

primrec chunk_documents :: "SimpleTextChunker \<Rightarrow> Document list \<Rightarrow> DocumentChunk list option" where
  "chunk_documents tc [] = Some []"
| "chunk_documents tc (d # ds) =
     Option.bind (chunk_document tc d) (\<lambda>cs. map_option ((@) cs) (chunk_documents tc ds))"

section \<open>Facts\<close>

definition valid_chunker :: "SimpleTextChunker \<Rightarrow> bool" where
  "valid_chunker tc \<longleftrightarrow> tc_chunk_overlap tc < tc_chunk_size tc"

lemma new_chunker_valid: "new_chunker a b = Inr tc \<Longrightarrow> valid_chunker tc"
  by (auto simp: new_chunker_def valid_chunker_def split: if_splits)

text \<open>The window of a chunk, as its metadata records it.\<close>

definition window_of :: "DocumentChunk \<Rightarrow> nat \<Rightarrow> nat \<Rightarrow> bool" where
  "window_of c a b \<longleftrightarrow>
     map_of (dc_metadata c) ''start_char'' = Some (PInt (int a)) \<and> map_of (dc_metadata c) ''end_char'' = Some (PInt (int b))"

lemma window_of_make: "window_of (make_chunk d i s a b) a b"
  by (simp add: window_of_def make_chunk_def dict_update_def)

definition cut_from :: "SimpleTextChunker \<Rightarrow> Document \<Rightarrow> string \<Rightarrow> DocumentChunk \<Rightarrow> bool" where
  "cut_from tc d body c \<longleftrightarrow>
     (\<exists>a b. a < b \<and> b \<le> length body \<and> b - a \<le> tc_chunk_size tc \<and> py_strip (py_slice body a b) \<noteq> []
        \<and> c = make_chunk d (dc_chunk_index c) (py_strip (py_slice body a b)) a b)"

lemma cut_from_make:
  "a < b \<Longrightarrow> b \<le> length body \<Longrightarrow> b - a \<le> tc_chunk_size tc \<Longrightarrow> py_strip (py_slice body a b) \<noteq> [] \<Longrightarrow>
   cut_from tc d body (make_chunk d i (py_strip (py_slice body a b)) a b)"
  unfolding cut_from_def by (intro exI[of _ a] exI[of _ b]) (simp add: make_chunk_def)

lemma length_py_strip: "length (py_strip s) \<le> length s"
  using length_dropWhile_le[of py_space s] length_dropWhile_le[of py_space "rev (dropWhile py_space s)"]
  by (simp add: py_strip_def)

lemma cut_from_content:
  assumes "cut_from tc d body c"
  shows "dc_id c = doc_id d @ ''_chunk_'' @ show_nat (dc_chunk_index c)
    \<and> dc_content c \<noteq> [] \<and> length (dc_content c) \<le> tc_chunk_size tc"
proof -
  obtain a b i where c: "c = make_chunk d i (py_strip (py_slice body a b)) a b"
    "b \<le> length body" "b - a \<le> tc_chunk_size tc" "py_strip (py_slice body a b) \<noteq> []"
    using assms by (auto simp: cut_from_def)
  have "length (py_strip (py_slice body a b)) \<le> b - a"
    using length_py_strip[of "py_slice body a b"] c(2) by (simp add: py_slice_def)
  then show ?thesis using c by (simp add: make_chunk_def)
qed

lemma slice_has_nonspace:
  assumes "a \<le> p" "p < b" "p < length body" "\<not> py_space (body ! p)"
  shows "py_strip (py_slice body a b) \<noteq> []"
proof -
  have "py_slice body a b ! (p - a) = body ! p" "p - a < length (py_slice body a b)"
    using assms(1-3) by (auto simp: py_slice_def)
  then have "body ! p \<in> set (py_slice body a b)" by (metis nth_mem)
  then show ?thesis using assms(4) py_strip_eq_Nil by blast
qed

lemma chunk_loop_total:
  assumes "valid_chunker tc"
  shows "\<exists>cs. chunk_loop tc d body start idx acc = Some (acc @ cs)
    \<and> map dc_chunk_index cs = [idx ..< idx + length cs] \<and> (\<forall>c\<in>set cs. cut_from tc d body c)
    \<and> (\<forall>p. start \<le> p \<longrightarrow> p < length body \<longrightarrow> \<not> py_space (body ! p) \<longrightarrow>
         (\<exists>c\<in>set cs. \<exists>a b. window_of c a b \<and> a \<le> p \<and> p < b))"
proof (induction "length body - start" arbitrary: start idx acc rule: less_induct)
  case less
  show ?case
  proof (cases "start < length body")
    case True
    obtain stop piece nxt found where defs: "stop = min (start + tc_chunk_size tc) (length body)"
      "piece = py_strip (py_slice body start stop)" "nxt = start + (tc_chunk_size tc - tc_chunk_overlap tc)"
      "found = (if piece \<noteq> [] then [make_chunk d idx piece start stop] else [])" by blast
    have pos: "tc_chunk_overlap tc < tc_chunk_size tc" using assms by (simp add: valid_chunker_def)
    have here: "\<forall>c\<in>set found. cut_from tc d body c" "map dc_chunk_index found = [idx ..< idx + length found]"
      using True pos cut_from_make[of start stop body tc d idx] by (auto simp: make_chunk_def defs)
    have covered: "\<exists>c\<in>set found. \<exists>a b. window_of c a b \<and> a \<le> p \<and> p < b"
      if "start \<le> p" "p < stop" "\<not> py_space (body ! p)" for p
    proof -
      have "p < length body" using that(2) by (simp add: defs)
      then have "found = [make_chunk d idx piece start stop]"
        using slice_has_nonspace[of start p stop body] that by (simp add: defs(2,4))
      then show ?thesis using that window_of_make[of d idx piece start stop] by auto
    qed
    have unfold: "chunk_loop tc d body start idx acc =
        (if stop = length body then Some (acc @ found)
         else chunk_loop tc d body nxt (idx + length found) (acc @ found))"
      using True by (subst chunk_loop.simps) (simp add: Let_def defs)
    show ?thesis
    proof (cases "stop = length body")
      case stop: True
      then show ?thesis using here covered unfold by (intro exI[of _ found]) auto
    next
      case False
      have "length body - nxt < length body - start" using True pos by (simp add: defs)
      from less[OF this, of "idx + length found" "acc @ found"] obtain cs
        where cs: "chunk_loop tc d body nxt (idx + length found) (acc @ found) = Some ((acc @ found) @ cs)"
        "map dc_chunk_index cs = [idx + length found ..< idx + length found + length cs]"
        "\<forall>c\<in>set cs. cut_from tc d body c"
        "\<forall>p. nxt \<le> p \<longrightarrow> p < length body \<longrightarrow> \<not> py_space (body ! p) \<longrightarrow>
           (\<exists>c\<in>set cs. \<exists>a b. window_of c a b \<and> a \<le> p \<and> p < b)" by blast
      have "map dc_chunk_index (found @ cs) = [idx ..< idx + length (found @ cs)]"
        using here(2) cs(2) upt_add_eq_append[of idx "idx + length found" "length cs"] by (simp add: add.assoc)
      moreover have "\<exists>c\<in>set (found @ cs). \<exists>a b. window_of c a b \<and> a \<le> p \<and> p < b"
        if "start \<le> p" "p < length body" "\<not> py_space (body ! p)" for p
      proof (cases "p < stop")
        case True
        then show ?thesis using covered[of p] that by auto
      next
        case False
        then have "nxt \<le> p" using that(2) by (auto simp: defs)
        then show ?thesis using cs(4)[rule_format, OF _ that(2,3)] by (auto simp: bex_Un)
      qed
      moreover have "\<forall>c\<in>set (found @ cs). cut_from tc d body c" using here(1) cs(3) by auto
      moreover have "chunk_loop tc d body start idx acc = Some (acc @ found @ cs)"
        using unfold False cs(1) by simp
      ultimately show ?thesis by blast
    qed
  next
    case False
    then show ?thesis by (intro exI[of _ "[]"]) (subst chunk_loop.simps, simp)
  qed
qed

lemma chunk_document_facts:
  assumes "new_chunker chunk_size chunk_overlap = Inr tc"
  shows "\<exists>cs. chunk_document tc d = Some cs
    \<and> (\<forall>c\<in>set cs. dc_content c \<noteq> [] \<and> int (length (dc_content c)) \<le> chunk_size)
    \<and> map dc_chunk_index cs = [0 ..< length cs] \<and> distinct (map dc_id cs)
    \<and> (\<forall>p < length (py_strip (doc_content d)). \<not> py_space (py_strip (doc_content d) ! p) \<longrightarrow>
         (\<exists>c\<in>set cs. \<exists>a b. window_of c a b \<and> a \<le> p \<and> p < b))"
proof -
  let ?body = "py_strip (doc_content d)"
  have size: "int (tc_chunk_size tc) = chunk_size" "0 < tc_chunk_size tc"
    using assms by (auto simp: new_chunker_def split: if_splits)
  obtain cs where cs: "chunk_document tc d = Some cs" "map dc_chunk_index cs = [0 ..< length cs]"
    and ids: "\<forall>c\<in>set cs. dc_id c = doc_id d @ ''_chunk_'' @ show_nat (dc_chunk_index c)"
    and len: "\<forall>c\<in>set cs. dc_content c \<noteq> [] \<and> length (dc_content c) \<le> tc_chunk_size tc"
    and cover: "\<forall>p < length ?body. \<not> py_space (?body ! p) \<longrightarrow> (\<exists>c\<in>set cs. \<exists>a b. window_of c a b \<and> a \<le> p \<and> p < b)"
  proof (cases "length ?body \<le> tc_chunk_size tc")
    case True
    show ?thesis
    proof (cases "?body = []")
      case False
      have "chunk_document tc d = Some [make_chunk d 0 ?body 0 (length ?body)]"
        using True False by (simp add: chunk_document_def Let_def)
      then show ?thesis
        using that[of "[make_chunk d 0 ?body 0 (length ?body)]"] True False
          window_of_make[of d 0 ?body 0 "length ?body"] by (fastforce simp: make_chunk_def)
    qed (use that[of "[]"] in \<open>simp add: chunk_document_def Let_def\<close>)
  next
    case False
    then have "chunk_document tc d = chunk_loop tc d ?body 0 0 []"
      by (auto simp: chunk_document_def Let_def)
    with chunk_loop_total[OF new_chunker_valid[OF assms], of d ?body 0 0 "[]"] obtain cs
      where "chunk_document tc d = Some cs" "map dc_chunk_index cs = [0 ..< length cs]"
        and cut: "\<forall>c\<in>set cs. cut_from tc d ?body c"
        and cover: "\<forall>p < length ?body. \<not> py_space (?body ! p) \<longrightarrow> (\<exists>c\<in>set cs. \<exists>a b. window_of c a b \<and> a \<le> p \<and> p < b)"
      by auto
    moreover have "dc_id c = doc_id d @ ''_chunk_'' @ show_nat (dc_chunk_index c)
        \<and> dc_content c \<noteq> [] \<and> length (dc_content c) \<le> tc_chunk_size tc" if "c \<in> set cs" for c
      using cut_from_content cut that by blast
    ultimately show ?thesis using that[of cs] by blast
  qed
  have "map dc_id cs = map (\<lambda>i. doc_id d @ ''_chunk_'' @ show_nat i) (map dc_chunk_index cs)"
    using ids by simp
  then have "distinct (map dc_id cs)" by (simp add: cs(2) distinct_map inj_on_def)
  then show ?thesis using cs len cover size by fastforce
qed



end
