(* ===== verification/Vector_Store.thy ===== *)
theory Vector_Store
  imports Chunking
begin

text \<open>
  The vector store and the semantic document store (\<open>retrieval/vector_store.py\<close>,
  \<open>retrieval/faiss_store.py\<close>). The index library, the array library and the embedding provider are
  parameters; a directory holds the two files of a saved store, the metadata file as the JSON value
  it contains.
\<close>

section \<open>Libraries the store calls\<close>

text \<open>
  \<open>'v\<close> is an embedding, \<open>'i\<close> an index, \<open>'b\<close> the bytes of an index file. \<open>vl_shape\<close> is
  \<open>np.array(rows).shape[1]\<close>, \<open>vl_search\<close> the zipped first rows of scores and positions.
\<close>

record ('v, 'i, 'b) vector_lib =
  vl_shape :: "'v list \<Rightarrow> exc + nat"
  vl_normalize :: "'v list \<Rightarrow> 'v list"
  vl_new :: "nat \<Rightarrow> 'i"
  vl_add :: "'v list \<Rightarrow> 'i \<Rightarrow> 'i"
  vl_ntotal :: "'i \<Rightarrow> nat"
  vl_search :: "'v \<Rightarrow> nat \<Rightarrow> 'i \<Rightarrow> (rat \<times> int) list"
  vl_write :: "'i \<Rightarrow> 'b"
  vl_read :: "'b \<Rightarrow> exc + 'i"
  vl_installed :: bool

section \<open>FAISSVectorStore\<close>

record 'i FAISSVectorStore =
  vs_dimension :: nat
  vs_index :: 'i
  vs_chunks :: "DocumentChunk list"

definition new_vector_store :: "('v, 'i, 'b) vector_lib \<Rightarrow> int \<Rightarrow> exc + 'i FAISSVectorStore" where
  "new_vector_store vl dimension =
     (if dimension \<le> 0 then Inl (value_error ''dimension must be greater than 0'')
      else if \<not> vl_installed vl then
        Inl (mk_ConfigurationError (''faiss-cpu is not installed. Please run '' @ [CHR 0x27] @ ''pip install faiss-cpu'' @ [CHR 0x27] @ ''.'')
               ''DEPENDENCY_MISSING'' False [])
      else Inr \<lparr>vs_dimension = nat dimension, vs_index = vl_new vl (nat dimension), vs_chunks = []\<rparr>)"

definition dimension_error :: "string \<Rightarrow> nat \<Rightarrow> nat \<Rightarrow> exc" where
  "dimension_error what got expected =
     value_error (what @ show_nat got @ '' does not match index dimension '' @ show_nat expected)"

definition add_chunks ::
    "('v, 'i, 'b) vector_lib \<Rightarrow> DocumentChunk list \<Rightarrow> 'v list \<Rightarrow> 'i FAISSVectorStore
     \<Rightarrow> exc option \<times> 'i FAISSVectorStore" where
  "add_chunks vl chunks embeddings vs =
     (if chunks = [] then (None, vs)
      else if length chunks \<noteq> length embeddings then
        (Some (value_error ''Number of chunks must match number of embeddings''), vs)
      else case vl_shape vl embeddings of
        Inl e \<Rightarrow> (Some e, vs)
      | Inr n \<Rightarrow>
          if n \<noteq> vs_dimension vs then (Some (dimension_error ''Embedding dimension '' n (vs_dimension vs)), vs)
          else (None, vs\<lparr>vs_index := vl_add vl (vl_normalize vl embeddings) (vs_index vs),
                         vs_chunks := vs_chunks vs @ chunks\<rparr>))"

definition norm_score :: "rat \<Rightarrow> rat" where
  "norm_score raw_score = max 0 (min 1 ((raw_score + 1) / 2))"

definition scored_chunk :: "DocumentChunk \<Rightarrow> rat \<Rightarrow> ScoredDocument" where
  "scored_chunk c raw_score =
     \<lparr>sd_document =
        \<lparr>doc_id = dc_id c, doc_content = dc_content c,
         doc_metadata = dict_update (dc_metadata c)
           [(''parent_doc_id'', PStr (dc_document_id c)), (''chunk_index'', PInt (int (dc_chunk_index c)))]\<rparr>,
      sd_score = norm_score raw_score\<rparr>"

text \<open>The loop over the candidates, with \<open>results\<close>; it breaks once \<open>top_k\<close> results are found.\<close>

fun collect ::
    "DocumentChunk list \<Rightarrow> dict option \<Rightarrow> int \<Rightarrow> (rat \<times> int) list \<Rightarrow> ScoredDocument list
     \<Rightarrow> ScoredDocument list" where
  "collect chunks filters top_k [] results = results"
| "collect chunks filters top_k ((raw_score, idx) # rest) results =
     (if idx < 0 \<or> idx \<ge> int (length chunks) then collect chunks filters top_k rest results
      else if \<not> match_filters filters (dc_metadata (chunks ! nat idx)) then collect chunks filters top_k rest results
      else let results' = results @ [scored_chunk (chunks ! nat idx) raw_score] in
        if int (length results') \<ge> top_k then results' else collect chunks filters top_k rest results')"

definition candidate_count :: "nat \<Rightarrow> int \<Rightarrow> dict option \<Rightarrow> nat" where
  "candidate_count ntotal top_k filters =
     min ntotal (nat (if dict_or_empty filters \<noteq> [] then max (top_k * 5) 20 else top_k))"

definition similarity_search ::
    "('v, 'i, 'b) vector_lib \<Rightarrow> 'v \<Rightarrow> int \<Rightarrow> dict option \<Rightarrow> 'i FAISSVectorStore
     \<Rightarrow> exc + ScoredDocument list" where
  "similarity_search vl query_embedding top_k filters vs =
     (if vl_ntotal vl (vs_index vs) = 0 \<or> vs_chunks vs = [] \<or> top_k \<le> 0 then Inr []
      else case vl_shape vl [query_embedding] of
        Inl e \<Rightarrow> Inl e
      | Inr n \<Rightarrow>
          if n \<noteq> vs_dimension vs then Inl (dimension_error ''Query embedding dimension '' n (vs_dimension vs))
          else Inr (collect (vs_chunks vs) filters top_k
            (vl_search vl (hd (vl_normalize vl [query_embedding]))
              (candidate_count (vl_ntotal vl (vs_index vs)) top_k filters) (vs_index vs)) []))"

definition count_chunks :: "'i FAISSVectorStore \<Rightarrow> nat" where
  "count_chunks vs = length (vs_chunks vs)"

definition clear_chunks :: "('v, 'i, 'b) vector_lib \<Rightarrow> 'i FAISSVectorStore \<Rightarrow> 'i FAISSVectorStore" where
  "clear_chunks vl vs = vs\<lparr>vs_index := vl_new vl (vs_dimension vs), vs_chunks := []\<rparr>"

section \<open>Saving and loading\<close>

text \<open>
  What the metadata file holds: a JSON value, or text that is none (\<open>json.dump\<close> raises
  \<open>TypeError\<close> at a \<open>datetime\<close> after part of the text is written).
\<close>

datatype metadata_file = Json pyval | Not_json string

record 'b directory =
  index_file :: "'b option"
  metadata_file :: "metadata_file option"

primrec jsonable :: "pyval \<Rightarrow> bool" where
  "jsonable PNone = True"
| "jsonable (PBool b) = True"
| "jsonable (PInt i) = True"
| "jsonable (PFloat r) = True"
| "jsonable (PStr s) = True"
| "jsonable (PTime t) = False"
| "jsonable (PList vs) = list_all id (map jsonable vs)"
| "jsonable (PDict d) = list_all snd (map (map_prod id jsonable) d)"

definition chunk_dump :: "DocumentChunk \<Rightarrow> pyval" where
  "chunk_dump c =
     PDict [(''id'', PStr (dc_id c)), (''document_id'', PStr (dc_document_id c)),
            (''chunk_index'', PInt (int (dc_chunk_index c))), (''content'', PStr (dc_content c)),
            (''metadata'', PDict (dc_metadata c))]"

text \<open>\<open>DocumentChunk.model_validate\<close>; \<open>to_int\<close> is the coercion of the validation library.\<close>

definition chunk_validate :: "(pyval \<Rightarrow> int option) \<Rightarrow> pyval \<Rightarrow> exc + DocumentChunk" where
  "chunk_validate to_int v =
     (case v of
        PDict d \<Rightarrow>
          (case (dget d ''id'' PNone, dget d ''document_id'' PNone, to_int (dget d ''chunk_index'' PNone),
                 dget d ''content'' PNone, dget d ''metadata'' (PDict [])) of
             (PStr i, PStr doc, Some n, PStr c, PDict m) \<Rightarrow>
               if n < 0 then Inl (validation_failure ''chunk_index'')
               else if c = [] then Inl (validation_failure ''content'')
               else Inr \<lparr>dc_id = i, dc_document_id = doc, dc_chunk_index = nat n, dc_content = c, dc_metadata = m\<rparr>
           | _ \<Rightarrow> Inl (validation_failure ''DocumentChunk''))
      | _ \<Rightarrow> Inl (validation_failure ''DocumentChunk''))"

fun validate_all :: "(pyval \<Rightarrow> int option) \<Rightarrow> pyval list \<Rightarrow> exc + DocumentChunk list" where
  "validate_all to_int [] = Inr []"
| "validate_all to_int (v # vs) =
     (case chunk_validate to_int v of
        Inl e \<Rightarrow> Inl e
      | Inr c \<Rightarrow> (case validate_all to_int vs of Inl e \<Rightarrow> Inl e | Inr cs \<Rightarrow> Inr (c # cs)))"

definition metadata_payload :: "'i FAISSVectorStore \<Rightarrow> pyval" where
  "metadata_payload vs =
     PDict [(''dimension'', PInt (int (vs_dimension vs))), (''count'', PInt (int (length (vs_chunks vs)))),
            (''chunks'', PList (map chunk_dump (vs_chunks vs)))]"

definition save_store ::
    "('v, 'i, 'b) vector_lib \<Rightarrow> 'i FAISSVectorStore \<Rightarrow> 'b directory \<Rightarrow> exc option \<times> 'b directory" where
  "save_store vl vs dir =
     (let dir1 = dir\<lparr>index_file := Some (vl_write vl (vs_index vs))\<rparr> in
      if jsonable (metadata_payload vs) then (None, dir1\<lparr>metadata_file := Some (Json (metadata_payload vs))\<rparr>)
      else (Some (mk_Foreign ''TypeError'' ''Object of type datetime is not JSON serializable''),
            dir1\<lparr>metadata_file := Some (Not_json ''partial'')\<rparr>))"

definition load_failed :: "string \<Rightarrow> string \<Rightarrow> exc" where
  "load_failed msg code = mk_RetrievalError msg code False []"

text \<open>\<open>raise e\<close> for an error of the framework's retrieval class, the wrapped error otherwise.\<close>

definition load_error :: "string \<Rightarrow> exc \<Rightarrow> exc" where
  "load_error directory e =
     (if isinstance e RetrievalError then e
      else load_failed (''Failed to load vector store from '' @ directory @ '': '' @ e_message e) ''VECTOR_STORE_LOAD_ERROR'')"

text \<open>The body of the \<open>try\<close> block.\<close>

definition load_files ::
    "('v, 'i, 'b) vector_lib \<Rightarrow> (pyval \<Rightarrow> int option) \<Rightarrow> nat \<Rightarrow> 'b \<Rightarrow> metadata_file \<Rightarrow> exc + 'i \<times> DocumentChunk list" where
  "load_files vl to_int dimension bytes meta =
     (case meta of
        Not_json e \<Rightarrow> Inl (mk_Foreign ''JSONDecodeError'' e)
      | Json (PDict metadata) \<Rightarrow>
          let loaded = dget metadata ''dimension'' PNone in
          if \<not> py_eq loaded (PInt (int dimension)) then
            Inl (load_failed (''Loaded index dimension '' @ py_str loaded @ '' does not match configured dimension ''
                   @ show_nat dimension) ''VECTOR_STORE_DIMENSION_MISMATCH'')
          else (case vl_read vl bytes of
             Inl e \<Rightarrow> Inl e
           | Inr ix \<Rightarrow>
               (case py_iter (dget metadata ''chunks'' (PList [])) of
                  Inl e \<Rightarrow> Inl e
                | Inr vs \<Rightarrow>
                    (case validate_all to_int vs of
                       Inl e \<Rightarrow> Inl e
                     | Inr cs \<Rightarrow>
                         if vl_ntotal vl ix \<noteq> length cs then
                           Inl (load_failed (''Corrupted vector store: index size ('' @ show_nat (vl_ntotal vl ix)
                                  @ '') does not match metadata count ('' @ show_nat (length cs) @ '')'')
                                ''VECTOR_STORE_CORRUPTED'')
                         else Inr (ix, cs))))
      | Json v \<Rightarrow> Inl (mk_Foreign ''AttributeError'' ''object has no attribute get''))"

definition load_store ::
    "('v, 'i, 'b) vector_lib \<Rightarrow> (pyval \<Rightarrow> int option) \<Rightarrow> string \<Rightarrow> 'b directory \<Rightarrow> 'i FAISSVectorStore
     \<Rightarrow> exc option \<times> 'i FAISSVectorStore" where
  "load_store vl to_int directory dir vs =
     (case (index_file dir, metadata_file dir) of
        (Some bytes, Some meta) \<Rightarrow>
          (case load_files vl to_int (vs_dimension vs) bytes meta of
             Inl e \<Rightarrow> (Some (load_error directory e), vs)
           | Inr (ix, cs) \<Rightarrow> (None, vs\<lparr>vs_index := ix, vs_chunks := cs\<rparr>))
      | _ \<Rightarrow> (Some (load_failed (''Missing index or metadata files in directory: '' @ directory)
                       ''VECTOR_STORE_LOAD_FAILED''), vs))"

section \<open>FAISSDocumentStore (retrieval/faiss_store.py)\<close>

record ('v, 'i, 'b) FAISSDocumentStore =
  ds_embed_text :: "string \<Rightarrow> exc + 'v"
  ds_embed_documents :: "string list \<Rightarrow> exc + 'v list"
  ds_chunker :: SimpleTextChunker
  ds_lib :: "('v, 'i, 'b) vector_lib"

text \<open>\<open>None\<close>: the chunker does not return.\<close>

definition ds_add_documents ::
    "('v, 'i, 'b) FAISSDocumentStore \<Rightarrow> Document list \<Rightarrow> 'i FAISSVectorStore
     \<Rightarrow> (exc option \<times> 'i FAISSVectorStore) option" where
  "ds_add_documents ds documents vs =
     (if documents = [] then Some (None, vs)
      else map_option
        (\<lambda>chunks. if chunks = [] then (None, vs)
           else case ds_embed_documents ds (map dc_content chunks) of
             Inl e \<Rightarrow> (Some e, vs)
           | Inr embeddings \<Rightarrow> add_chunks (ds_lib ds) chunks embeddings vs)
        (chunk_documents (ds_chunker ds) documents))"

definition ds_retrieve ::
    "('v, 'i, 'b) FAISSDocumentStore \<Rightarrow> RetrievalQuery \<Rightarrow> 'i FAISSVectorStore \<Rightarrow> exc + RetrievalResult" where
  "ds_retrieve ds query vs =
     (if rq_query query = [] \<or> py_strip (rq_query query) = [] then
        Inr \<lparr>rr_query = rq_query query, rr_matches = [], rr_total_found = 0\<rparr>
      else case ds_embed_text ds (rq_query query) of
        Inl e \<Rightarrow> Inl e
      | Inr v \<Rightarrow>
          (case similarity_search (ds_lib ds) v (int (rq_top_k query)) (rq_filters query) vs of
             Inl e \<Rightarrow> Inl e
           | Inr ms \<Rightarrow> Inr \<lparr>rr_query = rq_query query, rr_matches = ms, rr_total_found = length ms\<rparr>))"

section \<open>Searching\<close>

text \<open>A result presents an indexed chunk that passes the filters.\<close>

definition presents :: "DocumentChunk list \<Rightarrow> dict option \<Rightarrow> ScoredDocument \<Rightarrow> bool" where
  "presents chunks filters m \<longleftrightarrow>
     (\<exists>c\<in>set chunks. doc_id (sd_document m) = dc_id c \<and> doc_content (sd_document m) = dc_content c
        \<and> match_filters filters (dc_metadata c)) \<and> 0 \<le> sd_score m \<and> sd_score m \<le> 1"

lemma presents_scored:
  "c \<in> set chunks \<Longrightarrow> match_filters filters (dc_metadata c) \<Longrightarrow> presents chunks filters (scored_chunk c raw)"
  unfolding presents_def by (intro conjI bexI[of _ c]) (simp_all add: scored_chunk_def norm_score_def)

lemma collect_sound:
  assumes "list_all (presents chunks filters) results" "int (length results) < top_k"
  shows "list_all (presents chunks filters) (collect chunks filters top_k cands results)
    \<and> int (length (collect chunks filters top_k cands results)) \<le> top_k"
  using assms
proof (induction chunks filters top_k cands results rule: collect.induct)
  case (2 chunks filters top_k raw idx rest results)
  show ?case
  proof (cases "idx < 0 \<or> idx \<ge> int (length chunks) \<or> \<not> match_filters filters (dc_metadata (chunks ! nat idx))")
    case False
    then have "presents chunks filters (scored_chunk (chunks ! nat idx) raw)"
      by (intro presents_scored) auto
    then show ?thesis using 2 False by (auto simp: Let_def)
  qed (use 2 in auto)
qed auto

text \<open>A similarity search returns at most \<open>top_k\<close> results (none for a \<open>top_k\<close> below one), each the
  presentation of an indexed chunk that satisfies the metadata filters, with a score between 0 and 1.\<close>

theorem search_results_sound:
  assumes "similarity_search vl v top_k filters vs = Inr rs"
  shows "int (length rs) \<le> max 0 top_k \<and> (\<forall>r\<in>set rs. presents (vs_chunks vs) filters r)"
proof (cases "0 < top_k")
  case True
  then show ?thesis
    using assms collect_sound[of "vs_chunks vs" filters "[]" top_k]
    by (auto simp: similarity_search_def list_all_iff split: if_splits sum.splits)
qed (use assms in \<open>auto simp: similarity_search_def\<close>)

section \<open>Saving and loading again\<close>

definition synced :: "('v, 'i, 'b) vector_lib \<Rightarrow> 'i FAISSVectorStore \<Rightarrow> bool" where
  "synced vl vs \<longleftrightarrow> vl_ntotal vl (vs_index vs) = length (vs_chunks vs) \<and> (\<forall>c\<in>set (vs_chunks vs). dc_content c \<noteq> [])"

text \<open>What the store relies on in the index library: adding rows adds as many, a new index is empty.\<close>

definition counts_rows :: "('v, 'i, 'b) vector_lib \<Rightarrow> bool" where
  "counts_rows vl \<longleftrightarrow>
     (\<forall>rows ix. vl_ntotal vl (vl_add vl rows ix) = vl_ntotal vl ix + length rows)
     \<and> (\<forall>n. vl_ntotal vl (vl_new vl n) = 0) \<and> (\<forall>rows. length (vl_normalize vl rows) = length rows)"

lemma synced_add:
  assumes "counts_rows vl" "synced vl vs" "\<forall>c\<in>set chunks. dc_content c \<noteq> []"
    and "add_chunks vl chunks embeddings vs = (e, vs')"
  shows "synced vl vs'"
  using assms by (auto simp: counts_rows_def synced_def add_chunks_def split: if_splits sum.splits)

lemma synced_new: "counts_rows vl \<Longrightarrow> new_vector_store vl n = Inr vs \<Longrightarrow> synced vl vs"
  by (auto simp: counts_rows_def synced_def new_vector_store_def split: if_splits)

lemma synced_clear: "counts_rows vl \<Longrightarrow> synced vl (clear_chunks vl vs)"
  by (simp add: counts_rows_def synced_def clear_chunks_def)

lemma synced_load:
  assumes "synced vl vs" "load_store vl to_int p dir vs = (e, vs')"
  shows "synced vl vs'"
proof -
  have valid: "chunk_validate to_int v = Inr c \<Longrightarrow> dc_content c \<noteq> []" for v c
    by (auto simp: chunk_validate_def split: pyval.splits if_splits option.splits)
  have all: "validate_all to_int us = Inr cs \<Longrightarrow> c \<in> set cs \<Longrightarrow> dc_content c \<noteq> []" for us cs c
    by (induction us arbitrary: cs) (auto dest: valid split: sum.splits)
  show ?thesis
    using assms by (auto simp: load_store_def load_files_def synced_def Let_def dest: all
        split: option.splits sum.splits metadata_file.splits pyval.splits if_splits)
qed

lemma chunk_roundtrip:
  assumes "\<forall>i. to_int (PInt i) = Some i" "dc_content c \<noteq> []"
  shows "chunk_validate to_int (chunk_dump c) = Inr c"
  using assms by (simp add: chunk_validate_def chunk_dump_def dget_def)

lemma validate_dumps:
  "\<forall>i. to_int (PInt i) = Some i \<Longrightarrow> \<forall>c\<in>set cs. dc_content c \<noteq> [] \<Longrightarrow>
   validate_all to_int (map chunk_dump cs) = Inr cs"
  by (induction cs) (simp_all add: chunk_roundtrip)

text \<open>C20: a vector store that was saved without an error is read back exactly by a store of the same
  dimension; a store of another dimension refuses the files and stays as it is.\<close>

theorem saved_store_reloads:
  assumes "synced vl vs" "save_store vl vs dir = (None, dir')"
    and "vl_read vl (vl_write vl (vs_index vs)) = Inr (vs_index vs)" "\<forall>i. to_int (PInt i) = Some i"
  shows "if vs_dimension vs' = vs_dimension vs then load_store vl to_int p dir' vs' = (None, vs)
    else \<exists>e. load_store vl to_int p dir' vs' = (Some e, vs') \<and> e_code e = ''VECTOR_STORE_DIMENSION_MISMATCH''"
proof -
  have dir: "index_file dir' = Some (vl_write vl (vs_index vs))" "metadata_file dir' = Some (Json (metadata_payload vs))"
    using assms(2) by (auto simp: save_store_def Let_def split: if_splits)
  have files: "load_files vl to_int n (vl_write vl (vs_index vs)) (Json (metadata_payload vs)) =
     (if n = vs_dimension vs then Inr (vs_index vs, vs_chunks vs)
      else Inl (load_failed (''Loaded index dimension '' @ py_str (PInt (int (vs_dimension vs)))
             @ '' does not match configured dimension '' @ show_nat n) ''VECTOR_STORE_DIMENSION_MISMATCH''))" for n
    using assms(1,3) validate_dumps[OF assms(4), of "vs_chunks vs"]
    by (auto simp: load_files_def metadata_payload_def dget_def py_iter_def synced_def Let_def)
  show ?thesis
    using dir files by (auto simp: load_store_def load_error_def load_failed_def exc_defs isinstance_refl)
qed

text \<open>Ingesting keeps index and chunk list in step; a chunker that was accepted always returns.\<close>

lemma chunk_documents_nonempty:
  assumes "new_chunker a b = Inr tc"
  shows "\<exists>cs. chunk_documents tc ds = Some cs \<and> (\<forall>c\<in>set cs. dc_content c \<noteq> [])"
proof (induction ds)
  case (Cons d ds)
  from chunk_document_facts[OF assms, of d] obtain cs where "chunk_document tc d = Some cs" "\<forall>c\<in>set cs. dc_content c \<noteq> []"
    by blast
  with Cons show ?case by auto
qed simp

lemma synced_add_documents:
  assumes "counts_rows (ds_lib ds)" "synced (ds_lib ds) vs" "new_chunker a b = Inr (ds_chunker ds)"
  shows "\<exists>e vs'. ds_add_documents ds documents vs = Some (e, vs') \<and> synced (ds_lib ds) vs'"
proof -
  obtain cs where cs: "chunk_documents (ds_chunker ds) documents = Some cs" "\<forall>c\<in>set cs. dc_content c \<noteq> []"
    using chunk_documents_nonempty[OF assms(3)] by blast
  show ?thesis
  proof (cases "ds_embed_documents ds (map dc_content cs)")
    case (Inr em)
    obtain e vs' where "add_chunks (ds_lib ds) cs em vs = (e, vs')" by (rule prod.exhaust)
    with synced_add[OF assms(1,2) cs(2) this] assms(2) cs(1) Inr show ?thesis
      by (auto simp: ds_add_documents_def)
  qed (use assms(2) cs(1) in \<open>auto simp: ds_add_documents_def\<close>)
qed

section \<open>Witnesses\<close>

text \<open>An index that is the list of its rows.\<close>

definition dot :: "rat list \<Rightarrow> rat list \<Rightarrow> rat" where
  "dot v w = sum_list (map (\<lambda>(x, y). x * y) (zip v w))"

definition row_lib :: "(rat list, rat list list, rat list list) vector_lib" where
  "row_lib =
     \<lparr>vl_shape = (\<lambda>rows. Inr (length (hd rows))), vl_normalize = (\<lambda>rows. rows), vl_new = (\<lambda>n. []),
      vl_add = (\<lambda>rows ix. ix @ rows), vl_ntotal = length,
      vl_search = (\<lambda>q k ix. take k (map (\<lambda>i. (dot q (ix ! i), int i)) [0 ..< length ix])),
      vl_write = (\<lambda>ix. ix), vl_read = Inr, vl_installed = True\<rparr>"

definition ex_chunk :: "nat \<Rightarrow> string \<Rightarrow> DocumentChunk" where
  "ex_chunk i s = make_chunk \<lparr>doc_id = ''d'', doc_content = s, doc_metadata = [(''lang'', PStr s)]\<rparr> i s 0 (length s)"

definition ex_vectors :: "rat list list FAISSVectorStore" where
  "ex_vectors = \<lparr>vs_dimension = 2, vs_index = [[1, 0], [0, 1]], vs_chunks = [ex_chunk 0 ''en'', ex_chunk 1 ''de'']\<rparr>"

theorem search_results_sound_witness:
  "\<exists>rs. similarity_search row_lib [1, 0] 1 (Some [(''lang'', PStr ''de'')]) ex_vectors = Inr rs
    \<and> int (length rs) \<le> 1 \<and> (\<forall>r\<in>set rs. presents (vs_chunks ex_vectors) (Some [(''lang'', PStr ''de'')]) r)"
proof -
  obtain rs where rs: "similarity_search row_lib [1, 0] 1 (Some [(''lang'', PStr ''de'')]) ex_vectors = Inr rs"
    by (simp add: similarity_search_def row_lib_def ex_vectors_def)
  then show ?thesis using search_results_sound[OF rs] by auto
qed

theorem saved_store_reloads_witness:
  "\<exists>dir. save_store row_lib ex_vectors \<lparr>index_file = None, metadata_file = None\<rparr> = (None, dir)
    \<and> load_store row_lib (\<lambda>v. case v of PInt i \<Rightarrow> Some i | _ \<Rightarrow> None) ''p'' dir (ex_vectors\<lparr>vs_index := [], vs_chunks := []\<rparr>)
      = (None, ex_vectors)"
proof -
  have "jsonable (metadata_payload ex_vectors)" by code_simp
  then obtain dir where dir: "save_store row_lib ex_vectors \<lparr>index_file = None, metadata_file = None\<rparr> = (None, dir)"
    by (simp add: save_store_def Let_def)
  have "synced row_lib ex_vectors"
    by (simp add: synced_def row_lib_def ex_vectors_def ex_chunk_def make_chunk_def)
  moreover have "vl_read row_lib (vl_write row_lib ix) = Inr ix" for ix by (simp add: row_lib_def)
  ultimately show ?thesis
    using saved_store_reloads[OF _ dir, of "\<lambda>v. case v of PInt i \<Rightarrow> Some i | _ \<Rightarrow> None"
        "ex_vectors\<lparr>vs_index := [], vs_chunks := []\<rparr>" "''p''"] dir by simp
qed

end
