(* ===== verification/Event_Service.thy ===== *)
theory Event_Service
  imports Backend_Theorems
begin

text \<open>
  The application service (\<open>services/orchestration_service.py\<close>): submissions and queries forwarded to
  the execution engine, and the event channels of each run. A channel is a bounded queue per
  subscriber; a subscription is a generator, modelled by what it yields when it starts and each time
  its wait on the queue ends, by an event or by the timeout.
\<close>

section \<open>Events and channels\<close>

record event =
  ev_event :: string
  ev_run_id :: string
  ev_timestamp :: time
  ev_data :: dict

definition CRITICAL_EVENTS :: "string list" where
  "CRITICAL_EVENTS =
     [''run_started'', ''human_review_required'', ''human_decision_submitted'', ''run_completed'',
      ''run_failed'', ''run_cancelled'', ''stream_closed'']"

definition channel_size :: nat where
  "channel_size = 100"

text \<open>The queues per run, each under the identity of its subscriber; the next unused identity.\<close>

record channels =
  ch_queues :: "(string \<times> (nat \<times> event list) list) list"
  ch_next :: nat

definition no_channels :: channels where
  "no_channels = \<lparr>ch_queues = [], ch_next = 0\<rparr>"

text \<open>One turn of the loop of \<open>_publish_event\<close>.\<close>

definition put_event :: "event \<Rightarrow> event list \<Rightarrow> event list" where
  "put_event e q =
     (if channel_size \<le> length q then
        if ev_event e \<in> set CRITICAL_EVENTS then tl q @ [e] else q
      else q @ [e])"

definition publish_to_channels :: "time \<Rightarrow> string \<Rightarrow> string \<Rightarrow> dict \<Rightarrow> channels \<Rightarrow> channels" where
  "publish_to_channels now run_id event_type data ch =
     (let e = \<lparr>ev_event = event_type, ev_run_id = run_id, ev_timestamp = now, ev_data = data\<rparr>
      in ch\<lparr>ch_queues := upd_key (map (map_prod id (put_event e))) run_id (ch_queues ch)\<rparr>)"

section \<open>Subscriptions\<close>

definition sub_error :: "time \<Rightarrow> string \<Rightarrow> string \<Rightarrow> event" where
  "sub_error now run_id msg =
     \<lparr>ev_event = ''error'', ev_run_id = run_id, ev_timestamp = now, ev_data = [(''message'', PStr msg)]\<rparr>"

definition subscribers :: "channels \<Rightarrow> string \<Rightarrow> (nat \<times> event list) list" where
  "subscribers ch run_id = dget (ch_queues ch) run_id []"

text \<open>The \<open>finally\<close> block: the queue is removed, and the entry of the run with its last queue.\<close>

definition unsubscribe :: "string \<Rightarrow> nat \<Rightarrow> channels \<Rightarrow> channels" where
  "unsubscribe run_id sid ch =
     (case map_of (ch_queues ch) run_id of
        None \<Rightarrow> ch
      | Some qs \<Rightarrow>
          if sid \<notin> set (dkeys qs) then ch
          else let rest = AList.delete sid qs in
            if rest = [] then ch\<lparr>ch_queues := AList.delete run_id (ch_queues ch)\<rparr>
            else ch\<lparr>ch_queues := AList.update run_id rest (ch_queues ch)\<rparr>)"

definition status_event :: "time \<Rightarrow> string \<Rightarrow> OrchestrationState \<Rightarrow> event" where
  "status_event now run_id s =
     \<lparr>ev_event = ''run_status'', ev_run_id = run_id, ev_timestamp = now,
      ev_data = [(''status'', PStr (execution_status_value (s_status s))),
                 (''current_step'', PInt (int (s_current_step s))), (''requires_human'', PBool (s_requires_human s))]\<rparr>"

definition closed_event :: "time \<Rightarrow> string \<Rightarrow> event" where
  "closed_event now run_id =
     \<lparr>ev_event = ''stream_closed'', ev_run_id = run_id, ev_timestamp = now,
      ev_data = [(''message'', PStr ''Run is in terminal state.'')]\<rparr>"

text \<open>
  From the first request to the first wait: what is yielded, and the identity under which the
  generator waits, if it goes on. \<open>state\<close> is what \<open>get_state\<close> returned.
\<close>

definition subscribe_begin ::
    "time \<Rightarrow> nat \<Rightarrow> string \<Rightarrow> OrchestrationState option \<Rightarrow> channels \<Rightarrow> event list \<times> nat option \<times> channels" where
  "subscribe_begin now max_subscribers run_id state ch =
     (case state of
        None \<Rightarrow> ([sub_error now run_id (''Run '' @ [CHR 0x27] @ run_id @ [CHR 0x27] @ '' not found.'')], None, ch)
      | Some s \<Rightarrow>
          if length (subscribers ch run_id) \<ge> max_subscribers then
            ([sub_error now run_id
               (''Maximum concurrent SSE subscribers ('' @ show_nat max_subscribers @ '') reached for run ''
                  @ [CHR 0x27] @ run_id @ [CHR 0x27] @ ''.'')], None, ch)
          else
            let sid = ch_next ch;
                ch1 = ch\<lparr>ch_queues := AList.update run_id (subscribers ch run_id @ [(sid, [])]) (ch_queues ch),
                         ch_next := Suc sid\<rparr>
            in if terminal (s_status s)
               then ([status_event now run_id s, closed_event now run_id], None, unsubscribe run_id sid ch1)
               else ([status_event now run_id s], Some sid, ch1))"

text \<open>
  The wait ends with the oldest event of the queue, or by the timeout when there is none; then the
  stored state decides. The flag tells whether the generator goes on.
\<close>

definition ends_stream :: "event \<Rightarrow> bool" where
  "ends_stream e \<longleftrightarrow> ev_event e \<in> {''run_completed'', ''run_failed'', ''run_cancelled''}"

definition subscribe_next ::
    "string \<Rightarrow> nat \<Rightarrow> OrchestrationState option \<Rightarrow> channels \<Rightarrow> event option \<times> bool \<times> channels" where
  "subscribe_next run_id sid state ch =
     (case dget (subscribers ch run_id) sid [] of
        e # q \<Rightarrow>
          let ch1 = ch\<lparr>ch_queues := upd_key (AList.update sid q) run_id (ch_queues ch)\<rparr> in
          if ends_stream e then (Some e, False, unsubscribe run_id sid ch1) else (Some e, True, ch1)
      | [] \<Rightarrow>
          (case state of
             Some s \<Rightarrow> if terminal (s_status s) then (None, False, unsubscribe run_id sid ch) else (None, True, ch)
           | None \<Rightarrow> (None, True, ch)))"

section \<open>Runs\<close>

text \<open>The service starts an engine that is not started; \<open>k_uid k 2\<close> is the new run identifier.\<close>

definition ensure_started :: "'w backend_config \<Rightarrow> 'w backend \<Rightarrow> 'w backend" where
  "ensure_started cfg b = (if \<not> b_is_started b then start cfg b else b)"

definition service_submit_run ::
    "'w backend_config \<Rightarrow> tick \<Rightarrow> run_request \<Rightarrow> 'w backend \<Rightarrow> (exc + ExecutionJob \<times> nat) \<times> 'w backend" where
  "service_submit_run cfg k q b = submit_run cfg k (q\<lparr>rq_run_id := k_uid k 2\<rparr>) (ensure_started cfg b)"

definition service_submit_decision ::
    "'w backend_config \<Rightarrow> tick \<Rightarrow> string \<Rightarrow> HumanDecision \<Rightarrow> 'w backend \<Rightarrow> (exc + ExecutionJob \<times> nat) \<times> 'w backend" where
  "service_submit_decision cfg k run_id d b = submit_resume cfg k run_id d (ensure_started cfg b)"

definition get_pending_human_review :: "OrchestrationState option \<Rightarrow> HumanEscalationRequest option" where
  "get_pending_human_review state =
     (case state of
        None \<Rightarrow> None
      | Some s \<Rightarrow> if s_requires_human s \<and> s_human_requests s \<noteq> [] then Some (last (s_human_requests s)) else None)"

text \<open>What awaiting a future delivers, when it is settled.\<close>

definition await_future :: "heap \<Rightarrow> nat \<Rightarrow> (exc + OrchestrationState) option" where
  "await_future h f =
     (if f < length h then
        (case h ! f of
           Fut_pending \<Rightarrow> None
         | Fut_result s \<Rightarrow> Some (Inr s)
         | Fut_exception e \<Rightarrow> Some (Inl e)
         | Fut_cancelled \<Rightarrow> Some (Inl (mk_Foreign ''CancelledError'' [])))
      else None)"

section \<open>Facts\<close>

definition ch_inv :: "nat \<Rightarrow> channels \<Rightarrow> bool" where
  "ch_inv max_subscribers ch \<longleftrightarrow>
     (\<forall>r qs. map_of (ch_queues ch) r = Some qs \<longrightarrow> qs \<noteq> [] \<and> length qs \<le> max_subscribers
        \<and> distinct (dkeys qs) \<and> (\<forall>(i, q)\<in>set qs. i < ch_next ch \<and> length q \<le> channel_size))"

lemma length_put_event: "length q \<le> channel_size \<Longrightarrow> length (put_event e q) \<le> channel_size"
  by (auto simp: put_event_def channel_size_def)

lemma put_event_cases:
  obtains "put_event x q = q" | "put_event x q = q @ [x]" | "channel_size \<le> length q" "put_event x q = tl q @ [x]"
  by (cases "channel_size \<le> length q"; cases "ev_event x \<in> set CRITICAL_EVENTS") (auto simp: put_event_def)

lemma put_critical: "ev_event x \<in> set CRITICAL_EVENTS \<Longrightarrow> \<exists>pre. put_event x q = pre @ [x]"
  by (auto simp: put_event_def)

lemma ch_inv_publish:
  assumes "ch_inv m ch" shows "ch_inv m (publish_to_channels now r t d ch)"
proof -
  have keys: "dkeys (map (map_prod id g) qs) = dkeys qs" for g :: "event list \<Rightarrow> event list" and qs :: "(nat \<times> event list) list"
    by (simp add: comp_def)
  show ?thesis
    using assms length_put_event
    by (fastforce simp: ch_inv_def publish_to_channels_def Let_def map_of_upd_key keys split: if_splits)
qed

lemma ch_inv_unsubscribe:
  assumes "ch_inv m ch" shows "ch_inv m (unsubscribe r i ch)"
proof (cases "map_of (ch_queues ch) r")
  case (Some qs)
  have sub: "set (AList.delete i qs) \<subseteq> set qs" "length (AList.delete i qs) \<le> length qs"
    "distinct (dkeys qs) \<Longrightarrow> distinct (dkeys (AList.delete i qs))"
    by (auto simp: AList.delete_eq intro: AList.distinct_delete[unfolded AList.delete_eq])
  show ?thesis using assms Some sub
    by (fastforce simp: unsubscribe_def ch_inv_def Let_def split: if_splits)
qed (use assms in \<open>simp add: unsubscribe_def\<close>)

lemma ch_inv_begin:
  assumes "ch_inv m ch" "subscribe_begin now m r state ch = (es, sid, ch')"
  shows "ch_inv m ch'"
proof -
  let ?ch1 = "ch\<lparr>ch_queues := AList.update r (subscribers ch r @ [(ch_next ch, [])]) (ch_queues ch), ch_next := Suc (ch_next ch)\<rparr>"
  have new: "ch_inv m ?ch1" if "length (subscribers ch r) < m"
    using assms(1) that unfolding ch_inv_def subscribers_def dget_def
    by (fastforce split: option.splits if_splits)
  show ?thesis
    using assms new ch_inv_unsubscribe[OF new]
    by (auto simp: subscribe_begin_def Let_def split: option.splits if_splits)
qed

lemma ch_inv_pop:
  assumes "ch_inv m ch" "dget (subscribers ch r) sid [] = e # q"
  shows "ch_inv m (ch\<lparr>ch_queues := upd_key (AList.update sid q) r (ch_queues ch)\<rparr>)"
proof -
  obtain qs where qs: "map_of (ch_queues ch) r = Some qs" "map_of qs sid = Some (e # q)"
    using assms(2) by (auto simp: subscribers_def dget_def split: option.splits)
  have keys: "dkeys (AList.update sid q qs) = dkeys qs"
    using map_of_Some_dkeys[OF qs(2)] by (simp add: dkeys_update)
  then have len: "length (AList.update sid q qs) = length qs" by (metis length_map)
  have elems: "(i, x) \<in> set (AList.update sid q qs) \<Longrightarrow> (i, x) \<in> set qs \<or> i = sid \<and> x = q" for i x
    using set_AList_update[of sid q qs] by auto
  have "(sid, e # q) \<in> set qs" by (rule map_of_SomeD[OF qs(2)])
  then have "sid < ch_next ch \<and> length q \<le> channel_size" "AList.update sid q qs \<noteq> []"
    using assms(1) qs(1) keys by (fastforce simp: ch_inv_def)+
  then show ?thesis
    using assms(1) qs(1) keys len elems
    by (fastforce simp: ch_inv_def map_of_upd_key split: if_splits)
qed

lemma ch_inv_next:
  assumes "ch_inv m ch" "subscribe_next r sid state ch = (e, go, ch')"
  shows "ch_inv m ch'"
  using assms ch_inv_pop[OF assms(1)] ch_inv_unsubscribe
  by (fastforce simp: subscribe_next_def Let_def split: list.splits option.splits if_splits)

text \<open>Everything that happens to the channels; \<open>Close\<close> is a client that goes away.\<close>

inductive ch_reach :: "nat \<Rightarrow> channels \<Rightarrow> bool" for max_subscribers where
  empty: "ch_reach max_subscribers no_channels"
| Publish_all: "ch_reach max_subscribers ch \<Longrightarrow> ch_reach max_subscribers (publish_to_channels now r t d ch)"
| Begin: "ch_reach max_subscribers ch \<Longrightarrow>
    ch_reach max_subscribers (snd (snd (subscribe_begin now max_subscribers r state ch)))"
| Next: "ch_reach max_subscribers ch \<Longrightarrow> ch_reach max_subscribers (snd (snd (subscribe_next r sid state ch)))"
| Close: "ch_reach max_subscribers ch \<Longrightarrow> ch_reach max_subscribers (unsubscribe r sid ch)"

lemma ch_reach_inv: "ch_reach m ch \<Longrightarrow> ch_inv m ch"
proof (induction rule: ch_reach.induct)
  case (Begin ch now r state)
  then show ?case using ch_inv_begin by (metis prod.collapse)
next
  case (Next ch r sid state)
  then show ?case using ch_inv_next by (metis prod.collapse)
qed (simp_all add: ch_inv_publish ch_inv_unsubscribe, simp add: ch_inv_def no_channels_def)

lemma channels_small:
  assumes "ch_reach m ch"
  shows "length (subscribers ch r) \<le> m \<and> (\<forall>(i, q)\<in>set (subscribers ch r). length q \<le> channel_size)"
proof (cases "map_of (ch_queues ch) r")
  case (Some qs)
  then show ?thesis using ch_reach_inv[OF assms] by (fastforce simp: ch_inv_def subscribers_def dget_def)
qed (simp add: subscribers_def dget_def)

text \<open>C24: whatever clients and runs do, no run has more subscribers than configured, no subscriber holds
  more than a hundred undelivered events, and a run without subscribers holds nothing.\<close>

theorem channels_bounded:
  assumes "ch_reach max_subscribers ch"
  shows "length (subscribers ch r) \<le> max_subscribers \<and> (\<forall>(i, q)\<in>set (subscribers ch r). length q \<le> 100)
    \<and> (subscribers ch r = [] \<longleftrightarrow> r \<notin> set (dkeys (ch_queues ch)))"
proof (cases "map_of (ch_queues ch) r")
  case None
  then have "r \<notin> set (dkeys (ch_queues ch))" by (simp add: map_of_eq_None_iff)
  then show ?thesis using None by (simp add: subscribers_def dget_def)
next
  case (Some qs)
  then have "r \<in> set (dkeys (ch_queues ch))" by (rule map_of_Some_dkeys)
  then show ?thesis
    using Some ch_reach_inv[OF assms] channels_small[OF assms, of r]
    by (auto simp: ch_inv_def subscribers_def dget_def channel_size_def)
qed

section \<open>Delivery\<close>

text \<open>
  What a subscriber is given while events of its run are published (\<open>Some\<close>) and its waits end
  (\<open>None\<close>), until its stream ends.
\<close>

fun watch ::
    "string \<Rightarrow> nat \<Rightarrow> (time \<times> string \<times> dict) option list \<Rightarrow> channels \<Rightarrow> event list \<times> channels" where
  "watch r sid [] ch = ([], ch)"
| "watch r sid (Some (now, t, d) # ops) ch = watch r sid ops (publish_to_channels now r t d ch)"
| "watch r sid (None # ops) ch =
     (case subscribe_next r sid None ch of
        (e, go, ch') \<Rightarrow>
          (case (if go then watch r sid ops ch' else ([], ch')) of
             (es, ch'') \<Rightarrow> ((case e of None \<Rightarrow> [] | Some x \<Rightarrow> [x]) @ es, ch'')))"

definition queue_of :: "channels \<Rightarrow> string \<Rightarrow> nat \<Rightarrow> event list option" where
  "queue_of ch r sid = map_of (subscribers ch r) sid"

lemma queue_of_publish:
  assumes "queue_of ch r sid = Some q"
  shows "queue_of (publish_to_channels now r t d ch) r sid =
    Some (put_event \<lparr>ev_event = t, ev_run_id = r, ev_timestamp = now, ev_data = d\<rparr> q)"
proof -
  have m: "map_of (map (map_prod id f) qs) i = map_option f (map_of qs i)" for f :: "event list \<Rightarrow> event list" and qs i
    by (induction qs) auto
  show ?thesis
    using assms
    by (auto simp: queue_of_def subscribers_def publish_to_channels_def Let_def dget_def map_of_upd_key m
        split: option.splits)
qed

lemma next_pops:
  assumes "queue_of ch r sid = Some (e # q)" "\<not> ends_stream e"
  shows "\<exists>ch'. subscribe_next r sid None ch = (Some e, True, ch') \<and> queue_of ch' r sid = Some q"
  using assms
  by (auto simp: queue_of_def subscribers_def subscribe_next_def Let_def dget_def map_of_upd_key split: option.splits)

lemma next_waits: "queue_of ch r sid = Some [] \<Longrightarrow> subscribe_next r sid None ch = (None, True, ch)"
  by (auto simp: queue_of_def subscribers_def subscribe_next_def dget_def split: option.splits)

lemma next_ends:
  assumes "queue_of ch r sid = Some (e # q)" "ends_stream e"
  shows "\<exists>ch'. subscribe_next r sid None ch = (Some e, False, ch')"
  using assms by (auto simp: queue_of_def subscribers_def subscribe_next_def Let_def dget_def split: option.splits)

definition published :: "'a option list \<Rightarrow> nat" where
  "published ops = length (filter (\<lambda>x. x \<noteq> None) ops)"

lemma watch_keeps:
  assumes "queue_of ch r sid = Some (pre @ e # post)" "length (pre @ e # post) \<le> channel_size"
    and "length post + published ops < channel_size" "watch r sid ops ch = (es, ch')"
  shows "e \<in> set es \<or> (\<exists>x\<in>set es. ends_stream x) \<or> (\<exists>q. queue_of ch' r sid = Some q \<and> e \<in> set q)"
  using assms
proof (induction r sid ops ch arbitrary: pre post es ch' rule: watch.induct)
  case (1 r sid ch)
  then show ?case by auto
next
  case (2 r sid now t d ops ch)
  let ?x = "\<lparr>ev_event = t, ev_run_id = r, ev_timestamp = now, ev_data = d\<rparr>"
  let ?ch = "publish_to_channels now r t d ch"
  have q: "queue_of ?ch r sid = Some (put_event ?x (pre @ e # post))" by (rule queue_of_publish[OF "2.prems"(1)])
  have small: "length (put_event ?x (pre @ e # post)) \<le> channel_size" by (rule length_put_event[OF "2.prems"(2)])
  have pub: "length post + published ops + 1 < channel_size" using "2.prems"(3) by (simp add: published_def)
  have run: "watch r sid ops ?ch = (es, ch')" using "2.prems"(4) by simp
  consider "put_event ?x (pre @ e # post) = pre @ e # post"
    | "put_event ?x (pre @ e # post) = pre @ e # (post @ [?x])"
    | "put_event ?x (pre @ e # post) = tl pre @ e # (post @ [?x])"
  proof (rule put_event_cases[of ?x "pre @ e # post"], goal_cases)
    case 3
    then have "pre \<noteq> []" using pub by auto
    then show ?thesis using 3 by auto
  qed auto
  then show ?case
  proof cases
    case 1
    show ?thesis by (rule "2.IH"[of pre post]) (use q small pub run 1 in auto)
  next
    case 2
    show ?thesis by (rule "2.IH"[of pre "post @ [?x]"]) (use q small pub run 2 in auto)
  next
    case 3
    show ?thesis by (rule "2.IH"[of "tl pre" "post @ [?x]"]) (use q small pub run 3 in auto)
  qed
next
  case (3 r sid ops ch)
  have pub: "length post + published ops < channel_size" using "3.prems"(3) by (simp add: published_def)
  show ?case
  proof (cases pre)
    case Nil
    show ?thesis
    proof (cases "ends_stream e")
      case True
      obtain ch1 where "subscribe_next r sid None ch = (Some e, False, ch1)"
        using next_ends[of ch r sid e post] "3.prems"(1) Nil True by auto
      then show ?thesis using "3.prems"(4) by auto
    next
      case False
      obtain ch1 where "subscribe_next r sid None ch = (Some e, True, ch1)"
        using next_pops[of ch r sid e post] "3.prems"(1) Nil False by auto
      then show ?thesis using "3.prems"(4) by (auto split: prod.splits)
    qed
  next
    case (Cons x pre')
    show ?thesis
    proof (cases "ends_stream x")
      case True
      obtain ch1 where "subscribe_next r sid None ch = (Some x, False, ch1)"
        using next_ends[of ch r sid x "pre' @ e # post"] "3.prems"(1) Cons True by auto
      then show ?thesis using "3.prems"(4) True by auto
    next
      case False
      obtain ch1 where n: "subscribe_next r sid None ch = (Some x, True, ch1)" "queue_of ch1 r sid = Some (pre' @ e # post)"
        using next_pops[of ch r sid x "pre' @ e # post"] "3.prems"(1) Cons False by auto
      obtain es1 where w: "watch r sid ops ch1 = (es1, ch')" "es = x # es1"
        using "3.prems"(4) n(1) by (auto split: prod.splits)
      have "length (pre' @ e # post) \<le> channel_size" using "3.prems"(2) Cons by simp
      from "3.IH"[OF n(1)[symmetric] refl _ n(2) this pub w(1)] show ?thesis using w(2) by auto
    qed
  qed
qed

text \<open>C25: a lifecycle event published to a subscriber reaches it whatever the backpressure: however the
  next 99 publications and the subscriber's reads interleave, the event has been delivered, or still is in
  the queue, unless the stream was ended by an event that ends it.\<close>

theorem lifecycle_event_kept:
  assumes "t \<in> set CRITICAL_EVENTS" "ch_reach m ch" "queue_of ch r sid = Some q"
    and "published ops < 100" "watch r sid ops (publish_to_channels now r t d ch) = (es, ch')"
  shows "let e = \<lparr>ev_event = t, ev_run_id = r, ev_timestamp = now, ev_data = d\<rparr> in
    e \<in> set es \<or> (\<exists>x\<in>set es. ends_stream x) \<or> (\<exists>q. queue_of ch' r sid = Some q \<and> e \<in> set q)"
proof -
  let ?e = "\<lparr>ev_event = t, ev_run_id = r, ev_timestamp = now, ev_data = d\<rparr>"
  have "(sid, q) \<in> set (subscribers ch r)" using map_of_SomeD assms(3) by (fastforce simp: queue_of_def)
  then have q: "length q \<le> channel_size"
    using channels_small[OF assms(2)] by blast
  have "queue_of (publish_to_channels now r t d ch) r sid = Some (put_event ?e q)"
    by (rule queue_of_publish[OF assms(3)])
  moreover obtain pre where "put_event ?e q = pre @ ?e # []"
    using put_critical[of ?e q] assms(1) by auto
  moreover have "length (put_event ?e q) \<le> channel_size" by (rule length_put_event[OF q])
  ultimately show ?thesis
    using watch_keeps[of _ r sid pre ?e "[]" ops es ch'] assms(4,5) by (simp add: Let_def channel_size_def)
qed

section \<open>Witnesses\<close>

definition ex_channels :: channels where
  "ex_channels = snd (snd (subscribe_begin 0 10 ''run'' (Some ex_state) no_channels))"

lemma ex_channels_reach: "ch_reach 10 ex_channels"
  unfolding ex_channels_def by (rule Begin[OF empty])

lemma ex_channels_queue: "queue_of ex_channels ''run'' 0 = Some []" "length (subscribers ex_channels ''run'') = 1"
  by (simp_all add: ex_channels_def subscribe_begin_def no_channels_def queue_of_def subscribers_def dget_def Let_def
      ex_state_def create_initial_def terminal_def)

theorem channels_bounded_witness:
  "length (subscribers ex_channels ''run'') = 1 \<and> length (subscribers ex_channels ''run'') \<le> 10"
  using channels_bounded[OF ex_channels_reach, of "''run''"] ex_channels_queue(2) by simp

theorem lifecycle_event_kept_witness:
  "\<exists>es ch'. watch ''run'' 0 [Some (1, ''run_status'', []), None] (publish_to_channels 0 ''run'' ''run_completed'' [] ex_channels)
      = (es, ch') \<and> (\<exists>x\<in>set es. ev_event x = ''run_completed'')"
proof -
  obtain es ch' where w: "watch ''run'' 0 [Some (1, ''run_status'', []), None]
      (publish_to_channels 0 ''run'' ''run_completed'' [] ex_channels) = (es, ch')" by (rule prod.exhaust)
  have "es = [\<lparr>ev_event = ''run_completed'', ev_run_id = ''run'', ev_timestamp = 0, ev_data = []\<rparr>]"
    using w queue_of_publish[OF queue_of_publish[OF ex_channels_queue(1)]]
      next_ends[of "publish_to_channels 1 ''run'' ''run_status'' [] (publish_to_channels 0 ''run'' ''run_completed'' [] ex_channels)"
        "''run''" 0]
    by (fastforce simp: put_event_def channel_size_def ends_stream_def)
  moreover have "let e = \<lparr>ev_event = ''run_completed'', ev_run_id = ''run'', ev_timestamp = 0, ev_data = []\<rparr> in
    e \<in> set es \<or> (\<exists>x\<in>set es. ends_stream x) \<or> (\<exists>q. queue_of ch' ''run'' 0 = Some q \<and> e \<in> set q)"
    by (rule lifecycle_event_kept[OF _ ex_channels_reach ex_channels_queue(1) _ w])
       (simp_all add: CRITICAL_EVENTS_def published_def)
  ultimately show ?thesis using w by auto
qed

end
