(* ===== verification/Settings.thy ===== *)
theory Settings
  imports Py_Text Errors
begin

text \<open>
  The settings (\<open>config/settings.py\<close>): every field read from the environment, the dump and its
  redacted form. A field constraint (\<open>gt\<close>, \<open>ge\<close>, \<open>le\<close>) only applies to a value passed to the
  constructor: the validation library does not validate what a default factory returns, so reading
  from the environment checks none of them. The environment is a parameter, as are \<open>float(text)\<close>
  and \<open>json.loads\<close>.
\<close>

section \<open>Fields\<close>

record FrameworkSettings =
  fs_gemini_api_key :: "string option"
  fs_groq_api_key :: "string option"
  fs_llm_provider :: string
  fs_fallback_provider :: string
  fs_gemini_model :: string
  fs_groq_model :: string
  fs_llm_timeout_seconds :: rat
  fs_llm_max_retries :: int
  fs_llm_enable_fallback :: bool
  fs_langchain_tracing_v2 :: bool
  fs_langchain_api_key :: "string option"
  fs_langchain_project :: string
  fs_vector_store :: string
  fs_embedding_provider :: string
  fs_embedding_model :: string
  fs_vector_store_type :: string
  fs_vector_store_path :: string
  fs_state_store_type :: string
  fs_sqlite_database_path :: string
  fs_postgres_dsn :: "string option"
  fs_postgres_host :: string
  fs_postgres_port :: int
  fs_postgres_db :: string
  fs_postgres_user :: string
  fs_postgres_password :: "string option"
  fs_postgres_min_connections :: int
  fs_postgres_max_connections :: int
  fs_chunk_size :: int
  fs_chunk_overlap :: int
  fs_database_url :: string
  fs_default_timeout_seconds :: rat
  fs_max_global_retries :: int
  fs_api_host :: string
  fs_api_port :: int
  fs_api_debug :: bool
  fs_environment :: string
  fs_api_auth_enabled :: bool
  fs_api_key_hashes :: pyval
  fs_jwt_secret_key :: "string option"
  fs_jwt_algorithm :: string
  fs_cors_allowed_origins :: "string list"
  fs_cors_allow_credentials :: bool
  fs_hsts_enabled :: bool
  fs_max_request_body_bytes :: int
  fs_api_request_timeout_seconds :: rat
  fs_rate_limit_enabled :: bool
  fs_rate_limit_public_per_minute :: int
  fs_rate_limit_authenticated_per_minute :: int
  fs_max_sse_subscribers_per_run :: int
  fs_trusted_proxies :: "string list"
  fs_execution_backend :: string
  fs_execution_max_concurrency :: int
  fs_execution_max_queue_size :: int
  fs_execution_shutdown_timeout_seconds :: rat
  fs_prometheus_metrics_enabled :: bool
  fs_prometheus_metrics_path :: string
  fs_prometheus_metrics_require_auth :: bool
  fs_otel_enabled :: bool
  fs_otel_service_name :: string
  fs_otel_exporter_otlp_endpoint :: "string option"
  fs_otel_exporter_otlp_headers :: "string option"
  fs_otel_exporter_timeout_seconds :: rat

section \<open>Reading the environment\<close>

type_synonym environ = "string \<Rightarrow> string option"

text \<open>\<open>os.getenv(name, default)\<close>.\<close>

definition getenv :: "environ \<Rightarrow> string \<Rightarrow> string \<Rightarrow> string" where
  "getenv env name other = (case env name of None \<Rightarrow> other | Some v \<Rightarrow> v)"

definition env_int :: "environ \<Rightarrow> string \<Rightarrow> string \<Rightarrow> exc + int" where
  "env_int env name other =
     (case py_int (getenv env name other) of
        Some i \<Rightarrow> Inr i
      | None \<Rightarrow> Inl (mk_Foreign ''ValueError'' (''invalid literal for int() with base 10: '' @ repr_str (getenv env name other))))"

definition env_float :: "(string \<Rightarrow> rat option) \<Rightarrow> environ \<Rightarrow> string \<Rightarrow> string \<Rightarrow> exc + rat" where
  "env_float to_float env name other =
     (case to_float (getenv env name other) of
        Some r \<Rightarrow> Inr r
      | None \<Rightarrow> Inl (mk_Foreign ''ValueError'' (''could not convert string to float: '' @ repr_str (getenv env name other))))"

text \<open>A flag whose default depends on \<open>os.getenv("ENVIRONMENT") == "production"\<close>.\<close>

definition production_flag :: "environ \<Rightarrow> string \<Rightarrow> bool" where
  "production_flag env name =
     env_flag (getenv env name (if env ''ENVIRONMENT'' = Some ''production'' then ''true'' else ''false''))"

definition comma_list :: "string \<Rightarrow> string list" where
  "comma_list s = map py_strip (filter (\<lambda>p. py_strip p \<noteq> []) (split_on (CHR '','') s))"

definition env_environment :: "environ \<Rightarrow> string" where
  "env_environment env = py_lower (getenv env ''ENVIRONMENT'' ''development'')"

definition env_origins :: "environ \<Rightarrow> string list" where
  "env_origins env =
     (case env ''CORS_ALLOWED_ORIGINS'' of
        Some s \<Rightarrow> comma_list s
      | None \<Rightarrow>
          if env_environment env \<noteq> ''production''
          then [''http://localhost:3000'', ''http://localhost:8000'', ''http://127.0.0.1:3000'', ''http://127.0.0.1:8000'']
          else [])"

definition env_key_hashes :: "(string \<Rightarrow> exc + pyval) \<Rightarrow> environ \<Rightarrow> exc + pyval" where
  "env_key_hashes json_loads env =
     (if opt_truthy (env ''API_KEY_HASHES'') then json_loads (getenv env ''API_KEY_HASHES'' ''{}'') else Inr (PDict []))"

definition env_proxies :: "environ \<Rightarrow> string list" where
  "env_proxies env = (if opt_truthy (env ''TRUSTED_PROXIES'') then comma_list (getenv env ''TRUSTED_PROXIES'' []) else [])"

primrec or_raise :: "exc + 'a \<Rightarrow> ('a \<Rightarrow> exc + 'b) \<Rightarrow> exc + 'b" where
  "or_raise (Inl e) f = Inl e"
| "or_raise (Inr x) f = f x"

text \<open>The record, given what the fallible factories deliver.\<close>

definition settings_of ::
    "environ \<Rightarrow> rat \<Rightarrow> int \<Rightarrow> int \<Rightarrow> int \<Rightarrow> int \<Rightarrow> int \<Rightarrow> int \<Rightarrow> int \<Rightarrow> pyval \<Rightarrow> int \<Rightarrow> rat \<Rightarrow> int \<Rightarrow> int \<Rightarrow> int \<Rightarrow> int \<Rightarrow> int \<Rightarrow> rat \<Rightarrow> rat \<Rightarrow> FrameworkSettings" where
  "settings_of env v_llm_timeout_seconds v_llm_max_retries v_postgres_port v_postgres_min_connections v_postgres_max_connections v_chunk_size v_chunk_overlap v_api_port v_api_key_hashes v_max_request_body_bytes v_api_request_timeout_seconds v_rate_limit_public_per_minute v_rate_limit_authenticated_per_minute v_max_sse_subscribers_per_run v_execution_max_concurrency v_execution_max_queue_size v_execution_shutdown_timeout_seconds v_otel_exporter_timeout_seconds =
     \<lparr>fs_gemini_api_key = env ''GEMINI_API_KEY'',
       fs_groq_api_key = env ''GROQ_API_KEY'',
       fs_llm_provider = getenv env ''LLM_PROVIDER'' ''gemini'',
       fs_fallback_provider = getenv env ''FALLBACK_PROVIDER'' ''groq'',
       fs_gemini_model = getenv env ''GEMINI_MODEL'' ''gemini-2.5-flash'',
       fs_groq_model = getenv env ''GROQ_MODEL'' ''llama-3.3-70b-versatile'',
       fs_llm_timeout_seconds = v_llm_timeout_seconds,
       fs_llm_max_retries = v_llm_max_retries,
       fs_llm_enable_fallback = env_flag (getenv env ''LLM_ENABLE_FALLBACK'' ''true''),
       fs_langchain_tracing_v2 = env_flag (getenv env ''LANGCHAIN_TRACING_V2'' ''false''),
       fs_langchain_api_key = env ''LANGCHAIN_API_KEY'',
       fs_langchain_project = getenv env ''LANGCHAIN_PROJECT'' ''enterprise-multi-agent-framework'',
       fs_vector_store = getenv env ''VECTOR_STORE'' ''faiss'',
       fs_embedding_provider = getenv env ''EMBEDDING_PROVIDER'' ''local'',
       fs_embedding_model = getenv env ''EMBEDDING_MODEL'' ''all-MiniLM-L6-v2'',
       fs_vector_store_type = getenv env ''VECTOR_STORE_TYPE'' ''faiss'',
       fs_vector_store_path = getenv env ''VECTOR_STORE_PATH'' ''data/vector_store'',
       fs_state_store_type = getenv env ''STATE_STORE_TYPE'' ''memory'',
       fs_sqlite_database_path = getenv env ''SQLITE_DATABASE_PATH'' ''data/orchestrator.db'',
       fs_postgres_dsn = env ''POSTGRES_DSN'',
       fs_postgres_host = getenv env ''POSTGRES_HOST'' ''localhost'',
       fs_postgres_port = v_postgres_port,
       fs_postgres_db = getenv env ''POSTGRES_DB'' ''orchestrator'',
       fs_postgres_user = getenv env ''POSTGRES_USER'' ''postgres'',
       fs_postgres_password = env ''POSTGRES_PASSWORD'',
       fs_postgres_min_connections = v_postgres_min_connections,
       fs_postgres_max_connections = v_postgres_max_connections,
       fs_chunk_size = v_chunk_size,
       fs_chunk_overlap = v_chunk_overlap,
       fs_database_url = getenv env ''DATABASE_URL'' ''sqlite:///./data/app.db'',
       fs_default_timeout_seconds = 60,
       fs_max_global_retries = 3,
       fs_api_host = getenv env ''API_HOST'' ''0.0.0.0'',
       fs_api_port = v_api_port,
       fs_api_debug = env_flag (getenv env ''API_DEBUG'' ''false''),
       fs_environment = env_environment env,
       fs_api_auth_enabled = production_flag env ''API_AUTH_ENABLED'',
       fs_api_key_hashes = v_api_key_hashes,
       fs_jwt_secret_key = env ''JWT_SECRET_KEY'',
       fs_jwt_algorithm = getenv env ''JWT_ALGORITHM'' ''HS256'',
       fs_cors_allowed_origins = env_origins env,
       fs_cors_allow_credentials = env_flag (getenv env ''CORS_ALLOW_CREDENTIALS'' ''false''),
       fs_hsts_enabled = production_flag env ''HSTS_ENABLED'',
       fs_max_request_body_bytes = v_max_request_body_bytes,
       fs_api_request_timeout_seconds = v_api_request_timeout_seconds,
       fs_rate_limit_enabled = env_flag (getenv env ''RATE_LIMIT_ENABLED'' ''true''),
       fs_rate_limit_public_per_minute = v_rate_limit_public_per_minute,
       fs_rate_limit_authenticated_per_minute = v_rate_limit_authenticated_per_minute,
       fs_max_sse_subscribers_per_run = v_max_sse_subscribers_per_run,
       fs_trusted_proxies = env_proxies env,
       fs_execution_backend = getenv env ''EXECUTION_BACKEND'' ''local_async'',
       fs_execution_max_concurrency = v_execution_max_concurrency,
       fs_execution_max_queue_size = v_execution_max_queue_size,
       fs_execution_shutdown_timeout_seconds = v_execution_shutdown_timeout_seconds,
       fs_prometheus_metrics_enabled = env_flag (getenv env ''PROMETHEUS_METRICS_ENABLED'' ''true''),
       fs_prometheus_metrics_path = getenv env ''PROMETHEUS_METRICS_PATH'' ''/metrics'',
       fs_prometheus_metrics_require_auth = production_flag env ''PROMETHEUS_METRICS_REQUIRE_AUTH'',
       fs_otel_enabled = env_flag (getenv env ''OTEL_ENABLED'' ''false''),
       fs_otel_service_name = getenv env ''OTEL_SERVICE_NAME'' ''enterprise-orchestrator'',
       fs_otel_exporter_otlp_endpoint = env ''OTEL_EXPORTER_OTLP_ENDPOINT'',
       fs_otel_exporter_otlp_headers = env ''OTEL_EXPORTER_OTLP_HEADERS'',
       fs_otel_exporter_timeout_seconds = v_otel_exporter_timeout_seconds\<rparr>"

text \<open>\<open>FrameworkSettings()\<close>: the factories run in the order of the fields, the first error is raised.\<close>

definition settings_from_env ::
    "(string \<Rightarrow> rat option) \<Rightarrow> (string \<Rightarrow> exc + pyval) \<Rightarrow> environ \<Rightarrow> exc + FrameworkSettings" where
  "settings_from_env to_float json_loads env =
     or_raise (env_float to_float env ''LLM_TIMEOUT_SECONDS'' ''60.0'') (\<lambda>v_llm_timeout_seconds.
     or_raise (env_int env ''LLM_MAX_RETRIES'' ''2'') (\<lambda>v_llm_max_retries.
     or_raise (env_int env ''POSTGRES_PORT'' ''5432'') (\<lambda>v_postgres_port.
     or_raise (env_int env ''POSTGRES_MIN_CONNECTIONS'' ''1'') (\<lambda>v_postgres_min_connections.
     or_raise (env_int env ''POSTGRES_MAX_CONNECTIONS'' ''10'') (\<lambda>v_postgres_max_connections.
     or_raise (env_int env ''CHUNK_SIZE'' ''500'') (\<lambda>v_chunk_size.
     or_raise (env_int env ''CHUNK_OVERLAP'' ''50'') (\<lambda>v_chunk_overlap.
     or_raise (env_int env ''API_PORT'' ''8000'') (\<lambda>v_api_port.
     or_raise (env_key_hashes json_loads env) (\<lambda>v_api_key_hashes.
     or_raise (env_int env ''MAX_REQUEST_BODY_BYTES'' ''1048576'') (\<lambda>v_max_request_body_bytes.
     or_raise (env_float to_float env ''API_REQUEST_TIMEOUT_SECONDS'' ''120.0'') (\<lambda>v_api_request_timeout_seconds.
     or_raise (env_int env ''RATE_LIMIT_PUBLIC_PER_MINUTE'' ''120'') (\<lambda>v_rate_limit_public_per_minute.
     or_raise (env_int env ''RATE_LIMIT_AUTHENTICATED_PER_MINUTE'' ''60'') (\<lambda>v_rate_limit_authenticated_per_minute.
     or_raise (env_int env ''MAX_SSE_SUBSCRIBERS_PER_RUN'' ''10'') (\<lambda>v_max_sse_subscribers_per_run.
     or_raise (env_int env ''EXECUTION_MAX_CONCURRENCY'' ''10'') (\<lambda>v_execution_max_concurrency.
     or_raise (env_int env ''EXECUTION_MAX_QUEUE_SIZE'' ''100'') (\<lambda>v_execution_max_queue_size.
     or_raise (env_float to_float env ''EXECUTION_SHUTDOWN_TIMEOUT_SECONDS'' ''30.0'') (\<lambda>v_execution_shutdown_timeout_seconds.
     or_raise (env_float to_float env ''OTEL_EXPORTER_TIMEOUT_SECONDS'' ''5.0'') (\<lambda>v_otel_exporter_timeout_seconds.
     Inr (settings_of env v_llm_timeout_seconds v_llm_max_retries v_postgres_port v_postgres_min_connections v_postgres_max_connections v_chunk_size v_chunk_overlap v_api_port v_api_key_hashes v_max_request_body_bytes v_api_request_timeout_seconds v_rate_limit_public_per_minute v_rate_limit_authenticated_per_minute v_max_sse_subscribers_per_run v_execution_max_concurrency v_execution_max_queue_size v_execution_shutdown_timeout_seconds v_otel_exporter_timeout_seconds)))))))))))))))))))"

section \<open>Dumps\<close>

definition str_list :: "string list \<Rightarrow> pyval" where
  "str_list ss = PList (map PStr ss)"

definition model_dump_settings :: "FrameworkSettings \<Rightarrow> dict" where
  "model_dump_settings s =
     [(''gemini_api_key'', opt_str (fs_gemini_api_key s)),
      (''groq_api_key'', opt_str (fs_groq_api_key s)),
      (''llm_provider'', PStr (fs_llm_provider s)),
      (''fallback_provider'', PStr (fs_fallback_provider s)),
      (''gemini_model'', PStr (fs_gemini_model s)),
      (''groq_model'', PStr (fs_groq_model s)),
      (''llm_timeout_seconds'', PFloat (fs_llm_timeout_seconds s)),
      (''llm_max_retries'', PInt (fs_llm_max_retries s)),
      (''llm_enable_fallback'', PBool (fs_llm_enable_fallback s)),
      (''langchain_tracing_v2'', PBool (fs_langchain_tracing_v2 s)),
      (''langchain_api_key'', opt_str (fs_langchain_api_key s)),
      (''langchain_project'', PStr (fs_langchain_project s)),
      (''vector_store'', PStr (fs_vector_store s)),
      (''embedding_provider'', PStr (fs_embedding_provider s)),
      (''embedding_model'', PStr (fs_embedding_model s)),
      (''vector_store_type'', PStr (fs_vector_store_type s)),
      (''vector_store_path'', PStr (fs_vector_store_path s)),
      (''state_store_type'', PStr (fs_state_store_type s)),
      (''sqlite_database_path'', PStr (fs_sqlite_database_path s)),
      (''postgres_dsn'', opt_str (fs_postgres_dsn s)),
      (''postgres_host'', PStr (fs_postgres_host s)),
      (''postgres_port'', PInt (fs_postgres_port s)),
      (''postgres_db'', PStr (fs_postgres_db s)),
      (''postgres_user'', PStr (fs_postgres_user s)),
      (''postgres_password'', opt_str (fs_postgres_password s)),
      (''postgres_min_connections'', PInt (fs_postgres_min_connections s)),
      (''postgres_max_connections'', PInt (fs_postgres_max_connections s)),
      (''chunk_size'', PInt (fs_chunk_size s)),
      (''chunk_overlap'', PInt (fs_chunk_overlap s)),
      (''database_url'', PStr (fs_database_url s)),
      (''default_timeout_seconds'', PFloat (fs_default_timeout_seconds s)),
      (''max_global_retries'', PInt (fs_max_global_retries s)),
      (''api_host'', PStr (fs_api_host s)),
      (''api_port'', PInt (fs_api_port s)),
      (''api_debug'', PBool (fs_api_debug s)),
      (''environment'', PStr (fs_environment s)),
      (''api_auth_enabled'', PBool (fs_api_auth_enabled s)),
      (''api_key_hashes'', fs_api_key_hashes s),
      (''jwt_secret_key'', opt_str (fs_jwt_secret_key s)),
      (''jwt_algorithm'', PStr (fs_jwt_algorithm s)),
      (''cors_allowed_origins'', str_list (fs_cors_allowed_origins s)),
      (''cors_allow_credentials'', PBool (fs_cors_allow_credentials s)),
      (''hsts_enabled'', PBool (fs_hsts_enabled s)),
      (''max_request_body_bytes'', PInt (fs_max_request_body_bytes s)),
      (''api_request_timeout_seconds'', PFloat (fs_api_request_timeout_seconds s)),
      (''rate_limit_enabled'', PBool (fs_rate_limit_enabled s)),
      (''rate_limit_public_per_minute'', PInt (fs_rate_limit_public_per_minute s)),
      (''rate_limit_authenticated_per_minute'', PInt (fs_rate_limit_authenticated_per_minute s)),
      (''max_sse_subscribers_per_run'', PInt (fs_max_sse_subscribers_per_run s)),
      (''trusted_proxies'', str_list (fs_trusted_proxies s)),
      (''execution_backend'', PStr (fs_execution_backend s)),
      (''execution_max_concurrency'', PInt (fs_execution_max_concurrency s)),
      (''execution_max_queue_size'', PInt (fs_execution_max_queue_size s)),
      (''execution_shutdown_timeout_seconds'', PFloat (fs_execution_shutdown_timeout_seconds s)),
      (''prometheus_metrics_enabled'', PBool (fs_prometheus_metrics_enabled s)),
      (''prometheus_metrics_path'', PStr (fs_prometheus_metrics_path s)),
      (''prometheus_metrics_require_auth'', PBool (fs_prometheus_metrics_require_auth s)),
      (''otel_enabled'', PBool (fs_otel_enabled s)),
      (''otel_service_name'', PStr (fs_otel_service_name s)),
      (''otel_exporter_otlp_endpoint'', opt_str (fs_otel_exporter_otlp_endpoint s)),
      (''otel_exporter_otlp_headers'', opt_str (fs_otel_exporter_otlp_headers s)),
      (''otel_exporter_timeout_seconds'', PFloat (fs_otel_exporter_timeout_seconds s))]"

definition sensitive_settings :: "string list" where
  "sensitive_settings =
     [''gemini_api_key'', ''groq_api_key'', ''langchain_api_key'', ''postgres_password'', ''jwt_secret_key'',
      ''otel_exporter_otlp_headers'']"

definition model_dump_safe :: "FrameworkSettings \<Rightarrow> dict" where
  "model_dump_safe s =
     map (\<lambda>(k, v). (k, if k \<in> set sensitive_settings \<and> truthy v then PStr ''[REDACTED]'' else v)) (model_dump_settings s)"

definition settings_repr :: "FrameworkSettings \<Rightarrow> string" where
  "settings_repr s = ''FrameworkSettings('' @ py_repr (PDict (model_dump_safe s)) @ '')''"

section \<open>Facts\<close>

lemma or_raise_Inr: "or_raise x f = Inr y \<longleftrightarrow> (\<exists>a. x = Inr a \<and> f a = Inr y)"
  by (cases x) auto

text \<open>The fields the access rules depend on, as functions of the environment.\<close>

lemma settings_from_env_shape:
  assumes "settings_from_env to_float json_loads env = Inr s"
  shows "\<exists>v_llm_timeout_seconds v_llm_max_retries v_postgres_port v_postgres_min_connections v_postgres_max_connections v_chunk_size v_chunk_overlap v_api_port v_api_key_hashes v_max_request_body_bytes v_api_request_timeout_seconds v_rate_limit_public_per_minute v_rate_limit_authenticated_per_minute v_max_sse_subscribers_per_run v_execution_max_concurrency v_execution_max_queue_size v_execution_shutdown_timeout_seconds v_otel_exporter_timeout_seconds.
    s = settings_of env v_llm_timeout_seconds v_llm_max_retries v_postgres_port v_postgres_min_connections v_postgres_max_connections v_chunk_size v_chunk_overlap v_api_port v_api_key_hashes v_max_request_body_bytes v_api_request_timeout_seconds v_rate_limit_public_per_minute v_rate_limit_authenticated_per_minute v_max_sse_subscribers_per_run v_execution_max_concurrency v_execution_max_queue_size v_execution_shutdown_timeout_seconds v_otel_exporter_timeout_seconds
    \<and> env_key_hashes json_loads env = Inr v_api_key_hashes
    \<and> env_int env ''RATE_LIMIT_PUBLIC_PER_MINUTE'' ''120'' = Inr v_rate_limit_public_per_minute"
  using assms unfolding settings_from_env_def or_raise_Inr by blast

lemma settings_from_envD:
  assumes "settings_from_env to_float json_loads env = Inr s"
  shows "fs_environment s = env_environment env" "fs_api_auth_enabled s = production_flag env ''API_AUTH_ENABLED''"
    "fs_prometheus_metrics_require_auth s = production_flag env ''PROMETHEUS_METRICS_REQUIRE_AUTH''"
    "fs_prometheus_metrics_enabled s = env_flag (getenv env ''PROMETHEUS_METRICS_ENABLED'' ''true'')"
    "fs_cors_allowed_origins s = env_origins env"
    "fs_jwt_secret_key s = env ''JWT_SECRET_KEY''" "env_key_hashes json_loads env = Inr (fs_api_key_hashes s)"
    "env_int env ''RATE_LIMIT_PUBLIC_PER_MINUTE'' ''120'' = Inr (fs_rate_limit_public_per_minute s)"
    "fs_rate_limit_enabled s = env_flag (getenv env ''RATE_LIMIT_ENABLED'' ''true'')"
  using settings_from_env_shape[OF assms] by (elim exE conjE; simp only: settings_of_def FrameworkSettings.simps)+

text \<open>When every number parses, the settings are built, whatever the numbers are.\<close>

definition int_settings :: "(string \<times> string) list" where
  "int_settings =
     [(''LLM_MAX_RETRIES'', ''2''),
      (''POSTGRES_PORT'', ''5432''),
      (''POSTGRES_MIN_CONNECTIONS'', ''1''),
      (''POSTGRES_MAX_CONNECTIONS'', ''10''),
      (''CHUNK_SIZE'', ''500''),
      (''CHUNK_OVERLAP'', ''50''),
      (''API_PORT'', ''8000''),
      (''MAX_REQUEST_BODY_BYTES'', ''1048576''),
      (''RATE_LIMIT_PUBLIC_PER_MINUTE'', ''120''),
      (''RATE_LIMIT_AUTHENTICATED_PER_MINUTE'', ''60''),
      (''MAX_SSE_SUBSCRIBERS_PER_RUN'', ''10''),
      (''EXECUTION_MAX_CONCURRENCY'', ''10''),
      (''EXECUTION_MAX_QUEUE_SIZE'', ''100'')]"

lemma or_raise_ex: "\<exists>a. x = Inr a \<Longrightarrow> (\<And>a. \<exists>s. f a = Inr s) \<Longrightarrow> \<exists>s. or_raise x f = Inr s"
  by auto

lemma settings_built:
  assumes ints: "\<And>n d. (n, d) \<in> set int_settings \<Longrightarrow> \<exists>i. env_int env n d = Inr i"
    and floats: "\<And>n d. \<exists>r. env_float to_float env n d = Inr r" and "\<exists>v. env_key_hashes json_loads env = Inr v"
  shows "\<exists>s. settings_from_env to_float json_loads env = Inr s"
  unfolding settings_from_env_def
  by (intro or_raise_ex assms) (simp_all add: int_settings_def)

lemma int_defaults_parse: "list_all (\<lambda>(n, d). py_int d \<noteq> None) int_settings"
  by (simp add: int_settings_def py_int_def py_strip_def py_space_def is_digit_def)

lemma settings_built_small:
  assumes "list_all (\<lambda>(n, d). case map_of kvs n of None \<Rightarrow> True | Some v \<Rightarrow> py_int v \<noteq> None) int_settings"
    and "\<And>x. to_float x \<noteq> None" "\<And>x. \<exists>v. json_loads x = Inr v"
  shows "\<exists>s. settings_from_env to_float json_loads (map_of kvs) = Inr s"
proof (rule settings_built)
  show "\<exists>i. env_int (map_of kvs) n d = Inr i" if "(n, d) \<in> set int_settings" for n d
    using that assms(1) int_defaults_parse
    by (fastforce simp: env_int_def getenv_def list_all_iff split: option.splits)
  show "\<exists>r. env_float to_float (map_of kvs) n d = Inr r" for n d
    using assms(2) by (simp add: env_float_def split: option.splits)
  show "\<exists>v. env_key_hashes json_loads (map_of kvs) = Inr v"
    using assms(3) by (simp add: env_key_hashes_def)
qed

text \<open>The redacted dump still shows the connection strings, which carry the database password.\<close>

theorem safe_dump_shows_dsn:
  assumes "fs_postgres_dsn s = Some dsn"
  shows "map_of (model_dump_safe s) ''postgres_dsn'' = Some (PStr dsn)"
    and "map_of (model_dump_safe s) ''database_url'' = Some (PStr (fs_database_url s))"
  by (simp_all add: model_dump_safe_def model_dump_settings_def sensitive_settings_def assms opt_str_def)

end
