(* ===== verification/Api_Access.thy ===== *)
theory Api_Access
  imports Settings Authenticators Rate_Limiter
begin

text \<open>
  The way a request takes into the API: the choice of authenticators and state stores
  (\<open>api/dependencies.py\<close>), the middlewares (\<open>api/middleware.py\<close>), the exception handlers and the
  order of the pipeline (\<open>api/app.py\<close>), the access rule of the metrics endpoint
  (\<open>api/routes/metrics.py\<close>). The CORS middleware is a parameter.
\<close>

section \<open>Choosing the authenticators (api/dependencies.py)\<close>

datatype auth_choice =
    Use_api_keys HashedAPIKeyAuthenticator
  | Use_bearer BearerTokenAuthenticator
  | Use_test
  | Use_dev string
  | Use_composite "auth_choice list"

text \<open>\<open>authenticator.authenticate(request)\<close>.\<close>

fun run_choice :: "(string \<Rightarrow> string) \<Rightarrow> jwt_decoder option \<Rightarrow> auth_choice \<Rightarrow> authenticator" where
  "run_choice sha jwt (Use_api_keys a) = authenticate_api_key sha a"
| "run_choice sha jwt (Use_bearer a) = authenticate_bearer jwt a"
| "run_choice sha jwt Use_test = authenticate_test"
| "run_choice sha jwt (Use_dev environment) = authenticate_dev"
| "run_choice sha jwt (Use_composite cs) = authenticate_composite (map (run_choice sha jwt) cs)"

definition configuration_error :: "string \<Rightarrow> exc" where
  "configuration_error msg = mk_ConfigurationError msg ''CONFIGURATION_ERROR'' False []"

text \<open>\<open>.items()\<close> of a value that is no dictionary raises.\<close>

definition api_key_choice :: "pyval \<Rightarrow> exc + auth_choice list" where
  "api_key_choice hashes =
     (if \<not> truthy hashes then Inr []
      else case hashes of
        PDict d \<Rightarrow> Inr [Use_api_keys (new_api_key_authenticator d ''X-API-Key'')]
      | _ \<Rightarrow> Inl (mk_Foreign ''AttributeError'' ''object has no attribute items''))"

definition bearer_choice :: "string option \<Rightarrow> string \<Rightarrow> exc + auth_choice list" where
  "bearer_choice secret algorithm =
     (if opt_truthy secret
      then (case new_bearer_authenticator secret algorithm None of Inl e \<Rightarrow> Inl e | Inr b \<Rightarrow> Inr [Use_bearer b])
      else Inr [])"

definition get_authenticator :: "FrameworkSettings \<Rightarrow> exc + auth_choice" where
  "get_authenticator s =
     (if \<not> fs_api_auth_enabled s then
        if fs_environment s = ''production''
        then Inl (configuration_error ''Authentication cannot be disabled in a production environment.'')
        else or_raise (new_dev_bypass (fs_environment s)) (\<lambda>e. Inr (Use_dev e))
      else
        or_raise (api_key_choice (fs_api_key_hashes s)) (\<lambda>ks.
        or_raise (bearer_choice (fs_jwt_secret_key s) (fs_jwt_algorithm s)) (\<lambda>bs.
          let auths = ks @ bs @ (if fs_environment s = ''test'' then [Use_test] else []) in
          if auths = [] then
            if fs_environment s = ''production''
            then Inl (configuration_error ''Production environment requires API_KEY_HASHES or JWT_SECRET_KEY to be configured.'')
            else Inr Use_test
          else Inr (if length auths > 1 then Use_composite auths else hd auths))))"

datatype store_choice = Sqlite_store string | Postgres_store string | Memory_store

definition get_state_store :: "FrameworkSettings \<Rightarrow> store_choice" where
  "get_state_store s =
     (if fs_state_store_type s = ''sqlite'' then Sqlite_store (fs_sqlite_database_path s)
      else if fs_state_store_type s = ''postgres'' then
        Postgres_store (str_or (fs_postgres_dsn s)
          (''postgresql://'' @ fs_postgres_user s @ '':'' @ str_or (fs_postgres_password s) [] @ ''@'' @ fs_postgres_host s
             @ '':'' @ show_int (fs_postgres_port s) @ ''/'' @ fs_postgres_db s))
      else Memory_store)"

section \<open>Requests and responses\<close>

record http_request =
  hq_headers :: headers
  hq_path :: string
  hq_client :: "string option"
  hq_correlation_id :: "string option"

record http_response =
  hr_status :: nat
  hr_content :: pyval
  hr_headers :: "(string \<times> string) list"

text \<open>\<open>ErrorResponse(...).model_dump()\<close> in a \<open>JSONResponse\<close>.\<close>

definition error_response :: "nat \<Rightarrow> string \<Rightarrow> string \<Rightarrow> pyval \<Rightarrow> (string \<times> string) list \<Rightarrow> http_response" where
  "error_response status error code details hs =
     \<lparr>hr_status = status,
      hr_content = PDict [(''error'', PStr error), (''code'', PStr code), (''details'', details)],
      hr_headers = hs\<rparr>"

definition set_header :: "string \<Rightarrow> string \<Rightarrow> http_response \<Rightarrow> http_response" where
  "set_header name v r = r\<lparr>hr_headers := AList.update name v (hr_headers r)\<rparr>"

text \<open>A handler acts on the rate limiter and on the rest of the world.\<close>

type_synonym 'w handler = "http_request \<Rightarrow> rate_limiter \<times> 'w \<Rightarrow> (failure + http_response) \<times> rate_limiter \<times> 'w"

definition map_response :: "(http_response \<Rightarrow> http_response) \<Rightarrow> (failure + http_response) \<times> 'v \<Rightarrow> (failure + http_response) \<times> 'v" where
  "map_response f r = (case r of (Inr x, v) \<Rightarrow> (Inr (f x), v) | (Inl e, v) \<Rightarrow> (Inl e, v))"

section \<open>Exception handlers (api/app.py)\<close>

definition exc_response :: "exc \<Rightarrow> http_response option" where
  "exc_response e =
     (if isinstance e AuthenticationError then
        Some (error_response 401 (e_message e) (e_code e) (PDict (e_details e)) [(''WWW-Authenticate'', ''Bearer, ApiKey'')])
      else if isinstance e AuthorizationError then
        Some (error_response 403 (e_message e) (e_code e) (PDict (e_details e)) [])
      else if isinstance e IdempotencyConflictError then
        Some (error_response 409 (e_message e) (e_code e) PNone [])
      else if isinstance e OrchestratorError then
        Some (error_response (if e_code e = ''RUN_NOT_FOUND'' then 404 else 400) (e_message e) (e_code e) PNone [])
      else None)"

text \<open>Registered handlers answer inside the middlewares; any other exception passes through them.\<close>

definition exception_layer :: "'w handler \<Rightarrow> 'w handler" where
  "exception_layer route q w =
     (case route q w of
        (Inl (Http_Exception x), w') \<Rightarrow>
          (Inr (error_response (hx_status_code x) (hx_detail x) ''HTTP_ERROR'' PNone (hx_headers x)), w')
      | (Inl (Raised_exc e), w') \<Rightarrow>
          (case exc_response e of Some r \<Rightarrow> (Inr r, w') | None \<Rightarrow> (Inl (Raised_exc e), w'))
      | (Inr r, w') \<Rightarrow> (Inr r, w'))"

definition server_error :: http_response where
  "server_error =
     error_response 500 ''An unexpected internal server error occurred.'' ''INTERNAL_SERVER_ERROR'' PNone []"

definition server_error_layer :: "'w handler \<Rightarrow> http_request \<Rightarrow> rate_limiter \<times> 'w \<Rightarrow> http_response \<times> rate_limiter \<times> 'w" where
  "server_error_layer inner q w = (case inner q w of (Inl e, w') \<Rightarrow> (server_error, w') | (Inr r, w') \<Rightarrow> (r, w'))"

section \<open>Middlewares (api/middleware.py)\<close>

definition size_limit :: "int \<Rightarrow> 'w handler \<Rightarrow> 'w handler" where
  "size_limit max_body_bytes call_next q w =
     (case hq_headers q ''content-length'' of
        None \<Rightarrow> call_next q w
      | Some content_length \<Rightarrow>
          if content_length = [] then call_next q w
          else (case py_int content_length of
            None \<Rightarrow> call_next q w
          | Some n \<Rightarrow>
              if n > max_body_bytes then
                (Inr (error_response 413
                   (''Request payload size ('' @ show_int n @ '' bytes) exceeds the maximum allowed limit of ''
                      @ show_int max_body_bytes @ '' bytes.'') ''PAYLOAD_TOO_LARGE'' PNone []), w)
              else call_next q w))"

definition security_header_values :: "bool \<Rightarrow> (string \<times> string) list" where
  "security_header_values hsts_enabled =
     [(''X-Content-Type-Options'', ''nosniff''), (''X-Frame-Options'', ''DENY''),
      (''Referrer-Policy'', ''strict-origin-when-cross-origin''), (''X-XSS-Protection'', ''0''),
      (''Content-Security-Policy'', ''default-src '' @ quoted ''none'' @ ''; frame-ancestors '' @ quoted ''none'')]
     @ (if hsts_enabled then [(''Strict-Transport-Security'', ''max-age=31536000; includeSubDomains'')] else [])"

definition security_headers :: "bool \<Rightarrow> 'w handler \<Rightarrow> 'w handler" where
  "security_headers hsts_enabled call_next q w =
     map_response (fold (\<lambda>(k, v). set_header k v) (security_header_values hsts_enabled)) (call_next q w)"

definition corr_char :: "char \<Rightarrow> bool" where
  "corr_char c \<longleftrightarrow> (let n = of_char c :: nat in
     (65 \<le> n \<and> n \<le> 90) \<or> (97 \<le> n \<and> n \<le> 122)) \<or> is_digit c \<or> c \<in> {CHR ''_'', CHR ''-'', CHR ''.'', CHR '':''}"

text \<open>\<open>_CORRELATION_ID_PATTERN.match\<close> on a stripped text.\<close>

definition corr_id_ok :: "string \<Rightarrow> bool" where
  "corr_id_ok s \<longleftrightarrow> s \<noteq> [] \<and> length s \<le> 64 \<and> list_all corr_char s"

definition corr_id_error :: http_response where
  "corr_id_error =
     error_response 422
       (''Invalid correlation ID format. Must match regex ^[a-zA-Z0-9_'' @ [CHR 0x5C] @ ''-'' @ [CHR 0x5C] @ ''.:]{1,64}$ without newlines or special characters.'')
       ''INVALID_CORRELATION_ID'' PNone []"

text \<open>\<open>new_hex\<close> is \<open>uuid.uuid4().hex\<close>.\<close>

definition correlation_id :: "string \<Rightarrow> 'w handler \<Rightarrow> 'w handler" where
  "correlation_id new_hex call_next q w =
     (let header = hq_headers q ''X-Correlation-ID'';
          raw = (if opt_truthy header then header else hq_headers q ''X-Request-ID'');
          answer = (\<lambda>corr_id. map_response
             (\<lambda>r. set_header ''X-Request-ID'' corr_id (set_header ''X-Correlation-ID'' corr_id r))
             (call_next (q\<lparr>hq_correlation_id := Some corr_id\<rparr>) w))
      in case raw of
           None \<Rightarrow> answer (''req_'' @ new_hex)
         | Some s \<Rightarrow> if \<not> corr_id_ok (py_strip s) then (Inr corr_id_error, w) else answer (py_strip s))"

definition public_client :: "FrameworkSettings \<Rightarrow> http_request \<Rightarrow> string" where
  "public_client s q =
     (let client_ip = (case hq_client q of Some host \<Rightarrow> host | None \<Rightarrow> ''unknown_ip'') in
      if fs_trusted_proxies s \<noteq> [] \<and> client_ip \<in> set (fs_trusted_proxies s) then
        (case hq_headers q ''X-Forwarded-For'' of
           Some f \<Rightarrow> if f = [] then client_ip else py_strip (hd (split_on (CHR '','') f))
         | None \<Rightarrow> client_ip)
      else client_ip)"

definition public_rate_limit :: "FrameworkSettings \<Rightarrow> rat \<Rightarrow> 'w handler \<Rightarrow> 'w handler" where
  "public_rate_limit s now call_next q w =
     (if \<not> fs_rate_limit_enabled s \<or> hq_path q \<notin> {''/health'', ''/ready''} then call_next q w
      else
        let limit = fs_rate_limit_public_per_minute s in
        case check_rate_limit now (''ip:'' @ public_client s q) limit 60 (fst w) of
          (Inl e, l) \<Rightarrow> (Inl (Raised_exc e), l, snd w)
        | (Inr (is_allowed, remaining, retry_after), l) \<Rightarrow>
            if \<not> is_allowed then
              (Inr (error_response 429
                 (''Public endpoint rate limit exceeded. Try again in '' @ repr_float retry_after @ '' seconds.'')
                 ''RATE_LIMIT_EXCEEDED'' PNone (limit_headers limit retry_after)), l, snd w)
            else map_response
              (\<lambda>r. set_header ''X-RateLimit-Remaining'' (show_int remaining)
                     (set_header ''X-RateLimit-Limit'' (show_int limit) r))
              (call_next q (l, snd w)))"

section \<open>The application (api/app.py)\<close>

text \<open>
  \<open>create_app\<close>: the middleware added last runs first. \<open>cors\<close> is the library's CORS middleware.
\<close>

definition inner_pipeline :: "FrameworkSettings \<Rightarrow> string \<Rightarrow> 'w handler \<Rightarrow> 'w handler" where
  "inner_pipeline s new_hex route =
     correlation_id new_hex (security_headers (fs_hsts_enabled s)
       (size_limit (fs_max_request_body_bytes s) (exception_layer route)))"

definition create_app ::
    "('w handler \<Rightarrow> 'w handler) \<Rightarrow> FrameworkSettings \<Rightarrow> rat \<Rightarrow> string \<Rightarrow> 'w handler
     \<Rightarrow> exc + (http_request \<Rightarrow> rate_limiter \<times> 'w \<Rightarrow> http_response \<times> rate_limiter \<times> 'w)" where
  "create_app cors s now new_hex route =
     (if fs_environment s = ''production'' \<and> list_ex (\<lambda>p. p = ''*'' \<or> py_strip p = ''*'') (fs_cors_allowed_origins s)
      then Inl (configuration_error (''Wildcard CORS origin '' @ quoted ''*'' @ '' is strictly forbidden in production environment.''))
      else
        let inner = inner_pipeline s new_hex route;
            mid = (if fs_cors_allowed_origins s \<noteq> [] then cors inner else inner)
        in Inr (server_error_layer (public_rate_limit s now mid)))"

section \<open>The metrics endpoint (api/routes/metrics.py)\<close>

definition verify_prometheus_access ::
    "FrameworkSettings \<Rightarrow> authenticator \<Rightarrow> rat \<Rightarrow> headers \<Rightarrow> rate_limiter
     \<Rightarrow> (failure + AuthenticatedIdentity option) \<times> rate_limiter" where
  "verify_prometheus_access s auth now h l =
     (if \<not> fs_prometheus_metrics_enabled s then
        (Inl (http_error 404 ''Prometheus metrics endpoint is disabled.''), l)
      else if fs_prometheus_metrics_require_auth s then
        (case auth h of
           Inl e \<Rightarrow> (Inl (Raised_exc e), l)
         | Inr identity \<Rightarrow>
             if \<not> has_permission identity METRICS_READ then
               (Inl (http_error 403 ''Principal lacks required permission: metrics:read''), l)
             else if fs_rate_limit_enabled s then
               (case check_rate_limit now (''sub:'' @ id_subject_id identity) (fs_rate_limit_authenticated_per_minute s) 60 l of
                  (Inl e, l') \<Rightarrow> (Inl (Raised_exc e), l')
                | (Inr (is_allowed, _, retry_after), l') \<Rightarrow>
                    if \<not> is_allowed then
                      (Inl (Http_Exception
                         \<lparr>hx_status_code = 429,
                          hx_detail = ''Rate limit exceeded. Try again in '' @ repr_float retry_after @ '' seconds.'',
                          hx_headers = [(''Retry-After'', retry_header retry_after)]\<rparr>), l')
                    else (Inr (Some identity), l'))
             else (Inr (Some identity), l))
      else (Inr None, l))"

section \<open>Production\<close>

lemma api_key_needs_header: "authenticate_api_key sha a h = Inr i \<Longrightarrow> h (ak_header_name a) \<noteq> None \<or> h ''Authorization'' \<noteq> None"
  by (auto simp: authenticate_api_key_def extract_raw_key_def Let_def split: option.splits)

lemma api_key_method: "authenticate_api_key sha a h = Inr i \<Longrightarrow> id_auth_method i = ''api_key''"
  by (auto simp: authenticate_api_key_def api_key_identity_def Let_def new_identity_Inr
      split: option.splits sum.splits if_splits pyval.splits)

lemma bearer_needs_header: "authenticate_bearer jwt a h = Inr i \<Longrightarrow> h ''Authorization'' \<noteq> None"
  by (auto simp: authenticate_bearer_def extract_token_def split: option.splits)

lemma bearer_method: "authenticate_bearer jwt a h = Inr i \<Longrightarrow> id_auth_method i = ''bearer_token''"
  by (auto simp: authenticate_bearer_def token_identity_def Let_def new_identity_Inr
      split: option.splits sum.splits if_splits pyval.splits)

definition credential_choice :: "auth_choice \<Rightarrow> bool" where
  "credential_choice c \<longleftrightarrow> (\<exists>a. c = Use_api_keys a \<and> ak_header_name a = ''X-API-Key'') \<or> (\<exists>b. c = Use_bearer b)"

lemma credential_choice_admits:
  assumes "credential_choice c" "run_choice sha jwt c h = Inr i"
  shows "(h ''X-API-Key'' \<noteq> None \<or> h ''Authorization'' \<noteq> None) \<and> id_auth_method i \<in> {''api_key'', ''bearer_token''}"
  using assms api_key_needs_header bearer_needs_header
  by (auto simp: credential_choice_def dest: api_key_method bearer_method) (metis option.distinct(1))+

lemma configured_choices:
  assumes "api_key_choice hs = Inr ks" "bearer_choice secret alg = Inr bs" "c \<in> set (ks @ bs)"
  shows "credential_choice c \<and> (truthy hs \<or> opt_truthy secret)"
  using assms
  by (auto simp: api_key_choice_def bearer_choice_def credential_choice_def new_api_key_authenticator_def
      split: if_splits pyval.splits sum.splits)

text \<open>C22: in production the API cannot run without authentication: an authenticator is only configured
  when keys or a token secret are, and it admits nobody who presents neither an API key nor an
  authorization header; neither the development bypass nor the test keys are ever in the chain.\<close>

theorem production_requires_credentials:
  assumes "fs_environment s = ''production''" "get_authenticator s = Inr a" "run_choice sha jwt a h = Inr i"
  shows "(h ''X-API-Key'' \<noteq> None \<or> h ''Authorization'' \<noteq> None) \<and> id_auth_method i \<in> {''api_key'', ''bearer_token''}
    \<and> fs_api_auth_enabled s \<and> (truthy (fs_api_key_hashes s) \<or> opt_truthy (fs_jwt_secret_key s))"
proof -
  have enabled: "fs_api_auth_enabled s"
    using assms(1,2) by (auto simp: get_authenticator_def split: if_splits)
  obtain ks bs where k: "api_key_choice (fs_api_key_hashes s) = Inr ks"
    and b: "bearer_choice (fs_jwt_secret_key s) (fs_jwt_algorithm s) = Inr bs"
    and a: "ks @ bs \<noteq> []" "a = (if length (ks @ bs) > 1 then Use_composite (ks @ bs) else hd (ks @ bs))"
    using assms(1,2) enabled by (auto simp: get_authenticator_def or_raise_Inr Let_def split: if_splits)
  obtain c where c: "c \<in> set (ks @ bs)" "run_choice sha jwt c h = Inr i"
  proof (cases "length (ks @ bs) > 1")
    case True
    then have "composite_loop (map (run_choice sha jwt) (ks @ bs))
        (auth_error ''Missing authentication credentials.'' ''MISSING_CREDENTIALS'') h = Inr i"
      using a assms(3) by (auto simp: authenticate_composite_def)
    from composite_loop_Inr[OF this] show ?thesis using that by auto
  next
    case False
    then show ?thesis using that[of "hd (ks @ bs)"] a(2) assms(3) hd_in_set[OF a(1)] by (simp only: if_False)
  qed
  show ?thesis
    using credential_choice_admits[OF _ c(2)] configured_choices[OF k b c(1)] enabled by blast
qed

text \<open>Outside production, enabling authentication without configuring keys protects nothing: the
  fallback authenticator admits a request without any credential as an administrator.\<close>

theorem unconfigured_auth_admits_admin:
  assumes "fs_environment s \<noteq> ''production''" "fs_api_auth_enabled s"
    and "\<not> truthy (fs_api_key_hashes s)" "\<not> opt_truthy (fs_jwt_secret_key s)"
  shows "\<exists>a i. get_authenticator s = Inr a \<and> run_choice sha jwt a no_headers = Inr i
    \<and> (\<forall>p\<in>ROLE_PERMISSIONS ADMIN. has_permission i p)"
proof -
  have a: "get_authenticator s = Inr Use_test"
    using assms by (simp add: get_authenticator_def api_key_choice_def bearer_choice_def)
  obtain i where i: "authenticate_test no_headers = Inr i" "id_permissions i = ROLE_PERMISSIONS ADMIN"
    by (simp add: authenticate_test_def no_headers_def test_key_def new_identity_def Let_def)
  then have "\<forall>p\<in>ROLE_PERMISSIONS ADMIN. has_permission i p"
    using test_granted[OF i(1)] by (simp add: has_permission_def well_granted_def)
  then show ?thesis using a i(1) by auto
qed

text \<open>The name of the environment is folded to lower case for most rules, but not for the default
  of the metrics rule: with \<open>ENVIRONMENT=Production\<close> the application is in production and still
  serves its metrics to everyone.\<close>

theorem mixed_case_metrics_open:
  assumes "settings_from_env to_float json_loads env = Inr s" "env ''ENVIRONMENT'' = Some ''Production''"
    and "env ''PROMETHEUS_METRICS_ENABLED'' = None" "env ''PROMETHEUS_METRICS_REQUIRE_AUTH'' = None"
  shows "fs_environment s = ''production'' \<and> verify_prometheus_access s auth now h l = (Inr None, l)"
proof -
  have "env_flag ''true''" "\<not> env_flag ''false''" "py_lower ''Production'' = ''production''" by code_simp+
  then show ?thesis
    using settings_from_envD[OF assms(1)] assms(2-4)
    by (simp add: verify_prometheus_access_def env_environment_def production_flag_def getenv_def)
qed

section \<open>Responses\<close>

lemma map_response_Inr: "map_response f x = (Inr r, w) \<longleftrightarrow> (\<exists>r0. x = (Inr r0, w) \<and> r = f r0)"
  by (auto simp: map_response_def split: prod.splits sum.splits)

lemma set_header_get: "map_of (hr_headers (set_header k v r)) j = (if j = k then Some v else map_of (hr_headers r) j)"
  by (simp add: set_header_def)

lemma set_headers_get:
  "distinct (map fst kvs) \<Longrightarrow> map_of (hr_headers (fold (\<lambda>(k, v). set_header k v) kvs r)) j =
     (case map_of kvs j of Some v \<Rightarrow> Some v | None \<Rightarrow> map_of (hr_headers r) j)"
proof (induction kvs arbitrary: r)
  case (Cons kv kvs)
  have "map_of kvs (fst kv) = None" using Cons.prems by (simp add: map_of_eq_None_iff)
  then show ?case using Cons by (auto simp: set_header_get split: prod.splits option.splits)
qed simp

lemma security_header_keys: "map fst (security_header_values hsts) =
    [''X-Content-Type-Options'', ''X-Frame-Options'', ''Referrer-Policy'', ''X-XSS-Protection'', ''Content-Security-Policy'']
    @ (if hsts then [''Strict-Transport-Security''] else [])"
  by (simp add: security_header_values_def)

text \<open>C26: every response the inner pipeline delivers, other than the refusal of a malformed correlation
  identifier, carries all the security headers and echoes one well-formed correlation identifier in
  both headers, so no header can be injected through it, however the route ends short of an
  unregistered exception.\<close>

theorem responses_carry_headers:
  assumes "inner_pipeline s new_hex route q w = (Inr r, w')" "corr_id_ok (''req_'' @ new_hex)" "r \<noteq> corr_id_error"
  shows "(\<forall>(k, v)\<in>set (security_header_values (fs_hsts_enabled s)). map_of (hr_headers r) k = Some v)
    \<and> (\<exists>c. corr_id_ok c \<and> map_of (hr_headers r) ''X-Correlation-ID'' = Some c \<and> map_of (hr_headers r) ''X-Request-ID'' = Some c)"
proof -
  let ?vals = "security_header_values (fs_hsts_enabled s)"
  obtain c r0 where c: "corr_id_ok c"
    and r: "r = set_header ''X-Request-ID'' c (set_header ''X-Correlation-ID'' c
        (fold (\<lambda>(k, v). set_header k v) ?vals r0))"
    using assms unfolding inner_pipeline_def correlation_id_def Let_def security_headers_def
    by (auto simp: map_response_Inr split: option.splits if_splits)
  have dist: "distinct (map fst ?vals)" by (simp add: security_header_keys)
  have "map_of (hr_headers r) k = Some v" if "(k, v) \<in> set ?vals" for k v
  proof -
    have "k \<in> set (map fst ?vals)" using that by force
    then have "k \<noteq> ''X-Request-ID''" "k \<noteq> ''X-Correlation-ID''" by (auto simp: security_header_keys split: if_splits)
    then show ?thesis using map_of_is_SomeI[OF dist that] by (simp add: r set_header_get set_headers_get[OF dist])
  qed
  then show ?thesis using c by (auto simp: r set_header_get)
qed

text \<open>A limit of zero is accepted from the environment (the field constraint is not checked there) and
  turns every health probe into an internal server error.\<close>

theorem zero_limit_breaks_probes:
  assumes "settings_from_env to_float json_loads env = Inr s" "env ''RATE_LIMIT_PUBLIC_PER_MINUTE'' = Some ''0''"
    and "fs_rate_limit_enabled s" "create_app cors s now new_hex route = Inr app" "hq_path q = ''/health''"
  shows "fst (app q (new_limiter n, w)) = server_error"
proof -
  have "py_int ''0'' = Some 0" by code_simp
  then have zero: "fs_rate_limit_public_per_minute s = 0"
    using settings_from_envD(8)[OF assms(1)] assms(2) by (simp add: env_int_def getenv_def)
  obtain h where app: "app = server_error_layer (public_rate_limit s now h)"
    using assms(4) by (auto simp: create_app_def Let_def split: if_splits)
  have "dget (evict_stale now 60 (new_limiter n)) k [] = []" for k
    by (simp add: evict_stale_def new_limiter_def dget_def)
  then show ?thesis
    using assms(3,5) zero
    by (simp add: app server_error_layer_def public_rate_limit_def check_rate_limit_def Let_def)
qed

section \<open>Witnesses\<close>

definition ex_hashes :: "string \<Rightarrow> exc + pyval" where
  "ex_hashes text = Inr (PDict [(''k'', PDict [(''role'', PStr ''viewer'')])])"

definition ex_settings :: "(string \<times> string) list \<Rightarrow> exc + FrameworkSettings" where
  "ex_settings kvs = settings_from_env (\<lambda>_. Some 1) ex_hashes (map_of kvs)"

lemma ex_settings_built:
  "list_all (\<lambda>(n, d). case map_of kvs n of None \<Rightarrow> True | Some v \<Rightarrow> py_int v \<noteq> None) int_settings \<Longrightarrow>
   \<exists>s. ex_settings kvs = Inr s"
  unfolding ex_settings_def by (rule settings_built_small) (simp_all add: ex_hashes_def)

lemmas ex_settings_fields = settings_from_envD[of "\<lambda>_. Some 1" ex_hashes "map_of kvs" for kvs, folded ex_settings_def]

definition ex_production :: "(string \<times> string) list" where
  "ex_production = [(''ENVIRONMENT'', ''production''), (''API_KEY_HASHES'', ''{...}'')]"

lemma ex_production_settings:
  "\<exists>s. ex_settings ex_production = Inr s \<and> fs_environment s = ''production'' \<and> fs_api_auth_enabled s
    \<and> fs_api_key_hashes s = PDict [(''k'', PDict [(''role'', PStr ''viewer'')])] \<and> fs_jwt_secret_key s = None"
proof -
  obtain s where s: "ex_settings ex_production = Inr s"
    using ex_settings_built[of ex_production] by (auto simp: ex_production_def int_settings_def split: if_splits)
  have "py_lower ''production'' = ''production''" "env_flag ''true''" by code_simp+
  then have "fs_environment s = ''production'' \<and> fs_api_auth_enabled s
    \<and> fs_api_key_hashes s = PDict [(''k'', PDict [(''role'', PStr ''viewer'')])] \<and> fs_jwt_secret_key s = None"
    using ex_settings_fields(1,2,6,7)[OF s]
    by (simp add: ex_production_def env_environment_def production_flag_def getenv_def env_key_hashes_def ex_hashes_def
        eq_commute[of _ "fs_api_key_hashes s"])
  then show ?thesis using s by blast
qed

definition key_header :: headers where
  "key_header = (\<lambda>n. if n = ''X-API-Key'' then Some ''k'' else None)"

definition ex_key_choice :: auth_choice where
  "ex_key_choice = Use_api_keys (new_api_key_authenticator [(''k'', PDict [(''role'', PStr ''viewer'')])] ''X-API-Key'')"

lemma ex_key_admitted: "case run_choice (\<lambda>x. x) None ex_key_choice key_header of Inl e \<Rightarrow> False | Inr i \<Rightarrow> True"
  by code_simp

theorem production_requires_credentials_witness:
  "\<exists>s a i. ex_settings ex_production = Inr s \<and> get_authenticator s = Inr a
    \<and> run_choice (\<lambda>x. x) None a key_header = Inr i \<and> id_auth_method i \<in> {''api_key'', ''bearer_token''}"
proof -
  obtain s where s: "ex_settings ex_production = Inr s" "fs_environment s = ''production''" "fs_api_auth_enabled s"
    "fs_api_key_hashes s = PDict [(''k'', PDict [(''role'', PStr ''viewer'')])]" "fs_jwt_secret_key s = None"
    using ex_production_settings by blast
  have a: "get_authenticator s = Inr ex_key_choice"
    using s by (simp add: get_authenticator_def api_key_choice_def bearer_choice_def ex_key_choice_def)
  obtain i where i: "run_choice (\<lambda>x. x) None ex_key_choice key_header = Inr i"
    using ex_key_admitted by (auto split: sum.splits)
  from production_requires_credentials[OF s(2) a i] s(1) a i show ?thesis by blast
qed

theorem unconfigured_auth_admits_admin_witness:
  "\<exists>s a i. ex_settings [(''ENVIRONMENT'', ''staging''), (''API_AUTH_ENABLED'', ''true'')] = Inr s
    \<and> get_authenticator s = Inr a \<and> run_choice (\<lambda>x. x) None a no_headers = Inr i
    \<and> (\<forall>p\<in>ROLE_PERMISSIONS ADMIN. has_permission i p)"
proof -
  let ?env = "[(''ENVIRONMENT'', ''staging''), (''API_AUTH_ENABLED'', ''true'')]"
  obtain s where s: "ex_settings ?env = Inr s"
    using ex_settings_built[of ?env] by (auto simp: int_settings_def split: if_splits)
  have "py_lower ''staging'' = ''staging''" "env_flag ''true''" by code_simp+
  then have "fs_environment s \<noteq> ''production''" "fs_api_auth_enabled s" "\<not> truthy (fs_api_key_hashes s)"
    "\<not> opt_truthy (fs_jwt_secret_key s)"
    using ex_settings_fields(1,2,6,7)[OF s]
    by (simp_all add: env_environment_def production_flag_def getenv_def env_key_hashes_def
        eq_commute[of _ "fs_api_key_hashes s"])
  from unconfigured_auth_admits_admin[OF this, of "\<lambda>x. x" None] s show ?thesis by blast
qed

theorem mixed_case_metrics_open_witness:
  "\<exists>s. ex_settings [(''ENVIRONMENT'', ''Production'')] = Inr s \<and> fs_environment s = ''production''
    \<and> verify_prometheus_access s authenticate_test 0 no_headers (new_limiter 1) = (Inr None, new_limiter 1)"
proof -
  obtain s where s: "ex_settings [(''ENVIRONMENT'', ''Production'')] = Inr s"
    using ex_settings_built[of "[(''ENVIRONMENT'', ''Production'')]"] by (auto simp: int_settings_def split: if_splits)
  from mixed_case_metrics_open[OF s[unfolded ex_settings_def]] s show ?thesis by auto
qed

definition ex_request_for :: "string \<Rightarrow> http_request" where
  "ex_request_for path = \<lparr>hq_headers = no_headers, hq_path = path, hq_client = None, hq_correlation_id = None\<rparr>"

definition ex_route :: "'w handler" where
  "ex_route q w = (Inr \<lparr>hr_status = 200, hr_content = PNone, hr_headers = []\<rparr>, w)"

theorem responses_carry_headers_witness:
  "\<exists>s r w. ex_settings ex_production = Inr s
    \<and> inner_pipeline s ''0af1'' ex_route (ex_request_for ''/x'') (new_limiter 1, ()) = (Inr r, w)
    \<and> map_of (hr_headers r) ''X-Frame-Options'' = Some ''DENY'' \<and> (\<exists>c. map_of (hr_headers r) ''X-Correlation-ID'' = Some c \<and> corr_id_ok c)"
proof -
  obtain s where s: "ex_settings ex_production = Inr s" using ex_production_settings by blast
  obtain r w where run: "inner_pipeline s ''0af1'' ex_route (ex_request_for ''/x'') (new_limiter 1, ()) = (Inr r, w)"
    and ok: "hr_status r = 200"
    by (simp add: inner_pipeline_def correlation_id_def security_headers_def size_limit_def exception_layer_def
        ex_route_def ex_request_for_def no_headers_def map_response_def set_header_def security_header_values_def)
  have "r \<noteq> corr_id_error" using ok by (auto simp: corr_id_error_def error_response_def)
  moreover have "corr_id_ok (''req_'' @ ''0af1'')" by code_simp
  ultimately have "(\<forall>(k, v)\<in>set (security_header_values (fs_hsts_enabled s)). map_of (hr_headers r) k = Some v)
    \<and> (\<exists>c. corr_id_ok c \<and> map_of (hr_headers r) ''X-Correlation-ID'' = Some c \<and> map_of (hr_headers r) ''X-Request-ID'' = Some c)"
    by (intro responses_carry_headers[OF run])
  moreover have "(''X-Frame-Options'', ''DENY'') \<in> set (security_header_values (fs_hsts_enabled s))"
    by (simp add: security_header_values_def)
  ultimately show ?thesis using s run by blast
qed

theorem zero_limit_breaks_probes_witness:
  "\<exists>s app. ex_settings [(''RATE_LIMIT_PUBLIC_PER_MINUTE'', ''0'')] = Inr s
    \<and> create_app (\<lambda>h. h) s 0 ''0af1'' ex_route = Inr app
    \<and> fst (app (ex_request_for ''/health'') (new_limiter 5, ())) = server_error"
proof -
  let ?env = "[(''RATE_LIMIT_PUBLIC_PER_MINUTE'', ''0'')]"
  have "py_int ''0'' = Some 0" by (simp add: py_int_def py_strip_def py_space_def is_digit_def)
  then obtain s where s1: "ex_settings ?env = Inr s"
    using ex_settings_built[of ?env] by (auto simp: int_settings_def split: if_splits)
  have "env_flag ''true''" "py_lower ''development'' = ''development''" by code_simp+
  then have s: "ex_settings ?env = Inr s" "fs_rate_limit_enabled s" "fs_environment s \<noteq> ''production''"
    using s1 ex_settings_fields(1,9)[OF s1] by (auto simp: env_environment_def getenv_def)
  obtain app where app: "create_app (\<lambda>h. h) s 0 ''0af1'' (ex_route :: unit handler) = Inr app"
    using s(3) by (simp add: create_app_def)
  from zero_limit_breaks_probes[OF s(1)[unfolded ex_settings_def] _ s(2) app, of "ex_request_for ''/health''" 5 "()"]
  show ?thesis using s(1) app by (auto simp: ex_request_for_def)
qed

end
