(* ===== verification/Api_Routes.thy ===== *)
theory Api_Routes
  imports Event_Service Api_Access "HOL-Library.Sublist"
begin

text \<open>
  The run and review endpoints (\<open>api/routes/runs.py\<close>, \<open>api/routes/human.py\<close>) and their request and
  response models (\<open>api/schemas.py\<close>). An endpoint that waits for a run is split at the wait. The
  conversion of JSON bodies into the request records is the web library's.
\<close>

section \<open>Responses (api/schemas.py)\<close>

record TaskSummary =
  ts_id :: string
  ts_title :: string
  ts_task_type :: string
  ts_status :: string
  ts_dependencies :: "string list"
  ts_retry_count :: nat
  ts_max_retries :: nat
  ts_output_data :: "dict option"
  ts_error :: "string option"

record PlanSummary =
  ps_rationale :: string
  ps_tasks :: "TaskSummary list"

record RunResponse =
  rn_run_id :: string
  rn_request :: string
  rn_status :: string
  rn_current_step :: nat
  rn_plan :: "PlanSummary option"
  rn_requires_human :: bool
  rn_final_response :: "string option"
  rn_errors :: "dict list"
  rn_created_at :: time
  rn_updated_at :: time

record RunStatusResponse =
  st_run_id :: string
  st_status :: string
  st_current_step :: nat
  st_requires_human :: bool
  st_has_plan :: bool
  st_completed_tasks :: nat
  st_total_tasks :: nat

record CheckpointResponse =
  cpr_checkpoint_id :: string
  cpr_run_id :: string
  cpr_step :: nat
  cpr_timestamp :: time
  cpr_status :: string
  cpr_metadata :: dict

record HumanReviewResponse =
  hv_request_id :: string
  hv_run_id :: string
  hv_task_id :: "string option"
  hv_reason :: string
  hv_requested_action :: string
  hv_context :: dict
  hv_status :: string
  hv_created_at :: time

record HumanDecisionResponse =
  hd_run_id :: string
  hd_status :: string
  hd_resumed_successfully :: bool
  hd_final_response :: "string option"

definition task_summary :: "Task \<Rightarrow> TaskSummary" where
  "task_summary t =
     \<lparr>ts_id = t_id t, ts_title = t_title t, ts_task_type = task_type_value (t_task_type t),
      ts_status = task_status_value (t_status t), ts_dependencies = t_dependencies t,
      ts_retry_count = t_retry_count t, ts_max_retries = t_max_retries t,
      ts_output_data = t_output_data t, ts_error = t_error t\<rparr>"

text \<open>A plan without a rationale breaks the constraint of the summary.\<close>

definition plan_summary :: "ExecutionPlan option \<Rightarrow> exc + PlanSummary option" where
  "plan_summary plan =
     (case plan of
        None \<Rightarrow> Inr None
      | Some p \<Rightarrow>
          (case p_rationale p of
             None \<Rightarrow> Inl (validation_failure ''rationale'')
           | Some r \<Rightarrow> Inr (Some \<lparr>ps_rationale = r, ps_tasks = map task_summary (p_tasks p)\<rparr>)))"

definition state_to_run_response :: "OrchestrationState \<Rightarrow> exc + RunResponse" where
  "state_to_run_response s =
     (case plan_summary (s_plan s) of
        Inl e \<Rightarrow> Inl e
      | Inr p \<Rightarrow> Inr
          \<lparr>rn_run_id = s_run_id s, rn_request = s_request s, rn_status = execution_status_value (s_status s),
           rn_current_step = s_current_step s, rn_plan = p, rn_requires_human = s_requires_human s,
           rn_final_response = s_final_response s, rn_errors = s_errors s,
           rn_created_at = m_created_at (s_metadata s), rn_updated_at = m_updated_at (s_metadata s)\<rparr>)"

definition state_to_status_response :: "OrchestrationState \<Rightarrow> JobStatus option \<Rightarrow> RunStatusResponse" where
  "state_to_status_response s live =
     (let ts = (case s_plan s of None \<Rightarrow> [] | Some p \<Rightarrow> p_tasks p) in
      \<lparr>st_run_id = s_run_id s,
       st_status = (if s_status s = ExecutionStatus.IDLE \<and> live = Some JobStatus.QUEUED then ''queued''
                    else execution_status_value (s_status s)),
       st_current_step = s_current_step s, st_requires_human = s_requires_human s,
       st_has_plan = (s_plan s \<noteq> None),
       st_completed_tasks = length (filter (\<lambda>t. task_status_value (t_status t) = ''completed'') ts),
       st_total_tasks = length ts\<rparr>)"

definition checkpoint_to_response :: "Checkpoint \<Rightarrow> CheckpointResponse" where
  "checkpoint_to_response cp =
     \<lparr>cpr_checkpoint_id = cp_checkpoint_id cp, cpr_run_id = cp_run_id cp, cpr_step = cp_step cp,
      cpr_timestamp = cp_timestamp cp, cpr_status = execution_status_value (s_status (cp_state cp)),
      cpr_metadata = cp_metadata cp\<rparr>"

section \<open>Requests (api/schemas.py)\<close>

record CreateRunRequest =
  cr_request :: string
  cr_correlation_id :: "string option"
  cr_session_id :: "string option"
  cr_idempotency_key :: "string option"
  cr_custom_context :: "dict option"

record HumanDecisionRequest =
  dr_request_id :: string
  dr_status :: string
  dr_decision_note :: "string option"
  dr_modified_payload :: "dict option"
  dr_reviewer_id :: "string option"

text \<open>\<open>len(json.dumps(v)) <= n\<close>; the order of keys does not change the length.\<close>

definition json_within :: "nat \<Rightarrow> dict \<Rightarrow> bool" where
  "json_within n d = (case json_dumps (PDict d) of None \<Rightarrow> False | Some t \<Rightarrow> length t \<le> n)"

definition opt_all :: "('a \<Rightarrow> bool) \<Rightarrow> 'a option \<Rightarrow> bool" where
  "opt_all P x = (case x of None \<Rightarrow> True | Some y \<Rightarrow> P y)"

definition valid_create_request :: "CreateRunRequest \<Rightarrow> bool" where
  "valid_create_request p \<longleftrightarrow>
     cr_request p \<noteq> [] \<and> length (cr_request p) \<le> 50000
     \<and> opt_all corr_id_ok (cr_correlation_id p) \<and> opt_all corr_id_ok (cr_session_id p)
     \<and> opt_all (\<lambda>k. length k \<le> 128) (cr_idempotency_key p)
     \<and> opt_all (\<lambda>d. length d \<le> 50 \<and> json_within 65536 d) (cr_custom_context p)"

definition request_id_char :: "char \<Rightarrow> bool" where
  "request_id_char c \<longleftrightarrow> corr_char c \<and> c \<notin> {CHR ''.'', CHR '':''}"

definition valid_decision_request :: "HumanDecisionRequest \<Rightarrow> bool" where
  "valid_decision_request p \<longleftrightarrow>
     dr_request_id p \<noteq> [] \<and> length (dr_request_id p) \<le> 64 \<and> list_all request_id_char (dr_request_id p)
     \<and> py_lower (dr_status p) \<in> {''approved'', ''rejected'', ''modified''}
     \<and> opt_all (\<lambda>s. length s \<le> 5000) (dr_decision_note p)
     \<and> opt_all (json_within 131072) (dr_modified_payload p) \<and> opt_all (\<lambda>s. length s \<le> 64) (dr_reviewer_id p)"

section \<open>Dependencies of the endpoints\<close>

text \<open>\<open>Depends(require_permission(p))\<close>, then \<open>Depends(require_rate_limit())\<close>.\<close>

definition route_guard ::
    "Permission \<Rightarrow> FrameworkSettings \<Rightarrow> rat \<Rightarrow> AuthenticatedIdentity \<Rightarrow> rate_limiter
     \<Rightarrow> (failure + AuthenticatedIdentity) \<times> rate_limiter" where
  "route_guard p s now identity l =
     (case require_permission p identity of
        Inl e \<Rightarrow> (Inl (Raised_exc e), l)
      | Inr i \<Rightarrow> require_rate_limit None 60 (fs_rate_limit_enabled s) (fs_rate_limit_authenticated_per_minute s) now i l)"

definition run_not_found :: "string \<Rightarrow> failure" where
  "run_not_found run_id = http_error 404 (''Run '' @ quoted run_id @ '' not found.'')"

text \<open>\<open>state = await service.get_state(run_id)\<close>, then 404 if there is none.\<close>

definition with_state ::
    "'w backend_config \<Rightarrow> string \<Rightarrow> (OrchestrationState \<Rightarrow> 'w backend \<Rightarrow> (failure + 'a) \<times> 'w backend)
     \<Rightarrow> 'w backend \<Rightarrow> (failure + 'a) \<times> 'w backend" where
  "with_state cfg run_id f b =
     (case get_from_store cfg run_id b of
        (Inl e, b1) \<Rightarrow> (Inl (Raised_exc e), b1)
      | (Inr None, b1) \<Rightarrow> (Inl (run_not_found run_id), b1)
      | (Inr (Some s), b1) \<Rightarrow> f s b1)"

section \<open>Creating a run (api/routes/runs.py)\<close>

definition run_request_of :: "AuthenticatedIdentity \<Rightarrow> string option \<Rightarrow> CreateRunRequest \<Rightarrow> run_request" where
  "run_request_of identity header_key p =
     \<lparr>rq_run_id = [], rq_request = cr_request p, rq_correlation_id = cr_correlation_id p,
      rq_session_id = cr_session_id p, rq_custom_context = cr_custom_context p,
      rq_idempotency_key = (if opt_truthy header_key then header_key else cr_idempotency_key p),
      rq_subject_id = Some (id_subject_id identity)\<rparr>"

definition create_run_submit ::
    "'w backend_config \<Rightarrow> tick \<Rightarrow> AuthenticatedIdentity \<Rightarrow> string option \<Rightarrow> CreateRunRequest \<Rightarrow> 'w backend
     \<Rightarrow> (failure + ExecutionJob \<times> nat) \<times> 'w backend" where
  "create_run_submit cfg k identity header_key p b =
     (case service_submit_run cfg k (run_request_of identity header_key p) b of
        (Inr x, b1) \<Rightarrow> (Inr x, b1)
      | (Inl e, b1) \<Rightarrow>
          if isinstance e OrchestrationError \<and> e_code e = ''EXECUTION_QUEUE_FULL'' then
            (Inl (Http_Exception \<lparr>hx_status_code = 429, hx_detail = e_message e, hx_headers = [(''Retry-After'', ''5'')]\<rparr>), b1)
          else (Inl (Raised_exc e), b1))"

definition async_requested :: "bool \<Rightarrow> string option \<Rightarrow> bool" where
  "async_requested async_mode prefer \<longleftrightarrow>
     async_mode \<or> (opt_truthy prefer \<and> sublist ''respond-async'' (py_lower (str_or prefer [])))"

text \<open>The answer of the asynchronous mode (status 202).\<close>

definition create_run_accepted ::
    "'w backend_config \<Rightarrow> ExecutionJob \<Rightarrow> CreateRunRequest \<Rightarrow> 'w backend \<Rightarrow> (failure + RunResponse) \<times> 'w backend" where
  "create_run_accepted cfg job p b =
     (case get_from_store cfg (j_run_id job) b of
        (Inl e, b1) \<Rightarrow> (Inl (Raised_exc e), b1)
      | (Inr (Some s), b1) \<Rightarrow> (lift_exc (state_to_run_response s), b1)
      | (Inr None, b1) \<Rightarrow> (Inr
          \<lparr>rn_run_id = j_run_id job, rn_request = cr_request p, rn_status = ''queued'', rn_current_step = 0,
           rn_plan = None, rn_requires_human = False, rn_final_response = None, rn_errors = [],
           rn_created_at = j_submitted_at job, rn_updated_at = j_submitted_at job\<rparr>, b1))"

text \<open>The synchronous mode after \<open>wait_for\<close>: the future is settled, or the deadline cancels it.\<close>

definition create_run_done :: "exc + OrchestrationState \<Rightarrow> failure + RunResponse" where
  "create_run_done r = (case r of Inl e \<Rightarrow> Inl (Raised_exc e) | Inr s \<Rightarrow> lift_exc (state_to_run_response s))"

definition create_run_deadline ::
    "'w backend_config \<Rightarrow> tick \<Rightarrow> ExecutionJob \<Rightarrow> nat \<Rightarrow> 'w backend \<Rightarrow> (failure + RunResponse) \<times> 'w backend" where
  "create_run_deadline cfg k job f b =
     (case cancel_run cfg k (j_run_id job) ''Request deadline exceeded'' (set_future f Fut_cancelled b) of
        (Inl e, b1) \<Rightarrow> (Inl (Raised_exc e), b1)
      | (Inr _, b1) \<Rightarrow> (Inl (http_error 504 ''Workflow execution exceeded request deadline.''), b1))"

section \<open>Reading and cancelling a run\<close>

definition get_run :: "'w backend_config \<Rightarrow> string \<Rightarrow> 'w backend \<Rightarrow> (failure + RunResponse) \<times> 'w backend" where
  "get_run cfg run_id = with_state cfg run_id (\<lambda>s b. (lift_exc (state_to_run_response s), b))"

definition get_run_status :: "'w backend_config \<Rightarrow> string \<Rightarrow> 'w backend \<Rightarrow> (failure + RunStatusResponse) \<times> 'w backend" where
  "get_run_status cfg run_id =
     with_state cfg run_id (\<lambda>s b. (Inr (state_to_status_response s (map_option j_status (get_job b run_id))), b))"

definition cancel_run_endpoint ::
    "'w backend_config \<Rightarrow> tick \<Rightarrow> AuthenticatedIdentity \<Rightarrow> string \<Rightarrow> 'w backend \<Rightarrow> (failure + RunResponse) \<times> 'w backend" where
  "cancel_run_endpoint cfg k identity run_id =
     with_state cfg run_id (\<lambda>s b.
       if terminal (s_status s) then
         (Inl (http_error 400 (''Run '' @ quoted run_id @ '' is in terminal status ''
            @ quoted (execution_status_value (s_status s)) @ '' and cannot be cancelled.'')), b)
       else
         (case cancel_run cfg k run_id (''Cancelled by user '' @ quoted (id_subject_id identity)) b of
            (Inl e, b1) \<Rightarrow> (Inl (Raised_exc e), b1)
          | (Inr _, b1) \<Rightarrow>
              (case get_from_store cfg run_id b1 of
                 (Inl e, b2) \<Rightarrow> (Inl (Raised_exc e), b2)
               | (Inr found, b2) \<Rightarrow>
                   (lift_exc (state_to_run_response (case found of Some s' \<Rightarrow> s' | None \<Rightarrow> s)), b2))))"

definition get_run_checkpoints ::
    "'w backend_config \<Rightarrow> string \<Rightarrow> 'w backend \<Rightarrow> (failure + string \<times> nat \<times> CheckpointResponse list) \<times> 'w backend" where
  "get_run_checkpoints cfg run_id =
     with_state cfg run_id (\<lambda>s b.
       (case bc_list_checkpoints cfg run_id (b_world b) of
          (Inl e, w) \<Rightarrow> (Inl (Raised_exc e), b\<lparr>b_world := w\<rparr>)
        | (Inr cps, w) \<Rightarrow>
            (Inr (run_id, length cps, map checkpoint_to_response cps), b\<lparr>b_world := w\<rparr>)))"

section \<open>Human review (api/routes/human.py)\<close>

definition get_human_review :: "'w backend_config \<Rightarrow> string \<Rightarrow> 'w backend \<Rightarrow> (failure + HumanReviewResponse) \<times> 'w backend" where
  "get_human_review cfg run_id =
     with_state cfg run_id (\<lambda>_ b.
       (case get_from_store cfg run_id b of
          (Inl e, b1) \<Rightarrow> (Inl (Raised_exc e), b1)
        | (Inr found, b1) \<Rightarrow>
            (case get_pending_human_review found of
               None \<Rightarrow> (Inl (http_error 404 (''No pending human review request for run '' @ quoted run_id @ ''.'')), b1)
             | Some q \<Rightarrow> (Inr
                 \<lparr>hv_request_id = h_request_id q, hv_run_id = h_run_id q, hv_task_id = h_task_id q,
                  hv_reason = h_reason q, hv_requested_action = h_requested_action q, hv_context = h_context q,
                  hv_status = human_request_status_value (h_status q), hv_created_at = h_created_at q\<rparr>, b1))))"

fun decision_permission :: "HumanRequestStatus \<Rightarrow> Permission option" where
  "decision_permission HumanRequestStatus.APPROVED = Some HITL_APPROVE"
| "decision_permission HumanRequestStatus.MODIFIED = Some HITL_MODIFY"
| "decision_permission HumanRequestStatus.REJECTED = Some HITL_REJECT"
| "decision_permission _ = None"

text \<open>The checks before the submission; the reviewer is the authenticated principal.\<close>

definition check_decision :: "tick \<Rightarrow> AuthenticatedIdentity \<Rightarrow> HumanDecisionRequest \<Rightarrow> failure + HumanDecision" where
  "check_decision k identity p =
     (case HumanRequestStatus_of (py_lower (py_strip (dr_status p))) of
        None \<Rightarrow> Inl (http_error 422 (''Invalid decision status '' @ quoted (dr_status p)
                  @ ''. Must be one of: APPROVED, REJECTED, MODIFIED.''))
      | Some st \<Rightarrow>
          (case decision_permission st of
             Some perm \<Rightarrow>
               if \<not> has_permission identity perm
               then Inl (Raised_exc (lacks_permission identity perm ('' for '' @ human_request_status_value st @ '' decision.'')))
               else Inr \<lparr>d_request_id = dr_request_id p, d_status = st, d_decision_note = dr_decision_note p,
                         d_modified_payload = dr_modified_payload p, d_reviewer_id = Some (id_subject_id identity),
                         d_resolved_at = k_now k\<rparr>
           | None \<Rightarrow> Inr \<lparr>d_request_id = dr_request_id p, d_status = st, d_decision_note = dr_decision_note p,
                         d_modified_payload = dr_modified_payload p, d_reviewer_id = Some (id_subject_id identity),
                         d_resolved_at = k_now k\<rparr>))"

text \<open>The \<open>except OrchestrationError\<close> clause; it covers the submission and the awaited future.\<close>

definition decision_failure :: "exc \<Rightarrow> failure" where
  "decision_failure e =
     (if isinstance e OrchestrationError then
        if e_code e = ''RUN_NOT_FOUND'' then http_error 404 (e_message e)
        else if e_code e \<in> {''NO_HUMAN_REVIEW_PENDING'', ''RUN_TERMINAL''} then http_error 400 (e_message e)
        else http_error 500 (e_message e)
      else Raised_exc e)"

definition submit_decision_endpoint ::
    "'w backend_config \<Rightarrow> tick \<Rightarrow> AuthenticatedIdentity \<Rightarrow> string \<Rightarrow> HumanDecisionRequest \<Rightarrow> 'w backend
     \<Rightarrow> (failure + ExecutionJob \<times> nat) \<times> 'w backend" where
  "submit_decision_endpoint cfg k identity run_id p b =
     (case check_decision k identity p of
        Inl x \<Rightarrow> (Inl x, b)
      | Inr d \<Rightarrow>
          (case service_submit_decision cfg k run_id d b of
             (Inl e, b1) \<Rightarrow> (Inl (decision_failure e), b1)
           | (Inr x, b1) \<Rightarrow> (Inr x, b1)))"

definition decision_done :: "exc + OrchestrationState \<Rightarrow> failure + HumanDecisionResponse" where
  "decision_done r =
     (case r of
        Inl e \<Rightarrow> Inl (decision_failure e)
      | Inr s \<Rightarrow> Inr
          \<lparr>hd_run_id = s_run_id s, hd_status = execution_status_value (s_status s),
           hd_resumed_successfully = True, hd_final_response = s_final_response s\<rparr>)"

section \<open>Review decisions\<close>

lemma lower_space: "py_space (py_lower_char c) \<longleftrightarrow> py_space c"
  by (auto simp: py_lower_char_def py_space_def Let_def of_char_of
      dest!: arg_cong[of "char_of _" _ "of_char :: char \<Rightarrow> nat"])

lemma strip_no_space: "\<forall>c\<in>set s. \<not> py_space c \<Longrightarrow> py_strip s = s"
proof -
  assume no: "\<forall>c\<in>set s. \<not> py_space c"
  have "dropWhile py_space s = s" "dropWhile py_space (rev s) = rev s"
    using no by (metis dropWhile_eq_self_iff hd_in_set set_rev)+
  then show ?thesis by (simp add: py_strip_def)
qed

lemma strip_of_lower: "\<forall>c\<in>set (py_lower s). \<not> py_space c \<Longrightarrow> py_strip s = s"
  by (rule strip_no_space) (simp add: py_lower_def lower_space)

lemma decision_status:
  assumes "valid_decision_request p"
  shows "\<exists>st perm. HumanRequestStatus_of (py_lower (py_strip (dr_status p))) = Some st
    \<and> human_request_status_value st = py_lower (dr_status p) \<and> decision_permission st = Some perm"
proof -
  have st: "py_lower (dr_status p) \<in> {''approved'', ''rejected'', ''modified''}"
    using assms by (simp add: valid_decision_request_def)
  then have "py_strip (dr_status p) = dr_status p"
    by (intro strip_of_lower) (auto simp: py_space_def)
  then show ?thesis using st by (elim insertE emptyE) (simp_all add: HumanRequestStatus_of_def)
qed

lemma lacks_permission_class: "isinstance (lacks_permission i p x) AuthorizationError"
proof -
  have "subclass_of AuthorizationError AuthorizationError" by code_simp
  then show ?thesis
    by (simp add: lacks_permission_def mk_AuthorizationError_def isinstance_def orchestrator_init_def)
qed

lemma resume_acceptedD:
  assumes "submit_resume cfg k r d b = (Inr (job, f), b1)"
  shows "\<exists>s b0. get_from_store cfg r (start cfg b) = (Inr (Some s), b0) \<and> s_requires_human s \<and> \<not> terminal (s_status s)
    \<and> b_queue b1 = b_queue b @ [Some (resume_item r s d f)]"
proof -
  obtain x b0 where g: "get_from_store cfg r (start cfg b) = (x, b0)" by (rule prod.exhaust)
  have q: "b_queue b0 = b_queue b"
    using settles_pool[OF settles_get[OF g]] by simp
  show ?thesis using assms g q
    by (auto simp: submit_resume_def resume_refusal_def resume_item_def Let_def publish_event_def update_metrics_def
        emit_def split: if_splits sum.splits option.splits)
qed

text \<open>C23: a decision reaches the queue only for a principal that holds the permission of its own kind
  (approve, reject, modify), on a stored run that waits for a human, and is recorded under the
  principal's identity whatever reviewer the body names; a principal without the permission is refused
  and nothing changes.\<close>

theorem human_decision_guarded:
  assumes "valid_decision_request p" "submit_decision_endpoint cfg k identity run_id p b = (r, b1)"
  shows "\<exists>st perm. human_request_status_value st = py_lower (dr_status p) \<and> decision_permission st = Some perm
    \<and> (\<not> has_permission identity perm \<longrightarrow> b1 = b \<and> (\<exists>e. r = Inl (Raised_exc e) \<and> isinstance e AuthorizationError))
    \<and> (\<forall>job f. r = Inr (job, f) \<longrightarrow> has_permission identity perm
        \<and> (\<exists>s d. s_requires_human s \<and> \<not> terminal (s_status s) \<and> d_status d = st
            \<and> d_reviewer_id d = Some (id_subject_id identity)
            \<and> b_queue b1 = b_queue b @ [Some (resume_item run_id s d f)]))"
proof -
  obtain st perm where st: "HumanRequestStatus_of (py_lower (py_strip (dr_status p))) = Some st"
    "human_request_status_value st = py_lower (dr_status p)" "decision_permission st = Some perm"
    using decision_status[OF assms(1)] by blast
  let ?d = "\<lparr>d_request_id = dr_request_id p, d_status = st, d_decision_note = dr_decision_note p,
    d_modified_payload = dr_modified_payload p, d_reviewer_id = Some (id_subject_id identity), d_resolved_at = k_now k\<rparr>"
  have q: "b_queue (ensure_started cfg b) = b_queue b" by (simp add: ensure_started_def)
  have bad: "b1 = b \<and> (\<exists>e. r = Inl (Raised_exc e) \<and> isinstance e AuthorizationError)" if "\<not> has_permission identity perm"
    using assms(2) st that lacks_permission_class by (auto simp: submit_decision_endpoint_def check_decision_def)
  have good: "has_permission identity perm \<and> (\<exists>s d. s_requires_human s \<and> \<not> terminal (s_status s) \<and> d_status d = st
      \<and> d_reviewer_id d = Some (id_subject_id identity) \<and> b_queue b1 = b_queue b @ [Some (resume_item run_id s d f)])"
    if "r = Inr (job, f)" for job f
  proof -
    have perm: "has_permission identity perm" using bad that by auto
    have "submit_resume cfg k run_id ?d (ensure_started cfg b) = (Inr (job, f), b1)"
      using assms(2) st that perm
      by (auto simp: submit_decision_endpoint_def check_decision_def service_submit_decision_def split: prod.splits sum.splits)
    from resume_acceptedD[OF this] obtain s where "s_requires_human s" "\<not> terminal (s_status s)"
      "b_queue b1 = b_queue b @ [Some (resume_item run_id s ?d f)]" using q by auto
    moreover have "d_status ?d = st" "d_reviewer_id ?d = Some (id_subject_id identity)" by simp_all
    ultimately show ?thesis using perm by blast
  qed
  show ?thesis
    using st(2,3) bad good by blast
qed

section \<open>Deadlines and shared runs\<close>

text \<open>An accepted keyed submission holds its key and waits on the future of the key.\<close>

definition key_of :: "'w backend_config \<Rightarrow> run_request \<Rightarrow> string" where
  "key_of cfg q = compute_key_hash (bc_sha256_hex cfg) (str_or (rq_subject_id q) []) (str_or (rq_idempotency_key q) [])"

lemma keyed_submission:
  assumes "opt_truthy (rq_idempotency_key q)" "opt_truthy (rq_subject_id q)"
    and "compute_request_hash (bc_sha256_hex cfg) (rq_request q) (rq_custom_context q) = Inr rh"
    and "map_of (b_ledger b) (key_of cfg q) = None" "submit_run cfg k q b = (Inr (job, f), b1)"
  shows "f = length (b_heap b) \<and> b_heap b1 = b_heap b @ [Fut_pending] \<and> length (b_queue b1) = Suc (length (b_queue b))
    \<and> b_is_shutting_down b1 = b_is_shutting_down b
    \<and> (\<exists>r. map_of (b_ledger b1) (key_of cfg q) = Some r \<and> ir_request_hash r = rh \<and> ir_future r = f \<and> \<not> ir_completed r)"
proof -
  let ?kh = "key_of cfg q" and ?b0 = "start cfg b"
  let ?rec = "\<lparr>ir_key_hash = ?kh, ir_request_hash = rh, ir_run_id = rq_run_id q, ir_created_at = k_now k,
    ir_future = length (b_heap b), ir_completed = False, ir_cached_result = None\<rparr>"
  obtain l where l: "l = AList.update ?kh ?rec (b_ledger b)"
    and acq: "acquire_or_join (k_now k) ?kh rh (rq_run_id q) (b_ledger ?b0, b_heap ?b0)
      = (Inr (True, length (b_heap b), None), l, b_heap b @ [Fut_pending])"
    using assms(4) by (simp add: acquire_or_join_def Let_def)
  let ?b1 = "?b0\<lparr>b_ledger := l, b_heap := b_heap b @ [Fut_pending]\<rparr>"
  have up: "\<not> b_is_shutting_down b"
    using assms(5) by (auto simp: submit_run_def submit_admit_def)
  have admit: "submit_admit cfg k q b = check_capacity cfg k q (Some ?kh) (Some (length (b_heap b))) ?b1"
    using assms(1-3) up acq by (simp add: submit_admit_def key_of_def Let_def)
  obtain e b2 where sv: "save_in_store cfg (initial_state k q) ?b1 = (e, b2)" by (rule prod.exhaust)
  have b2: "b_ledger b2 = l" "b_heap b2 = b_heap b @ [Fut_pending]" "b_queue b2 = b_queue b"
    "b_is_shutting_down b2 = b_is_shutting_down ?b1"
    using sv by (auto simp: save_in_store_def split: prod.splits)
  have enq: "submit_enqueue cfg k q (Some ?kh) (Some (length (b_heap b))) b2 = (Inr (job, f), b1)"
    using assms(5) admit sv
    by (auto simp: submit_run_def check_capacity_def split: if_splits option.splits)
  then have "f = length (b_heap b)" "b_heap b1 = b_heap b2" "length (b_queue b1) = Suc (length (b_queue b2))"
    "b_ledger b1 = b_ledger b2" "b_is_shutting_down b1 = b_is_shutting_down b2"
    by (auto simp: submit_enqueue_def Let_def update_metrics_def emit_def publish_event_def split: if_splits)
  then show ?thesis using b2 l up shutting_start[OF up, of cfg] by simp
qed

lemma joining_submission:
  assumes "opt_truthy (rq_idempotency_key q)" "opt_truthy (rq_subject_id q)"
    and "compute_request_hash (bc_sha256_hex cfg) (rq_request q) (rq_custom_context q) = Inr rh"
    and "map_of (b_ledger b) (key_of cfg q) = Some r" "ir_request_hash r = rh" "\<not> ir_completed r"
    and "\<not> b_is_shutting_down b"
  shows "submit_run cfg k q b = (Inr (joined_job k q None (start cfg b), ir_future r), start cfg b)"
  using assms by (simp add: submit_run_def submit_admit_def key_of_def acquire_or_join_def Let_def joined_job_def)

lemma set_future_neutral [simp]:
  "b_world (set_future i v b) = b_world b" "b_queue (set_future i v b) = b_queue b" "b_jobs (set_future i v b) = b_jobs b"
  "b_active_tasks (set_future i v b) = b_active_tasks b" "b_workers (set_future i v b) = b_workers b"
  "b_heap (set_future i v b) = settle i v (b_heap b)"
  by (simp_all add: set_future_def)

lemma upd_key_absent: "k \<notin> set (dkeys d) \<Longrightarrow> upd_key g k d = d"
  by (induction d) (auto simp: upd_key_def)

lemma start_active: "b_active_tasks (start cfg b) = b_active_tasks b"
  by (simp add: start_def update_metrics_def emit_def Let_def)

lemma ensure_neutral:
  "b_world (ensure_started cfg b) = b_world b" "b_queue (ensure_started cfg b) = b_queue b"
  "b_heap (ensure_started cfg b) = b_heap b" "b_ledger (ensure_started cfg b) = b_ledger b"
  "b_jobs (ensure_started cfg b) = b_jobs b" "b_active_tasks (ensure_started cfg b) = b_active_tasks b"
  by (simp_all add: ensure_started_def start_active)

text \<open>Cancelling a run that nobody knows only notes its identifier.\<close>

lemma cancel_unknown:
  assumes "map_of (b_jobs b) r = None" "map_of (b_active_tasks b) r = None"
    and "bc_get_state cfg r (b_world b) = (Inr None, w)"
  shows "cancel_run cfg k r reason b = (Inr False, b\<lparr>b_cancelled_runs := insert r (b_cancelled_runs b), b_world := w\<rparr>)"
proof -
  have "upd_key g r (b_jobs b) = b_jobs b" for g
    using assms(1) upd_key_absent by (simp add: map_of_eq_None_iff)
  then show ?thesis using assms by (simp add: cancel_run_def upd_job_def get_from_store_def)
qed

text \<open>Two requests with one idempotency key wait on one future, and the deadline of the second cancels
  it: the first client's wait ends with a cancellation too, while the run itself is not cancelled, as
  the second submission was given a run identifier of its own that names no run.\<close>

theorem deadline_cancels_shared_future:
  assumes "q = run_request_of identity header_key p" "opt_truthy (rq_idempotency_key q)" "id_subject_id identity \<noteq> []"
    and "compute_request_hash (bc_sha256_hex cfg) (rq_request q) (rq_custom_context q) = Inr rh"
    and "map_of (b_ledger b) (key_of cfg q) = None"
    and "create_run_submit cfg k1 identity header_key p b = (Inr (job1, f), b1)"
    and "map_of (b_jobs b1) (k_uid k2 2) = None" "map_of (b_active_tasks b1) (k_uid k2 2) = None"
    and "bc_get_state cfg (k_uid k2 2) (b_world b1) = (Inr None, w)"
  shows "\<exists>job2 b2 b3. create_run_submit cfg k2 identity header_key p b1 = (Inr (job2, f), b2)
    \<and> create_run_deadline cfg k3 job2 f b2 = (Inl (http_error 504 ''Workflow execution exceeded request deadline.''), b3)
    \<and> await_future (b_heap b3) f = Some (Inl (mk_Foreign ''CancelledError'' []))
    \<and> b_queue b3 = b_queue b1 \<and> length (b_queue b1) = Suc (length (b_queue b)) \<and> b_jobs b3 = b_jobs b1
    \<and> b_active_tasks b3 = b_active_tasks b1"
proof -
  let ?q1 = "q\<lparr>rq_run_id := k_uid k1 2\<rparr>" and ?q2 = "q\<lparr>rq_run_id := k_uid k2 2\<rparr>"
  have key: "opt_truthy (rq_subject_id q)" "key_of cfg ?q1 = key_of cfg q" "key_of cfg ?q2 = key_of cfg q"
    using assms(1,3) by (simp_all add: run_request_of_def key_of_def opt_truthy_def opt_str_def)
  have s1: "submit_run cfg k1 ?q1 (ensure_started cfg b) = (Inr (job1, f), b1)"
    using assms(1,6) by (auto simp: create_run_submit_def service_submit_run_def split: prod.splits sum.splits if_splits)
  obtain rec where f: "f = length (b_heap b)" "b_heap b1 = b_heap b @ [Fut_pending]"
    "length (b_queue b1) = Suc (length (b_queue b))" "b_is_shutting_down b1 = b_is_shutting_down (ensure_started cfg b)"
    and rec: "map_of (b_ledger b1) (key_of cfg q) = Some rec" "ir_request_hash rec = rh" "ir_future rec = f" "\<not> ir_completed rec"
    using keyed_submission[OF _ _ _ _ s1, of rh] assms(2,4,5) key ensure_neutral[of cfg b] by auto
  have up: "\<not> b_is_shutting_down b1" using s1 f(4) by (auto simp: submit_run_def submit_admit_def)
  let ?b1 = "ensure_started cfg b1"
  let ?b2 = "start cfg ?b1"
  have up1: "\<not> b_is_shutting_down ?b1" using up shutting_start[of b1 cfg] by (simp add: ensure_started_def)
  have "submit_run cfg k2 ?q2 ?b1 = (Inr (joined_job k2 ?q2 None ?b2, f), ?b2)"
    using joining_submission[of ?q2 cfg rh ?b1 rec k2] assms(2,4) key rec up1 ensure_neutral[of cfg b1] by simp
  then have second: "create_run_submit cfg k2 identity header_key p b1 = (Inr (joined_job k2 ?q2 None ?b2, f), ?b2)"
    using assms(1) by (simp add: create_run_submit_def service_submit_run_def)
  have same: "b_jobs ?b2 = b_jobs b1" "b_active_tasks ?b2 = b_active_tasks b1" "b_world ?b2 = b_world b1"
    "b_queue ?b2 = b_queue b1" "b_heap ?b2 = b_heap b1"
    using ensure_neutral[of cfg b1] by (simp_all add: start_active)
  have "j_run_id (joined_job k2 ?q2 None ?b2) = k_uid k2 2"
    using assms(7) same by (simp add: joined_job_def new_job_def)
  then obtain c b3 where late: "create_run_deadline cfg k3 (joined_job k2 ?q2 None ?b2) f ?b2 =
      (Inl (http_error 504 ''Workflow execution exceeded request deadline.''), b3)"
    and b3: "b3 = (set_future f Fut_cancelled ?b2)\<lparr>b_cancelled_runs := c, b_world := w\<rparr>"
    using cancel_unknown[of "set_future f Fut_cancelled ?b2" "k_uid k2 2" cfg w] assms(7-9) same
    by (auto simp: create_run_deadline_def)
  have "await_future (b_heap b3) f = Some (Inl (mk_Foreign ''CancelledError'' []))"
    using f(1,2) same by (simp add: b3 await_future_def settle_nth)
  moreover have "b_queue b3 = b_queue b1" "b_jobs b3 = b_jobs b1" "b_active_tasks b3 = b_active_tasks b1"
    using same by (simp_all add: b3)
  ultimately show ?thesis using second late f(3) by blast
qed

section \<open>Witnesses\<close>

definition ex_identity :: "Role \<Rightarrow> AuthenticatedIdentity" where
  "ex_identity role =
     \<lparr>id_subject_id = ''alice'', id_username = ''alice'', id_roles = {role}, id_permissions = ROLE_PERMISSIONS role,
      id_auth_method = ''api_key'', id_is_authenticated = True, id_metadata = []\<rparr>"

definition ex_decision_body :: HumanDecisionRequest where
  "ex_decision_body =
     \<lparr>dr_request_id = ''q'', dr_status = ''Approved'', dr_decision_note = None, dr_modified_payload = None,
      dr_reviewer_id = Some ''mallory''\<rparr>"

lemma ex_decision_valid: "valid_decision_request ex_decision_body" "py_lower (dr_status ex_decision_body) = ''approved''"
proof -
  have lower: "py_lower ''Approved'' = ''approved''" by code_simp
  have "request_id_char (CHR ''q'')" by code_simp
  then show "valid_decision_request ex_decision_body"
    by (simp add: valid_decision_request_def ex_decision_body_def opt_all_def lower)
  show "py_lower (dr_status ex_decision_body) = ''approved''" using lower by (simp add: ex_decision_body_def)
qed

theorem human_decision_guarded_witness:
  "\<exists>e. submit_decision_endpoint ex_wide_config (ex_tick 0) (ex_identity VIEWER) ''run'' ex_decision_body ex_awaiting
     = (Inl (Raised_exc e), ex_awaiting) \<and> isinstance e AuthorizationError"
proof -
  obtain r b1 where run: "submit_decision_endpoint ex_wide_config (ex_tick 0) (ex_identity VIEWER) ''run'' ex_decision_body
      ex_awaiting = (r, b1)" by (rule prod.exhaust)
  obtain st perm where st: "human_request_status_value st = ''approved''" "decision_permission st = Some perm"
    and out: "\<not> has_permission (ex_identity VIEWER) perm \<Longrightarrow>
      b1 = ex_awaiting \<and> (\<exists>e. r = Inl (Raised_exc e) \<and> isinstance e AuthorizationError)"
    using human_decision_guarded[OF ex_decision_valid(1) run] ex_decision_valid(2) by auto
  have "perm = HITL_APPROVE" using st by (cases st) auto
  then have "\<not> has_permission (ex_identity VIEWER) perm" by (simp add: has_permission_def ex_identity_def)
  then show ?thesis using out run by auto
qed

definition ex_create_body :: CreateRunRequest where
  "ex_create_body =
     \<lparr>cr_request = ''hi'', cr_correlation_id = None, cr_session_id = None, cr_idempotency_key = Some ''k'',
      cr_custom_context = None\<rparr>"

definition ex_named_tick :: "string \<Rightarrow> tick" where
  "ex_named_tick name = \<lparr>k_now = 0, k_elapsed = 1, k_uid = (\<lambda>_. name)\<rparr>"

definition ex_keyed :: "string \<Rightarrow> run_request" where
  "ex_keyed r =
     \<lparr>rq_run_id = r, rq_request = ''hi'', rq_correlation_id = None, rq_session_id = None,
      rq_custom_context = None, rq_idempotency_key = Some ''k'', rq_subject_id = Some ''alice''\<rparr>"

definition ex_first :: "(exc + ExecutionJob \<times> nat) \<times> InMemoryStateStore backend" where
  "ex_first = submit_run ex_config (ex_named_tick ''a'') (ex_keyed ''a'') (new_backend im_empty)"

lemma ex_keyed_run:
  "case fst ex_first of Inl _ \<Rightarrow> False | Inr _ \<Rightarrow> True" "map fst (b_jobs (snd ex_first)) = [''a'']"
  "length (b_active_tasks (snd ex_first)) = 0"
  "case im_get_state (b_world (snd ex_first)) ''b'' of None \<Rightarrow> True | Some _ \<Rightarrow> False"
  by code_simp+

lemma start_twice: "start ex_config (start ex_config (new_backend im_empty)) = start ex_config (new_backend im_empty)"
  by (simp add: start_def new_backend_def update_metrics_def emit_def Let_def)

theorem deadline_cancels_shared_future_witness:
  "\<exists>job f job2 b1 b2 b3 r.
     create_run_submit ex_config (ex_named_tick ''a'') (ex_identity OPERATOR) None ex_create_body (new_backend im_empty) = (Inr (job, f), b1)
     \<and> create_run_submit ex_config (ex_named_tick ''b'') (ex_identity OPERATOR) None ex_create_body b1 = (Inr (job2, f), b2)
     \<and> create_run_deadline ex_config (ex_named_tick ''c'') job2 f b2 = (r, b3)
     \<and> await_future (b_heap b3) f = Some (Inl (mk_Foreign ''CancelledError'' [])) \<and> length (b_queue b3) = 1"
proof -
  let ?q = "run_request_of (ex_identity OPERATOR) None ex_create_body" and ?b = "new_backend im_empty"
  have q: "?q\<lparr>rq_run_id := ''a''\<rparr> = ex_keyed ''a''"
    by (simp add: run_request_of_def ex_identity_def ex_create_body_def ex_keyed_def opt_truthy_def opt_str_def)
  have up: "\<not> b_is_shutting_down ?b" "\<not> b_is_started ?b" by (simp_all add: new_backend_def)
  have started: "submit_run ex_config k q' (start ex_config ?b) = submit_run ex_config k q' ?b" for k q'
    using shutting_start[of ?b ex_config] up by (simp add: submit_run_def submit_admit_def start_twice)
  obtain job f b1 where run: "submit_run ex_config (ex_named_tick ''a'') (ex_keyed ''a'') ?b = (Inr (job, f), b1)"
    and b1: "map fst (b_jobs b1) = [''a'']" "b_active_tasks b1 = []" "im_get_state (b_world b1) ''b'' = None"
    using ex_keyed_run by (cases ex_first) (auto simp: ex_first_def split: sum.splits option.splits)
  have first: "create_run_submit ex_config (ex_named_tick ''a'') (ex_identity OPERATOR) None ex_create_body ?b = (Inr (job, f), b1)"
    using run q started up by (simp add: create_run_submit_def service_submit_run_def ensure_started_def ex_named_tick_def)
  obtain rh where rh: "compute_request_hash (bc_sha256_hex ex_config) (rq_request ?q) (rq_custom_context ?q) = Inr rh"
    by (simp add: compute_request_hash_def run_request_of_def ex_create_body_def dict_or_empty_def)
  have "''b'' \<notin> set (map fst (b_jobs b1))" using b1(1) by simp
  then have jobs: "map_of (b_jobs b1) ''b'' = None" by (simp add: map_of_eq_None_iff)
  from deadline_cancels_shared_future[OF refl _ _ rh _ first, of "ex_named_tick ''b''" "b_world b1" "ex_named_tick ''c''"] jobs b1
  obtain job2 b2 b3 where "create_run_submit ex_config (ex_named_tick ''b'') (ex_identity OPERATOR) None ex_create_body b1 = (Inr (job2, f), b2)"
    "create_run_deadline ex_config (ex_named_tick ''c'') job2 f b2 = (Inl (http_error 504 ''Workflow execution exceeded request deadline.''), b3)"
    "await_future (b_heap b3) f = Some (Inl (mk_Foreign ''CancelledError'' []))" "length (b_queue b3) = 1"
    by (auto simp: ex_named_tick_def new_backend_def run_request_of_def ex_create_body_def ex_identity_def opt_truthy_def
        opt_str_def ex_config_def in_memory_config_def)
  then show ?thesis using first by blast
qed

end
