(* ===== verification/Providers.thy ===== *)
theory Providers
  imports Settings Agents "HOL-Library.Sublist"
begin

text \<open>
  The two model providers (\<open>providers/gemini.py\<close>, \<open>providers/groq.py\<close>): choice of the client, formatting
  of messages, one generation with its deadline and the mapping of its errors, and the structured
  generation with corrective retries. The vendors' clients are values of a datatype that tells by which
  interface they are called; a call yields a response or an exception after some seconds.
\<close>

section \<open>Clients\<close>

text \<open>
  What is read of a response: its text (reading it may raise) and token counts; the chat interface
  has a list of choices instead.
\<close>

record sdk_response =
  sr_text :: "exc + string option"
  sr_choices :: "string option list"
  sr_usage :: "(nat option \<times> nat option \<times> nat option) option"

record sdk_call =
  sd_model :: string
  sd_system :: "string option"
  sd_messages :: "dict list"
  sd_config :: dict

type_synonym 'w sdk = "sdk_call \<Rightarrow> 'w \<Rightarrow> (exc + sdk_response) \<times> rat \<times> 'w"

text \<open>
  The interfaces a client is probed for, in this order: asynchronous models, synchronous models, the
  legacy model class (Gemini), chat completions (Groq), a callable taking the whole request.
\<close>

datatype 'w sdk_client =
    Aio_models "'w sdk"
  | Sync_models "'w sdk"
  | Legacy_model "'w sdk"
  | Chat_completions "'w sdk"
  | Callable_client "LLMRequest \<Rightarrow> 'w \<Rightarrow> (exc + LLMResponse) \<times> 'w"
  | Unknown_client

record 'w llm_provider =
  pv_provider_name :: string
  pv_default_model :: string
  pv_api_key :: "string option"
  pv_timeout_seconds :: rat
  pv_max_retries :: int
  pv_client :: "'w sdk_client option"

text \<open>\<open>a or b\<close> on optional text and on numbers.\<close>

definition opt_or :: "string option \<Rightarrow> string option \<Rightarrow> string option" where
  "opt_or a b = (if opt_truthy a then a else b)"

definition rat_or :: "rat option \<Rightarrow> rat \<Rightarrow> rat" where
  "rat_or a b = (case a of None \<Rightarrow> b | Some r \<Rightarrow> if r = 0 then b else r)"

definition new_gemini ::
    "FrameworkSettings \<Rightarrow> string option \<Rightarrow> string option \<Rightarrow> rat option \<Rightarrow> 'w sdk_client option \<Rightarrow> 'w llm_provider" where
  "new_gemini s api_key default_model timeout_seconds client =
     \<lparr>pv_provider_name = ''gemini'',
      pv_default_model = str_or default_model (str_or (Some (fs_gemini_model s)) ''gemini-2.5-flash''),
      pv_api_key = opt_or api_key (fs_gemini_api_key s),
      pv_timeout_seconds = rat_or timeout_seconds (fs_llm_timeout_seconds s),
      pv_max_retries = fs_llm_max_retries s, pv_client = client\<rparr>"

definition new_groq ::
    "FrameworkSettings \<Rightarrow> string option \<Rightarrow> string option \<Rightarrow> rat option \<Rightarrow> 'w sdk_client option \<Rightarrow> 'w llm_provider" where
  "new_groq s api_key default_model timeout_seconds client =
     \<lparr>pv_provider_name = ''groq'',
      pv_default_model = str_or default_model (str_or (Some (fs_groq_model s)) ''llama-3.3-70b-versatile''),
      pv_api_key = opt_or api_key (fs_groq_api_key s),
      pv_timeout_seconds = rat_or timeout_seconds (fs_llm_timeout_seconds s),
      pv_max_retries = fs_llm_max_retries s, pv_client = client\<rparr>"

text \<open>
  The nested \<open>try: import\<close>: each loader imports a package and makes its client; only an
  \<open>ImportError\<close> leads to the next one.
\<close>

fun first_import :: "(string \<Rightarrow> exc + 'c) list \<Rightarrow> string \<Rightarrow> exc \<Rightarrow> exc + 'c" where
  "first_import [] api_key missing = Inl missing"
| "first_import (load # loads) api_key missing =
     (case load api_key of
        Inr c \<Rightarrow> Inr c
      | Inl e \<Rightarrow> if e_class e = Foreign ''ImportError'' then first_import loads api_key missing else Inl e)"

definition get_client ::
    "exc \<Rightarrow> exc \<Rightarrow> (string \<Rightarrow> exc + 'w sdk_client) list \<Rightarrow> 'w llm_provider
     \<Rightarrow> (exc + 'w sdk_client) \<times> 'w llm_provider" where
  "get_client no_key no_sdk loads p =
     (case pv_client p of
        Some c \<Rightarrow> (Inr c, p)
      | None \<Rightarrow>
          if \<not> opt_truthy (pv_api_key p) then (Inl no_key, p)
          else (case first_import loads (str_or (pv_api_key p) []) no_sdk of
                  Inl e \<Rightarrow> (Inl e, p)
                | Inr c \<Rightarrow> (Inr c, p\<lparr>pv_client := Some c\<rparr>)))"

definition gemini_get_client ::
    "(string \<Rightarrow> exc + 'w sdk_client) list \<Rightarrow> 'w llm_provider \<Rightarrow> (exc + 'w sdk_client) \<times> 'w llm_provider" where
  "gemini_get_client =
     get_client
       (mk_ConfigurationError ''GEMINI_API_KEY is not configured. Set it in environment or .env file.''
          ''MISSING_GEMINI_API_KEY'' False [])
       (mk_ConfigurationError
          (''Google GenAI SDK is not installed. Please install '' @ [CHR 0x27] @ ''google-genai'' @ [CHR 0x27]
             @ '' or '' @ [CHR 0x27] @ ''google-generativeai'' @ [CHR 0x27] @ ''.'')
          ''MISSING_GEMINI_SDK'' False [])"

definition groq_get_client ::
    "(string \<Rightarrow> exc + 'w sdk_client) list \<Rightarrow> 'w llm_provider \<Rightarrow> (exc + 'w sdk_client) \<times> 'w llm_provider" where
  "groq_get_client =
     get_client
       (mk_ConfigurationError ''GROQ_API_KEY is not configured. Set it in environment or .env file.''
          ''MISSING_GROQ_API_KEY'' False [])
       (mk_ConfigurationError
          (''Groq SDK is not installed. Please install '' @ [CHR 0x27] @ ''groq'' @ [CHR 0x27] @ ''.'')
          ''MISSING_GROQ_SDK'' False [])"

definition health_check :: "'w llm_provider \<Rightarrow> bool" where
  "health_check p \<longleftrightarrow> opt_truthy (pv_api_key p) \<and> length (str_or (pv_api_key p) []) > 5"

section \<open>Messages\<close>

definition gemini_content :: "string \<Rightarrow> string \<Rightarrow> dict" where
  "gemini_content role text = [(''role'', PStr role), (''parts'', PList [PDict [(''text'', PStr text)]])]"

text \<open>System messages are joined by newlines; a tool message speaks as the user.\<close>

fun gemini_format :: "Message list \<Rightarrow> string option \<Rightarrow> dict list \<Rightarrow> string option \<times> dict list" where
  "gemini_format [] sys contents = (sys, contents)"
| "gemini_format (m # ms) sys contents =
     (case msg_role m of
        SYSTEM \<Rightarrow> gemini_format ms (Some (case sys of None \<Rightarrow> msg_content m
                    | Some t \<Rightarrow> t @ [CHR 0x0A] @ msg_content m)) contents
      | USER \<Rightarrow> gemini_format ms sys (contents @ [gemini_content ''user'' (msg_content m)])
      | TOOL \<Rightarrow> gemini_format ms sys (contents @ [gemini_content ''user'' (msg_content m)])
      | ASSISTANT \<Rightarrow> gemini_format ms sys (contents @ [gemini_content ''model'' (msg_content m)]))"

fun groq_role :: "MessageRole \<Rightarrow> string" where
  "groq_role SYSTEM = ''system''"
| "groq_role ASSISTANT = ''assistant''"
| "groq_role TOOL = ''tool''"
| "groq_role USER = ''user''"

definition groq_format :: "Message list \<Rightarrow> dict list" where
  "groq_format =
     map (\<lambda>m. [(''role'', PStr (groq_role (msg_role m))), (''content'', PStr (msg_content m))]
               @ (if opt_truthy (msg_name m) then [(''name'', opt_str (msg_name m))] else []))"

text \<open>A missing or zero total is the sum of the other two.\<close>

definition extract_usage :: "sdk_response \<Rightarrow> TokenUsage" where
  "extract_usage r =
     (case sr_usage r of
        None \<Rightarrow> \<lparr>u_prompt_tokens = 0, u_completion_tokens = 0, u_total_tokens = 0\<rparr>
      | Some (p, c, t) \<Rightarrow>
          let pn = (case p of None \<Rightarrow> 0 | Some n \<Rightarrow> n);
              cn = (case c of None \<Rightarrow> 0 | Some n \<Rightarrow> n);
              tn = (case t of None \<Rightarrow> 0 | Some n \<Rightarrow> n)
          in \<lparr>u_prompt_tokens = pn, u_completion_tokens = cn,
              u_total_tokens = (if tn = 0 then pn + cn else tn)\<rparr>)"

section \<open>Errors\<close>

definition mentions :: "string list \<Rightarrow> string \<Rightarrow> bool" where
  "mentions terms text = list_ex (\<lambda>t. sublist t text) terms"

definition network_terms :: "string list" where
  "network_terms = [''connection'', ''timeout'', ''reset'', ''socket'', ''network'']"

definition hidden :: "'w llm_provider \<Rightarrow> exc \<Rightarrow> string" where
  "hidden p e =
     sanitize_message (e_message e) (if opt_truthy (pv_api_key p) then [str_or (pv_api_key p) []] else [])"

definition gemini_map_exception :: "'w llm_provider \<Rightarrow> exc \<Rightarrow> exc" where
  "gemini_map_exception p e =
     (let msg = hidden p e; low = py_lower msg; raw = [(''raw_error'', PStr msg)]; name = pv_provider_name p in
      if mentions [''429'', ''resource_exhausted'', ''quota'', ''rate limit''] low then
        mk_ProviderUnavailableError (''Gemini API rate limit exceeded: '' @ msg) name (Some 429) raw
      else if mentions [''503'', ''unavailable'', ''overloaded'', ''service unavailable''] low then
        mk_ProviderUnavailableError (''Gemini service unavailable: '' @ msg) name (Some 503) raw
      else if mentions [''401'', ''403'', ''api_key'', ''unauthenticated'', ''permission_denied''] low then
        mk_ProviderError (''Gemini authentication / permission error: '' @ msg) name ''GEMINI_AUTH_ERROR'' (Some 401) False raw
      else
        mk_ProviderError (''Gemini invocation error: '' @ msg) name ''GEMINI_GENERATE_ERROR'' None
          (mentions network_terms low) raw)"

definition groq_map_exception :: "'w llm_provider \<Rightarrow> exc \<Rightarrow> exc" where
  "groq_map_exception p e =
     (let msg = hidden p e; low = py_lower msg; raw = [(''raw_error'', PStr msg)]; name = pv_provider_name p in
      if mentions [''429'', ''rate_limit'', ''rate limit''] low then
        mk_ProviderUnavailableError (''Groq API rate limit exceeded: '' @ msg) name (Some 429) raw
      else if mentions [''503'', ''service_unavailable'', ''overloaded''] low then
        mk_ProviderUnavailableError (''Groq service unavailable: '' @ msg) name (Some 503) raw
      else if mentions [''401'', ''unauthorized'', ''invalid api key''] low then
        mk_ProviderError (''Groq authentication error: '' @ msg) name ''GROQ_AUTH_ERROR'' (Some 401) False raw
      else
        mk_ProviderError (''Groq invocation error: '' @ msg) name ''GROQ_GENERATE_ERROR'' None
          (mentions network_terms low) raw)"

text \<open>
  The two \<open>except\<close> clauses of \<open>generate\<close>. The framework's own errors pass through; anything else,
  a validation error of the framework included, is mapped.
\<close>

definition generation_failed ::
    "('w llm_provider \<Rightarrow> exc \<Rightarrow> exc) \<Rightarrow> string \<Rightarrow> 'w llm_provider \<Rightarrow> string \<Rightarrow> rat \<Rightarrow> exc \<Rightarrow> exc" where
  "generation_failed map_exception vendor p model_name timeout e =
     (if e_class e = Foreign ''TimeoutError'' then
        mk_TimeoutError (vendor @ '' generation timed out after '' @ repr_float timeout @ '' seconds.'') timeout
          ''TIMEOUT_ERROR'' True [(''provider'', PStr (pv_provider_name p)), (''model'', PStr model_name)]
      else if isinstance e ConfigurationError \<or> isinstance e TimeoutError \<or> isinstance e ProviderError then e
      else map_exception p e)"

section \<open>Generation\<close>

definition request_model :: "'w llm_provider \<Rightarrow> LLMRequest \<Rightarrow> string" where
  "request_model p q = str_or (q_model q) (pv_default_model p)"

definition request_timeout :: "'w llm_provider \<Rightarrow> LLMRequest \<Rightarrow> rat" where
  "request_timeout p q = rat_or (Some (q_timeout_seconds q)) (pv_timeout_seconds p)"

text \<open>The optional entries of a call: \<open>max_tokens\<close> and the stop sequences, when there are any.\<close>

definition limit_entries :: "string \<Rightarrow> string \<Rightarrow> LLMRequest \<Rightarrow> dict" where
  "limit_entries tokens stop q =
     (case q_max_tokens q of None \<Rightarrow> [] | Some n \<Rightarrow> if n = 0 then [] else [(tokens, PInt (int n))])
     @ (if q_stop_sequences q = [] then [] else [(stop, PList (map PStr (q_stop_sequences q)))])"

definition gemini_config :: "string option \<Rightarrow> LLMRequest \<Rightarrow> dict" where
  "gemini_config sys q =
     [(''temperature'', PFloat (q_temperature q))]
     @ (if opt_truthy sys then [(''system_instruction'', opt_str sys)] else [])
     @ limit_entries ''max_output_tokens'' ''stop_sequences'' q"

text \<open>The response of the framework, and the reading of the text that may raise.\<close>

definition new_response :: "'w llm_provider \<Rightarrow> string \<Rightarrow> tick \<Rightarrow> sdk_response \<Rightarrow> string \<Rightarrow> LLMResponse" where
  "new_response p model_name k r content =
     \<lparr>r_content = content, r_structured_data = None, r_model = model_name,
      r_provider = pv_provider_name p, r_usage = extract_usage r, r_finish_reason = None,
      r_latency_ms = k_elapsed k * 1000, r_raw_response = None\<rparr>"

definition unsupported :: "string \<Rightarrow> 'w llm_provider \<Rightarrow> exc" where
  "unsupported vendor p =
     mk_ProviderError (''Unsupported '' @ vendor @ '' client interface.'') (pv_provider_name p) ''PROVIDER_ERROR'' None False []"

definition gemini_answer ::
    "'w llm_provider \<Rightarrow> string \<Rightarrow> rat \<Rightarrow> tick \<Rightarrow> (exc + sdk_response) \<times> rat \<times> 'w \<Rightarrow> (exc + LLMResponse) \<times> 'w" where
  "gemini_answer p model_name timeout k called =
     (case wait_for timeout called of
        (Inl e, w) \<Rightarrow> (Inl e, w)
      | (Inr r, w) \<Rightarrow>
          (case sr_text r of
             Inl e \<Rightarrow> (Inl e, w)
           | Inr text \<Rightarrow> (Inr (new_response p model_name k r (str_or text [])), w)))"

text \<open>The body of the \<open>try\<close> block.\<close>

definition gemini_try :: "tick \<Rightarrow> 'w llm_provider \<Rightarrow> 'w sdk_client \<Rightarrow> LLMRequest \<Rightarrow> 'w \<Rightarrow> (exc + LLMResponse) \<times> 'w" where
  "gemini_try k p client q w =
     (case gemini_format (q_messages q) None [] of
        (sys, contents) \<Rightarrow>
          let model_name = request_model p q;
              answer = gemini_answer p model_name (request_timeout p q) k;
              models_call = \<lparr>sd_model = model_name, sd_system = None, sd_messages = contents, sd_config = gemini_config sys q\<rparr>
          in case client of
               Aio_models f \<Rightarrow> answer (f models_call w)
             | Sync_models f \<Rightarrow> answer (f models_call w)
             | Legacy_model f \<Rightarrow>
                 answer (f \<lparr>sd_model = model_name, sd_system = sys, sd_messages = contents,
                            sd_config = [(''temperature'', PFloat (q_temperature q))]
                              @ limit_entries ''max_output_tokens'' ''stop_sequences'' q\<rparr> w)
             | Callable_client f \<Rightarrow> f q w
             | _ \<Rightarrow> (Inl (unsupported ''Gemini'' p), w))"

definition first_choice :: "sdk_response \<Rightarrow> string" where
  "first_choice r = (case sr_choices r of [] \<Rightarrow> [] | c # _ \<Rightarrow> str_or c [])"

definition groq_try :: "tick \<Rightarrow> 'w llm_provider \<Rightarrow> 'w sdk_client \<Rightarrow> LLMRequest \<Rightarrow> 'w \<Rightarrow> (exc + LLMResponse) \<times> 'w" where
  "groq_try k p client q w =
     (let model_name = request_model p q in
      case client of
        Chat_completions f \<Rightarrow>
          (case wait_for (request_timeout p q)
                  (f \<lparr>sd_model = model_name, sd_system = None, sd_messages = groq_format (q_messages q),
                      sd_config = [(''temperature'', PFloat (q_temperature q))] @ limit_entries ''max_tokens'' ''stop'' q\<rparr> w) of
             (Inl e, w') \<Rightarrow> (Inl e, w')
           | (Inr r, w') \<Rightarrow> (Inr (new_response p model_name k r (first_choice r)), w'))
      | Callable_client f \<Rightarrow> f q w
      | _ \<Rightarrow> (Inl (unsupported ''Groq'' p), w))"

definition generate_with ::
    "('w llm_provider \<Rightarrow> (exc + 'w sdk_client) \<times> 'w llm_provider)
     \<Rightarrow> ('w llm_provider \<Rightarrow> 'w sdk_client \<Rightarrow> LLMRequest \<Rightarrow> 'w \<Rightarrow> (exc + LLMResponse) \<times> 'w)
     \<Rightarrow> ('w llm_provider \<Rightarrow> string \<Rightarrow> rat \<Rightarrow> exc \<Rightarrow> exc)
     \<Rightarrow> LLMRequest \<Rightarrow> 'w llm_provider \<times> 'w \<Rightarrow> (exc + LLMResponse) \<times> 'w llm_provider \<times> 'w" where
  "generate_with client_of try_body failed q st =
     (case st of (p, w) \<Rightarrow>
        (case client_of p of
           (Inl e, p') \<Rightarrow> (Inl e, p', w)
         | (Inr client, p') \<Rightarrow>
             (case try_body p' client q w of
                (Inr r, w') \<Rightarrow> (Inr r, p', w')
              | (Inl e, w') \<Rightarrow> (Inl (failed p' (request_model p' q) (request_timeout p' q) e), p', w'))))"

definition gemini_generate ::
    "(string \<Rightarrow> exc + 'w sdk_client) list \<Rightarrow> tick \<Rightarrow> LLMRequest \<Rightarrow> 'w llm_provider \<times> 'w
     \<Rightarrow> (exc + LLMResponse) \<times> 'w llm_provider \<times> 'w" where
  "gemini_generate loads k =
     generate_with (gemini_get_client loads) (gemini_try k) (generation_failed gemini_map_exception ''Gemini'')"

definition groq_generate ::
    "(string \<Rightarrow> exc + 'w sdk_client) list \<Rightarrow> tick \<Rightarrow> LLMRequest \<Rightarrow> 'w llm_provider \<times> 'w
     \<Rightarrow> (exc + LLMResponse) \<times> 'w llm_provider \<times> 'w" where
  "groq_generate loads k =
     generate_with (groq_get_client loads) (groq_try k) (generation_failed groq_map_exception ''Groq'')"

section \<open>Structured generation\<close>

text \<open>
  A schema: its name, its JSON schema and the text of that, and \<open>json.loads\<close> followed by
  \<open>model_validate\<close>, which delivers the parsed object and the model or the text of the error.
\<close>

record 'x schema =
  sc_name :: string
  sc_text :: string
  sc_json :: dict
  sc_load :: "string \<Rightarrow> string + dict \<times> 'x"

definition code_fence :: string where
  "code_fence = replicate 3 (CHR 0x60)"

definition json_fence :: string where
  "json_fence = code_fence @ ''json''"

definition strip_fences :: "string \<Rightarrow> string" where
  "strip_fences content =
     (let raw = py_strip content;
          raw1 = (if starts_with json_fence raw then drop 7 raw
                  else if starts_with code_fence raw then drop 3 raw else raw);
          raw2 = (if ends_with code_fence raw1 then take (length raw1 - 3) raw1 else raw1)
      in py_strip raw2)"

definition newline :: string where
  "newline = [CHR 0x0A]"

definition plain_message :: "MessageRole \<Rightarrow> string \<Rightarrow> Message" where
  "plain_message role text = \<lparr>msg_role = role, msg_content = text, msg_name = None, msg_tool_call_id = None\<rparr>"

definition gemini_directive :: "string \<Rightarrow> string" where
  "gemini_directive schema_text =
     newline @ newline @ ''You MUST respond ONLY with a valid JSON object conforming strictly to the following JSON Schema:''
     @ newline @ schema_text @ newline @ ''Do not include code markdown formatting ('' @ json_fence
     @ '') or introductory text. Output pure JSON only.''"

definition groq_directive :: "string \<Rightarrow> string" where
  "groq_directive schema_text =
     newline @ newline @ ''You MUST respond ONLY with a valid JSON object matching the following JSON Schema:''
     @ newline @ schema_text @ newline
     @ ''Do not include markdown fences or any conversational filler. Return raw JSON only.''"

definition gemini_corrective :: "string \<Rightarrow> string \<Rightarrow> string \<Rightarrow> string" where
  "gemini_corrective schema_text err raw =
     ''Your previous response failed validation with error: '' @ err @ newline @ ''Previous response was:'' @ newline
     @ raw @ newline @ newline @ ''Please correct the output to strictly conform to schema:'' @ newline @ schema_text"

definition groq_corrective :: "string \<Rightarrow> string \<Rightarrow> string \<Rightarrow> string" where
  "groq_corrective schema_text err raw =
     ''Your response failed validation with error: '' @ err @ newline @ ''Previous response was:'' @ newline
     @ raw @ newline @ newline @ ''Please provide valid JSON matching the schema:'' @ newline @ schema_text"

text \<open>\<open>messages[-1].content = messages[-1].content + directive\<close> on copies; the request itself stays.\<close>

definition directed :: "'x schema \<Rightarrow> (string \<Rightarrow> string) \<Rightarrow> LLMRequest \<Rightarrow> exc + LLMRequest" where
  "directed sch directive q =
     (if q_messages q = [] then Inl (mk_Foreign ''IndexError'' ''list index out of range'')
      else let m = last (q_messages q) in
        Inr (q\<lparr>q_messages := butlast (q_messages q) @ [m\<lparr>msg_content := msg_content m @ directive (sc_text sch)\<rparr>],
               q_structured_schema := Some (sc_json sch)\<rparr>))"

text \<open>
  The loop with \<open>left\<close> attempts to go; \<open>gen i\<close> is the \<open>i\<close>-th call of \<open>generate\<close>. \<open>Inr (Inl err)\<close>: the
  attempts are used up.
\<close>

fun attempt_loop ::
    "(nat \<Rightarrow> LLMRequest \<Rightarrow> 's \<Rightarrow> (exc + LLMResponse) \<times> 's) \<Rightarrow> 'x schema \<Rightarrow> (string \<Rightarrow> string \<Rightarrow> string)
     \<Rightarrow> nat \<Rightarrow> nat \<Rightarrow> string \<Rightarrow> LLMRequest \<Rightarrow> 's \<Rightarrow> (exc + (string + 'x \<times> LLMResponse)) \<times> 's" where
  "attempt_loop gen sch corrective 0 i err q st = (Inr (Inl err), st)"
| "attempt_loop gen sch corrective (Suc left) i err q st =
     (case gen i q st of
        (Inl e, st') \<Rightarrow> (Inl e, st')
      | (Inr r, st') \<Rightarrow>
          let raw = strip_fences (r_content r) in
          (case sc_load sch raw of
             Inr (d, x) \<Rightarrow> (Inr (Inr (x, r\<lparr>r_structured_data := Some d\<rparr>)), st')
           | Inl err' \<Rightarrow>
               attempt_loop gen sch corrective left (Suc i) err'
                 (if left = 0 then q
                  else q\<lparr>q_messages := q_messages q
                         @ [plain_message ASSISTANT raw, plain_message USER (corrective err' raw)]\<rparr>) st'))"

definition structured_failure :: "'x schema \<Rightarrow> int \<Rightarrow> string \<Rightarrow> exc" where
  "structured_failure sch max_retries err =
     mk_ValidationError
       (''Failed to generate valid structured output for schema '' @ [CHR 0x27] @ sc_name sch @ [CHR 0x27] @ '' after ''
          @ show_int (max_retries + 1) @ '' attempts. Last error: '' @ err)
       ''VALIDATION_ERROR'' True [(''schema'', PStr (sc_name sch)), (''last_error'', PStr err)]"

definition structured_with ::
    "(nat \<Rightarrow> LLMRequest \<Rightarrow> 'w llm_provider \<times> 'w \<Rightarrow> (exc + LLMResponse) \<times> 'w llm_provider \<times> 'w)
     \<Rightarrow> (string \<Rightarrow> string) \<Rightarrow> (string \<Rightarrow> string \<Rightarrow> string \<Rightarrow> string) \<Rightarrow> 'x schema \<Rightarrow> LLMRequest
     \<Rightarrow> 'w llm_provider \<times> 'w \<Rightarrow> (exc + 'x \<times> LLMResponse) \<times> 'w llm_provider \<times> 'w" where
  "structured_with gen directive corrective sch q st =
     (case directed sch directive q of
        Inl e \<Rightarrow> (Inl e, st)
      | Inr q' \<Rightarrow>
          (case attempt_loop gen sch (corrective (sc_text sch)) (nat (pv_max_retries (fst st) + 1)) 0 [] q' st of
             (Inl e, st') \<Rightarrow> (Inl e, st')
           | (Inr (Inl err), st') \<Rightarrow> (Inl (structured_failure sch (pv_max_retries (fst st)) err), st')
           | (Inr (Inr x), st') \<Rightarrow> (Inr x, st')))"

definition gemini_generate_structured ::
    "(string \<Rightarrow> exc + 'w sdk_client) list \<Rightarrow> (nat \<Rightarrow> tick) \<Rightarrow> 'x schema \<Rightarrow> LLMRequest
     \<Rightarrow> 'w llm_provider \<times> 'w \<Rightarrow> (exc + 'x \<times> LLMResponse) \<times> 'w llm_provider \<times> 'w" where
  "gemini_generate_structured loads ks =
     structured_with (\<lambda>i. gemini_generate loads (ks i)) gemini_directive gemini_corrective"

definition groq_generate_structured ::
    "(string \<Rightarrow> exc + 'w sdk_client) list \<Rightarrow> (nat \<Rightarrow> tick) \<Rightarrow> 'x schema \<Rightarrow> LLMRequest
     \<Rightarrow> 'w llm_provider \<times> 'w \<Rightarrow> (exc + 'x \<times> LLMResponse) \<times> 'w llm_provider \<times> 'w" where
  "groq_generate_structured loads ks =
     structured_with (\<lambda>i. groq_generate loads (ks i)) groq_directive groq_corrective"

section \<open>Errors do not show the key\<close>

text \<open>What replacement leaves: an old text without the brackets of the new one does not come back.\<close>

lemma sublist_Cons_absent: "c \<notin> set p \<Longrightarrow> sublist p (c # s) \<Longrightarrow> sublist p s"
  by (auto simp: sublist_Cons_right prefix_Cons)

lemma sublist_snoc_absent: "d \<notin> set p \<Longrightarrow> sublist p (s @ [d]) \<Longrightarrow> sublist p s"
  by (auto simp: sublist_append sublist_Cons_right prefix_Cons suffix_imp_sublist)

lemma prefix_py_replace:
  assumes "c \<notin> set p" "prefix p (py_replace old (c # new) s)" shows "prefix p s"
  using assms
proof (induction s arbitrary: p rule: length_induct)
  case (1 s)
  show ?case
  proof (cases "s = []")
    case True
    then show ?thesis using "1.prems" by (simp add: py_replace.simps)
  next
    case False
    note unfold = py_replace.simps[of old "c # new" s]
    show ?thesis
    proof (cases "old \<noteq> [] \<and> starts_with old s")
      case True
      then have "prefix p (c # (new @ py_replace old (c # new) (drop (length old) s)))"
        using "1.prems"(2) False unfold by simp
      then show ?thesis using "1.prems"(1) by (cases p) auto
    next
      case ne: False
      have "py_replace old (c # new) s = hd s # py_replace old (c # new) (tl s)"
        by (simp only: unfold False ne if_False)
      then have R: "prefix p (hd s # py_replace old (c # new) (tl s))" using "1.prems"(2) by simp
      show ?thesis
      proof (cases p)
        case (Cons x q)
        then have "x = hd s" "prefix q (py_replace old (c # new) (tl s))" using R by auto
        moreover have "prefix q (tl s)"
          using "1.IH" False "1.prems"(1) Cons \<open>prefix q _\<close> by (metis diff_Suc_less length_greater_0_conv length_tl list.set_intros(2) One_nat_def)
        ultimately show ?thesis using False Cons by (cases s) auto
      qed simp
    qed
  qed
qed

lemma replaced_gone:
  assumes "c \<notin> set old" "d \<notin> set old" "old \<noteq> []" "\<not> sublist old mid"
  shows "\<not> sublist old (py_replace old (c # mid @ [d]) s)"
proof (induction s rule: length_induct)
  case (1 s)
  let ?new = "c # mid @ [d]"
  show ?case
  proof (cases "s = []")
    case True
    then show ?thesis using assms(3) by (simp add: py_replace.simps)
  next
    case False
    note unfold = py_replace.simps[of old ?new s]
    show ?thesis
    proof (cases "starts_with old s")
      case True
      let ?rest = "py_replace old ?new (drop (length old) s)"
      have rest: "\<not> sublist old ?rest" using 1 False assms(3) by simp
      have whole: "\<not> sublist old ?new"
        using assms sublist_Cons_absent[of c old "mid @ [d]"] sublist_snoc_absent[of d old mid] by blast
      have "\<not> sublist old (?new @ ?rest)"
      proof
        assume "sublist old (?new @ ?rest)"
        then obtain x y where xy: "old = x @ y" "suffix x ?new" "prefix y ?rest"
          using whole rest unfolding sublist_append[of old ?new ?rest] by blast
        have "x = []"
        proof (rule ccontr)
          assume "x \<noteq> []"
          then have "last x = d" using xy(2) by (auto simp: suffix_def dest: arg_cong[of _ _ last])
          then show False using assms(2) xy(1) \<open>x \<noteq> []\<close> by auto
        qed
        then show False using xy rest by (simp add: prefix_imp_sublist)
      qed
      then show ?thesis using unfold True False assms(3) by simp
    next
      case ne: False
      have eq: "py_replace old ?new s = hd s # py_replace old ?new (tl s)" using unfold ne False by simp
      have tl: "\<not> sublist old (py_replace old ?new (tl s))" using 1 False by simp
      show ?thesis
      proof
        assume "sublist old (py_replace old ?new s)"
        then have "prefix old (py_replace old ?new s)" using tl eq by (simp add: sublist_Cons_right)
        then have "prefix old s" using prefix_py_replace[of c old old "mid @ [d]" s] assms(1) by simp
        then show False using ne by (auto simp: starts_with_iff prefix_def)
      qed
    qed
  qed
qed

text \<open>What API keys look like: long, with a digit, without blanks and brackets.\<close>

definition key_like :: "string \<Rightarrow> bool" where
  "key_like k \<longleftrightarrow> 4 < length k \<and> (\<exists>c\<in>set k. is_digit c) \<and> CHR '' '' \<notin> set k \<and> CHR ''['' \<notin> set k \<and> CHR '']'' \<notin> set k"

lemma key_likeD:
  "key_like k \<Longrightarrow> k \<noteq> []" "key_like k \<Longrightarrow> sublist k s \<Longrightarrow> \<exists>c\<in>set s. is_digit c"
  by (auto simp: key_like_def dest: set_mono_sublist)

definition digit_free :: "string \<Rightarrow> bool" where
  "digit_free s \<longleftrightarrow> list_all (\<lambda>c. \<not> is_digit c) s"

lemma digit_free_key: "digit_free s \<Longrightarrow> key_like k \<Longrightarrow> \<not> sublist k s"
  using key_likeD(2) by (auto simp: digit_free_def list_all_iff)

lemma hidden_hides:
  assumes "pv_api_key p = Some k" "key_like k"
  shows "\<not> sublist k (hidden p e)"
proof -
  have "digit_free ''REDACTED_SECRET''" by code_simp
  then have "\<not> sublist k (py_replace k (CHR ''['' # ''REDACTED_SECRET'' @ [CHR '']'']) s)" for s
    using assms(2) digit_free_key by (intro replaced_gone) (auto simp: key_like_def)
  then show ?thesis
    using assms by (auto simp: hidden_def sanitize_message_def opt_truthy_def opt_str_def key_like_def str_or_def)
qed

lemma label_hides:
  assumes "key_like k" "digit_free label" "\<not> sublist k s"
  shows "\<not> sublist k (label @ CHR '' '' # s)"
proof
  assume "sublist k (label @ CHR '' '' # s)"
  then have "sublist k ((label @ '' '') @ s)" by simp
  moreover have "\<not> sublist k (label @ '' '')"
    using assms(1,2) by (intro digit_free_key) (auto simp: digit_free_def is_digit_def)
  ultimately obtain x y where xy: "k = x @ y" "suffix x (label @ '' '')" "prefix y s"
    using assms(3) unfolding sublist_append[of k "label @ '' ''" s] by blast
  have "x = []"
  proof (rule ccontr)
    assume "x \<noteq> []"
    then have "last x = CHR '' ''" using xy(2) by (auto simp: suffix_def dest: arg_cong[of _ _ last])
    then have "CHR '' '' \<in> set x" using last_in_set[OF \<open>x \<noteq> []\<close>] by simp
    then show False using assms(1) xy(1) by (simp add: key_like_def)
  qed
  then show False using xy assms(3) by (simp add: prefix_imp_sublist)
qed

lemma label_lines:
  "digit_free ''Gemini API rate limit exceeded:''" "digit_free ''Gemini service unavailable:''"
  "digit_free ''Gemini authentication / permission error:''" "digit_free ''Gemini invocation error:''"
  "digit_free ''Groq API rate limit exceeded:''" "digit_free ''Groq service unavailable:''"
  "digit_free ''Groq authentication error:''" "digit_free ''Groq invocation error:''"
  by code_simp+

definition tells :: "string \<Rightarrow> string \<Rightarrow> exc \<Rightarrow> bool" where
  "tells msg label e \<longleftrightarrow>
     e_message e = label @ CHR '' '' # msg \<and> map_of (e_details e) ''raw_error'' = Some (PStr msg) \<and> isinstance e ProviderError"

lemma tells_mk:
  "tells msg label (mk_ProviderUnavailableError (label @ CHR '' '' # msg) name (Some c) [(''raw_error'', PStr msg)])"
  "tells msg label (mk_ProviderError (label @ CHR '' '' # msg) name code st retry [(''raw_error'', PStr msg)])"
  by (auto simp: tells_def mk_ProviderUnavailableError_def mk_ProviderError_def orchestrator_init_def
      provider_details_def isinstance_simps Let_def split: option.splits)

lemma gemini_tells: "\<exists>label. digit_free label \<and> tells (hidden p e) label (gemini_map_exception p e)"
proof -
  note t = tells_mk(1)[of _ "''Gemini API rate limit exceeded:''"] tells_mk(1)[of _ "''Gemini service unavailable:''"]
    tells_mk(2)[of _ "''Gemini authentication / permission error:''"] tells_mk(2)[of _ "''Gemini invocation error:''"]
  show ?thesis unfolding gemini_map_exception_def Let_def using label_lines t[simplified] by (auto split: if_splits)
qed

lemma groq_tells: "\<exists>label. digit_free label \<and> tells (hidden p e) label (groq_map_exception p e)"
proof -
  note t = tells_mk(1)[of _ "''Groq API rate limit exceeded:''"] tells_mk(1)[of _ "''Groq service unavailable:''"]
    tells_mk(2)[of _ "''Groq authentication error:''"] tells_mk(2)[of _ "''Groq invocation error:''"]
  show ?thesis unfolding groq_map_exception_def Let_def using label_lines t[simplified] by (auto split: if_splits)
qed


section \<open>Kinds of errors and number of attempts\<close>

lemma mapped_class: "isinstance (gemini_map_exception p e) ProviderError" "isinstance (groq_map_exception p e) ProviderError"
  using gemini_tells[of p e] groq_tells[of p e] by (auto simp: tells_def)

definition typed_failure :: "exc \<Rightarrow> bool" where
  "typed_failure e \<longleftrightarrow> isinstance e ConfigurationError \<or> isinstance e TimeoutError \<or> isinstance e ProviderError"

lemma timeout_class: "isinstance (mk_TimeoutError m t c r d) TimeoutError"
  by (simp add: mk_TimeoutError_def orchestrator_init_def)

lemma configuration_class: "isinstance (mk_ConfigurationError m c r d) ConfigurationError"
  by (simp add: mk_ConfigurationError_def orchestrator_init_def)

lemma failed_typed:
  "typed_failure (generation_failed gemini_map_exception v p m t e)"
  "typed_failure (generation_failed groq_map_exception v p m t e)"
  using mapped_class timeout_class by (auto simp: generation_failed_def typed_failure_def)

definition only_import_errors :: "(string \<Rightarrow> exc + 'c) list \<Rightarrow> bool" where
  "only_import_errors loads \<longleftrightarrow>
     (\<forall>load\<in>set loads. \<forall>key e. load key = Inl e \<longrightarrow> e_class e = Foreign ''ImportError'')"

lemma first_import_missing:
  "only_import_errors loads \<Longrightarrow> first_import loads key missing = Inl e \<Longrightarrow> e = missing"
  by (induction loads) (auto simp: only_import_errors_def split: sum.splits if_splits)

lemma get_client_Inl:
  "only_import_errors loads \<Longrightarrow> get_client no_key no_sdk loads p = (Inl e, p') \<Longrightarrow> e \<in> {no_key, no_sdk}"
  by (auto simp: get_client_def split: option.splits if_splits sum.splits dest: first_import_missing)

lemma generate_with_Inl:
  assumes "generate_with client_of try_body failed q st = (Inl e, st')"
    and "\<And>p p' e. client_of p = (Inl e, p') \<Longrightarrow> typed_failure e" "\<And>p m t e. typed_failure (failed p m t e)"
  shows "typed_failure e"
  using assms by (auto simp: generate_with_def split: prod.splits sum.splits)

text \<open>When a generation fails, it fails with an error of the framework that the router can judge (a
  configuration, timeout or provider error), whatever the vendor's client raises or returns.\<close>

theorem provider_errors_typed:
  assumes "only_import_errors loads"
    and "gemini_generate loads k q st = (Inl e, st') \<or> groq_generate loads k q st = (Inl e, st')"
  shows "typed_failure e"
proof -
  have conf: "typed_failure (mk_ConfigurationError m c r d)" for m c r d
    using configuration_class by (simp add: typed_failure_def)
  from assms(2) show ?thesis
    unfolding gemini_generate_def groq_generate_def gemini_get_client_def groq_get_client_def
    by (elim disjE generate_with_Inl) (use get_client_Inl[OF assms(1)] conf failed_typed in blast)+
qed

lemma attempt_loop_result:
  assumes "attempt_loop gen sch corrective n i err q st = (Inr (Inr (x, r)), st')"
  shows "\<exists>r0 d. sc_load sch (strip_fences (r_content r0)) = Inr (d, x) \<and> r = r0\<lparr>r_structured_data := Some d\<rparr>"
  using assms
  by (induction n arbitrary: i err q st) (fastforce split: prod.splits sum.splits simp: Let_def)+

lemma attempt_loop_count:
  assumes "attempt_loop gen sch corrective n i err q st = (x, st')" "P st"
    and step: "\<And>j q st y st'. P st \<Longrightarrow> gen j q st = (y, st') \<Longrightarrow> P st' \<and> count st' \<le> Suc (count st)"
  shows "count st' \<le> count st + n"
  using assms(1,2)
proof (induction n arbitrary: i err q st)
  case (Suc n)
  obtain y s1 where g: "gen i q st = (y, s1)" by (rule prod.exhaust)
  note le = step[OF Suc.prems(2) g]
  show ?case
  proof (cases y)
    case (Inr r)
    show ?thesis
    proof (cases "sc_load sch (strip_fences (r_content r))")
      case (Inl err')
      then have "count st' \<le> count s1 + n"
        using Suc.IH[of "Suc i" err' _ s1] Suc.prems(1) g Inr le by (simp add: Let_def)
      then show ?thesis using le by simp
    qed (use Suc.prems g Inr le in \<open>auto simp: Let_def\<close>)
  qed (use Suc.prems g le in auto)
qed simp

text \<open>A client whose calls advance a counter of the outside world by at most one.\<close>

fun calls_once :: "('w \<Rightarrow> nat) \<Rightarrow> 'w sdk_client \<Rightarrow> bool" where
  "calls_once count (Aio_models f) = (\<forall>c w. count (snd (snd (f c w))) \<le> Suc (count w))"
| "calls_once count (Sync_models f) = (\<forall>c w. count (snd (snd (f c w))) \<le> Suc (count w))"
| "calls_once count (Legacy_model f) = (\<forall>c w. count (snd (snd (f c w))) \<le> Suc (count w))"
| "calls_once count (Chat_completions f) = (\<forall>c w. count (snd (snd (f c w))) \<le> Suc (count w))"
| "calls_once count (Callable_client f) = (\<forall>q w. count (snd (f q w)) \<le> Suc (count w))"
| "calls_once count Unknown_client = True"

definition frugal :: "('w \<Rightarrow> nat) \<Rightarrow> (string \<Rightarrow> exc + 'w sdk_client) list \<Rightarrow> 'w llm_provider \<Rightarrow> bool" where
  "frugal count loads p \<longleftrightarrow>
     (\<forall>c. pv_client p = Some c \<longrightarrow> calls_once count c)
     \<and> (\<forall>load\<in>set loads. \<forall>key c. load key = Inr c \<longrightarrow> calls_once count c)"

lemma first_import_Inr:
  "first_import loads key missing = Inr c \<Longrightarrow> \<exists>load\<in>set loads. load key = Inr c"
  by (induction loads) (auto split: sum.splits if_splits)

lemma get_client_frugal:
  assumes "frugal count loads p" "get_client no_key no_sdk loads p = (x, p')"
  shows "frugal count loads p' \<and> (\<forall>c. x = Inr c \<longrightarrow> calls_once count c)"
  using assms
  by (auto simp: get_client_def frugal_def split: option.splits if_splits sum.splits
      dest: first_import_Inr first_import_Inr[OF sym])

lemma wait_for_world: "wait_for t called = (x, w) \<Longrightarrow> w = snd (snd called)"
  by (auto simp: wait_for_def split: prod.splits)

lemma gemini_answer_world: "snd (gemini_answer p m t k called) = snd (snd called)"
  by (auto simp: gemini_answer_def split: prod.splits sum.splits dest: wait_for_world)

lemma gemini_try_once: "calls_once count c \<Longrightarrow> count (snd (gemini_try k p c q w)) \<le> Suc (count w)"
  by (cases c) (simp_all add: gemini_try_def gemini_answer_world Let_def split: prod.splits)

lemma groq_try_once: "calls_once count c \<Longrightarrow> count (snd (groq_try k p c q w)) \<le> Suc (count w)"
  by (cases c) (auto simp: groq_try_def Let_def split: prod.splits sum.splits dest!: wait_for_world)

lemma generate_with_once:
  assumes "generate_with (get_client no_key no_sdk loads) try_body failed q st = (x, st')" "frugal count loads (fst st)"
    and "\<And>p c q w. calls_once count c \<Longrightarrow> count (snd (try_body p c q w)) \<le> Suc (count w)"
  shows "frugal count loads (fst st') \<and> count (snd st') \<le> Suc (count (snd st))"
proof -
  obtain p w where st: "st = (p, w)" by (rule prod.exhaust)
  obtain y p' where g: "get_client no_key no_sdk loads p = (y, p')" by (rule prod.exhaust)
  have f: "frugal count loads p'" "\<And>c. y = Inr c \<Longrightarrow> calls_once count c"
    using get_client_frugal[OF _ g] assms(2) st by auto
  show ?thesis
  proof (cases y)
    case (Inr c)
    obtain z w' where t: "try_body p' c q w = (z, w')" by (rule prod.exhaust)
    then have "count w' \<le> Suc (count w)" using assms(3)[OF f(2)[OF Inr], of p' q w] by simp
    then show ?thesis using assms(1) st g Inr t f(1) by (auto simp: generate_with_def split: sum.splits)
  qed (use assms(1) st g f in \<open>auto simp: generate_with_def\<close>)
qed

lemma generate_once:
  assumes "gemini_generate loads k q st = (x, st') \<or> groq_generate loads k q st = (x, st')" "frugal count loads (fst st)"
  shows "frugal count loads (fst st') \<and> count (snd st') \<le> Suc (count (snd st))"
  using assms(1)
proof
  assume g: "gemini_generate loads k q st = (x, st')"
  show ?thesis
    by (rule generate_with_once[OF g[unfolded gemini_generate_def gemini_get_client_def] assms(2)]) (rule gemini_try_once)
next
  assume g: "groq_generate loads k q st = (x, st')"
  show ?thesis
    by (rule generate_with_once[OF g[unfolded groq_generate_def groq_get_client_def] assms(2)]) (rule groq_try_once)
qed

lemma structured_with_bound:
  assumes "structured_with gen directive corrective sch q st = (x, st')" "frugal count loads (fst st)"
    and "\<And>i q st y st'. gen i q st = (y, st') \<Longrightarrow> frugal count loads (fst st) \<Longrightarrow>
           frugal count loads (fst st') \<and> count (snd st') \<le> Suc (count (snd st))"
  shows "count (snd st') \<le> count (snd st) + nat (pv_max_retries (fst st) + 1)
    \<and> (\<forall>m r. x = Inr (m, r) \<longrightarrow> (\<exists>d. sc_load sch (strip_fences (r_content r)) = Inr (d, m) \<and> r_structured_data r = Some d))"
proof (cases "directed sch directive q")
  case (Inr q')
  obtain y s1 where l: "attempt_loop gen sch (corrective (sc_text sch)) (nat (pv_max_retries (fst st) + 1)) 0 [] q' st = (y, s1)"
    by (rule prod.exhaust)
  have "count (snd s1) \<le> count (snd st) + nat (pv_max_retries (fst st) + 1)"
    by (rule attempt_loop_count[OF l, of "\<lambda>s. frugal count loads (fst s)" "\<lambda>s. count (snd s)"]) (use assms(2,3) in auto)
  moreover have "\<exists>d. sc_load sch (strip_fences (r_content r)) = Inr (d, m) \<and> r_structured_data r = Some d"
    if "x = Inr (m, r)" for m r
  proof -
    have "y = Inr (Inr (m, r))"
      using assms(1) Inr l that by (auto simp: structured_with_def split: sum.splits)
    then show ?thesis using attempt_loop_result l by fastforce
  qed
  ultimately show ?thesis
    using assms(1) Inr l by (auto simp: structured_with_def split: sum.splits)
qed (use assms(1) in \<open>auto simp: structured_with_def\<close>)

text \<open>Structured generation calls the vendor at most once per attempt and makes at most
  \<open>max_retries + 1\<close> attempts; what it returns is the model parsed from the text of the very response it
  returns, with the parsed object attached.\<close>

theorem structured_attempts_bounded:
  assumes "gemini_generate_structured loads ks sch q (p, w) = (x, p', w')
      \<or> groq_generate_structured loads ks sch q (p, w) = (x, p', w')"
    and "frugal count loads p"
  shows "count w' \<le> count w + nat (pv_max_retries p + 1)
    \<and> (\<forall>m r. x = Inr (m, r) \<longrightarrow> (\<exists>d. sc_load sch (strip_fences (r_content r)) = Inr (d, m) \<and> r_structured_data r = Some d))"
  using assms(1)
proof
  assume g: "gemini_generate_structured loads ks sch q (p, w) = (x, p', w')"
  have "frugal count loads (fst (p, w))" using assms(2) by simp
  from structured_with_bound[OF g[unfolded gemini_generate_structured_def] this, OF generate_once[OF disjI1]]
  show ?thesis by simp
next
  assume g: "groq_generate_structured loads ks sch q (p, w) = (x, p', w')"
  have "frugal count loads (fst (p, w))" using assms(2) by simp
  from structured_with_bound[OF g[unfolded groq_generate_structured_def] this, OF generate_once[OF disjI2]]
  show ?thesis by simp
qed

section \<open>The providers behind the router\<close>

text \<open>Both providers registered with the router; its world holds their state and the outside.\<close>

type_synonym 'w both = "'w llm_provider \<times> 'w llm_provider \<times> 'w"

definition gemini_member ::
    "(string \<Rightarrow> exc + 'w sdk_client) list \<Rightarrow> (nat \<Rightarrow> tick) \<Rightarrow> 'x schema \<Rightarrow> ('w both, 'x) provider" where
  "gemini_member loads ks sch q st =
     (case st of (g, h, w) \<Rightarrow>
        (case gemini_generate_structured loads ks sch q (g, w) of (x, g', w') \<Rightarrow> (x, g', h, w')))"

definition groq_member ::
    "(string \<Rightarrow> exc + 'w sdk_client) list \<Rightarrow> (nat \<Rightarrow> tick) \<Rightarrow> 'x schema \<Rightarrow> ('w both, 'x) provider" where
  "groq_member loads ks sch q st =
     (case st of (g, h, w) \<Rightarrow>
        (case groq_generate_structured loads ks sch q (h, w) of (x, h', w') \<Rightarrow> (x, g, h', w')))"

definition both_router ::
    "('w both, 'x) provider \<Rightarrow> ('w both, 'x) provider \<Rightarrow> ('w both, 'x) LLMRouter" where
  "both_router ge gr = new_router [(''gemini'', ge), (''groq'', gr)] None None None ''gemini'' ''groq'' True"

lemma both_router_falls_back:
  assumes "ge q st = (Inl e, st1)" "is_retryable_failure e" "gr q st1 = (Inr (m, r), st2)"
  shows "generate_structured (both_router ge gr) q None st =
    (Inr (m, annotate_fallback ''gemini'' ''groq'' [(''gemini'', e_message e)] r), st2)"
proof -
  let ?R = "both_router ge gr"
  have "distinct (list_providers ?R)" "primary_of ?R None = ''gemini''" "fallback_order ?R ''gemini'' = [''gemini'', ''groq'']"
    "get_provider ?R ''gemini'' = Some ge" "get_provider ?R ''groq'' = Some gr" "lr_enable_fallback ?R"
    by (simp_all add: both_router_def new_router_def list_providers_def primary_of_def fallback_order_def get_provider_def
        opt_truthy_def opt_str_def)
  then show ?thesis
    using route_loop_start[of ?R "'' for structured output''" q "''gemini''" st] assms by (simp add: generate_structured_def)
qed

text \<open>When Gemini answers with a rate limit, the router delivers what Groq returns for the same request,
  and the response names both providers and the error.\<close>

theorem rate_limit_falls_back:
  assumes "pv_client g = Some (Aio_models f)" "0 \<le> pv_max_retries g" "q_messages q \<noteq> []"
    and "\<And>c. f c w = (Inl err, seconds, w1)" "seconds \<le> request_timeout g q"
    and "e_class err = Foreign n" "n \<noteq> ''TimeoutError''" "mentions [''429'', ''resource_exhausted'', ''quota'', ''rate limit''] (py_lower (hidden g err))"
    and "groq_generate_structured loads' ks' sch q (h, w1) = (Inr (m, r), h', w2)"
  shows "generate_structured (both_router (gemini_member loads ks sch) (groq_member loads' ks' sch)) q None (g, h, w) =
    (Inr (m, annotate_fallback ''gemini'' ''groq'' [(''gemini'', ''Gemini API rate limit exceeded: '' @ hidden g err)] r), g, h', w2)"
proof -
  let ?e = "gemini_map_exception g err"
  have e: "e_message ?e = ''Gemini API rate limit exceeded: '' @ hidden g err" "is_retryable_failure ?e"
    using assms(8) by (simp_all add: gemini_map_exception_def Let_def mk_ProviderUnavailableError_def orchestrator_init_def
        is_retryable_failure_def)
  obtain q' where q': "directed sch gemini_directive q = Inr q'" "q_timeout_seconds q' = q_timeout_seconds q"
    using assms(3) by (simp add: directed_def Let_def)
  have client: "gemini_get_client loads g = (Inr (Aio_models f), g)"
    using assms(1) by (simp add: gemini_get_client_def get_client_def)
  have "gemini_try (ks 0) g (Aio_models f) q' w = (Inl err, w1)"
    using assms(4,5) q'(2) by (auto simp: gemini_try_def gemini_answer_def wait_for_def request_timeout_def Let_def split: prod.splits)
  moreover have "generation_failed gemini_map_exception ''Gemini'' g m' t err = ?e" for m' t
    using assms(6,7) by (simp add: generation_failed_def isinstance_def subclass_of.simps)
  ultimately have "gemini_generate loads (ks 0) q' (g, w) = (Inl ?e, g, w1)"
    using client by (simp add: gemini_generate_def generate_with_def)
  moreover obtain left where "nat (pv_max_retries g + 1) = Suc left" using assms(2) by (cases "nat (pv_max_retries g + 1)") auto
  ultimately have "gemini_generate_structured loads ks sch q (g, w) = (Inl ?e, g, w1)"
    using q'(1) by (simp add: gemini_generate_structured_def structured_with_def)
  then have "gemini_member loads ks sch q (g, h, w) = (Inl ?e, g, h, w1)" by (simp add: gemini_member_def)
  moreover have "groq_member loads' ks' sch q (g, h, w1) = (Inr (m, r), g, h', w2)"
    using assms(9) by (simp add: groq_member_def)
  ultimately show ?thesis using both_router_falls_back e by metis
qed

text \<open>An exhausted structured generation is not a reason to fall back, and neither is the deadline a setting.\<close>

lemma invalid_output_final: "\<not> is_retryable_failure (structured_failure sch n err)"
  by (simp add: is_retryable_failure_def structured_failure_def mk_ValidationError_def orchestrator_init_def isinstance_simps)

lemma timeout_setting_unused: "0 < q_timeout_seconds q \<Longrightarrow> request_timeout p q = q_timeout_seconds q"
  by (simp add: request_timeout_def rat_or_def)

section \<open>Witnesses\<close>

definition ex_gemini :: "nat llm_provider" where
  "ex_gemini =
     \<lparr>pv_provider_name = ''gemini'', pv_default_model = ''m'', pv_api_key = Some ''AIza12345'', pv_timeout_seconds = 60,
      pv_max_retries = 1,
      pv_client = Some (Aio_models (\<lambda>c n. (Inl (mk_Foreign ''ClientError'' ''429 for key AIza12345''), 1, Suc n)))\<rparr>"

definition ex_sdk_response :: sdk_response where
  "ex_sdk_response = \<lparr>sr_text = Inr (Some ''{}''), sr_choices = [Some ''{}''], sr_usage = None\<rparr>"

definition ex_groq :: "nat llm_provider" where
  "ex_groq =
     \<lparr>pv_provider_name = ''groq'', pv_default_model = ''m'', pv_api_key = Some ''gsk_12345'', pv_timeout_seconds = 60,
      pv_max_retries = 1, pv_client = Some (Chat_completions (\<lambda>c n. (Inr ex_sdk_response, 1, Suc n)))\<rparr>"

definition ex_schema :: "unit schema" where
  "ex_schema = \<lparr>sc_name = ''S'', sc_text = ''{}'', sc_json = [], sc_load = (\<lambda>t. if t = ''{}'' then Inr ([], ()) else Inl ''bad'')\<rparr>"

definition ex_prompt :: LLMRequest where
  "ex_prompt =
     \<lparr>q_messages = [plain_message USER ''hi''], q_model = None, q_temperature = 0, q_max_tokens = None, q_structured_schema = None,
      q_stop_sequences = [], q_timeout_seconds = 60, q_metadata = []\<rparr>"

definition ex_clock :: "nat \<Rightarrow> tick" where
  "ex_clock i = \<lparr>k_now = i, k_elapsed = 1, k_uid = (\<lambda>_. [])\<rparr>"

lemma ex_key_like: "key_like ''AIza12345''"
  by code_simp


theorem provider_errors_typed_witness:
  "\<exists>e st. gemini_generate [] (ex_clock 0) ex_prompt (ex_gemini, 0) = (Inl e, st) \<and> typed_failure e"
proof -
  obtain x st where g: "gemini_generate [] (ex_clock 0) ex_prompt (ex_gemini, 0) = (x, st)" by (rule prod.exhaust)
  then obtain e where "x = Inl e"
    by (auto simp: gemini_generate_def generate_with_def gemini_get_client_def get_client_def ex_gemini_def gemini_try_def
        gemini_answer_def wait_for_def ex_prompt_def request_timeout_def rat_or_def Let_def split: prod.splits)
  then show ?thesis using provider_errors_typed[of "[]" "ex_clock 0" ex_prompt "(ex_gemini, 0)" e st] g
    by (auto simp: only_import_errors_def)
qed

lemma ex_groq_frugal: "frugal (\<lambda>n. n) [] ex_groq"
  by (simp add: frugal_def ex_groq_def)

lemma ex_groq_result:
  "\<exists>r. groq_generate_structured [] ex_clock ex_schema ex_prompt (ex_groq, n) = (Inr ((), r), ex_groq, Suc n) \<and> r_content r = ''{}''"
proof -
  have "strip_fences ''{}'' = ''{}''" by code_simp
  then show ?thesis
    by (simp add: groq_generate_structured_def structured_with_def directed_def ex_prompt_def ex_schema_def ex_groq_def
        groq_generate_def generate_with_def groq_get_client_def get_client_def groq_try_def wait_for_def ex_sdk_response_def
        request_timeout_def rat_or_def first_choice_def new_response_def opt_truthy_def opt_str_def Let_def
        numeral_2_eq_2)
qed

theorem structured_attempts_bounded_witness:
  "\<exists>x p' w'. groq_generate_structured [] ex_clock ex_schema ex_prompt (ex_groq, 5) = (x, p', w') \<and> w' \<le> 5 + 2 \<and> w' = 6"
proof -
  obtain r where r: "groq_generate_structured [] ex_clock ex_schema ex_prompt (ex_groq, 5) = (Inr ((), r), ex_groq, 6)"
    using ex_groq_result[of 5] by auto
  from structured_attempts_bounded[OF disjI2[OF r] ex_groq_frugal] have "(6::nat) \<le> 5 + 2" by (simp add: ex_groq_def)
  then show ?thesis using r by blast
qed

theorem rate_limit_falls_back_witness:
  "\<exists>r h. generate_structured (both_router (gemini_member [] ex_clock ex_schema) (groq_member [] ex_clock ex_schema))
      ex_prompt None (ex_gemini, ex_groq, 0) =
    (Inr ((), annotate_fallback ''gemini'' ''groq'' h r), ex_gemini, ex_groq, 2) \<and> r_content r = ''{}''"
proof -
  let ?err = "mk_Foreign ''ClientError'' ''429 for key AIza12345''"
  have m: "mentions [''429'', ''resource_exhausted'', ''quota'', ''rate limit''] (py_lower (hidden ex_gemini ?err))"
  proof -
    have "hidden ex_gemini ?err = ''429 for key [REDACTED_SECRET]''"
      by (simp add: hidden_def ex_gemini_def sanitize_message_def mk_Foreign_def opt_truthy_def opt_str_def py_replace.simps)
    moreover have "py_lower ''429 for key [REDACTED_SECRET]'' = ''429 for key [redacted_secret]''" by code_simp
    ultimately show ?thesis by (simp add: mentions_def sublist_Cons_right)
  qed
  obtain r where r: "groq_generate_structured [] ex_clock ex_schema ex_prompt (ex_groq, 1) = (Inr ((), r), ex_groq, 2)"
    "r_content r = ''{}''" using ex_groq_result[of 1] by (auto simp: numeral_2_eq_2)
  have "generate_structured (both_router (gemini_member [] ex_clock ex_schema) (groq_member [] ex_clock ex_schema))
      ex_prompt None (ex_gemini, ex_groq, 0) =
    (Inr ((), annotate_fallback ''gemini'' ''groq''
      [(''gemini'', ''Gemini API rate limit exceeded: '' @ hidden ex_gemini ?err)] r), ex_gemini, ex_groq, 2)"
    by (rule rate_limit_falls_back[where f = "\<lambda>c n. (Inl ?err, 1, Suc n)" and n = "''ClientError''" and seconds = 1, OF _ _ _ _ _ _ _ m r(1)])
       (simp_all add: ex_gemini_def ex_prompt_def mk_Foreign_def request_timeout_def rat_or_def)
  then show ?thesis using r(2) by blast
qed

end
