(* ===== verification/Redaction.thy ===== *)
theory Redaction
  imports Telemetry Py_Text "HOL-Library.Sublist"
begin

text \<open>
  The redactor of sensitive data and the audit sinks (\<open>observability/audit\<close>). The three regular
  expressions are deterministic but for the end of an e-mail address, so each is written out as the
  function that gives the length of the match \<open>re\<close> finds at a position; \<open>pattern.sub\<close> scans from
  left to right. Texts are ASCII. Custom patterns are such functions too, and never match empty text.
\<close>

section \<open>Patterns (audit/redaction.py)\<close>

type_synonym pattern = "char option \<Rightarrow> string \<Rightarrow> nat option"

definition ascii_letter :: "char \<Rightarrow> bool" where
  "ascii_letter c \<longleftrightarrow> (let n = of_char c :: nat in 65 \<le> n \<and> n \<le> 90 \<or> 97 \<le> n \<and> n \<le> 122)"

definition run_of :: "(char \<Rightarrow> bool) \<Rightarrow> string \<Rightarrow> nat" where
  "run_of P s = length (takeWhile P s)"

definition begins_with :: "(char \<Rightarrow> bool) \<Rightarrow> string \<Rightarrow> bool" where
  "begins_with P s = (case s of [] \<Rightarrow> False | c # _ \<Rightarrow> P c)"

definition bearer_char :: "char \<Rightarrow> bool" where
  "bearer_char c \<longleftrightarrow> ascii_letter c \<or> is_digit c
     \<or> c \<in> {CHR ''-'', CHR ''.'', CHR ''_'', CHR ''~'', CHR ''+'', CHR ''/''}"

text \<open>\<open>Bearer\s+([A-Za-z0-9\-\._~\+\/]+=*)\<close>, ignoring case.\<close>

definition bearer_match :: "string \<Rightarrow> nat option" where
  "bearer_match s =
     (let s1 = drop 6 s; w = run_of py_space s1; s2 = drop w s1; t = run_of bearer_char s2;
          e = run_of (\<lambda>c. c = CHR ''='') (drop t s2)
      in if starts_with ''bearer'' (py_lower s) \<and> 0 < w \<and> 0 < t then Some (6 + w + t + e) else None)"

definition secret_char :: "char \<Rightarrow> bool" where
  "secret_char c \<longleftrightarrow> ascii_letter c \<or> is_digit c \<or> c \<in> {CHR ''_'', CHR ''-''}"

definition is_quote :: "char \<Rightarrow> bool" where
  "is_quote c \<longleftrightarrow> c \<in> {CHR 0x27, CHR 0x22}"

definition optional_char :: "(char \<Rightarrow> bool) \<Rightarrow> string \<Rightarrow> nat" where
  "optional_char P s = (if begins_with P s then 1 else 0)"

text \<open>\<open>(?:key|api[_-]?key|token)\<close>.\<close>

definition keyword_match :: "string \<Rightarrow> nat option" where
  "keyword_match s =
     (let low = py_lower s; j = optional_char (\<lambda>c. c = CHR ''_'' \<or> c = CHR ''-'') (drop 3 low) in
      if starts_with ''key'' low then Some 3
      else if starts_with ''api'' low \<and> starts_with ''key'' (drop (3 + j) low) then Some (6 + j)
      else if starts_with ''token'' low then Some 5
      else None)"

text \<open>The rest: blanks, a colon or an equals sign, blanks, a quotation mark or none, 16 characters or more.\<close>

definition assigned_match :: "string \<Rightarrow> nat option" where
  "assigned_match s =
     (let w = run_of py_space s; s1 = drop w s; s2 = drop 1 s1; w2 = run_of py_space s2; s3 = drop w2 s2;
          q = optional_char is_quote s3; s4 = drop q s3; t = run_of secret_char s4; s5 = drop t s4
      in if begins_with (\<lambda>c. c = CHR '':'' \<or> c = CHR ''='') s1 \<and> 16 \<le> t
         then Some (w + 1 + w2 + q + t + optional_char is_quote s5) else None)"

definition api_key_match :: "string \<Rightarrow> nat option" where
  "api_key_match s =
     (case keyword_match s of
        None \<Rightarrow> None
      | Some n \<Rightarrow> map_option (\<lambda>m. n + m) (assigned_match (drop n s)))"

definition regex_word_char :: "char \<Rightarrow> bool" where
  "regex_word_char c \<longleftrightarrow> ascii_letter c \<or> is_digit c \<or> c = CHR ''_''"

text \<open>The assertion \<open>\b\<close>.\<close>

definition boundary :: "char option \<Rightarrow> string \<Rightarrow> bool" where
  "boundary prev s \<longleftrightarrow> (case prev of None \<Rightarrow> False | Some c \<Rightarrow> regex_word_char c) \<noteq> begins_with regex_word_char s"

definition local_char :: "char \<Rightarrow> bool" where
  "local_char c \<longleftrightarrow> ascii_letter c \<or> is_digit c \<or> c \<in> {CHR ''.'', CHR ''_'', CHR ''%'', CHR ''+'', CHR ''-''}"

definition domain_char :: "char \<Rightarrow> bool" where
  "domain_char c \<longleftrightarrow> ascii_letter c \<or> is_digit c \<or> c \<in> {CHR ''.'', CHR ''-''}"

text \<open>\<open>[A-Z|a-z]{2,7}\b\<close>: the longest end of two to seven characters at a boundary.\<close>

definition tld_match :: "string \<Rightarrow> nat option" where
  "tld_match s =
     (let m = min 7 (run_of (\<lambda>c. ascii_letter c \<or> c = CHR ''|'') s)
      in find (\<lambda>n. boundary (Some (s ! (n - 1))) (drop n s)) (rev [2..<Suc m]))"

fun first_some :: "('a \<Rightarrow> 'b option) \<Rightarrow> 'a list \<Rightarrow> 'b option" where
  "first_some f [] = None"
| "first_some f (x # xs) = (case f x of None \<Rightarrow> first_some f xs | Some y \<Rightarrow> Some y)"

text \<open>\<open>[A-Za-z0-9.-]+\.\<close> and the end: the domain gives characters back until a dot and an end follow.\<close>

definition domain_match :: "string \<Rightarrow> nat option" where
  "domain_match s =
     first_some (\<lambda>i. if begins_with (\<lambda>c. c = CHR ''.'') (drop i s)
                     then map_option (\<lambda>n. i + 1 + n) (tld_match (drop (Suc i) s)) else None)
       (rev [1..<Suc (run_of domain_char s)])"

definition email_match :: pattern where
  "email_match prev s =
     (let l = run_of local_char s; s1 = drop l s in
      if boundary prev s \<and> 0 < l \<and> begins_with (\<lambda>c. c = CHR ''@'') s1
      then map_option (\<lambda>n. l + 1 + n) (domain_match (drop 1 s1)) else None)"

text \<open>\<open>pattern.sub(mask, text)\<close>: \<open>skip\<close> characters of the last match are still to be passed over.\<close>

fun pattern_sub :: "pattern \<Rightarrow> string \<Rightarrow> char option \<Rightarrow> nat \<Rightarrow> string \<Rightarrow> string" where
  "pattern_sub m masked prev skip [] = []"
| "pattern_sub m masked prev (Suc skip) (c # s) = pattern_sub m masked (Some c) skip s"
| "pattern_sub m masked prev 0 (c # s) =
     (case m prev (c # s) of
        Some (Suc n) \<Rightarrow> masked @ pattern_sub m masked (Some c) n s
      | _ \<Rightarrow> c # pattern_sub m masked (Some c) 0 s)"

section \<open>The redactor\<close>

record redactor =
  rd_sensitive_keys :: "string list"
  rd_patterns :: "pattern list"
  rd_mask :: string

definition DEFAULT_SENSITIVE_KEYS :: "string list" where
  "DEFAULT_SENSITIVE_KEYS =
     [''api_key'', ''apikey'', ''api-key'', ''secret'', ''secret_key'', ''password'', ''token'', ''auth_token'',
      ''access_token'', ''refresh_token'', ''authorization'', ''credential'', ''credentials'', ''private_key'',
      ''client_secret'', ''session_secret'', ''bearer'']"

definition new_redactor :: "string list option \<Rightarrow> pattern list option \<Rightarrow> string \<Rightarrow> redactor" where
  "new_redactor sensitive_keys custom_patterns masked =
     \<lparr>rd_sensitive_keys = map py_lower (case sensitive_keys of Some (k # ks) \<Rightarrow> k # ks | _ \<Rightarrow> DEFAULT_SENSITIVE_KEYS),
      rd_patterns = (case custom_patterns of
          Some (p # ps) \<Rightarrow> p # ps
        | _ \<Rightarrow> [\<lambda>_. bearer_match, \<lambda>_. api_key_match, email_match]),
      rd_mask = masked\<rparr>"

definition default_redactor :: redactor where
  "default_redactor = new_redactor None None ''[REDACTED]''"

definition redact_text :: "redactor \<Rightarrow> string \<Rightarrow> string" where
  "redact_text r s = fold (\<lambda>m. pattern_sub m (rd_mask r) None 0) (rd_patterns r) s"

definition sensitive_key :: "redactor \<Rightarrow> string \<Rightarrow> bool" where
  "sensitive_key r k =
     (let low = py_strip (py_lower k)
      in list_ex (\<lambda>s. low = s \<or> ends_with (CHR ''_'' # s) low) (rd_sensitive_keys r))"

fun redact :: "redactor \<Rightarrow> pyval \<Rightarrow> pyval" where
  "redact r (PDict d) = PDict (map (\<lambda>(k, v). (k, if sensitive_key r k then PStr (rd_mask r) else redact r v)) d)"
| "redact r (PList vs) = PList (map (redact r) vs)"
| "redact r (PStr s) = PStr (redact_text r s)"
| "redact r v = v"

definition redact_dict :: "redactor \<Rightarrow> dict \<Rightarrow> dict" where
  "redact_dict r d = map (\<lambda>(k, v). (k, if sensitive_key r k then PStr (rd_mask r) else redact r v)) d"

lemma redact_PDict: "redact r (PDict d) = PDict (redact_dict r d)"
  by (simp add: redact_dict_def)

section \<open>The sinks (audit/base.py, audit/in_memory.py, audit/jsonl.py)\<close>

definition sanitize_event :: "redactor \<Rightarrow> AuditEvent \<Rightarrow> AuditEvent" where
  "sanitize_event r ev = ev\<lparr>a_metadata := redact_dict r (a_metadata ev), a_action := redact_text r (a_action ev)\<rparr>"

text \<open>\<open>record\<close>: the exception of \<open>_emit\<close> is dropped, what it did is kept.\<close>

definition record_event :: "redactor \<Rightarrow> (AuditEvent \<Rightarrow> 's \<Rightarrow> exc option \<times> 's) \<Rightarrow> AuditEvent \<Rightarrow> 's \<Rightarrow> 's" where
  "record_event r emit ev st = snd (emit (sanitize_event r ev) st)"

definition memory_emit :: "AuditEvent \<Rightarrow> AuditEvent list \<Rightarrow> exc option \<times> AuditEvent list" where
  "memory_emit ev evs = (None, evs @ [ev])"

definition memory_get_events :: "AuditEvent list \<Rightarrow> string option \<Rightarrow> AuditEvent list" where
  "memory_get_events evs run_id =
     (if opt_truthy run_id then filter (\<lambda>e. Some (a_run_id e) = run_id) evs else evs)"

definition memory_clear :: "AuditEvent list \<Rightarrow> AuditEvent list" where
  "memory_clear evs = []"

text \<open>The file of the JSON lines sink is its content, if it exists; \<open>broken\<close> is what opening it raises.\<close>

definition jsonl_emit ::
    "(AuditEvent \<Rightarrow> exc + string) \<Rightarrow> exc option \<Rightarrow> AuditEvent \<Rightarrow> string option \<Rightarrow> exc option \<times> string option" where
  "jsonl_emit dump broken ev file =
     (case broken of
        Some e \<Rightarrow> (Some e, file)
      | None \<Rightarrow>
          let content = (case file of None \<Rightarrow> [] | Some t \<Rightarrow> t) in
          (case dump ev of
             Inl e \<Rightarrow> (Some e, Some content)
           | Inr line \<Rightarrow> (None, Some (content @ line @ [CHR 0x0A]))))"

definition file_lines :: "string \<Rightarrow> string list" where
  "file_lines content = split_on (CHR 0x0A) (map (\<lambda>c. if c = CHR 0x0D then CHR 0x0A else c) content)"

definition jsonl_get_events :: "(string \<Rightarrow> AuditEvent option) \<Rightarrow> string option \<Rightarrow> string option \<Rightarrow> AuditEvent list" where
  "jsonl_get_events load file run_id =
     (case file of
        None \<Rightarrow> []
      | Some content \<Rightarrow>
          List.map_filter
            (\<lambda>line. let s = py_strip line in
               if s = [] then None
               else case load s of
                      None \<Rightarrow> None
                    | Some ev \<Rightarrow> if run_id = None \<or> run_id = Some (a_run_id ev) then Some ev else None)
            (file_lines content))"

section \<open>What a substitution leaves\<close>

text \<open>
  Up to the first match the text is kept, then comes the mask. A pattern that never looks past a
  bracket has no match that involves the mask.
\<close>

lemma pattern_sub_cases:
  obtains n where "m prev (c # s) = Some (Suc n)"
      "pattern_sub m masked prev 0 (c # s) = masked @ pattern_sub m masked (Some c) n s"
  | "\<forall>n. m prev (c # s) \<noteq> Some (Suc n)" "pattern_sub m masked prev 0 (c # s) = c # pattern_sub m masked (Some c) 0 s"
proof (cases "\<exists>n. m prev (c # s) = Some (Suc n)")
  case True
  then show thesis using that(1) by auto
next
  case False
  then have "pattern_sub m masked prev 0 (c # s) = c # pattern_sub m masked (Some c) 0 s"
    by (auto split: option.splits nat.splits)
  then show thesis using that(2) False by simp
qed

lemma pattern_sub_shape:
  "pattern_sub m masked prev k s = drop k s
   \<or> (\<exists>t v u. drop k s = t @ v \<and> pattern_sub m masked prev k s = t @ masked @ u)"
proof (induction s arbitrary: prev k)
  case (Cons c s)
  show ?case
  proof (cases k)
    case 0
    show ?thesis
    proof (rule pattern_sub_cases[of m prev c s masked])
      fix n assume "pattern_sub m masked prev 0 (c # s) = masked @ pattern_sub m masked (Some c) n s"
      then show ?thesis unfolding 0 by (intro disjI2 exI[of _ "[]"] exI[of _ "c # s"] exI[of _ "pattern_sub m masked (Some c) n s"]) simp
    next
      assume eq: "pattern_sub m masked prev 0 (c # s) = c # pattern_sub m masked (Some c) 0 s"
      show ?thesis using Cons[of "Some c" 0] unfolding 0 eq
        by (elim disjE exE conjE) (simp, metis append_Cons drop0)
    qed
  next
    case (Suc j)
    then show ?thesis using Cons[of "Some c" j] by simp
  qed
qed simp

definition bracket_bound :: "(string \<Rightarrow> nat option) \<Rightarrow> bool" where
  "bracket_bound m \<longleftrightarrow>
     (\<forall>t b u v. b \<in> {CHR ''['', CHR '']''} \<longrightarrow> m (t @ b # u) \<noteq> None \<longrightarrow> m (t @ v) \<noteq> None)"

definition free_of :: "(string \<Rightarrow> nat option) \<Rightarrow> string \<Rightarrow> bool" where
  "free_of m s \<longleftrightarrow> (\<forall>u\<in>set (suffixes s). m u = None)"

lemma free_of_Cons: "free_of m (c # s) \<longleftrightarrow> m (c # s) = None \<and> free_of m s"
  by (auto simp: free_of_def)

lemma free_of_Nil: "free_of m [] \<longleftrightarrow> m [] = None"
  by (simp add: free_of_def)

lemma bracket_boundD:
  "bracket_bound m \<Longrightarrow> m (t @ v) = None \<Longrightarrow> m (t @ CHR ''['' # u) = None \<and> m (t @ CHR '']'' # u) = None"
  unfolding bracket_bound_def by (meson insert_iff)

lemma free_of_bracket:
  assumes "bracket_bound m" "free_of m x" "free_of m u"
  shows "free_of m (x @ CHR '']'' # u)"
  using assms(2)
proof (induction x)
  case Nil
  then have "m [] = None" by (simp add: free_of_Nil)
  then show ?case using bracket_boundD[OF assms(1), of "[]" "[]" u] assms(3) by (simp add: free_of_Cons)
next
  case (Cons c x)
  then show ?case using bracket_boundD[OF assms(1), of "c # x" "[]" u] by (simp add: free_of_Cons)
qed

lemma unmatched_head:
  assumes "bracket_bound m" "m (c # s) = None"
  shows "m (c # pattern_sub m' (CHR ''['' # z) prev 0 s) = None"
  using pattern_sub_shape[of m' "CHR ''['' # z" prev 0 s]
proof
  assume "\<exists>t v u. drop 0 s = t @ v \<and> pattern_sub m' (CHR ''['' # z) prev 0 s = t @ (CHR ''['' # z) @ u"
  then obtain t v u where tvu: "s = t @ v" "pattern_sub m' (CHR ''['' # z) prev 0 s = t @ CHR ''['' # z @ u" by auto
  then show ?thesis using bracket_boundD[OF assms(1), of "c # t" v "z @ u"] assms(2) by simp
qed (simp add: assms(2))

lemma free_after_sub:
  assumes "bracket_bound m" "free_of m (CHR ''['' # z)"
    and "free_of m s \<or> (m' = (\<lambda>_. m) \<and> (\<forall>x. m x \<noteq> Some 0))"
  shows "free_of m (pattern_sub m' (CHR ''['' # z @ [CHR '']'']) prev k s)"
proof -
  have nil: "m [] = None" using assms(2) by (auto simp: free_of_def)
  let ?M = "CHR ''['' # z @ [CHR '']'']"
  show ?thesis
    using assms(3)
  proof (induction s arbitrary: prev k)
    case (Cons c s)
    have tl: "free_of m s \<or> (m' = (\<lambda>_. m) \<and> (\<forall>x. m x \<noteq> Some 0))" using Cons.prems by (auto simp: free_of_Cons)
    show ?case
    proof (cases k)
      case 0
      show ?thesis
      proof (rule pattern_sub_cases[of m' prev c s ?M])
        fix n assume n: "pattern_sub m' ?M prev 0 (c # s) = ?M @ pattern_sub m' ?M (Some c) n s"
        have "free_of m ((CHR ''['' # z) @ CHR '']'' # pattern_sub m' ?M (Some c) n s)"
          by (rule free_of_bracket[OF assms(1,2) Cons.IH[OF tl]])
        then show ?thesis using n 0 by simp
      next
        assume eq: "pattern_sub m' ?M prev 0 (c # s) = c # pattern_sub m' ?M (Some c) 0 s"
          and no: "\<forall>n. m' prev (c # s) \<noteq> Some (Suc n)"
        have "m (c # s) = None"
        proof (cases "free_of m (c # s)")
          case False
          then have "m' = (\<lambda>_. m)" "\<forall>x. m x \<noteq> Some 0" using Cons.prems by auto
          then show ?thesis using no by (metis not0_implies_Suc not_Some_eq)
        qed (simp add: free_of_Cons)
        from unmatched_head[OF assms(1) this, of m' "z @ [CHR '']'']" "Some c"] show ?thesis
          unfolding 0 eq using Cons.IH[OF tl, of "Some c" 0] by (simp add: free_of_Cons)
      qed
    next
      case (Suc j)
      then show ?thesis using Cons.IH[OF tl] by simp
    qed
  qed (simp add: nil free_of_Nil)
qed

section \<open>The credential patterns never look past a bracket\<close>

lemma run_of_le: "run_of P s \<le> length s"
  by (simp add: run_of_def length_takeWhile_le)

lemma run_of_stop: "\<not> P b \<Longrightarrow> run_of P (t @ b # u) = run_of P t"
  by (induction t) (auto simp: run_of_def)

lemma run_of_inner: "run_of P t < length t \<Longrightarrow> run_of P (t @ v) = run_of P t"
  by (induction t) (auto simp: run_of_def)

lemma run_of_mono: "run_of P t \<le> run_of P (t @ v)"
  by (induction t) (auto simp: run_of_def)

lemma run_of_pos: "0 < run_of P t \<Longrightarrow> t \<noteq> []"
  by (auto simp: run_of_def)

lemma begins_with_append: "t \<noteq> [] \<Longrightarrow> begins_with P (t @ v) = begins_with P t"
  by (cases t) (simp_all add: begins_with_def)

lemma begins_with_stop: "\<not> P b \<Longrightarrow> begins_with P (t @ b # u) = begins_with P t"
  by (cases t) (simp_all add: begins_with_def)

lemma begins_withD: "begins_with P t \<Longrightarrow> t \<noteq> []"
  by (auto simp: begins_with_def)

lemma starts_with_stop: "b \<notin> set p \<Longrightarrow> starts_with p (t @ b # u) = starts_with p t"
  by (induction p t rule: starts_with.induct) auto

lemma starts_with_more: "starts_with p t \<Longrightarrow> starts_with p (t @ v)"
  by (induction p t rule: starts_with.induct) auto

lemma starts_with_length: "starts_with p t \<Longrightarrow> length p \<le> length t"
  by (induction p t rule: starts_with.induct) auto

text \<open>What brackets are not.\<close>

lemma bracket_kinds:
  assumes "b \<in> {CHR ''['', CHR '']''}"
  shows "\<not> py_space b" "\<not> bearer_char b" "\<not> secret_char b" "\<not> is_quote b" "py_lower_char b = b"
    "b \<noteq> CHR '':''" "b \<noteq> CHR ''=''" "b \<noteq> CHR ''_''" "b \<noteq> CHR ''-''"
    "b \<notin> set ''bearer''" "b \<notin> set ''key''" "b \<notin> set ''api''" "b \<notin> set ''token''"
  using assms
  by (auto simp: py_space_def bearer_char_def secret_char_def is_quote_def py_lower_char_def ascii_letter_def is_digit_def)

definition after :: "(char \<Rightarrow> bool) \<Rightarrow> string \<Rightarrow> string" where
  "after P s = drop (run_of P s) s"

lemma after_stop: "\<not> P b \<Longrightarrow> after P (t @ b # u) = after P t @ b # u"
  using run_of_le[of P t] by (simp add: after_def run_of_stop)

lemma after_inner: "after P t \<noteq> [] \<Longrightarrow> after P (t @ v) = after P t @ v"
  using run_of_le[of P t] by (simp add: after_def run_of_inner)

lemma run_inner: "after P t \<noteq> [] \<Longrightarrow> run_of P (t @ v) = run_of P t"
  by (simp add: after_def run_of_inner)

lemma bearer_match_append:
  assumes "length a = 6"
  shows "bearer_match (a @ x) \<noteq> None \<longleftrightarrow> starts_with ''bearer'' (py_lower a)
    \<and> 0 < run_of py_space x \<and> 0 < run_of bearer_char (after py_space x)"
proof -
  have "starts_with ''bearer'' (py_lower a @ z) = starts_with ''bearer'' (py_lower a)" for z
  proof -
    have "length (py_lower a) = 6" using assms by (simp add: py_lower_def)
    then show ?thesis by (auto simp: length_Suc_conv eval_nat_numeral)
  qed
  then show ?thesis using assms by (simp add: bearer_match_def Let_def py_lower_def after_def)
qed

lemma bearer_bound: "bracket_bound bearer_match"
  unfolding bracket_bound_def
proof (intro allI impI)
  fix t u v :: string and b
  assume b: "b \<in> {CHR ''['', CHR '']''}" and m: "bearer_match (t @ b # u) \<noteq> None"
  note kinds = bracket_kinds[OF b]
  have "starts_with ''bearer'' (py_lower (t @ b # u))"
    using m by (auto simp: bearer_match_def Let_def split: if_splits)
  moreover have "py_lower (t @ b # u) = py_lower t @ b # py_lower u" using kinds(5) by (simp add: py_lower_def)
  ultimately have "starts_with ''bearer'' (py_lower t)" using starts_with_stop[OF kinds(10)] by simp
  then have "6 \<le> length t" using starts_with_length[of "''bearer''"] by (fastforce simp: py_lower_def)
  then obtain a x where t: "t = a @ x" "length a = 6" by (metis append_take_drop_id length_take min_absorb2)
  have "0 < run_of py_space x \<and> 0 < run_of bearer_char (after py_space x)"
    using m bearer_match_append[OF t(2), of "x @ b # u"]
    by (simp add: t(1) after_stop run_of_stop kinds(1,2))
  moreover then have "after py_space x \<noteq> []" using run_of_pos by blast
  moreover note run_of_mono[of bearer_char "after py_space x" v]
  ultimately show "bearer_match (t @ v) \<noteq> None"
    using m bearer_match_append[OF t(2), of "x @ b # u"] bearer_match_append[OF t(2), of "x @ v"]
    by (simp add: t(1) after_inner run_inner)
qed

definition assigned :: "string \<Rightarrow> bool" where
  "assigned s \<longleftrightarrow> assigned_match s \<noteq> None"

lemma assigned_more:
  assumes b: "b \<in> {CHR ''['', CHR '']''}" and m: "assigned (t @ b # u)"
  shows "assigned (t @ v)"
proof -
  note kinds = bracket_kinds[OF b]
  let ?sep = "\<lambda>c. c = CHR '':'' \<or> c = CHR ''=''"
  have eq: "assigned s \<longleftrightarrow> (let s1 = after py_space s; s3 = after py_space (drop 1 s1)
      in begins_with ?sep s1 \<and> 16 \<le> run_of secret_char (drop (optional_char is_quote s3) s3))" for s
    by (simp add: assigned_def assigned_match_def Let_def after_def)
  define s1 where "s1 = after py_space t"
  define s2 where "s2 = drop 1 s1"
  define s3 where "s3 = after py_space s2"
  have a1: "after py_space (t @ b # u) = s1 @ b # u" using after_stop kinds(1) by (simp add: s1_def)
  have a3: "after py_space (s2 @ b # u) = s3 @ b # u" using after_stop kinds(1) by (simp add: s3_def)
  have "begins_with ?sep (s1 @ b # u)" using m by (simp add: eq Let_def a1)
  then have s1: "s1 \<noteq> []" "begins_with ?sep s1" using begins_with_stop[of ?sep b s1 u] kinds begins_withD by auto
  have d: "drop 1 (s1 @ x) = s2 @ x" for x using s1(1) by (cases s1) (simp_all add: s2_def)
  have long: "16 \<le> run_of secret_char (drop (optional_char is_quote (s3 @ b # u)) (s3 @ b # u))"
    using m unfolding eq Let_def a1 d a3 by (rule conjunct2)
  have s3: "s3 \<noteq> []"
  proof
    assume "s3 = []"
    then show False using long kinds by (simp add: optional_char_def begins_with_def run_of_def)
  qed
  then have q: "optional_char is_quote (s3 @ x) = optional_char is_quote s3" "optional_char is_quote s3 \<le> length s3" for x
    by (cases s3; simp add: optional_char_def begins_with_def)+
  let ?s4 = "drop (optional_char is_quote s3) s3"
  have "16 \<le> run_of secret_char ?s4" using long q(2) by (simp add: q(1) run_of_stop kinds)
  then have "16 \<le> run_of secret_char (?s4 @ v)" using run_of_mono[of secret_char ?s4 v] by linarith
  then have "16 \<le> run_of secret_char (drop (optional_char is_quote (s3 @ v)) (s3 @ v))" using q(2) by (simp add: q(1))
  moreover have "after py_space (t @ v) = s1 @ v" using after_inner[of py_space t v] s1(1) by (simp add: s1_def)
  moreover have "after py_space (s2 @ v) = s3 @ v" using after_inner[of py_space s2 v] s3 by (simp add: s3_def)
  moreover have "begins_with ?sep (s1 @ v)" using s1 by (simp add: begins_with_append)
  ultimately show ?thesis unfolding eq Let_def by (simp only: d)
qed

lemma keyword_more:
  assumes b: "b \<in> {CHR ''['', CHR '']''}" and m: "keyword_match (t @ b # u) = Some n"
  shows "n \<le> length t \<and> keyword_match (t @ v) = Some n"
proof -
  note kinds = bracket_kinds[OF b]
  note stops = starts_with_stop[OF kinds(11)] starts_with_stop[OF kinds(12)] starts_with_stop[OF kinds(13)]
  define l where "l = py_lower t"
  have low: "py_lower (t @ b # u) = l @ b # py_lower u" "py_lower (t @ v) = l @ py_lower v" "length l = length t"
    using kinds(5) by (simp_all add: l_def py_lower_def)
  let ?sep = "\<lambda>c. c = CHR ''_'' \<or> c = CHR ''-''"
  note m' = m[unfolded keyword_match_def Let_def low]
  have d3: "drop (3 + k) (x # y # z # r) = drop k r" for k x y z and r :: string by (simp add: eval_nat_numeral)
  consider (key) "starts_with ''key'' l" "n = 3"
    | (api) "starts_with ''api'' l" "n = 6 + optional_char ?sep (drop 3 l)" "starts_with ''key'' (drop (3 + optional_char ?sep (drop 3 l)) l)"
    | (token) "starts_with ''token'' l" "n = 5"
  proof (cases "starts_with ''key'' l")
    case False
    show ?thesis
    proof (cases "starts_with ''api'' l")
      case True
      then obtain r where l: "l = ''api'' @ r" by (auto simp: starts_with_iff)
      have o: "optional_char ?sep (r @ b # py_lower u) = optional_char ?sep r"
        using kinds by (cases r) (simp_all add: optional_char_def begins_with_def)
      have le: "optional_char ?sep r \<le> length r" by (cases r) (simp_all add: optional_char_def begins_with_def)
      show ?thesis
        using m' api le by (auto simp: l o d3 stops split: if_splits)
    qed (use m' False token in \<open>auto simp: stops split: if_splits\<close>)
  qed (use m' key in \<open>auto simp: stops\<close>)
  then show ?thesis
  proof cases
    case key
    then show ?thesis
      using starts_with_length[OF key(1)] starts_with_more[OF key(1)] by (simp add: keyword_match_def Let_def low)
  next
    case api
    then obtain r where l: "l = ''api'' @ r" by (auto simp: starts_with_iff)
    have k: "starts_with ''key'' (drop (optional_char ?sep r) r)" using api(3) by (simp add: l d3)
    have r: "r \<noteq> []" using starts_with_length[OF k] by auto
    then have o: "optional_char ?sep (r @ py_lower v) = optional_char ?sep r" "optional_char ?sep r \<le> length r"
      by (cases r; simp add: optional_char_def begins_with_def)+
    have "starts_with ''key'' (drop (optional_char ?sep r) r @ py_lower v)" using starts_with_more[OF k] .
    then have "keyword_match (t @ v) = Some n"
      using api(2) o by (simp add: keyword_match_def Let_def low l d3)
    moreover have "n \<le> length t" using api(2) starts_with_length[OF k] o(2) low(3) by (simp add: l)
    ultimately show ?thesis by simp
  next
    case token
    then obtain r where l: "l = ''token'' @ r" by (auto simp: starts_with_iff)
    then show ?thesis using token(2) low(3) by (simp add: keyword_match_def Let_def low)
  qed
qed

lemma api_key_bound: "bracket_bound api_key_match"
  unfolding bracket_bound_def
proof (intro allI impI)
  fix t u v :: string and b
  assume b: "b \<in> {CHR ''['', CHR '']''}" and m: "api_key_match (t @ b # u) \<noteq> None"
  then obtain n where n: "keyword_match (t @ b # u) = Some n" by (auto simp: api_key_match_def split: option.splits)
  note k = keyword_more[OF b n, of v]
  have "assigned (drop n t @ b # u)" using m n k by (simp add: api_key_match_def assigned_def)
  from assigned_more[OF b this] show "api_key_match (t @ v) \<noteq> None"
    using k by (simp add: api_key_match_def assigned_def)
qed

lemma credential_matches_positive: "bearer_match x \<noteq> Some 0" "api_key_match x \<noteq> Some 0"
  by (auto simp: bearer_match_def api_key_match_def keyword_match_def Let_def split: option.splits if_splits)

section \<open>Redacted data shows no credential\<close>

definition credential_free :: "string \<Rightarrow> bool" where
  "credential_free s \<longleftrightarrow> free_of bearer_match s \<and> free_of api_key_match s"

lemma mask_free: "free_of bearer_match (CHR ''['' # ''REDACTED'')" "free_of api_key_match (CHR ''['' # ''REDACTED'')"
proof -
  have low: "py_lower ''[REDACTED'' = ''[redacted''" by code_simp
  then have "map py_lower_char ''[REDACTED'' = ''[redacted''" by (simp only: py_lower_def)
  then show "free_of bearer_match (CHR ''['' # ''REDACTED'')" "free_of api_key_match (CHR ''['' # ''REDACTED'')"
    by (simp_all add: free_of_Cons free_of_Nil bearer_match_def api_key_match_def keyword_match_def py_lower_def Let_def)
qed

lemma redact_text_credential_free: "credential_free (redact_text default_redactor s)"
proof -
  define M where "M = CHR ''['' # ''REDACTED'' @ [CHR '']'']"
  have M: "rd_mask default_redactor = M" "rd_patterns default_redactor = [\<lambda>_. bearer_match, \<lambda>_. api_key_match, email_match]"
    by (simp_all add: default_redactor_def new_redactor_def M_def)
  let ?s1 = "pattern_sub (\<lambda>_. bearer_match) M None 0 s"
  let ?s2 = "pattern_sub (\<lambda>_. api_key_match) M None 0 ?s1"
  note kept = free_after_sub[OF bearer_bound mask_free(1) disjI1, folded M_def]
    free_after_sub[OF api_key_bound mask_free(2) disjI1, folded M_def]
  note own = free_after_sub[OF bearer_bound mask_free(1) disjI2, folded M_def]
    free_after_sub[OF api_key_bound mask_free(2) disjI2, folded M_def]
  have "free_of bearer_match ?s1" by (rule own(1)) (simp add: credential_matches_positive)
  then have "free_of bearer_match (pattern_sub email_match M None 0 ?s2)" by (rule kept(1)[OF kept(1)])
  moreover have "free_of api_key_match ?s2" by (rule own(2)) (simp add: credential_matches_positive)
  then have "free_of api_key_match (pattern_sub email_match M None 0 ?s2)" by (rule kept(2))
  ultimately show ?thesis by (simp add: credential_free_def redact_text_def M)
qed

text \<open>Every text in the data is free of credentials, every sensitive field holds the mask.\<close>

fun shielded :: "redactor \<Rightarrow> pyval \<Rightarrow> bool" where
  "shielded r (PStr s) = credential_free s"
| "shielded r (PList vs) = (\<forall>v\<in>set vs. shielded r v)"
| "shielded r (PDict d) = (\<forall>(k, v)\<in>set d. if sensitive_key r k then v = PStr (rd_mask r) else shielded r v)"
| "shielded r v = True"

lemma redact_shielded: "shielded default_redactor (redact default_redactor v)"
proof (induction default_redactor v rule: redact.induct)
  case (1 d)
  then show ?case by (fastforce split: prod.splits)
qed (simp_all add: redact_text_credential_free)


text \<open>The header the API reads its keys from is not a sensitive field name.\<close>

lemma key_header_not_sensitive: "\<not> sensitive_key default_redactor ''X-API-Key''"
  by code_simp

section \<open>The two sinks agree\<close>

text \<open>What the JSON lines sink relies on: one line per event, which loads back.\<close>

definition line_codec :: "(AuditEvent \<Rightarrow> exc + string) \<Rightarrow> (string \<Rightarrow> AuditEvent option) \<Rightarrow> AuditEvent \<Rightarrow> bool" where
  "line_codec dump load ev \<longleftrightarrow>
     (case dump ev of
        Inl _ \<Rightarrow> False
      | Inr line \<Rightarrow> line \<noteq> [] \<and> CHR 0x0A \<notin> set line \<and> CHR 0x0D \<notin> set line
          \<and> py_strip line = line \<and> load line = Some ev)"

definition line_of :: "(AuditEvent \<Rightarrow> exc + string) \<Rightarrow> AuditEvent \<Rightarrow> string" where
  "line_of dump ev = projr (dump ev)"

lemma line_codecD:
  assumes "line_codec dump load ev"
  shows "dump ev = Inr (line_of dump ev)" "line_of dump ev \<noteq> []" "CHR 0x0A \<notin> set (line_of dump ev)"
    "CHR 0x0D \<notin> set (line_of dump ev)" "py_strip (line_of dump ev) = line_of dump ev" "load (line_of dump ev) = Some ev"
  using assms by (auto simp: line_codec_def line_of_def split: sum.splits)

text \<open>A history: events with what opening the file raised for them.\<close>

definition jsonl_after ::
    "redactor \<Rightarrow> (AuditEvent \<Rightarrow> exc + string) \<Rightarrow> (exc option \<times> AuditEvent) list \<Rightarrow> string option" where
  "jsonl_after r dump history = fold (\<lambda>(broken, ev). record_event r (jsonl_emit dump broken) ev) history None"

definition memory_after :: "redactor \<Rightarrow> AuditEvent list \<Rightarrow> AuditEvent list" where
  "memory_after r evs = fold (record_event r memory_emit) evs []"

lemma memory_after_eq: "memory_after r evs = map (sanitize_event r) evs"
proof -
  have "fold (record_event r memory_emit) evs st = st @ map (sanitize_event r) evs" for st
    by (induction evs arbitrary: st) (simp_all add: record_event_def memory_emit_def)
  then show ?thesis by (simp add: memory_after_def)
qed

definition content_of :: "string option \<Rightarrow> string" where
  "content_of file = (case file of None \<Rightarrow> [] | Some t \<Rightarrow> t)"

lemma jsonl_fold_content:
  assumes "\<forall>h\<in>set history. line_codec dump load (sanitize_event r (snd h))"
  shows "content_of (fold (\<lambda>(broken, ev). record_event r (jsonl_emit dump broken) ev) history st) =
    content_of st @ concat (map (\<lambda>(broken, ev). if broken = None then line_of dump (sanitize_event r ev) @ [CHR 0x0A] else []) history)"
  using assms
proof (induction history arbitrary: st)
  case (Cons h history)
  obtain broken ev where h: "h = (broken, ev)" by (rule prod.exhaust)
  have "content_of (record_event r (jsonl_emit dump broken) ev st) =
      content_of st @ (if broken = None then line_of dump (sanitize_event r ev) @ [CHR 0x0A] else [])"
    using line_codecD(1)[of dump load "sanitize_event r ev"] Cons.prems h
    by (cases broken) (simp_all add: record_event_def jsonl_emit_def content_of_def Let_def)
  then show ?case using Cons h by simp
qed simp

lemma file_lines_concat:
  assumes "\<forall>l\<in>set ls. CHR 0x0A \<notin> set l \<and> CHR 0x0D \<notin> set l"
  shows "file_lines (concat (map (\<lambda>l. l @ [CHR 0x0A]) ls)) = ls @ [[]]"
proof -
  have "CHR 0x0D \<notin> set (concat (map (\<lambda>l. l @ [CHR 0x0A]) ls))" using assms by auto
  then have "map (\<lambda>c. if c = CHR 0x0D then CHR 0x0A else c) (concat (map (\<lambda>l. l @ [CHR 0x0A]) ls)) =
      concat (map (\<lambda>l. l @ [CHR 0x0A]) ls)"
    by (intro map_idI) auto
  then show ?thesis using split_on_lines[of ls "CHR 0x0A"] assms by (simp add: file_lines_def)
qed

text \<open>C31: the JSON lines sink reads back exactly the redacted events whose recording could open the file, in
  order: what the in-memory sink answers after recording those events, with or without a filter by run.\<close>

theorem jsonl_reads_back:
  assumes "\<forall>h\<in>set history. line_codec dump load (sanitize_event r (snd h))" "run_id \<noteq> Some []"
  shows "jsonl_get_events load (jsonl_after r dump history) run_id =
    memory_get_events (memory_after r (map snd (filter (\<lambda>h. fst h = None) history))) run_id"
proof -
  let ?kept = "map snd (filter (\<lambda>h. fst h = None) history)"
  let ?evs = "map (sanitize_event r) ?kept"
  let ?lines = "map (line_of dump) ?evs"
  let ?read = "\<lambda>line. let s = py_strip line in
    if s = [] then None
    else case load s of None \<Rightarrow> None | Some ev \<Rightarrow> if run_id = None \<or> run_id = Some (a_run_id ev) then Some ev else None"
  have c: "content_of (jsonl_after r dump history) = concat (map (\<lambda>l. l @ [CHR 0x0A]) ?lines)"
    unfolding jsonl_after_def jsonl_fold_content[OF assms(1)]
    by (induction history) (auto simp: content_of_def)
  have lines: "file_lines (content_of (jsonl_after r dump history)) = ?lines @ [[]]"
    unfolding c using line_codecD(3,4) assms(1) by (intro file_lines_concat) fastforce
  have read: "?read (line_of dump ev) = (if run_id = None \<or> run_id = Some (a_run_id ev) then Some ev else None)"
    if "line_codec dump load ev" for ev using line_codecD[OF that] by (simp add: Let_def)
  have "List.map_filter ?read (map (line_of dump) evs @ [[]]) = filter (\<lambda>ev. run_id = None \<or> run_id = Some (a_run_id ev)) evs"
    if "\<forall>ev\<in>set evs. line_codec dump load ev" for evs
    using that by (induction evs) (simp_all add: map_filter_simps read)
  from this[of ?evs] assms(1)
  have "List.map_filter ?read (?lines @ [[]]) = filter (\<lambda>ev. run_id = None \<or> run_id = Some (a_run_id ev)) ?evs" by auto
  moreover have "jsonl_get_events load (jsonl_after r dump history) run_id =
      List.map_filter ?read (file_lines (content_of (jsonl_after r dump history)))"
    by (cases "jsonl_after r dump history") (simp_all add: jsonl_get_events_def content_of_def file_lines_def map_filter_simps)
  ultimately show ?thesis
    unfolding lines memory_after_eq using assms(2)
    by (cases run_id) (auto simp: memory_get_events_def opt_truthy_def opt_str_def intro: filter_cong)
qed

section \<open>Witnesses\<close>

text \<open>A codec for events that differ only in their run, whose lines are the run identifier in quotes.\<close>

definition ex_event :: "string \<Rightarrow> AuditEvent" where
  "ex_event run =
     \<lparr>a_run_id = run, a_correlation_id = None, a_session_id = None, a_event_type = RUN_STARTED, a_actor = ''a'',
      a_component = ''c'', a_action = ''Bearer abc'', a_outcome = ''SUCCESS'', a_metadata = [(''password'', PStr ''p'')]\<rparr>"


definition ex_dump :: "AuditEvent \<Rightarrow> exc + string" where
  "ex_dump ev = Inr (a_run_id ev)"

definition ex_load :: "string \<Rightarrow> AuditEvent option" where
  "ex_load line = Some (sanitize_event default_redactor (ex_event line))"

theorem jsonl_reads_back_witness:
  "jsonl_get_events ex_load
     (jsonl_after default_redactor ex_dump [(None, ex_event ''r1''), (Some (mk_Foreign ''OSError'' []), ex_event ''r2''), (None, ex_event ''r3'')])
     (Some ''r3'') = [sanitize_event default_redactor (ex_event ''r3'')]"
proof -
  let ?h = "[(None, ex_event ''r1''), (Some (mk_Foreign ''OSError'' []), ex_event ''r2''), (None, ex_event ''r3'')]"
  have run: "a_run_id (sanitize_event r (ex_event x)) = x" for r x by (simp add: sanitize_event_def ex_event_def)
  have "\<forall>h\<in>set ?h. line_codec ex_dump ex_load (sanitize_event default_redactor (snd h))"
    by (simp add: line_codec_def ex_dump_def ex_load_def run py_strip_def py_space_def)
  from jsonl_reads_back[OF this, of "Some ''r3''"] show ?thesis
    by (simp add: memory_after_eq memory_get_events_def opt_truthy_def opt_str_def run)
qed

end
