(* ===== verification/Tracing.thy ===== *)
theory Tracing
  imports Redaction
begin

text \<open>
  Tracing (\<open>observability/tracing\<close>): spans, the trace context that a task carries, the tracer base class
  with its scopes and the in-memory tracer. The context variable is a field of the tracer's state, which
  is that of one task; identifiers and times are arguments.
\<close>

section \<open>Spans (tracing/models.py)\<close>

record Span =
  spn_span_id :: string
  spn_trace_id :: string
  spn_parent_span_id :: "string option"
  spn_name :: string
  spn_kind :: SpanKind
  spn_start_time :: rat
  spn_end_time :: "rat option"
  spn_duration_ms :: "rat option"
  spn_status :: SpanStatus
  spn_error_message :: "string option"
  spn_attributes :: dict
  spn_events :: "dict list"

fun span_kind_value :: "SpanKind \<Rightarrow> string" where
  "span_kind_value WORKFLOW = ''workflow''"
| "span_kind_value NODE = ''node''"
| "span_kind_value AGENT = ''agent''"
| "span_kind_value LLM = ''llm''"
| "span_kind_value TOOL = ''tool''"
| "span_kind_value RETRIEVAL = ''retrieval''"
| "span_kind_value VALIDATOR = ''validator''"
| "span_kind_value HUMAN_GATE = ''human_gate''"

fun span_status_value :: "SpanStatus \<Rightarrow> string" where
  "span_status_value OK = ''OK''"
| "span_status_value ERROR = ''ERROR''"

definition set_attribute :: "string \<Rightarrow> pyval \<Rightarrow> Span \<Rightarrow> Span" where
  "set_attribute key v s = s\<lparr>spn_attributes := AList.update key v (spn_attributes s)\<rparr>"

definition add_event :: "string \<Rightarrow> dict option \<Rightarrow> rat \<Rightarrow> Span \<Rightarrow> Span" where
  "add_event name attributes now s =
     s\<lparr>spn_events := spn_events s
         @ [[(''name'', PStr name), (''timestamp'', PFloat now), (''attributes'', PDict (dict_or_empty attributes))]]\<rparr>"

definition finish_span :: "SpanStatus \<Rightarrow> string option \<Rightarrow> rat \<Rightarrow> Span \<Rightarrow> Span" where
  "finish_span status error_message now s =
     (if spn_end_time s \<noteq> None then s
      else s\<lparr>spn_end_time := Some now, spn_duration_ms := Some (max 0 ((now - spn_start_time s) * 1000)),
             spn_status := status,
             spn_error_message := (if opt_truthy error_message then error_message else spn_error_message s)\<rparr>)"

section \<open>The context and the tracer (tracing/context.py, tracing/base.py, tracing/in_memory.py)\<close>

record TraceContext =
  ctx_trace_id :: string
  ctx_run_id :: string
  ctx_parent_span_id :: "string option"
  ctx_correlation_id :: "string option"
  ctx_session_id :: "string option"

record tracer =
  tc_redactor :: redactor
  tc_spans :: "Span list"
  tc_context :: "TraceContext option"

definition new_tracer :: "redactor option \<Rightarrow> tracer" where
  "new_tracer r = \<lparr>tc_redactor = (case r of None \<Rightarrow> default_redactor | Some x \<Rightarrow> x), tc_spans = [], tc_context = None\<rparr>"

text \<open>What a span is started with, and the two \<open>uuid4\<close> texts and the time it draws.\<close>

record scope_args =
  sa_name :: string
  sa_kind :: SpanKind
  sa_attributes :: "dict option"
  sa_run_id :: "string option"
  sa_correlation_id :: "string option"
  sa_session_id :: "string option"

record fresh =
  fr_trace :: string
  fr_span :: string
  fr_time :: rat

definition inherit :: "string option \<Rightarrow> string option \<Rightarrow> string option" where
  "inherit own inherited = (if opt_truthy own then own else inherited)"

definition set_if :: "string \<Rightarrow> string option \<Rightarrow> dict \<Rightarrow> dict" where
  "set_if key v d = (if opt_truthy v then AList.update key (opt_str v) d else d)"

definition start_span ::
    "scope_args \<Rightarrow> string option \<Rightarrow> string option \<Rightarrow> fresh \<Rightarrow> tracer \<Rightarrow> Span" where
  "start_span a trace_id parent_span_id fr tr =
     (let ctx = tc_context tr;
          trace = str_or trace_id (case ctx of Some c \<Rightarrow> ctx_trace_id c | None \<Rightarrow> take 16 (fr_trace fr));
          run = str_or (sa_run_id a) (case ctx of Some c \<Rightarrow> ctx_run_id c | None \<Rightarrow> trace);
          parent = inherit parent_span_id (case ctx of Some c \<Rightarrow> ctx_parent_span_id c | None \<Rightarrow> None);
          correlation = inherit (sa_correlation_id a) (case ctx of Some c \<Rightarrow> ctx_correlation_id c | None \<Rightarrow> None);
          session = inherit (sa_session_id a) (case ctx of Some c \<Rightarrow> ctx_session_id c | None \<Rightarrow> None);
          attributes = redact_dict (tc_redactor tr) (dict_or_empty (sa_attributes a))
      in \<lparr>spn_span_id = take 16 (fr_span fr), spn_trace_id = trace, spn_parent_span_id = parent, spn_name = sa_name a,
          spn_kind = sa_kind a, spn_start_time = fr_time fr, spn_end_time = None, spn_duration_ms = None,
          spn_status = OK, spn_error_message = None,
          spn_attributes = set_if ''session_id'' session (set_if ''correlation_id'' correlation
            (set_if ''run_id'' (Some run) attributes)),
          spn_events = []\<rparr>)"

definition record_end :: "Span \<Rightarrow> tracer \<Rightarrow> tracer" where
  "record_end s tr = tr\<lparr>tc_spans := tc_spans tr @ [s]\<rparr>"

text \<open>\<open>error\<close> is the text of the exception, if one is given.\<close>

definition end_span :: "Span \<Rightarrow> SpanStatus \<Rightarrow> string option \<Rightarrow> rat \<Rightarrow> tracer \<Rightarrow> tracer" where
  "end_span s status error now tr = record_end (finish_span status error now s) tr"

definition attribute_text :: "Span \<Rightarrow> string \<Rightarrow> string option" where
  "attribute_text s key = (case map_of (spn_attributes s) key of Some (PStr t) \<Rightarrow> Some t | _ \<Rightarrow> None)"

definition get_spans :: "string option \<Rightarrow> string option \<Rightarrow> tracer \<Rightarrow> Span list" where
  "get_spans trace_id run_id tr =
     (let s1 = (if opt_truthy trace_id then filter (\<lambda>s. Some (spn_trace_id s) = trace_id) (tc_spans tr) else tc_spans tr)
      in if opt_truthy run_id then filter (\<lambda>s. attribute_text s ''run_id'' = run_id) s1 else s1)"

definition clear_spans :: "tracer \<Rightarrow> tracer" where
  "clear_spans tr = tr\<lparr>tc_spans := []\<rparr>"

text \<open>
  \<open>async with tracer.trace_scope(...) as span\<close> around a body, which may change the span, the tracer and
  the rest of the world; \<open>now\<close> reads the clock. Only an \<open>Exception\<close> is caught: a cancellation passes.
\<close>

definition is_exception :: "exc \<Rightarrow> bool" where
  "is_exception e \<longleftrightarrow> e_class e \<notin> Foreign ` {''CancelledError'', ''KeyboardInterrupt'', ''SystemExit'', ''GeneratorExit''}"

definition trace_scope ::
    "('w \<Rightarrow> rat) \<Rightarrow> scope_args \<Rightarrow> fresh \<Rightarrow> (Span \<Rightarrow> tracer \<times> 'w \<Rightarrow> (exc + 'a) \<times> Span \<times> tracer \<times> 'w)
     \<Rightarrow> tracer \<times> 'w \<Rightarrow> (exc + 'a) \<times> tracer \<times> 'w" where
  "trace_scope now a fr body st =
     (case st of (tr, w) \<Rightarrow>
        let parent_ctx = tc_context tr;
            s = start_span a None None fr tr;
            ctx = \<lparr>ctx_trace_id = spn_trace_id s,
                   ctx_run_id = (case attribute_text s ''run_id'' of Some r \<Rightarrow> r | None \<Rightarrow> spn_trace_id s),
                   ctx_parent_span_id = Some (spn_span_id s),
                   ctx_correlation_id = attribute_text s ''correlation_id'',
                   ctx_session_id = attribute_text s ''session_id''\<rparr>
        in case body s (tr\<lparr>tc_context := Some ctx\<rparr>, w) of
             (x, s', tr', w') \<Rightarrow>
               let tr2 = (case x of
                     Inr _ \<Rightarrow> end_span s' OK None (now w') tr'
                   | Inl e \<Rightarrow> if is_exception e then end_span s' ERROR (Some (e_message e)) (now w') tr' else tr')
               in (x, tr2\<lparr>tc_context := parent_ctx\<rparr>, w'))"

section \<open>Nested scopes record a tree\<close>

text \<open>
  A program of nested scopes: each runs the scopes inside it one after the other and then succeeds or
  raises; an exception of an inner scope ends the outer one. The world counts the scopes, so the
  identifiers of the \<open>n\<close>-th are \<open>ids n\<close>.
\<close>

datatype scope = Scope scope_args "scope list" "exc option"

fun run_scope :: "(nat \<Rightarrow> fresh) \<Rightarrow> scope \<Rightarrow> tracer \<times> nat \<Rightarrow> (exc + unit) \<times> tracer \<times> nat"
  and run_scopes :: "(nat \<Rightarrow> fresh) \<Rightarrow> scope list \<Rightarrow> tracer \<times> nat \<Rightarrow> (exc + unit) \<times> tracer \<times> nat" where
  "run_scope ids (Scope a inner err) st =
     trace_scope (\<lambda>n. fr_time (ids n)) a (ids (snd st))
       (\<lambda>s st1. case run_scopes ids inner st1 of
            (Inl e, tr, n) \<Rightarrow> (Inl e, s, tr, n)
          | (Inr _, tr, n) \<Rightarrow> (case err of None \<Rightarrow> Inr () | Some e \<Rightarrow> Inl e, s, tr, n))
       (fst st, Suc (snd st))"
| "run_scopes ids [] st = (Inr (), st)"
| "run_scopes ids (sc # scs) st =
     (case run_scope ids sc st of
        (Inl e, st1) \<Rightarrow> (Inl e, st1)
      | (Inr _, st1) \<Rightarrow> run_scopes ids scs st1)"

text \<open>What such a program executes, with the scopes that failed marked: a tree of names.\<close>

datatype shape = Shape string bool "shape list"

fun executed :: "scope \<Rightarrow> (exc + unit) \<times> shape"
  and executed_all :: "scope list \<Rightarrow> (exc + unit) \<times> shape list" where
  "executed (Scope a inner err) =
     (case executed_all inner of
        (Inl e, kids) \<Rightarrow> (Inl e, Shape (sa_name a) True kids)
      | (Inr _, kids) \<Rightarrow>
          (case err of
             None \<Rightarrow> (Inr (), Shape (sa_name a) False kids)
           | Some e \<Rightarrow> (Inl e, Shape (sa_name a) True kids)))"
| "executed_all [] = (Inr (), [])"
| "executed_all (sc # scs) =
     (case executed sc of
        (Inl e, k) \<Rightarrow> (Inl e, [k])
      | (Inr _, k) \<Rightarrow> (case executed_all scs of (x, kids) \<Rightarrow> (x, k # kids)))"

text \<open>
  The spans of a forest in post-order, under parent \<open>p\<close> of trace \<open>t\<close>: those inside a span come right
  before it and name it as their parent; a failed scope has the status of an error.
\<close>

inductive mirrors :: "string \<Rightarrow> string option \<Rightarrow> shape list \<Rightarrow> Span list \<Rightarrow> bool" where
  mirrors_Nil: "mirrors t p [] []"
| mirrors_Tree: "mirrors t p (Shape (spn_name s) (spn_status s = ERROR) kids # shapes) (inner @ s # rest)"
    if "mirrors t (Some (spn_span_id s)) kids inner" "spn_trace_id s = t" "spn_parent_span_id s = p"
       "spn_end_time s \<noteq> None" "mirrors t p shapes rest"

lemma mirrors_single:
  assumes "mirrors t (Some (spn_span_id s)) kids inner" "spn_trace_id s = t" "spn_parent_span_id s = p"
    "spn_end_time s \<noteq> None" "n = spn_name s" "failed \<longleftrightarrow> spn_status s = ERROR"
  shows "mirrors t p [Shape n failed kids] (inner @ [s])"
  using mirrors_Tree[OF assms(1-4) mirrors_Nil] assms(5,6) by simp

lemma mirrors_append: "mirrors t p ks a \<Longrightarrow> mirrors t p ls b \<Longrightarrow> mirrors t p (ks @ ls) (a @ b)"
proof (induction rule: mirrors.induct)
  case (mirrors_Tree t s kids inner p shapes rest)
  then show ?case using mirrors.mirrors_Tree[of t s kids inner p "shapes @ ls" "rest @ b"] by simp
qed simp

text \<open>Only exceptions, no cancellation.\<close>

fun raises_exceptions :: "scope \<Rightarrow> bool" where
  "raises_exceptions (Scope a inner err) \<longleftrightarrow>
     (\<forall>sc\<in>set inner. raises_exceptions sc) \<and> (\<forall>e. err = Some e \<longrightarrow> is_exception e)"

definition open_context :: "tracer \<Rightarrow> string \<Rightarrow> string option \<Rightarrow> bool" where
  "open_context tr t p \<longleftrightarrow>
     (case tc_context tr of None \<Rightarrow> p = None | Some c \<Rightarrow> ctx_trace_id c = t \<and> ctx_parent_span_id c = p)"

lemma start_span_fields:
  "spn_end_time (start_span a None None fr tr) = None" "spn_name (start_span a None None fr tr) = sa_name a"
  "spn_trace_id (start_span a None None fr tr) = (case tc_context tr of Some c \<Rightarrow> ctx_trace_id c | None \<Rightarrow> take 16 (fr_trace fr))"
  "spn_parent_span_id (start_span a None None fr tr) = (case tc_context tr of Some c \<Rightarrow> ctx_parent_span_id c | None \<Rightarrow> None)"
  by (auto simp: start_span_def Let_def inherit_def opt_truthy_def opt_str_def str_or_def split: option.splits)

lemma finish_span_fields:
  assumes "spn_end_time s = None"
  shows "spn_span_id (finish_span st m now s) = spn_span_id s" "spn_trace_id (finish_span st m now s) = spn_trace_id s"
    "spn_parent_span_id (finish_span st m now s) = spn_parent_span_id s" "spn_end_time (finish_span st m now s) \<noteq> None"
    "spn_status (finish_span st m now s) = st" "spn_name (finish_span st m now s) = spn_name s"
  using assms by (auto simp: finish_span_def)

text \<open>A scope whose body adds a forest under its span and keeps that span adds one tree, and restores the context.\<close>

lemma trace_scope_tree:
  assumes "trace_scope now a fr body (tr, w) = (x, tr', w')"
    and "\<And>s tr1 y s' tr2 w2. body s (tr1, w) = (y, s', tr2, w2) \<Longrightarrow> open_context tr1 (spn_trace_id s) (Some (spn_span_id s))
      \<Longrightarrow> tc_context tr1 \<noteq> None \<Longrightarrow>
        s' = s \<and> (\<forall>e. y = Inl e \<longrightarrow> is_exception e) \<and> y = z
        \<and> (\<exists>new. tc_spans tr2 = tc_spans tr1 @ new \<and> mirrors (spn_trace_id s) (Some (spn_span_id s)) kids new)"
  shows "tc_context tr' = tc_context tr \<and> (\<forall>e. x = Inl e \<longrightarrow> is_exception e) \<and> x = z
    \<and> (\<exists>new t. tc_spans tr' = tc_spans tr @ new
        \<and> (\<forall>u p. open_context tr u p \<longrightarrow> mirrors (if tc_context tr = None then t else u) p [Shape (sa_name a) (isl z) kids] new))"
proof -
  define s where "s = start_span a None None fr tr"
  define ctx where "ctx = \<lparr>ctx_trace_id = spn_trace_id s,
      ctx_run_id = (case attribute_text s ''run_id'' of Some r \<Rightarrow> r | None \<Rightarrow> spn_trace_id s),
      ctx_parent_span_id = Some (spn_span_id s), ctx_correlation_id = attribute_text s ''correlation_id'',
      ctx_session_id = attribute_text s ''session_id''\<rparr>"
  obtain y s' tr2 w2 where b: "body s (tr\<lparr>tc_context := Some ctx\<rparr>, w) = (y, s', tr2, w2)" by (metis prod.exhaust)
  have "open_context (tr\<lparr>tc_context := Some ctx\<rparr>) (spn_trace_id s) (Some (spn_span_id s))"
    by (simp add: open_context_def ctx_def)
  then obtain new where n: "s' = s" "\<forall>e. y = Inl e \<longrightarrow> is_exception e" "tc_spans tr2 = tc_spans tr @ new"
    "mirrors (spn_trace_id s) (Some (spn_span_id s)) kids new" "y = z"
    using assms(2)[OF b] by auto
  define f where "f = (case y of Inr _ \<Rightarrow> finish_span OK None (now w2) s | Inl e \<Rightarrow> finish_span ERROR (Some (e_message e)) (now w2) s)"
  have res: "x = y" "tc_context tr' = tc_context tr" "tc_spans tr' = tc_spans tr @ new @ [f]"
    using assms(1)[unfolded trace_scope_def Let_def prod.case, folded s_def, folded ctx_def] n(1-3)
    by (auto simp: b end_span_def record_end_def f_def split: sum.splits)
  have fin: "spn_span_id f = spn_span_id s" "spn_trace_id f = spn_trace_id s" "spn_parent_span_id f = spn_parent_span_id s"
    "spn_end_time f \<noteq> None" "isl z \<longleftrightarrow> spn_status f = ERROR" "sa_name a = spn_name f"
  proof -
    obtain st m where f: "f = finish_span st m (now w2) s" "st = ERROR \<longleftrightarrow> isl z" unfolding f_def using n(5) by (cases y) auto
    have "spn_end_time s = None" "spn_name s = sa_name a" using start_span_fields(1,2) by (simp_all add: s_def)
    from finish_span_fields[OF this(1), of st m "now w2"] this(2) f
    show "spn_span_id f = spn_span_id s" "spn_trace_id f = spn_trace_id s" "spn_parent_span_id f = spn_parent_span_id s"
      "spn_end_time f \<noteq> None" "isl z \<longleftrightarrow> spn_status f = ERROR" "sa_name a = spn_name f" by auto
  qed
  have "mirrors (if tc_context tr = None then spn_trace_id s else u) p [Shape (sa_name a) (isl z) kids] (new @ [f])" if "open_context tr u p" for u p
    using that fin n(4) start_span_fields(3,4)[of a fr tr]
    by (intro mirrors_single) (auto simp: open_context_def s_def split: option.splits)
  then show ?thesis using res n(2,5) by (intro conjI exI[of _ "new @ [f]"] exI[of _ "spn_trace_id s"]) auto
qed

lemma run_scope_tree:
  "raises_exceptions sc \<Longrightarrow> run_scope ids sc (tr, n) = (x, tr', n') \<Longrightarrow>
     tc_context tr' = tc_context tr \<and> (\<forall>e. x = Inl e \<longrightarrow> is_exception e) \<and> x = fst (executed sc)
     \<and> (\<exists>new t. tc_spans tr' = tc_spans tr @ new
         \<and> (\<forall>u p. open_context tr u p \<longrightarrow> mirrors (if tc_context tr = None then t else u) p [snd (executed sc)] new))"
  "(\<forall>sc\<in>set scs. raises_exceptions sc) \<Longrightarrow> run_scopes ids scs (tr, n) = (x, tr', n') \<Longrightarrow>
     open_context tr t p \<Longrightarrow> tc_context tr \<noteq> None \<Longrightarrow>
     tc_context tr' = tc_context tr \<and> (\<forall>e. x = Inl e \<longrightarrow> is_exception e) \<and> x = fst (executed_all scs)
     \<and> (\<exists>new. tc_spans tr' = tc_spans tr @ new \<and> mirrors t p (snd (executed_all scs)) new)"
proof (induction ids sc "(tr, n)" and ids scs "(tr, n)" arbitrary: tr n x tr' n' and tr n x tr' n' t p rule: run_scope_run_scopes.induct)
  case (1 ids a inner err tr n)
  let ?z = "case fst (executed_all inner) of Inl e \<Rightarrow> Inl e | Inr _ \<Rightarrow> (case err of None \<Rightarrow> Inr () | Some e \<Rightarrow> Inl e)"
  have ex: "executed (Scope a inner err) = (?z, Shape (sa_name a) (isl ?z) (snd (executed_all inner)))"
    by (simp split: prod.splits sum.splits option.splits)
  note scope = 1(3)[unfolded run_scope.simps]
  show ?case unfolding ex fst_conv snd_conv
  proof (rule trace_scope_tree[OF scope[simplified fst_conv snd_conv]])
    fix s tr1 y s' tr2 w2
    assume b: "(case run_scopes ids inner (tr1, Suc n) of
         (Inl e, tr, n) \<Rightarrow> (Inl e, s, tr, n)
       | (Inr _, tr, n) \<Rightarrow> (case err of None \<Rightarrow> Inr () | Some e \<Rightarrow> Inl e, s, tr, n)) = (y, s', tr2, w2)"
      and o: "open_context tr1 (spn_trace_id s) (Some (spn_span_id s))" "tc_context tr1 \<noteq> None"
    obtain z tr3 n3 where r: "run_scopes ids inner (tr1, Suc n) = (z, tr3, n3)" by (metis prod.exhaust)
    have "\<forall>sc\<in>set inner. raises_exceptions sc" "\<forall>e. err = Some e \<longrightarrow> is_exception e" using 1(2) by auto
    then show "s' = s \<and> (\<forall>e. y = Inl e \<longrightarrow> is_exception e) \<and> y = ?z
        \<and> (\<exists>new. tc_spans tr2 = tc_spans tr1 @ new \<and> mirrors (spn_trace_id s) (Some (spn_span_id s)) (snd (executed_all inner)) new)"
      using 1(1)[OF _ r o] b r by (auto split: sum.splits option.splits)
  qed
next
  case (2 ids tr n)
  then show ?case by (auto intro: mirrors_Nil)
next
  case (3 ids sc scs tr n)
  obtain y tr1 n1 where h: "run_scope ids sc (tr, n) = (y, tr1, n1)" by (metis prod.exhaust)
  obtain t0 new1 where one: "tc_context tr1 = tc_context tr" "\<forall>e. y = Inl e \<longrightarrow> is_exception e" "y = fst (executed sc)"
    "tc_spans tr1 = tc_spans tr @ new1"
    "\<forall>u p. open_context tr u p \<longrightarrow> mirrors (if tc_context tr = None then t0 else u) p [snd (executed sc)] new1"
    using 3(1)[OF _ h] 3(3) by auto
  have f1: "mirrors t p [snd (executed sc)] new1" using one(5) 3(5,6) by simp
  show ?case
  proof (cases y)
    case (Inl e)
    then show ?thesis using 3(4) h one f1 by (auto split: prod.splits)
  next
    case (Inr u)
    then have r: "run_scopes ids scs (tr1, n1) = (x, tr', n')" using 3(4) h by simp
    have o: "open_context tr1 t p" using 3(5) one(1) by (simp add: open_context_def)
    from 3(2)[OF h[symmetric] Inr _ r o] one(1) 3(3,6) obtain new2 where two:
      "tc_context tr' = tc_context tr" "\<forall>e. x = Inl e \<longrightarrow> is_exception e" "x = fst (executed_all scs)"
      "tc_spans tr' = tc_spans tr1 @ new2" "mirrors t p (snd (executed_all scs)) new2" by auto
    have "executed_all (sc # scs) = (x, snd (executed sc) # snd (executed_all scs))"
      using one(3) two(3) Inr by (cases "executed sc"; cases "executed_all scs"; cases "fst (executed sc)") auto
    then show ?thesis using two one(4) mirrors_append[OF f1 two(5)] by (auto intro!: exI[of _ "new1 @ new2"])
  qed
qed


definition ex_args :: "string \<Rightarrow> scope_args" where
  "ex_args name =
     \<lparr>sa_name = name, sa_kind = NODE, sa_attributes = None, sa_run_id = None, sa_correlation_id = None, sa_session_id = None\<rparr>"

definition ex_ids :: "nat \<Rightarrow> fresh" where
  "ex_ids n = \<lparr>fr_trace = ''t'' @ show_nat n, fr_span = ''s'' @ show_nat n, fr_time = of_nat n\<rparr>"

definition ex_scope :: scope where
  "ex_scope = Scope (ex_args ''outer'') [Scope (ex_args ''a'') [] None, Scope (ex_args ''b'') [] (Some (mk_Foreign ''KeyError'' ''k''))] None"


text \<open>The orchestration code ends the spans of failed nodes and runs with \<open>end_span(span, error=e)\<close>: their status stays OK.\<close>

lemma default_status_hides_error: "spn_status (finish_span OK (Some e) now (start_span a None None fr tr)) = OK"
  using finish_span_fields(5)[OF start_span_fields(1)] .

end
