(* ===== verification/Prometheus.thy ===== *)
theory Prometheus
  imports Telemetry Py_Text "HOL-Library.Char_ord" "HOL-Library.List_Lexorder"
begin

text \<open>
  The Prometheus exporter (\<open>observability/metrics/prometheus.py\<close>) over snapshots of the metrics registry,
  and a reader of the lines of the text format, by which the exporter is judged. Metric values are
  rationals, so the cases of \<open>format_float\<close> for infinities and NaN do not arise; texts are ASCII.
\<close>

section \<open>Names and texts\<close>

definition name_char :: "char \<Rightarrow> bool" where
  "name_char c \<longleftrightarrow> (let n = of_char c :: nat in 65 \<le> n \<and> n \<le> 90 \<or> 97 \<le> n \<and> n \<le> 122)
     \<or> is_digit c \<or> c = CHR ''_'' \<or> c = CHR '':''"

definition sanitize_metric_name :: "string \<Rightarrow> string" where
  "sanitize_metric_name name =
     (let s = map (\<lambda>c. if name_char c then c else CHR ''_'') name;
          s1 = (case s of [] \<Rightarrow> [] | c # _ \<Rightarrow> if is_digit c \<or> c = CHR '':'' then CHR ''_'' # s else s)
      in if s1 = [] then ''unnamed_metric'' else s1)"

definition backslash :: char where
  "backslash = CHR 0x5C"

definition escape_help_string :: "string \<Rightarrow> string" where
  "escape_help_string help_text =
     py_replace [CHR 0x0A] [backslash, CHR ''n''] (py_replace [backslash] [backslash, backslash] help_text)"

definition escape_label_value :: "string \<Rightarrow> string" where
  "escape_label_value val =
     py_replace [CHR 0x22] [backslash, CHR 0x22] (escape_help_string val)"

definition format_float :: "rat \<Rightarrow> string" where
  "format_float val = (if of_int \<lfloor>val\<rfloor> = val then show_int \<lfloor>val\<rfloor> else repr_float val)"

section \<open>The serializer\<close>

definition metric_descriptions :: "(string \<times> string) list" where
  "metric_descriptions =
     [(''runs_started_total'', ''Total workflow runs started''),
      (''runs_completed_total'', ''Total workflow runs successfully completed''),
      (''runs_failed_total'', ''Total workflow runs failed''),
      (''llm_requests_total'', ''Total LLM generation requests''),
      (''llm_fallbacks_total'', ''Total provider fallback triggers''),
      (''human_escalations_total'', ''Total human-in-the-loop escalations''),
      (''human_decisions_approved_total'', ''Total human approvals''),
      (''human_decisions_rejected_total'', ''Total human rejections''),
      (''human_decisions_modified_total'', ''Total human modifications''),
      (''validator_retries_total'', ''Total critic-requested task retries''),
      (''tool_executions_total'', ''Total tool executions''),
      (''retrieval_queries_total'', ''Total semantic retrieval queries''),
      (''active_runs'', ''Currently active in-flight runs''),
      (''pending_human_reviews'', ''Currently pending human reviews''),
      (''run_duration_seconds'', ''End-to-end workflow execution duration in seconds''),
      (''step_count'', ''Execution steps per run''),
      (''llm_duration_seconds'', ''LLM request latency in seconds''),
      (''planner_duration_seconds'', ''Planner agent latency in seconds''),
      (''retrieval_duration_seconds'', ''Retrieval agent latency in seconds''),
      (''tool_duration_seconds'', ''Tool execution latency in seconds''),
      (''validator_duration_seconds'', ''Validator agent latency in seconds''),
      (''prompt_tokens'', ''Prompt token count distribution''),
      (''completion_tokens'', ''Completion token count distribution'')]"

text \<open>\<open>metric_descriptions or {...}\<close> of the constructor; \<open>a or b\<close> on dictionaries.\<close>

definition dict_or :: "(string \<times> 'v) list option \<Rightarrow> (string \<times> 'v) list \<Rightarrow> (string \<times> 'v) list" where
  "dict_or d other = (case d of None \<Rightarrow> other | Some x \<Rightarrow> if x = [] then other else x)"

definition new_serializer :: "(string \<times> string) list option \<Rightarrow> (string \<times> string) list" where
  "new_serializer descriptions = dict_or descriptions metric_descriptions"

definition line :: "string \<Rightarrow> string" where
  "line t = t @ [CHR 0x0A]"

definition help_line :: "string \<Rightarrow> string \<Rightarrow> string" where
  "help_line name help_text = ''# HELP '' @ name @ '' '' @ escape_help_string help_text"

definition type_line :: "string \<Rightarrow> string \<Rightarrow> string" where
  "type_line name kind = ''# TYPE '' @ name @ '' '' @ kind"

definition sample_line :: "string \<Rightarrow> string \<Rightarrow> rat \<Rightarrow> string" where
  "sample_line name label v = name @ label @ '' '' @ format_float v"

text \<open>One counter or gauge, and one histogram as a summary.\<close>

definition write_single :: "(string \<times> string) list \<Rightarrow> string \<Rightarrow> string \<Rightarrow> string \<times> rat \<Rightarrow> string" where
  "write_single desc_map kind fallback m =
     (case m of (name, v) \<Rightarrow>
        let n = sanitize_metric_name name in
          line (help_line n (dget desc_map name (fallback @ name))) @ line (type_line n kind)
          @ line (sample_line n [] v) @ line [])"

definition quantile_label :: "string \<Rightarrow> string" where
  "quantile_label q = ''{quantile='' @ [CHR 0x22] @ q @ [CHR 0x22] @ ''}''"

definition write_summary :: "(string \<times> string) list \<Rightarrow> string \<times> hist_summary \<Rightarrow> string" where
  "write_summary desc_map m =
     (case m of (name, h) \<Rightarrow>
        let n = sanitize_metric_name name in
          line (help_line n (dget desc_map name (''Summary distribution for '' @ name))) @ line (type_line n ''summary'')
          @ concat (map (\<lambda>(q, v). line (sample_line n (quantile_label q) v))
              [(''0.5'', hs_p50 h), (''0.9'', hs_p90 h), (''0.95'', hs_p95 h), (''0.99'', hs_p99 h)])
          @ line (sample_line n ''_sum'' (hs_sum h)) @ line (sample_line n ''_count'' (hs_count h)) @ line [])"

definition serialize_snapshot ::
    "(string \<times> string) list \<Rightarrow> (string \<times> string) list option
     \<Rightarrow> (string \<times> rat) list \<times> (string \<times> rat) list \<times> (string \<times> hist_summary) list \<Rightarrow> string" where
  "serialize_snapshot own descriptions snapshot =
     (let desc_map = dict_or descriptions own in
      case snapshot of (counters, gauges, histograms) \<Rightarrow>
        concat (map (write_single desc_map ''counter'' ''Counter metric '') (sort_key fst counters))
        @ concat (map (write_single desc_map ''gauge'' ''Gauge metric '') (sort_key fst gauges))
        @ concat (map (write_summary desc_map) (sort_key fst histograms)))"

text \<open>
  The descriptions the instruments were created with override the serializer's own; the registry model
  keeps no descriptions, so they are an argument: names with texts, in the order of the instruments.
\<close>

definition serialize_registry ::
    "(string \<times> string) list \<Rightarrow> (string \<times> string) list \<Rightarrow> MetricsRegistry \<Rightarrow> string" where
  "serialize_registry own described r =
     serialize_snapshot own
       (Some (fold (\<lambda>(name, d) m. if d = [] then m else AList.update name d m) described own))
       (get_snapshot r)"

section \<open>Escaping\<close>

lemma py_replace_single: "py_replace [c] new s = concat (map (\<lambda>x. if x = c then new else [x]) s)"
proof (induction s)
  case (Cons x s)
  then show ?case using py_replace.simps[of "[c]" new "x # s"] by (cases "x = c") simp_all
qed (simp add: py_replace.simps)

definition escaped :: "char \<Rightarrow> string" where
  "escaped c = (if c = backslash then [backslash, backslash] else if c = CHR 0x0A then [backslash, CHR ''n''] else [c])"

lemma escape_help_eq: "escape_help_string s = concat (map escaped s)"
proof -
  have "backslash \<noteq> CHR 0x0A" by (simp add: backslash_def)
  then show ?thesis
    unfolding escape_help_string_def py_replace_single by (induction s) (auto simp: escaped_def)
qed

text \<open>The reader's treatment of escapes.\<close>

fun unescape :: "string \<Rightarrow> string" where
  "unescape (c # d # s) =
     (if c = backslash then (if d = CHR ''n'' then CHR 0x0A else d) # unescape s else c # unescape (d # s))"
| "unescape s = s"

lemma unescape_escaped: "unescape (concat (map escaped s)) = s"
proof (induction s)
  case (Cons c s)
  have "unescape (x # t) = x # unescape t" if "x \<noteq> backslash" for x t
    using that by (cases t) auto
  then show ?case using Cons by (auto simp: escaped_def backslash_def)
qed simp

lemma escaped_no_newline: "CHR 0x0A \<notin> set (concat (map escaped s))"
  by (auto simp: escaped_def backslash_def)

section \<open>Characters of names and numbers\<close>

definition valid_name :: "string \<Rightarrow> bool" where
  "valid_name n \<longleftrightarrow> n \<noteq> [] \<and> list_all name_char n \<and> \<not> is_digit (hd n)"

lemma sanitize_valid: "valid_name (sanitize_metric_name name)"
proof -
  have u: "name_char CHR ''_''" "\<not> is_digit CHR ''_''" by (simp_all add: name_char_def is_digit_def)
  then have m: "list_all name_char (map (\<lambda>c. if name_char c then c else CHR ''_'') name)"
    by (auto simp: list_all_iff)
  have "valid_name ''unnamed_metric''" by code_simp
  then show ?thesis
    using m u by (auto simp: sanitize_metric_name_def valid_name_def Let_def split: list.splits)
qed

lemma plain_chars: "\<not> name_char CHR '' ''" "\<not> name_char CHR 0x0A" "\<not> name_char CHR ''#''" "\<not> name_char CHR ''{''"
  by (simp_all add: name_char_def is_digit_def)

definition number_char :: "char \<Rightarrow> bool" where
  "number_char c \<longleftrightarrow> is_digit c \<or> c = CHR ''-'' \<or> c = CHR ''.''"

lemma number_char_plain: "\<not> number_char CHR '' ''" "\<not> number_char CHR 0x0A"
  by (simp_all add: number_char_def is_digit_def)

lemma show_nat_number: "list_all number_char (show_nat n)"
  by (auto simp: list_all_iff number_char_def show_nat_digits)

lemma frac_digits_number:
  assumes "0 \<le> r" "r < 1"
  shows "list_all is_digit (frac_digits n r)"
  using assms
proof (induction n arbitrary: r)
  case (Suc n)
  let ?d = "\<lfloor>10 * r\<rfloor>"
  have "?d < 10" using Suc.prems by (simp add: floor_less_iff)
  then have n: "nat ?d \<le> 9" by linarith
  have "is_digit (char_of (48 + nat ?d))" using n by (simp add: is_digit_def Let_def of_char_of)
  moreover have "list_all is_digit (frac_digits n (10 * r - of_int ?d))"
    by (rule Suc.IH) (linarith | simp add: floor_correct)+
  ultimately show ?case by (simp add: Let_def)
qed simp

lemma format_float_number: "format_float v \<noteq> [] \<and> list_all number_char (format_float v)"
proof -
  have "list_all number_char (rev (dropWhile P (rev (frac_digits n r))))" if "0 \<le> r" "r < 1" for n r and P
    using frac_digits_number[OF that, of n] by (auto simp: list_all_iff number_char_def dest: set_dropWhileD)
  moreover have "0 \<le> \<bar>v\<bar> - of_int \<lfloor>\<bar>v\<bar>\<rfloor>" "\<bar>v\<bar> - of_int \<lfloor>\<bar>v\<bar>\<rfloor> < 1" by (simp_all, linarith)
  ultimately show ?thesis
    using show_nat_number
    by (auto simp: format_float_def repr_float_def show_int_def Let_def number_char_def is_digit_def)
qed

section \<open>Reading the text format\<close>

datatype item = Help string string | Type_is string string | Sample string string string | Blank

definition read_line :: "string \<Rightarrow> item" where
  "read_line l =
     (let named = (\<lambda>r. (takeWhile name_char r, drop 1 (dropWhile name_char r))) in
      if l = [] then Blank
      else if starts_with ''# HELP '' l then (case named (drop 7 l) of (n, t) \<Rightarrow> Help n (unescape t))
      else if starts_with ''# TYPE '' l then (case named (drop 7 l) of (n, t) \<Rightarrow> Type_is n t)
      else let r = dropWhile name_char l
           in Sample (takeWhile name_char l) (takeWhile (\<lambda>c. c \<noteq> CHR '' '') r) (drop 1 (dropWhile (\<lambda>c. c \<noteq> CHR '' '') r)))"

text \<open>What a reader should find in a snapshot.\<close>

definition single_items :: "(string \<times> string) list \<Rightarrow> string \<Rightarrow> string \<Rightarrow> string \<times> rat \<Rightarrow> item list" where
  "single_items desc_map kind fallback m =
     (let n = sanitize_metric_name (fst m) in
        [Help n (dget desc_map (fst m) (fallback @ fst m)), Type_is n kind, Sample n [] (format_float (snd m)), Blank])"

definition summary_items :: "(string \<times> string) list \<Rightarrow> string \<times> hist_summary \<Rightarrow> item list" where
  "summary_items desc_map m =
     (let n = sanitize_metric_name (fst m); h = snd m in
        [Help n (dget desc_map (fst m) (''Summary distribution for '' @ fst m)), Type_is n ''summary'',
         Sample n (quantile_label ''0.5'') (format_float (hs_p50 h)), Sample n (quantile_label ''0.9'') (format_float (hs_p90 h)),
         Sample n (quantile_label ''0.95'') (format_float (hs_p95 h)), Sample n (quantile_label ''0.99'') (format_float (hs_p99 h)),
         Sample (n @ ''_sum'') [] (format_float (hs_sum h)), Sample (n @ ''_count'') [] (format_float (hs_count h)), Blank])"

lemma takeWhile_stop:
  "list_all P n \<Longrightarrow> \<not> P c \<Longrightarrow> takeWhile P (n @ c # r) = n"
  "list_all P n \<Longrightarrow> \<not> P c \<Longrightarrow> dropWhile P (n @ c # r) = c # r"
  by (induction n) auto

lemma read_help: "valid_name n \<Longrightarrow> read_line (help_line n t) = Help n t"
  using takeWhile_stop[of name_char n "CHR '' ''"] plain_chars(1)
  by (simp add: read_line_def help_line_def valid_name_def escape_help_eq unescape_escaped)

lemma read_type: "valid_name n \<Longrightarrow> read_line (type_line n kind) = Type_is n kind"
  using takeWhile_stop[of name_char n "CHR '' ''"] plain_chars(1)
  by (simp add: read_line_def type_line_def valid_name_def)

lemma read_sample:
  assumes "valid_name n" "label = [] \<or> label = quantile_label q" "CHR '' '' \<notin> set q"
  shows "read_line (sample_line n label v) = Sample n label (format_float v)"
proof -
  obtain c n' where n: "n = c # n'" "name_char c" using assms(1) by (cases n) (auto simp: valid_name_def)
  have h: "c \<noteq> CHR ''#''" using n(2) plain_chars(3) by auto
  then have "\<not> starts_with ''# HELP '' (sample_line n label v)" "\<not> starts_with ''# TYPE '' (sample_line n label v)" "sample_line n label v \<noteq> []"
    by (auto simp: sample_line_def n(1))
  moreover have "takeWhile name_char (sample_line n label v) = n" "dropWhile name_char (sample_line n label v) = label @ '' '' @ format_float v"
    using assms(1,2) takeWhile_stop[of name_char n "CHR '' ''"] takeWhile_stop[of name_char n "CHR ''{''"] plain_chars
    by (auto simp: sample_line_def valid_name_def quantile_label_def)
  moreover have l: "list_all (\<lambda>c. c \<noteq> CHR '' '') label" using assms(2,3) by (auto simp: quantile_label_def list_all_iff)
  moreover note takeWhile_stop[OF l, of "CHR '' ''" "format_float v"]
  ultimately show ?thesis by (simp add: read_line_def Let_def)
qed

text \<open>The lines of one metric.\<close>

lemma sum_count_valid: "valid_name n \<Longrightarrow> valid_name (n @ ''_sum'')" "valid_name n \<Longrightarrow> valid_name (n @ ''_count'')"
proof -
  have "list_all name_char ''_sum''" "list_all name_char ''_count''" by code_simp+
  then show "valid_name n \<Longrightarrow> valid_name (n @ ''_sum'')" "valid_name n \<Longrightarrow> valid_name (n @ ''_count'')"
    by (auto simp: valid_name_def)
qed

lemma sample_suffix: "sample_line n (s @ label) v = sample_line (n @ s) label v"
  by (simp add: sample_line_def)

lemma no_newlines:
  assumes "valid_name n"
  shows "CHR 0x0A \<notin> set (help_line n t)" "CHR 0x0A \<notin> set kind \<Longrightarrow> CHR 0x0A \<notin> set (type_line n kind)"
    "CHR 0x0A \<notin> set label \<Longrightarrow> CHR 0x0A \<notin> set (sample_line n label v)"
proof -
  have n: "CHR 0x0A \<notin> set n" using assms plain_chars(2) by (auto simp: valid_name_def list_all_iff)
  have f: "CHR 0x0A \<notin> set (format_float v)" using format_float_number[of v] number_char_plain(2) by (auto simp: list_all_iff)
  show "CHR 0x0A \<notin> set (help_line n t)"
    using n escaped_no_newline[of t] by (auto simp: help_line_def escape_help_eq)
  show "CHR 0x0A \<notin> set kind \<Longrightarrow> CHR 0x0A \<notin> set (type_line n kind)" using n by (auto simp: type_line_def)
  show "CHR 0x0A \<notin> set label \<Longrightarrow> CHR 0x0A \<notin> set (sample_line n label v)" using n f by (auto simp: sample_line_def)
qed

text \<open>A text made of complete lines that read as the given items.\<close>

definition reads_as :: "string \<Rightarrow> item list \<Rightarrow> bool" where
  "reads_as t items \<longleftrightarrow>
     (\<exists>ls. t = concat (map line ls) \<and> (\<forall>l\<in>set ls. CHR 0x0A \<notin> set l) \<and> map read_line ls = items)"

lemma reads_as_Nil: "reads_as [] []"
  unfolding reads_as_def by (rule exI[of _ "[]"]) simp

lemma reads_as_append:
  assumes "reads_as t xs" "reads_as u ys"
  shows "reads_as (t @ u) (xs @ ys)"
proof -
  obtain ls ms where "t = concat (map line ls)" "\<forall>l\<in>set ls. CHR 0x0A \<notin> set l" "map read_line ls = xs"
    "u = concat (map line ms)" "\<forall>l\<in>set ms. CHR 0x0A \<notin> set l" "map read_line ms = ys"
    using assms unfolding reads_as_def by blast
  then show ?thesis unfolding reads_as_def by (intro exI[of _ "ls @ ms"]) auto
qed

lemma reads_as_line: "CHR 0x0A \<notin> set l \<Longrightarrow> read_line l = i \<Longrightarrow> reads_as (line l) [i]"
  unfolding reads_as_def by (rule exI[of _ "[l]"]) simp

lemma reads_as_concat: "(\<And>x. x \<in> set xs \<Longrightarrow> reads_as (f x) (g x)) \<Longrightarrow> reads_as (concat (map f xs)) (concat (map g xs))"
  by (induction xs) (simp_all add: reads_as_Nil reads_as_append)

lemma write_single_reads:
  assumes "CHR 0x0A \<notin> set kind"
  shows "reads_as (write_single desc_map kind fallback m) (single_items desc_map kind fallback m)"
proof -
  obtain name v where m: "m = (name, v)" by (rule prod.exhaust)
  let ?n = "sanitize_metric_name name"
  note n = sanitize_valid[of name]
  have "reads_as (line (help_line ?n t)) [Help ?n t]" for t
    by (rule reads_as_line) (simp_all add: n no_newlines read_help)
  moreover have "reads_as (line (type_line ?n kind)) [Type_is ?n kind]"
    by (rule reads_as_line) (simp_all add: n assms no_newlines read_type)
  moreover have "reads_as (line (sample_line ?n [] v)) [Sample ?n [] (format_float v)]"
    by (rule reads_as_line) (simp_all add: n no_newlines read_sample[where q = "[]"])
  moreover have "reads_as (line []) [Blank]" by (rule reads_as_line) (simp_all add: read_line_def)
  ultimately have "reads_as
     (line (help_line ?n (dget desc_map name (fallback @ name))) @ line (type_line ?n kind) @ line (sample_line ?n [] v) @ line [])
     ([Help ?n (dget desc_map name (fallback @ name))] @ [Type_is ?n kind] @ [Sample ?n [] (format_float v)] @ [Blank])"
    by (intro reads_as_append)
  then show ?thesis by (simp add: write_single_def single_items_def m Let_def)
qed

lemma quantile_reads:
  assumes "valid_name n" "CHR '' '' \<notin> set q" "CHR 0x0A \<notin> set q"
  shows "reads_as (line (sample_line n (quantile_label q) v)) [Sample n (quantile_label q) (format_float v)]"
  using assms by (intro reads_as_line read_sample no_newlines) (auto simp: quantile_label_def)

lemma suffix_reads:
  assumes "valid_name (n @ s)"
  shows "reads_as (line (sample_line n s v)) [Sample (n @ s) [] (format_float v)]"
  using read_sample[OF assms, of "[]" "[]" v] no_newlines(3)[OF assms, of "[]" v] sample_suffix[of n s "[]" v]
  by (intro reads_as_line) simp_all

lemma write_summary_reads: "reads_as (write_summary desc_map m) (summary_items desc_map m)"
proof -
  obtain name h where m: "m = (name, h)" by (rule prod.exhaust)
  let ?n = "sanitize_metric_name name"
  note n = sanitize_valid[of name]
  let ?qs = "[(''0.5'', hs_p50 h), (''0.9'', hs_p90 h), (''0.95'', hs_p95 h), (''0.99'', hs_p99 h)]"
  have "reads_as (concat (map (\<lambda>(q, v). line (sample_line ?n (quantile_label q) v)) ?qs))
      (concat (map (\<lambda>(q, v). [Sample ?n (quantile_label q) (format_float v)]) ?qs))"
    by (rule reads_as_concat) (auto intro!: quantile_reads n)
  moreover have "reads_as (line (help_line ?n t)) [Help ?n t]" for t
    by (rule reads_as_line) (simp_all add: n no_newlines read_help)
  moreover have "reads_as (line (type_line ?n ''summary'')) [Type_is ?n ''summary'']"
    by (rule reads_as_line) (simp_all add: n no_newlines read_type)
  moreover have "reads_as (line []) [Blank]" by (rule reads_as_line) (simp_all add: read_line_def)
  moreover note suffix_reads[OF sum_count_valid(1)[OF n], of "hs_sum h"] suffix_reads[OF sum_count_valid(2)[OF n], of "hs_count h"]
  ultimately have "reads_as
     (line (help_line ?n (dget desc_map name (''Summary distribution for '' @ name))) @ line (type_line ?n ''summary'')
        @ concat (map (\<lambda>(q, v). line (sample_line ?n (quantile_label q) v)) ?qs)
        @ line (sample_line ?n ''_sum'' (hs_sum h)) @ line (sample_line ?n ''_count'' (hs_count h)) @ line [])
     ([Help ?n (dget desc_map name (''Summary distribution for '' @ name))] @ [Type_is ?n ''summary'']
        @ concat (map (\<lambda>(q, v). [Sample ?n (quantile_label q) (format_float v)]) ?qs)
        @ [Sample (?n @ ''_sum'') [] (format_float (hs_sum h))] @ [Sample (?n @ ''_count'') [] (format_float (hs_count h))] @ [Blank])"
    by (intro reads_as_append)
  then show ?thesis by (simp add: write_summary_def summary_items_def m Let_def)
qed

text \<open>C33: what the exporter writes reads back: its lines are exactly the help texts, types, samples and blank
  lines of the metrics, in order of their names, whatever characters names and descriptions contain, so no
  description can forge a line; descriptions come back unchanged, and every name is a valid metric name.\<close>

theorem exposition_reads_back:
  "let desc_map = dict_or descriptions own in
     map read_line (split_on (CHR 0x0A) (serialize_snapshot own descriptions (counters, gauges, histograms))) =
       concat (map (single_items desc_map ''counter'' ''Counter metric '') (sort_key fst counters))
       @ concat (map (single_items desc_map ''gauge'' ''Gauge metric '') (sort_key fst gauges))
       @ concat (map (summary_items desc_map) (sort_key fst histograms)) @ [Blank]
     \<and> (\<forall>name. valid_name (sanitize_metric_name name))"
proof -
  let ?d = "dict_or descriptions own"
  have "reads_as (serialize_snapshot own descriptions (counters, gauges, histograms))
     (concat (map (single_items ?d ''counter'' ''Counter metric '') (sort_key fst counters))
       @ concat (map (single_items ?d ''gauge'' ''Gauge metric '') (sort_key fst gauges))
       @ concat (map (summary_items ?d) (sort_key fst histograms)))"
    unfolding serialize_snapshot_def Let_def prod.case
    by (intro reads_as_append reads_as_concat write_single_reads write_summary_reads) simp_all
  then obtain ls where ls: "serialize_snapshot own descriptions (counters, gauges, histograms) = concat (map line ls)"
    "\<forall>l\<in>set ls. CHR 0x0A \<notin> set l"
    "map read_line ls = concat (map (single_items ?d ''counter'' ''Counter metric '') (sort_key fst counters))
       @ concat (map (single_items ?d ''gauge'' ''Gauge metric '') (sort_key fst gauges))
       @ concat (map (summary_items ?d) (sort_key fst histograms))"
    unfolding reads_as_def by blast
  have "split_on (CHR 0x0A) (concat (map line ls)) = ls @ [[]]"
    using split_on_lines[OF ls(2)] by (simp add: line_def[abs_def])
  moreover have "read_line [] = Blank" by (simp add: read_line_def)
  ultimately show ?thesis using ls(3) sanitize_valid by (simp add: ls(1) Let_def)
qed

text \<open>Names are not kept apart: two metrics can come out under one name.\<close>

lemma sanitize_collides: "sanitize_metric_name ''queue.size'' = sanitize_metric_name ''queue-size''"
  by code_simp

end
