(* ===== verification/Evaluation.thy ===== *)
theory Evaluation
  imports Workflow_Theorems
begin

text \<open>
  Offline evaluation (\<open>evaluation/engine.py\<close>, \<open>evaluation/scorers\<close>): four scorers of a run's final state and
  the engine that combines them. Scores are exact rationals; a score outside its bounds is the
  validation error of the result model. The plan scorer runs the loop of \<open>Plan_Graph\<close>.
\<close>

section \<open>Results and scenarios (evaluation/models.py)\<close>

record ScorerResult =
  sres_scorer_name :: string
  sres_score :: rat
  sres_passed :: bool
  sres_details :: dict
  sres_error :: "string option"

definition in_unit :: "rat \<Rightarrow> bool" where
  "in_unit x \<longleftrightarrow> 0 \<le> x \<and> x \<le> 1"

definition new_ScorerResult :: "string \<Rightarrow> rat \<Rightarrow> bool \<Rightarrow> dict \<Rightarrow> exc + ScorerResult" where
  "new_ScorerResult name score passed details =
     (if in_unit score
      then Inr \<lparr>sres_scorer_name = name, sres_score = score, sres_passed = passed, sres_details = details, sres_error = None\<rparr>
      else Inl (validation_failure ''score''))"

record BenchmarkScenario =
  bs_benchmark_id :: string
  bs_name :: string
  bs_description :: string
  bs_request :: string
  bs_expected_status :: string
  bs_expected_tasks_count :: "int option"
  bs_expected_hitl_decision :: "string option"
  bs_expected_ground_truth_doc_ids :: "string list option"
  bs_min_required_score :: rat
  bs_custom_context :: "dict option"

record EvaluationResult =
  ev_benchmark_id :: "string option"
  ev_run :: string
  ev_overall_score :: rat
  ev_passed :: bool
  ev_scorer_results :: "ScorerResult list"
  ev_duration_ms :: rat
  ev_metadata :: dict

type_synonym scorer = "OrchestrationState \<Rightarrow> BenchmarkScenario option \<Rightarrow> exc + ScorerResult"

section \<open>The plan scorer (evaluation/scorers/planning.py)\<close>

definition plan_rejected :: "rat \<Rightarrow> string \<Rightarrow> exc + ScorerResult" where
  "plan_rejected score reason = new_ScorerResult ''plan_feasibility'' score False [(''reason'', PStr reason)]"

text \<open>The keys of \<open>{t.id: 0 for t in tasks}\<close>, and the two loops over the dependencies.\<close>

definition distinct_keys :: "string list \<Rightarrow> string list" where
  "distinct_keys ids = rev (remdups (rev ids))"

definition known_edges :: "Task list \<Rightarrow> edges" where
  "known_edges ts =
     concat (map (\<lambda>t. map (\<lambda>dep. (dep, t_id t)) (filter (\<lambda>dep. dep \<in> set (map t_id ts)) (t_dependencies t))) ts)"

definition invalid_deps :: "Task list \<Rightarrow> string list" where
  "invalid_deps ts =
     concat (map (\<lambda>t. map (\<lambda>dep. ''Task '' @ [CHR 0x27] @ t_id t @ [CHR 0x27] @ '' references unknown dependency ''
                                   @ [CHR 0x27] @ dep @ [CHR 0x27])
                        (filter (\<lambda>dep. dep \<notin> set (map t_id ts)) (t_dependencies t))) ts)"

definition count_tasks :: "(Task \<Rightarrow> bool) \<Rightarrow> Task list \<Rightarrow> nat" where
  "count_tasks P ts = length (filter P ts)"

definition plan_feasibility :: scorer where
  "plan_feasibility s scenario =
     (case s_plan s of
        None \<Rightarrow>
          if s_status s = ExecutionStatus.FAILED then plan_rejected (1/2) ''No execution plan generated; run failed.''
          else plan_rejected 0 ''Execution plan is missing.''
      | Some p \<Rightarrow>
          let ts = p_tasks p in
          if ts = [] then plan_rejected 0 ''Plan contains zero tasks.''
          else
            let is_acyclic = (kahn_visited (distinct_keys (map t_id ts)) (known_edges ts) = length ts);
                invalid = invalid_deps ts;
                completed = count_tasks (\<lambda>t. t_status t = TaskStatus.COMPLETED) ts;
                ratio = of_nat completed / of_nat (length ts) :: rat;
                progress = (if s_status s = ExecutionStatus.COMPLETED then ratio
                   else if list_ex (\<lambda>t. t_status t \<in> {TaskStatus.COMPLETED, TaskStatus.IN_PROGRESS, TaskStatus.PENDING}) ts
                        then 1 else 1/2);
                overall = ((if is_acyclic then 1 else 0) + (if invalid = [] then 1 else 0) + progress) / 3
            in new_ScorerResult ''plan_feasibility'' (py_round 4 overall) (is_acyclic \<and> invalid = [] \<and> overall \<ge> 3/4)
                 [(''task_count'', PInt (int (length ts))), (''is_acyclic'', PBool is_acyclic),
                  (''invalid_dependencies'', PList (map PStr invalid)), (''completed_tasks'', PInt (int completed)),
                  (''completion_ratio'', PFloat (py_round 4 ratio))])"

section \<open>The retrieval scorer (evaluation/scorers/retrieval.py)\<close>

text \<open>\<open>len(v)\<close> with the items a loop over \<open>v\<close> visits; \<open>None\<close> is the \<open>TypeError\<close>.\<close>

fun py_items :: "pyval \<Rightarrow> pyval list option" where
  "py_items (PList vs) = Some vs"
| "py_items (PStr s) = Some (map (\<lambda>c. PStr [c]) s)"
| "py_items (PDict d) = Some (map (\<lambda>(k, _). PStr k) d)"
| "py_items v = None"

definition val_or :: "pyval \<Rightarrow> pyval \<Rightarrow> pyval" where
  "val_or a b = (if truthy a then a else b)"

definition retrieved_docs :: "Task \<Rightarrow> pyval list option" where
  "retrieved_docs t =
     (let output = dict_or_empty (t_output_data t)
      in py_items (val_or (val_or (dget output ''matches'' PNone) (dget output ''documents'' PNone)) (PList [])))"

definition doc_ids :: "pyval list \<Rightarrow> pyval list" where
  "doc_ids docs =
     List.map_filter (\<lambda>d. case d of PDict m \<Rightarrow> Some (val_or (dget m ''id'' PNone) (dget m ''document_id'' PNone)) | _ \<Rightarrow> None) docs"

text \<open>\<open>v in ground_truth_ids\<close>: a list or dictionary cannot be hashed.\<close>

fun in_ground :: "string list \<Rightarrow> pyval \<Rightarrow> exc + bool" where
  "in_ground g (PStr s) = Inr (s \<in> set g)"
| "in_ground g (PList vs) = Inl (mk_Foreign ''TypeError'' ''unhashable type: list'')"
| "in_ground g (PDict d) = Inl (mk_Foreign ''TypeError'' ''unhashable type: dict'')"
| "in_ground g v = Inr False"

fun any_in_ground :: "string list \<Rightarrow> pyval list \<Rightarrow> exc + bool" where
  "any_in_ground g [] = Inr False"
| "any_in_ground g (v # vs) =
     (case in_ground g v of
        Inl e \<Rightarrow> Inl e
      | Inr True \<Rightarrow> Inr True
      | Inr False \<Rightarrow> any_in_ground g vs)"

text \<open>One turn of the loop: documents, hit at one, hit at three.\<close>

definition task_hits :: "string list \<Rightarrow> Task \<Rightarrow> exc + nat \<times> bool \<times> bool" where
  "task_hits g t =
     (case retrieved_docs t of
        None \<Rightarrow> Inl (mk_Foreign ''TypeError'' ''object has no len()'')
      | Some docs \<Rightarrow>
          if g = [] then Inr (length docs, False, False)
          else
            let ids = doc_ids docs in
            (case any_in_ground g (take 1 ids) of
               Inl e \<Rightarrow> Inl e
             | Inr hit1 \<Rightarrow>
                 (case any_in_ground g (take 3 ids) of
                    Inl e \<Rightarrow> Inl e
                  | Inr hit3 \<Rightarrow> Inr (length docs, hit1, hit3))))"

fun all_hits :: "string list \<Rightarrow> Task list \<Rightarrow> exc + (nat \<times> bool \<times> bool) list" where
  "all_hits g [] = Inr []"
| "all_hits g (t # ts) =
     (case task_hits g t of
        Inl e \<Rightarrow> Inl e
      | Inr h \<Rightarrow> (case all_hits g ts of Inl e \<Rightarrow> Inl e | Inr hs \<Rightarrow> Inr (h # hs)))"

definition retrieval_skipped :: "string \<Rightarrow> exc + ScorerResult" where
  "retrieval_skipped reason = new_ScorerResult ''retrieval_relevance'' 1 True [(''reason'', PStr reason)]"

definition ground_truth :: "BenchmarkScenario option \<Rightarrow> string list" where
  "ground_truth scenario =
     (case scenario of None \<Rightarrow> [] | Some b \<Rightarrow> (case bs_expected_ground_truth_doc_ids b of None \<Rightarrow> [] | Some g \<Rightarrow> g))"

definition retrieval_relevance :: scorer where
  "retrieval_relevance s scenario =
     (case s_plan s of
        None \<Rightarrow> retrieval_skipped ''No plan present; skipping retrieval score.''
      | Some p \<Rightarrow>
          let ts = filter (\<lambda>t. t_task_type t = TaskType.RETRIEVAL) (p_tasks p); g = ground_truth scenario;
              n = length ts in
          if ts = [] then retrieval_skipped ''No retrieval tasks present in execution plan.''
          else (case all_hits g ts of
                  Inl e \<Rightarrow> Inl e
                | Inr hs \<Rightarrow>
                    let total = PInt (int (sum_list (map fst hs))) in
                    if g \<noteq> [] then
                      let rate1 = of_nat (length (filter (\<lambda>(_, h1, _). h1) hs)) / of_nat n :: rat;
                          rate3 = of_nat (length (filter (\<lambda>(_, _, h3). h3) hs)) / of_nat n;
                          score = rate1 * (4/10) + rate3 * (6/10)
                      in new_ScorerResult ''retrieval_relevance'' (py_round 4 score) (score \<ge> 6/10)
                           [(''retrieval_tasks'', PInt (int n)), (''hit_at_1_rate'', PFloat (py_round 4 rate1)),
                            (''hit_at_3_rate'', PFloat (py_round 4 rate3)), (''total_retrieved'', total)]
                    else
                      let completed = count_tasks (\<lambda>t. task_status_value (t_status t) = ''completed'') ts;
                          score = of_nat completed / of_nat n
                      in new_ScorerResult ''retrieval_relevance'' (py_round 4 score) (score \<ge> 8/10)
                           [(''retrieval_tasks'', PInt (int n)), (''completed'', PInt (int completed)), (''total_retrieved'', total)]))"

section \<open>The validator scorer (evaluation/scorers/validator.py)\<close>

definition validator_fidelity :: scorer where
  "validator_fidelity s scenario =
     (let ts = (case s_plan s of None \<Rightarrow> [] | Some p \<Rightarrow> p_tasks p) in
      if ts = [] then new_ScorerResult ''validator_fidelity'' 1 True [(''reason'', PStr ''No tasks to validate.'')]
      else
        let retry_bounded = list_all (\<lambda>t. \<not> t_max_retries t < t_retry_count t) ts;
            failed_within_budget = list_all (\<lambda>t. \<not> (task_status_value (t_status t) = ''failed''
               \<and> t_retry_count t < t_max_retries t \<and> \<not> s_requires_human s)) ts;
            score = max 0 (1 - (if retry_bounded then 0 else 5/10) - (if failed_within_budget then 0 else 2/10)) :: rat
        in new_ScorerResult ''validator_fidelity'' (py_round 4 score) (score \<ge> 8/10)
             [(''total_tasks'', PInt (int (length ts))), (''retry_bounded'', PBool retry_bounded),
              (''failed_within_budget'', PBool failed_within_budget),
              (''total_retries_across_tasks'', PInt (int (sum_list (map t_retry_count ts))))])"

section \<open>The review scorer (evaluation/scorers/hitl.py)\<close>

definition verdict :: "bool \<Rightarrow> dict \<Rightarrow> exc + ScorerResult" where
  "verdict passed details = new_ScorerResult ''hitl_compliance'' (if passed then 1 else 0) passed details"

definition has_request :: "HumanRequestStatus \<Rightarrow> OrchestrationState \<Rightarrow> bool" where
  "has_request st s = list_ex (\<lambda>r. h_status r = st) (s_human_requests s)"

definition hitl_compliance :: scorer where
  "hitl_compliance s scenario =
     (let expected = (case scenario of None \<Rightarrow> None | Some b \<Rightarrow> bs_expected_hitl_decision b);
          final = PStr (execution_status_value (s_status s));
          resumed_or_done = (s_status s \<in> {ExecutionStatus.COMPLETED, ExecutionStatus.RUNNING}) in
      if \<not> opt_truthy expected \<and> s_human_requests s = [] then
        verdict True [(''reason'', PStr ''No HITL expected or occurred.'')]
      else if expected = Some ''pause'' then
        verdict (s_status s = ExecutionStatus.PAUSED_FOR_HUMAN \<and> s_requires_human s)
          [(''expected'', PStr ''pause''), (''actual_status'', final)]
      else if expected = Some ''approve'' then
        (let has = has_request HumanRequestStatus.APPROVED s
         in verdict (has \<and> resumed_or_done) [(''has_approval'', PBool has), (''final_status'', final)])
      else if expected = Some ''reject'' then
        (let has = has_request HumanRequestStatus.REJECTED s
         in verdict (has \<and> s_status s = ExecutionStatus.FAILED) [(''has_rejection'', PBool has), (''final_status'', final)])
      else if expected = Some ''modify'' \<or> expected = Some ''modified'' then
        (let has = has_request HumanRequestStatus.MODIFIED s
         in verdict (has \<and> resumed_or_done) [(''has_modified'', PBool has), (''final_status'', final)])
      else
        let resolved = length (filter (\<lambda>r. h_status r \<noteq> HumanRequestStatus.PENDING) (s_human_requests s));
            n = length (s_human_requests s);
            score = (if resolved = n \<or> s_requires_human s then 1 else 5/10) :: rat
        in new_ScorerResult ''hitl_compliance'' score (score \<ge> 8/10)
             [(''escalation_requests'', PInt (int n)), (''resolved_count'', PInt (int resolved))])"

section \<open>The engine (evaluation/engine.py)\<close>

text \<open>A scorer under its name; what it raises becomes a failed result.\<close>

definition run_scorer :: "string \<times> scorer \<Rightarrow> OrchestrationState \<Rightarrow> BenchmarkScenario option \<Rightarrow> ScorerResult" where
  "run_scorer sc s scenario =
     (case snd sc s scenario of
        Inr r \<Rightarrow> r
      | Inl e \<Rightarrow>
          \<lparr>sres_scorer_name = fst sc, sres_score = 0, sres_passed = False,
           sres_details = [(''exception'', PStr (e_message e))], sres_error = Some (e_message e)\<rparr>)"

definition default_scorers :: "(string \<times> scorer) list" where
  "default_scorers =
     [(''plan_feasibility'', plan_feasibility), (''retrieval_relevance'', retrieval_relevance),
      (''validator_fidelity'', validator_fidelity), (''hitl_compliance'', hitl_compliance)]"

definition new_engine :: "(string \<times> scorer) list option \<Rightarrow> (string \<times> scorer) list" where
  "new_engine scorers = (case scorers of Some (x # xs) \<Rightarrow> x # xs | _ \<Rightarrow> default_scorers)"

definition evaluate ::
    "(string \<times> scorer) list \<Rightarrow> tick \<Rightarrow> OrchestrationState \<Rightarrow> BenchmarkScenario option \<Rightarrow> exc + EvaluationResult" where
  "evaluate scorers k s scenario =
     (let results = map (\<lambda>sc. run_scorer sc s scenario) scorers;
          overall = (if results = [] then 1 else sum_list (map sres_score results) / of_nat (length results));
          all_passed = list_all sres_passed results;
          min_score = (case scenario of None \<Rightarrow> 3/4 | Some b \<Rightarrow> bs_min_required_score b)
      in if \<not> in_unit (py_round 4 overall) then Inl (validation_failure ''overall_score'')
         else Inr
           \<lparr>ev_benchmark_id = map_option bs_benchmark_id scenario, ev_run = s_run_id s,
            ev_overall_score = py_round 4 overall, ev_passed = (all_passed \<and> overall \<ge> min_score),
            ev_scorer_results = results, ev_duration_ms = py_round 2 (k_elapsed k * 1000),
            ev_metadata = [(''scenario_name'', opt_str (map_option bs_name scenario)),
                           (''execution_status'', PStr (execution_status_value (s_status s))),
                           (''current_step'', PInt (int (s_current_step s)))]\<rparr>)"

section \<open>The plan scorer accepts exactly the valid plans\<close>

lemma distinct_keys: "distinct (distinct_keys ids)" "set (distinct_keys ids) = set ids"
  "length (distinct_keys ids) \<le> length ids" "length (distinct_keys ids) = length ids \<longleftrightarrow> distinct ids"
  unfolding distinct_keys_def
  using length_remdups_leq[of "rev ids"] length_remdups_eq[of "rev ids"] by simp_all

lemma distinct_keys_id: "distinct ids \<Longrightarrow> distinct_keys ids = ids"
  by (simp add: distinct_keys_def distinct_remdups_id)

lemma invalid_deps_Nil: "invalid_deps ts = [] \<longleftrightarrow> (\<forall>t\<in>set ts. set (t_dependencies t) \<subseteq> set (map t_id ts))"
  by (auto simp: invalid_deps_def filter_empty_conv)

lemma set_known_edges:
  "set (known_edges ts) = {(dep, t_id t) | dep t. t \<in> set ts \<and> dep \<in> set (t_dependencies t) \<and> dep \<in> set (map t_id ts)}"
  by (auto simp: known_edges_def)

lemma plan_checks_exact:
  "kahn_visited (distinct_keys (map t_id ts)) (known_edges ts) = length ts \<and> invalid_deps ts = [] \<longleftrightarrow> plan_dag ts"
proof (cases "distinct (map t_id ts)")
  case True
  have keys: "distinct_keys (map t_id ts) = map t_id ts" by (rule distinct_keys_id[OF True])
  have edges: "set (known_edges ts) = task_edges ts" if "invalid_deps ts = []"
    using that by (fastforce simp: set_known_edges invalid_deps_Nil task_edges_def)
  have "snd ` set (known_edges ts) \<subseteq> set (map t_id ts)" "fst ` set (known_edges ts) \<subseteq> set (map t_id ts)"
    by (auto simp: set_known_edges)
  from kahn_visited_acyclic[OF True this] show ?thesis
    using True edges unfolding keys plan_dag_def by (auto simp: invalid_deps_Nil)
next
  case False
  have "snd ` set (known_edges ts) \<subseteq> set (distinct_keys (map t_id ts))" by (auto simp: set_known_edges distinct_keys(2))
  from kahn_visited_le[OF distinct_keys(1) this]
  have "kahn_visited (distinct_keys (map t_id ts)) (known_edges ts) \<noteq> length ts"
    using False distinct_keys(3,4)[of "map t_id ts"] by fastforce
  then show ?thesis using False by (simp add: plan_dag_def)
qed

lemma py_round_int: "py_round n (of_int i) = of_int i"
proof -
  have "(of_int i :: rat) * 10 ^ n = of_int (i * 10 ^ n)" by simp
  then show ?thesis by (simp add: py_round_def Let_def)
qed

lemma py_round_unit: "in_unit x \<Longrightarrow> in_unit (py_round n x)"
  using py_round_mono[of 0 x n] py_round_mono[of x 1 n] py_round_int[of n 0] py_round_int[of n 1]
  by (simp add: in_unit_def)

lemma new_ScorerResult_unit:
  "in_unit x \<Longrightarrow> new_ScorerResult name x passed details =
     Inr \<lparr>sres_scorer_name = name, sres_score = x, sres_passed = passed, sres_details = details, sres_error = None\<rparr>"
  by (simp add: new_ScorerResult_def)

lemma ratio_unit: "a \<le> b \<Longrightarrow> b \<noteq> 0 \<Longrightarrow> in_unit (of_nat a / of_nat b)"
  by (simp add: in_unit_def)

lemma count_tasks_le: "count_tasks P ts \<le> length ts"
  by (simp add: count_tasks_def)

text \<open>The plan scorer never raises on a plan with tasks, and passes it exactly when it is a valid plan
  (distinct task identifiers, known dependencies, no cycle) of which, once the run is completed, at least a
  quarter of the tasks is.\<close>

theorem plan_score_exact:
  assumes "s_plan s = Some p" "p_tasks p \<noteq> []"
  shows "\<exists>r. plan_feasibility s scenario = Inr r
    \<and> (sres_passed r \<longleftrightarrow> plan_dag (p_tasks p)
         \<and> (s_status s = ExecutionStatus.COMPLETED \<longrightarrow>
              length (p_tasks p) \<le> 4 * length (filter (\<lambda>t. t_status t = TaskStatus.COMPLETED) (p_tasks p))))"
proof -
  let ?ts = "p_tasks p"
  define a where "a \<longleftrightarrow> kahn_visited (distinct_keys (map t_id ?ts)) (known_edges ?ts) = length ?ts"
  define n where "n = count_tasks (\<lambda>t. t_status t = TaskStatus.COMPLETED) ?ts"
  define pr :: rat where "pr = (if s_status s = ExecutionStatus.COMPLETED then of_nat n / of_nat (length ?ts)
     else if list_ex (\<lambda>t. t_status t \<in> {TaskStatus.COMPLETED, TaskStatus.IN_PROGRESS, TaskStatus.PENDING}) ?ts then 1 else 1/2)"
  define ov where "ov = ((if a then 1 else 0) + (if invalid_deps ?ts = [] then 1 else 0) + pr) / 3"
  have n: "n \<le> length ?ts" "length ?ts \<noteq> 0" using assms(2) by (simp_all add: n_def count_tasks_le)
  have pr: "in_unit pr" using ratio_unit[OF n] by (simp add: pr_def in_unit_def)
  then have ov: "in_unit ov" by (auto simp: ov_def in_unit_def)
  have "\<exists>d. plan_feasibility s scenario = Inr \<lparr>sres_scorer_name = ''plan_feasibility'', sres_score = py_round 4 ov,
      sres_passed = (a \<and> invalid_deps ?ts = [] \<and> ov \<ge> 3/4), sres_details = d, sres_error = None\<rparr>"
    unfolding plan_feasibility_def Let_def assms(1) option.case if_not_P[OF assms(2)]
      a_def[symmetric] n_def[symmetric] pr_def[symmetric] ov_def[symmetric]
    by (rule exI, rule new_ScorerResult_unit[OF py_round_unit[OF ov]])
  moreover have "(a \<and> invalid_deps ?ts = [] \<and> ov \<ge> 3/4) \<longleftrightarrow> plan_dag ?ts \<and> pr \<ge> 1/4"
    using plan_checks_exact[of ?ts] by (auto simp: a_def ov_def)
  moreover have "pr \<ge> 1/4 \<longleftrightarrow> (s_status s = ExecutionStatus.COMPLETED \<longrightarrow> length ?ts \<le> 4 * n)"
  proof -
    have "(1/4 \<le> (of_nat n / of_nat (length ?ts) :: rat)) \<longleftrightarrow> of_nat (length ?ts) \<le> (of_nat (4 * n) :: rat)"
      using n(2) by (simp add: field_simps)
    then show ?thesis by (simp add: pr_def del: of_nat_mult)
  qed
  ultimately show ?thesis by (auto simp: n_def count_tasks_def)
qed


section \<open>The engine returns bounded scores\<close>

definition scored :: "ScorerResult \<Rightarrow> bool" where
  "scored r \<longleftrightarrow> in_unit (sres_score r)"

definition ok_result :: "exc + ScorerResult \<Rightarrow> bool" where
  "ok_result x \<longleftrightarrow> (\<forall>r. x = Inr r \<longrightarrow> scored r)"

lemma ok_results:
  "ok_result (Inl e)"
  "ok_result (new_ScorerResult name x passed details)"
  "(b \<Longrightarrow> ok_result x1) \<Longrightarrow> (\<not> b \<Longrightarrow> ok_result y) \<Longrightarrow> ok_result (if b then x1 else y)"
  "ok_result z \<Longrightarrow> (\<And>p. ok_result (f p)) \<Longrightarrow> ok_result (case opt of None \<Rightarrow> z | Some p \<Rightarrow> f p)"
  "(\<And>e. ok_result (g e)) \<Longrightarrow> (\<And>h. ok_result (f' h)) \<Longrightarrow> ok_result (case res of Inl e \<Rightarrow> g e | Inr h \<Rightarrow> f' h)"
  "(\<And>v. ok_result (f'' v)) \<Longrightarrow> ok_result (let v = w in f'' v)"
  by (auto simp: ok_result_def new_ScorerResult_def scored_def split: option.splits sum.splits if_splits)

lemma default_scorers_scored: "(name, f) \<in> set default_scorers \<Longrightarrow> f s scenario = Inr r \<Longrightarrow> scored r"
proof -
  have "ok_result (plan_feasibility s scenario)"
    unfolding plan_feasibility_def plan_rejected_def by (intro ok_results)
  moreover have "ok_result (retrieval_relevance s scenario)"
    unfolding retrieval_relevance_def retrieval_skipped_def by (intro ok_results)
  moreover have "ok_result (validator_fidelity s scenario)" unfolding validator_fidelity_def by (intro ok_results)
  moreover have "ok_result (hitl_compliance s scenario)"
    unfolding hitl_compliance_def verdict_def by (intro ok_results)
  ultimately show "(name, f) \<in> set default_scorers \<Longrightarrow> f s scenario = Inr r \<Longrightarrow> scored r"
    by (auto simp: default_scorers_def ok_result_def)
qed

lemma run_scorer_scored:
  assumes "\<And>r. snd sc s scenario = Inr r \<Longrightarrow> scored r"
  shows "scored (run_scorer sc s scenario)"
  using assms by (auto simp: run_scorer_def scored_def in_unit_def split: sum.splits)

lemma average_unit:
  fixes xs :: "rat list"
  assumes "xs \<noteq> []" "\<forall>x\<in>set xs. in_unit x"
  shows "in_unit (sum_list xs / of_nat (length xs))"
proof -
  have "0 \<le> sum_list xs \<and> sum_list xs \<le> of_nat (length xs)"
    using assms(2) by (induction xs) (auto simp: in_unit_def)
  then show ?thesis using assms(1) by (simp add: in_unit_def)
qed

text \<open>The evaluation of any state against any scenario by scorers whose results are within bounds, the
  default ones among them, returns: one result per scorer, in their order and all within bounds, and an overall
  score within bounds that is the rounded mean; the evaluation passes only if every scorer passed and the mean
  reaches the required score. What a scorer raises fails its own result only.\<close>

theorem evaluation_bounded:
  assumes "scorers = new_engine custom"
    and "\<And>name f r. (name, f) \<in> set (case custom of None \<Rightarrow> [] | Some fs \<Rightarrow> fs) \<Longrightarrow> f s scenario = Inr r \<Longrightarrow> scored r"
  shows "\<exists>r. evaluate scorers k s scenario = Inr r
    \<and> ev_scorer_results r = map (\<lambda>sc. run_scorer sc s scenario) scorers \<and> list_all scored (ev_scorer_results r)
    \<and> in_unit (ev_overall_score r)
    \<and> ev_overall_score r = py_round 4 (sum_list (map sres_score (ev_scorer_results r)) / of_nat (length (ev_scorer_results r)))
    \<and> (ev_passed r \<longrightarrow> list_all sres_passed (ev_scorer_results r)
         \<and> (case scenario of None \<Rightarrow> 3/4 | Some b \<Rightarrow> bs_min_required_score b)
             \<le> sum_list (map sres_score (ev_scorer_results r)) / of_nat (length (ev_scorer_results r)))"
proof -
  let ?rs = "map (\<lambda>sc. run_scorer sc s scenario) scorers"
  have ne: "scorers \<noteq> []"
    using assms(1) by (auto simp: new_engine_def default_scorers_def split: option.splits list.splits)
  have "scored (run_scorer sc s scenario)" if "sc \<in> set scorers" for sc
  proof (rule run_scorer_scored)
    fix r assume r: "snd sc s scenario = Inr r"
    have "(fst sc, snd sc) \<in> set default_scorers \<or> (fst sc, snd sc) \<in> set (case custom of None \<Rightarrow> [] | Some fs \<Rightarrow> fs)"
      using that assms(1) by (auto simp: new_engine_def split: option.splits list.splits)
    then show "scored r" using default_scorers_scored assms(2) r by blast
  qed
  then have all: "list_all scored ?rs" by (auto simp: list_all_iff)
  then have "in_unit (sum_list (map sres_score ?rs) / of_nat (length (map sres_score ?rs)))"
    using ne by (intro average_unit) (auto simp: list_all_iff scored_def)
  then have u: "in_unit (sum_list (map sres_score ?rs) / of_nat (length ?rs))" by simp
  show ?thesis
    using ne all py_round_unit[OF u, of 4] u unfolding evaluate_def Let_def by simp
qed

section \<open>Evaluating what the workflow produces\<close>

lemma validator_fidelity_bounded_retries:
  assumes "\<forall>t\<in>set (state_tasks s). t_retry_count t \<le> t_max_retries t"
  shows "\<exists>r. validator_fidelity s scenario = Inr r \<and> sres_passed r"
proof -
  have u: "in_unit (py_round 4 x)" if "in_unit x" for x using py_round_unit that .
  have "list_all (\<lambda>t. \<not> t_max_retries t < t_retry_count t) (case s_plan s of None \<Rightarrow> [] | Some p \<Rightarrow> p_tasks p)"
    using assms by (auto simp: list_all_iff state_tasks_def not_less split: option.splits)
  then show ?thesis
    using u[of 1] u[of "8/10"]
    by (auto simp: validator_fidelity_def Let_def new_ScorerResult_unit in_unit_def max_def)
qed

text \<open>C34: the final state of a fresh run passes the validator scorer, whatever agents and tools did, provided every
  task has a retry budget of at least one (as the tasks of the planner have).\<close>

theorem fresh_run_passes_fidelity:
  assumes "revalidates_dumps validate" "s_plan s = None"
    and "run_graph (default_nodes planner_llm critic_llm to_int retrieve reg tracer sink validate) ks limit
           (start_state s None) w = (Finished gs', es, w')"
    and "\<forall>t\<in>set (state_tasks (g_state gs')). 1 \<le> t_max_retries t"
  shows "\<exists>r. validator_fidelity (g_state gs') scenario = Inr r \<and> sres_passed r"
proof (rule validator_fidelity_bounded_retries)
  show "\<forall>t\<in>set (state_tasks (g_state gs')). t_retry_count t \<le> t_max_retries t"
    using fresh_run_tasks_inv[OF assms(1-3)] assms(4) by (fastforce simp: tasks_inv_def task_ok_def retry_limit_def)
qed

section \<open>What the retrieval agent delivers is scored by rank\<close>

text \<open>The output the retrieval agent leaves with a task: its matches, best first.\<close>

definition delivered :: "Task \<Rightarrow> ScoredDocument list \<Rightarrow> bool" where
  "delivered t ms \<longleftrightarrow>
     (\<exists>q n. t_output_data t = Some [(''query'', q), (''matches'', PList (map (PDict \<circ> serialize_match) ms)), (''total_found'', n)])
     \<and> (\<forall>m\<in>set ms. doc_id (sd_document m) \<noteq> [])"

lemma agent_delivers:
  assumes "retrieval_execute to_int retrieve k s (Some t) w = (Inr r, s', w')" "ag_status r = AgentStatus.SUCCESS"
  shows "\<exists>q ms n. ag_output r = Some [(''query'', q), (''matches'', PList (map (PDict \<circ> serialize_match) ms)), (''total_found'', n)]"
  using assms
  by (auto simp: retrieval_execute_def agent_success_def agent_failure_def Let_def split: sum.splits prod.splits bool.splits)

definition id_hit :: "string list \<Rightarrow> ScoredDocument list \<Rightarrow> bool" where
  "id_hit g ms \<longleftrightarrow> list_ex (\<lambda>m. doc_id (sd_document m) \<in> set g) ms"

lemma any_in_ground_texts: "any_in_ground g (map PStr xs) = Inr (list_ex (\<lambda>x. x \<in> set g) xs)"
proof (induction xs)
  case (Cons x xs)
  then show ?case by (cases "x \<in> set g") simp_all
qed simp

lemma delivered_hits:
  assumes "delivered t ms" "g \<noteq> []"
  shows "task_hits g t = Inr (length ms, id_hit g (take 1 ms), id_hit g (take 3 ms))"
proof -
  let ?docs = "map (PDict \<circ> serialize_match) ms"
  have docs: "retrieved_docs t = Some ?docs"
    using assms(1) by (cases ms) (auto simp: delivered_def retrieved_docs_def dget_def val_or_def dict_or_empty_def)
  have "doc_ids ?docs = map PStr (map (\<lambda>m. doc_id (sd_document m)) ms)"
  proof -
    have "\<forall>m\<in>set ms. doc_id (sd_document m) \<noteq> []" using assms(1) by (simp add: delivered_def)
    then show ?thesis
      by (induction ms) (simp_all add: doc_ids_def map_filter_simps serialize_match_def dget_def val_or_def)
  qed
  then show ?thesis
    using assms(2)
    by (simp add: task_hits_def docs Let_def take_map any_in_ground_texts id_hit_def list_ex_iff flip: map_map del: map_map)
qed

lemma delivered_all_hits:
  assumes "\<forall>t\<in>set ts. delivered t (ms t)" "g \<noteq> []"
  shows "all_hits g ts = Inr (map (\<lambda>t. (length (ms t), id_hit g (take 1 (ms t)), id_hit g (take 3 (ms t)))) ts)"
  using assms(1)
proof (induction ts)
  case (Cons t ts)
  then have "delivered t (ms t)" by simp
  from delivered_hits[OF this assms(2)] Cons show ?case by simp
qed simp

text \<open>On a run whose retrieval tasks hold what the retrieval agent delivered, and a scenario that names the
  relevant documents, the retrieval scorer weighs the share of tasks with a relevant document first (0.4) and
  the share with one among the first three (0.6), and passes exactly from 0.6 on.\<close>

theorem retrieval_score_by_rank:
  assumes "s_plan s = Some p" "ts = filter (\<lambda>t. t_task_type t = TaskType.RETRIEVAL) (p_tasks p)" "ts \<noteq> []"
    and "\<forall>t\<in>set ts. delivered t (ms t)" "ground_truth scenario = g" "g \<noteq> []"
  defines "n1 \<equiv> length (filter (\<lambda>t. id_hit g (take 1 (ms t))) ts)" and "n3 \<equiv> length (filter (\<lambda>t. id_hit g (take 3 (ms t))) ts)"
  shows "\<exists>r. retrieval_relevance s scenario = Inr r
    \<and> sres_score r = py_round 4 ((4 * of_nat n1 + 6 * of_nat n3) / (10 * of_nat (length ts)))
    \<and> (sres_passed r \<longleftrightarrow> 6 * length ts \<le> 4 * n1 + 6 * n3)"
proof -
  let ?hs = "map (\<lambda>t. (length (ms t), id_hit g (take 1 (ms t)), id_hit g (take 3 (ms t)))) ts"
  have hs: "all_hits g ts = Inr ?hs" by (rule delivered_all_hits[OF assms(4,6)])
  have c: "length (filter (\<lambda>(_, h1, _). h1) ?hs) = n1" "length (filter (\<lambda>(_, _, h3). h3) ?hs) = n3"
    by (simp_all add: n1_def n3_def filter_map comp_def)
  define sc :: rat where "sc = of_nat n1 / of_nat (length ts) * (4/10) + of_nat n3 / of_nat (length ts) * (6/10)"
  have n: "n1 \<le> length ts" "n3 \<le> length ts" "length ts \<noteq> 0" using assms(3) by (simp_all add: n1_def n3_def)
  have sc: "sc = (4 * of_nat n1 + 6 * of_nat n3) / (10 * of_nat (length ts))"
    using n(3) by (simp add: sc_def field_simps)
  have "in_unit sc"
  proof -
    have "(of_nat n1 :: rat) \<le> of_nat (length ts)" "(of_nat n3 :: rat) \<le> of_nat (length ts)" "(0 :: rat) < of_nat (length ts)"
      using n by simp_all
    then show ?thesis unfolding sc in_unit_def by (simp add: field_simps)
  qed
  then have u: "in_unit (py_round 4 sc)" by (rule py_round_unit)
  have "sc \<ge> 6/10 \<longleftrightarrow> 6 * length ts \<le> 4 * n1 + 6 * n3"
  proof -
    have "(a \<le> (4 * b + 6 * c) / (10 * d)) \<longleftrightarrow> a * (10 * d) \<le> 4 * b + 6 * c" if "0 < d" for a b c d :: rat
      using that by (simp add: pos_le_divide_eq)
    from this[of "of_nat (length ts)" "6/10"]
    have "sc \<ge> 6/10 \<longleftrightarrow> (of_nat (6 * length ts) :: rat) \<le> of_nat (4 * n1 + 6 * n3)"
      unfolding sc using n(3) by simp
    then show ?thesis by (simp only: of_nat_le_iff)
  qed
  moreover have "\<exists>d. retrieval_relevance s scenario = Inr \<lparr>sres_scorer_name = ''retrieval_relevance'', sres_score = py_round 4 sc,
      sres_passed = (sc \<ge> 6/10), sres_details = d, sres_error = None\<rparr>"
    unfolding retrieval_relevance_def Let_def assms(1) option.case assms(2)[symmetric] assms(5) if_not_P[OF assms(3)] hs sum.case
      if_P[OF assms(6)] c sc_def[symmetric]
    by (rule exI, rule new_ScorerResult_unit[OF u])
  ultimately show ?thesis by (auto simp: sc)
qed

section \<open>Witnesses\<close>

definition ex_match :: "string \<Rightarrow> ScoredDocument" where
  "ex_match i = \<lparr>sd_document = \<lparr>doc_id = i, doc_content = ''text'', doc_metadata = []\<rparr>, sd_score = 1\<rparr>"

definition ex_retrieval_task :: Task where
  "ex_retrieval_task =
     (domain_task 0 (ex_item ''a'' [] TaskType.RETRIEVAL))\<lparr>t_task_type := TaskType.RETRIEVAL, t_status := TaskStatus.COMPLETED,
        t_output_data := Some [(''query'', PStr ''q''), (''matches'', PList (map (PDict \<circ> serialize_match) [ex_match ''x'', ex_match ''d1''])),
                               (''total_found'', PInt 2)]\<rparr>"

definition ex_scored_state :: OrchestrationState where
  "ex_scored_state = set_status ExecutionStatus.COMPLETED (ex_state\<lparr>s_plan := Some (ex_plan [ex_retrieval_task])\<rparr>)"

definition ex_scenario :: BenchmarkScenario where
  "ex_scenario =
     \<lparr>bs_benchmark_id = ''b'', bs_name = ''n'', bs_description = [], bs_request = ''r'', bs_expected_status = ''completed'',
      bs_expected_tasks_count = None, bs_expected_hitl_decision = None, bs_expected_ground_truth_doc_ids = Some [''d1''],
      bs_min_required_score = 8/10, bs_custom_context = None\<rparr>"

theorem plan_score_exact_witness:
  "\<exists>r. plan_feasibility ex_scored_state None = Inr r \<and> sres_passed r"
proof -
  have p: "s_plan ex_scored_state = Some (ex_plan [ex_retrieval_task])" "p_tasks (ex_plan [ex_retrieval_task]) \<noteq> []"
    by (simp_all add: ex_scored_state_def set_status_def ex_plan_def)
  have "plan_dag [ex_retrieval_task]"
    by (simp add: plan_dag_def task_edges_def ex_retrieval_task_def domain_task_def ex_item_def acyclic_def)
  then show ?thesis
    using plan_score_exact[OF p, of None] by (auto simp: ex_plan_def ex_retrieval_task_def)
qed

theorem evaluation_bounded_witness:
  "\<exists>r. evaluate default_scorers (ex_tick 0) ex_scored_state (Some ex_scenario) = Inr r \<and> in_unit (ev_overall_score r)"
proof -
  have e: "default_scorers = new_engine None" by (simp add: new_engine_def)
  show ?thesis using evaluation_bounded[OF e, of ex_scored_state "Some ex_scenario" "ex_tick 0"] by auto
qed

theorem retrieval_score_by_rank_witness:
  "\<exists>r. retrieval_relevance ex_scored_state (Some ex_scenario) = Inr r \<and> sres_passed r"
proof -
  have s: "s_plan ex_scored_state = Some (ex_plan [ex_retrieval_task])"
    "[ex_retrieval_task] = filter (\<lambda>t. t_task_type t = TaskType.RETRIEVAL) (p_tasks (ex_plan [ex_retrieval_task]))"
    "\<forall>t\<in>set [ex_retrieval_task]. delivered t [ex_match ''x'', ex_match ''d1'']"
    "ground_truth (Some ex_scenario) = [''d1'']"
    by (simp_all add: ex_scored_state_def set_status_def ex_plan_def ex_retrieval_task_def delivered_def ex_match_def
        ground_truth_def ex_scenario_def)
  from retrieval_score_by_rank[OF s(1,2) _ s(3,4)] show ?thesis by (auto simp: id_hit_def ex_match_def)
qed

lemma ex_run_budgets:
  "(case ex_final_tasks ex_run of Some ts \<Rightarrow> list_all (\<lambda>t. 1 \<le> t_max_retries t) ts | None \<Rightarrow> False)"
  by code_simp

theorem fresh_run_passes_fidelity_witness:
  "\<exists>gs' es w' r. ex_run = (Finished gs', es, w') \<and> validator_fidelity (g_state gs') None = Inr r \<and> sres_passed r"
proof -
  obtain gs' es w' t where r: "run_graph (ex_nodes ex_decomposition ValidationStatus.VALID) ex_tick 50
      (start_state ex_state None) () = (Finished gs', es, w')" by (rule ex_runE)
  have p: "s_plan ex_state = None" by (simp add: ex_state_def create_initial_def)
  have b: "\<forall>t\<in>set (state_tasks (g_state gs')). 1 \<le> t_max_retries t"
    using ex_run_budgets r by (simp add: ex_final_tasks_def ex_run_def list_all_iff)
  from fresh_run_passes_fidelity[OF load_revalidates p r[unfolded ex_nodes_def] b, of None] r
  show ?thesis by (auto simp: ex_run_def)
qed

end
