(* ===== verification/Completion.thy ===== *)
theory Completion
  imports Workflow_Theorems
begin

text \<open>
  Runs whose planner delivers and whose critic accepts: under these contracts every run that ends is a
  completed one, whatever the tools and the document store do. The contracts are a locale over
  \<open>supervised\<close>, interpreted on the default wiring with a provider that plans well and accepts everything.
\<close>

section \<open>Contracts\<close>

definition sound_plan :: "Task list \<Rightarrow> bool" where
  "sound_plan ts \<longleftrightarrow> ts \<noteq> [] \<and> plan_dag ts \<and> no_planning ts \<and> list_all (\<lambda>t. t_id t \<noteq> []) ts"

definition accepts :: "AgentResult \<Rightarrow> bool" where
  "accepts r \<longleftrightarrow> ag_status r \<noteq> AgentStatus.ESCALATE_HUMAN \<and> \<not> ag_requires_human r
     \<and> (\<exists>d. validation_data r = PDict d \<and> verdict_valid r d)"

text \<open>
  Only the retriever may raise, with an exception of the kind \<open>bad\<close>; the other agents answer, and leave
  the outputs of agents alone.
\<close>

locale lenient = supervised n for n :: "'w nodes" +
  fixes bad :: "exc \<Rightarrow> bool"
  assumes planner_answers: "n_planner n k s None w \<noteq> (Inl e, s', w')"
    and planner_delivers: "planner_validate_input s \<Longrightarrow> n_planner n k s None w = (Inr r, s', w') \<Longrightarrow>
      ag_status r = AgentStatus.SUCCESS \<and> (\<exists>d p. map_of (dict_or_empty (ag_output r)) ''execution_plan'' = Some d
        \<and> n_plan_validate n d = Inr p \<and> sound_plan (p_tasks p))"
    and critic_answers: "n_validator n k s task w \<noteq> (Inl e, s', w')"
    and critic_accepts: "s_agent_outputs s \<noteq> [] \<Longrightarrow> n_validator n k s (Some t) w = (Inr r, s', w') \<Longrightarrow> accepts r"
    and tool_answers: "n_tool_executor n k s task w \<noteq> (Inl e, s', w')"
    and retriever_raises: "n_retriever n k s task w = (Inl e, s', w') \<Longrightarrow> bad e"
    and retriever_outputs: "n_retriever n k s task w = (Inr r, s', w') \<Longrightarrow> s_agent_outputs s' = s_agent_outputs s"
    and tool_outputs: "n_tool_executor n k s task w = (Inr r, s', w') \<Longrightarrow> s_agent_outputs s' = s_agent_outputs s"
    and validator_outputs: "n_validator n k s task w = (Inr r, s', w') \<Longrightarrow> s_agent_outputs s' = s_agent_outputs s"

section \<open>Plans under updates\<close>

lemma plan_dag_shape:
  assumes "map (\<lambda>t. (t_id t, t_dependencies t)) ts' = map (\<lambda>t. (t_id t, t_dependencies t)) ts"
  shows "plan_dag ts' \<longleftrightarrow> plan_dag ts"
proof -
  have ids: "map t_id ts' = map t_id ts" using arg_cong[OF assms, of "map fst"] by (simp add: comp_def)
  have pairs: "(\<lambda>t. (t_id t, t_dependencies t)) ` set ts' = (\<lambda>t. (t_id t, t_dependencies t)) ` set ts"
    using arg_cong[OF assms, of set] by simp
  have e: "task_edges xs = (\<Union>(i, ds) \<in> (\<lambda>t. (t_id t, t_dependencies t)) ` set xs. {(d, i) | d. d \<in> set ds})" for xs
    by (auto simp: task_edges_def)
  have deps: "(\<forall>t\<in>set xs. set (t_dependencies t) \<subseteq> I)
      \<longleftrightarrow> (\<forall>(i, ds) \<in> (\<lambda>t. (t_id t, t_dependencies t)) ` set xs. set ds \<subseteq> I)" for xs I by auto
  show ?thesis unfolding plan_dag_def e deps pairs ids ..
qed

lemma sound_plan_upd:
  assumes "sound_plan ts" "\<And>u. same_task u (f u)"
  shows "sound_plan (upd_first P f ts)"
proof -
  have "map (\<lambda>t. (t_id t, t_dependencies t)) (upd_first P f ts) = map (\<lambda>t. (t_id t, t_dependencies t)) ts"
    using assms(2) by (intro map_upd_first) (simp add: same_task_def)
  note dag = plan_dag_shape[OF this]
  have ids: "map t_id (upd_first P f ts) = map t_id ts"
    using assms(2) by (intro map_upd_first) (simp add: same_task_def)
  have named: "list_all (\<lambda>t. t_id t \<noteq> []) xs \<longleftrightarrow> [] \<notin> set (map t_id xs)" for xs
    by (force simp: list_all_iff)
  show ?thesis
    using assms(1) dag no_planning_upd[OF _ assms(2), of ts P] unfolding sound_plan_def named ids by simp
qed

definition open_task :: "Task \<Rightarrow> bool" where
  "open_task t \<longleftrightarrow> t_status t = TaskStatus.PENDING \<or> t_status t = TaskStatus.COMPLETED"

lemma upd_others:
  assumes "distinct (map t_id ts)" "\<And>u. t_id (f u) = t_id u"
    and "v \<in> set (upd_first (\<lambda>u. t_id u = i) f ts)"
  shows "if t_id v = i then \<exists>u\<in>set ts. t_id u = i \<and> v = f u else v \<in> set ts"
  using assms by (auto simp: upd_first_distinct split: if_splits)

section \<open>The course of a run\<close>

definition stage :: "node \<Rightarrow> GraphState \<Rightarrow> bool" where
  "stage nd gs \<longleftrightarrow>
     (let ts = state_tasks (g_state gs); act = active_task (g_state gs) (g_current_task_id gs) in
      case nd of
        Supervisor \<Rightarrow> \<forall>t\<in>set ts. open_task t
      | Retrieval \<Rightarrow> (\<forall>t\<in>set ts. open_task t) \<and> act \<noteq> None
      | Tool_exec \<Rightarrow> (\<forall>t\<in>set ts. open_task t) \<and> act \<noteq> None
      | Validator \<Rightarrow> \<exists>t. act = Some t \<and> (\<forall>u\<in>set ts. t_id u \<noteq> t_id t \<longrightarrow> open_task u)
      | Synthesis \<Rightarrow> (\<forall>t\<in>set ts. t_status t = TaskStatus.COMPLETED) \<or> (\<exists>t\<in>set ts. t_task_type t = TaskType.SYNTHESIS)
      | _ \<Rightarrow> False)"

definition on_course :: "config \<Rightarrow> bool" where
  "on_course c \<longleftrightarrow> (case c of (nd, gs) \<Rightarrow>
     s_status (g_state gs) \<noteq> ExecutionStatus.FAILED \<and> \<not> s_requires_human (g_state gs) \<and> g_human_decision gs = None
     \<and> (if s_plan (g_state gs) = None then (nd = Supervisor \<or> nd = Planner) \<and> planner_validate_input (g_state gs)
        else s_agent_outputs (g_state gs) \<noteq> [] \<and> sound_plan (state_tasks (g_state gs)) \<and> stage nd gs))"

definition run_completed :: "GraphState \<Rightarrow> bool" where
  "run_completed gs \<longleftrightarrow> s_status (g_state gs) = ExecutionStatus.COMPLETED
     \<and> ((\<forall>t\<in>set (state_tasks (g_state gs)). t_status t = TaskStatus.COMPLETED)
        \<or> (\<exists>t\<in>set (state_tasks (g_state gs)). t_task_type t = TaskType.SYNTHESIS))"

lemma outputs_simps [simp]:
  "s_agent_outputs (touch now s) = s_agent_outputs s"
  "s_agent_outputs (set_status x s) = s_agent_outputs s"
  "s_agent_outputs (record_error now d s) = s_agent_outputs s"
  "s_agent_outputs (increment_step now a s) = s_agent_outputs s"
  "s_agent_outputs (fail_run now m s) = s_agent_outputs s"
  "s_agent_outputs (upd_task i f s) = s_agent_outputs s"
  "s_agent_outputs (agent_task_failed k i m r s) = s_agent_outputs s"
  by (simp_all add: state_ops Let_def agent_task_failed_def)

lemma add_output_nonempty [simp]: "s_agent_outputs (add_agent_output now nm v s) \<noteq> []"
  by (cases "s_agent_outputs s") (auto simp: add_agent_output_def)

lemma request_step [simp]: "planner_validate_input (increment_step now a s) = planner_validate_input s"
  by (simp add: planner_validate_input_def state_ops Let_def)

lemma state_tasks_plan: "state_tasks s \<noteq> [] \<Longrightarrow> s_plan s \<noteq> None"
  by (auto simp: state_tasks_def split: option.splits)

lemma course_planned:
  assumes "on_course (nd, gs)" "s_plan (g_state gs) \<noteq> None"
  shows "s_agent_outputs (g_state gs) \<noteq> []" "sound_plan (state_tasks (g_state gs))" "stage nd gs"
    "s_status (g_state gs) \<noteq> ExecutionStatus.FAILED" "\<not> s_requires_human (g_state gs)" "g_human_decision gs = None"
  using assms by (auto simp: on_course_def)

lemma on_courseI:
  assumes "s_status (g_state gs) \<noteq> ExecutionStatus.FAILED" "\<not> s_requires_human (g_state gs)" "g_human_decision gs = None"
    "s_agent_outputs (g_state gs) \<noteq> []" "sound_plan (state_tasks (g_state gs))" "stage nd gs"
  shows "on_course (nd, gs)"
  using assms state_tasks_plan[of "g_state gs"] by (auto simp: on_course_def sound_plan_def)

text \<open>The supervisor of a run on course.\<close>

lemma supervisor_planned:
  assumes "s_plan (g_state gs) \<noteq> None" "on_course (Supervisor, gs)"
  shows "on_course (supervisor_router (supervisor_node k gs), supervisor_node k gs)"
proof -
  note c = course_planned[OF assms(2,1)]
  obtain p where p: "s_plan (g_state gs) = Some p" using assms(1) by blast
  have ts: "state_tasks (g_state gs) = p_tasks p" by (simp add: state_tasks_def p)
  have sp: "sound_plan (p_tasks p)" and op: "\<forall>t\<in>set (p_tasks p). open_task t"
    using c(2,3) by (simp_all add: ts stage_def)
  show ?thesis
  proof (cases "get_ready_tasks p")
    case Nil
    have "\<not> (\<exists>t\<in>set (p_tasks p). t_status t = TaskStatus.PENDING)"
      using ready_task_exists[of p] Nil sp op by (auto simp: sound_plan_def open_task_def)
    then have completed: "\<forall>t\<in>set (p_tasks p). t_status t = TaskStatus.COMPLETED"
      using op by (auto simp: open_task_def)
    then have "all_completed p" using sp by (simp add: all_completed_def sound_plan_def list_all_iff)
    then have n: "supervisor_node k gs = gs\<lparr>g_state := increment_step (k_now k) (Some ''supervisor'') (g_state gs),
        g_next_action := Some To_synthesis\<rparr>"
      using c p Nil by (simp add: supervisor_node_def Let_def)
    show ?thesis
      unfolding n using c sp completed
      by (intro on_courseI) (simp_all add: supervisor_router_def stage_def ts Let_def)
  next
    case (Cons t rest)
    define gs' where "gs' = gs\<lparr>g_state := increment_step (k_now k) (Some ''supervisor'') (g_state gs),
        g_current_task_id := Some (t_id t), g_next_action := Some (dispatch_action (t_task_type t))\<rparr>"
    have n: "supervisor_node k gs = gs'"
      using c p Cons by (simp add: supervisor_node_def Let_def gs'_def)
    have t: "t \<in> set (p_tasks p)" using ready_in[of t p] Cons by simp
    have id: "t_id t \<noteq> []" and np: "t_task_type t \<noteq> TaskType.PLANNING" and d: "distinct (map t_id (p_tasks p))"
      using t sp by (auto simp: sound_plan_def list_all_iff no_planning_def plan_dag_def)
    have "active_task (g_state gs') (g_current_task_id gs') = Some t"
      using id find_distinct[OF d t] by (simp add: gs'_def active_task_tasks ts)
    then have "stage (supervisor_router gs') gs'"
      using np t op
      by (auto simp: stage_def supervisor_router_def dispatch_action_def gs'_def ts Let_def)
    then show ?thesis
      unfolding n using c sp by (intro on_courseI) (simp_all add: gs'_def ts)
  qed
qed

lemma supervisor_unplanned:
  assumes "s_plan (g_state gs) = None" "on_course (Supervisor, gs)"
  shows "on_course (supervisor_router (supervisor_node k gs), supervisor_node k gs)"
  using assms by (simp add: on_course_def supervisor_node_def supervisor_router_def Let_def)

text \<open>Synthesis.\<close>

lemma synthesis_completed:
  assumes "on_course (Synthesis, gs)"
  shows "run_completed (synthesis_node k gs)"
proof -
  have "s_plan (g_state gs) \<noteq> None" using assms by (auto simp: on_course_def split: if_splits)
  note c = course_planned[OF assms this]
  have st: "s_status (g_state (synthesis_node k gs)) = ExecutionStatus.COMPLETED"
    by (simp add: synthesis_node_def Let_def)
  have ty: "t_task_type (synthesize_task now u) = t_task_type u" for now u
    using synthesize_same[of u now] by (simp add: same_task_def)
  have keep: "t_status (synthesize_task now u) = TaskStatus.COMPLETED" if "t_status u = TaskStatus.COMPLETED" for now u
    using that by (simp add: synthesize_task_def)
  show ?thesis
    using c(3) unfolding run_completed_def synthesis_tasks
    by (auto simp: stage_def Let_def st ty keep)
qed

context lenient
begin

lemma planner_course:
  assumes "on_course (Planner, gs)" "planner_node n k gs w = (Inr gs', es, w')"
  shows "on_course (Supervisor, gs')"
proof -
  define s1 where "s1 = increment_step (k_now k) (Some ''planner_agent'') (g_state gs)"
  have c: "s_plan (g_state gs) = None" "planner_validate_input s1" "s_status (g_state gs) \<noteq> ExecutionStatus.FAILED"
      "\<not> s_requires_human (g_state gs)" "g_human_decision gs = None"
    using assms(1) by (auto simp: on_course_def stage_def s1_def split: if_splits)
  obtain r s2 w2 where ag: "n_planner n k s1 None w = (r, s2, w2)" by (metis prod_cases3)
  obtain result where r: "r = Inr result"
    using assms(2) ag by (cases r) (simp_all add: planner_node_def Let_def s1_def[symmetric])
  note fr = planner_frame[OF ag]
  from planner_delivers[OF c(2) ag[unfolded r]] obtain d p where d: "ag_status result = AgentStatus.SUCCESS"
      "map_of (dict_or_empty (ag_output result)) ''execution_plan'' = Some d"
    and p: "n_plan_validate n d = Inr p" "sound_plan (p_tasks p)" by blast
  define s3 where "s3 = add_agent_output (k_now k) ''planner_agent'' d (s2\<lparr>s_plan := Some p\<rparr>)"
  have gs': "gs' = gs\<lparr>g_state := s3, g_next_action := Some To_supervisor\<rparr>"
    using assms(2) ag r d p by (simp add: planner_node_def Let_def s1_def[symmetric] s3_def)
  have ts: "state_tasks s3 = p_tasks p" by (simp add: s3_def state_tasks_def)
  have fresh: "\<forall>t\<in>set (p_tasks p). open_task t"
    using planner_plan[OF ag[unfolded r] d(1,2) p(1)] by (auto simp: list_all_iff fresh_task_def open_task_def)
  have keep: "s_status s3 = s_status (g_state gs)" "s_requires_human s3 = s_requires_human (g_state gs)"
    using fr by (simp_all add: s3_def frame_eq_def s1_def)
  have out: "s_agent_outputs s3 \<noteq> []" by (simp add: s3_def)
  show ?thesis
    using c p fresh out
    by (intro on_courseI) (simp_all add: gs' ts keep stage_def)
qed

lemma work_outputs:
  assumes "work_node nd" "exec_node n nd k gs w = (Inr gs', es, w')"
    and "active_task (g_state gs) (g_current_task_id gs) = Some t" "s_agent_outputs (g_state gs) \<noteq> []"
  shows "s_agent_outputs (g_state gs') \<noteq> []"
  using assms retriever_outputs tool_outputs
  by (auto simp: work_node_def retrieval_node_def tool_node_def Let_def split: prod.splits sum.splits if_splits)

lemma work_course:
  assumes "on_course (nd, gs)" "work_node nd" "exec_node n nd k gs w = (Inr gs', es, w')"
  shows "on_course (Validator, gs')"
proof -
  have pl: "s_plan (g_state gs) \<noteq> None"
    using assms(1,2) by (auto simp: on_course_def work_node_def split: if_splits)
  note c = course_planned[OF assms(1) pl]
  let ?ts = "state_tasks (g_state gs)"
  from c(3) assms(2) obtain t where act: "active_task (g_state gs) (g_current_task_id gs) = Some t"
    and op: "\<forall>u\<in>set ?ts. open_task u"
    by (auto simp: stage_def work_node_def Let_def)
  have wd: "work_done gs t gs'"
    using assms(2,3) retrieval_node_work[OF act] tool_node_work[OF act] by (auto simp: work_node_def)
  then obtain f where f: "worked f" "state_tasks (g_state gs') = upd_first (\<lambda>u. t_id u = t_id t) f ?ts"
    and rest: "g_current_task_id gs' = g_current_task_id gs" "g_human_decision gs' = None"
      "s_status (g_state gs') = s_status (g_state gs)" "s_requires_human (g_state gs') = s_requires_human (g_state gs)"
    using c(6) by (auto simp: work_done_def)
  from act obtain i: "g_current_task_id gs = Some (t_id t)" "t_id t \<noteq> []"
    and t: "find (\<lambda>u. t_id u = t_id t) ?ts = Some t" by (rule active_task_SomeE)
  have same: "\<And>u. same_task u (f u)" using f(1) by (simp add: worked_def)
  have act': "active_task (g_state gs') (g_current_task_id gs') = Some (f t)"
    using i t f find_upd_first[of "\<lambda>u. t_id u = t_id t" f ?ts] worked_id[OF f(1)]
    by (simp add: rest active_task_tasks)
  have d: "distinct (map t_id ?ts)" using c(2) by (simp add: sound_plan_def plan_dag_def)
  have others: "open_task v" if "v \<in> set (state_tasks (g_state gs'))" "t_id v \<noteq> t_id (f t)" for v
    using upd_others[OF d worked_id[OF f(1)] that(1)[unfolded f(2)]] that(2) op worked_id[OF f(1)] by auto
  show ?thesis
    using c rest work_outputs[OF assms(2,3) act c(1)] sound_plan_upd[OF c(2) same] f(2) act' others
    by (intro on_courseI) (auto simp: stage_def Let_def)
qed

lemma validator_course:
  assumes "on_course (Validator, gs)" "validator_node n k gs w = (Inr gs', es, w')"
  shows "on_course (Supervisor, gs')" "g_next_action gs' = Some To_supervisor"
proof -
  have pl: "s_plan (g_state gs) \<noteq> None" using assms(1) by (auto simp: on_course_def split: if_splits)
  note c = course_planned[OF assms(1) pl]
  let ?ts = "state_tasks (g_state gs)"
  from c(3) obtain t where act: "active_task (g_state gs) (g_current_task_id gs) = Some t"
    and op: "\<forall>u\<in>set ?ts. t_id u \<noteq> t_id t \<longrightarrow> open_task u" by (auto simp: stage_def Let_def)
  define s1 where "s1 = increment_step (k_now k) (Some ''validator_agent'') (g_state gs)"
  obtain r s2 w2 where ag: "n_validator n k s1 (Some t) w = (r, s2, w2)" by (metis prod_cases3)
  obtain result where r: "r = Inr result"
    using act assms(2) ag by (cases r) (simp_all add: validator_node_def Let_def s1_def[symmetric])
  have "s_agent_outputs s1 \<noteq> []" using c(1) by (simp add: s1_def)
  from critic_accepts[OF this ag[unfolded r]] obtain v where v: "ag_status result \<noteq> AgentStatus.ESCALATE_HUMAN"
      "\<not> ag_requires_human result" "validation_data result = PDict v" "verdict_valid result v"
    by (auto simp: accepts_def)
  define s3 where "s3 = upd_task (t_id t) (mark_completed (k_now k) (output_or_empty t)) s2"
  have gs': "gs' = gs\<lparr>g_state := s3, g_current_task_id := None, g_next_action := Some To_supervisor\<rparr>"
    using act assms(2) ag r v
    by (simp add: validator_node_def validator_outcome_def Let_def s1_def[symmetric] s3_def split: prod.splits)
  then show "g_next_action gs' = Some To_supervisor" by simp
  note fr = validator_frame[OF ag]
  have ts2: "state_tasks s2 = ?ts" using frame_eq_tasks[OF fr] by (simp add: s1_def)
  have same: "\<And>u. same_task u (mark_completed (k_now k) (output_or_empty t) u)"
    by (simp add: same_task_def mark_completed_def)
  have ids: "\<And>u. t_id (mark_completed (k_now k) (output_or_empty t) u) = t_id u" by (simp add: mark_completed_def)
  have d: "distinct (map t_id ?ts)" using c(2) by (simp add: sound_plan_def plan_dag_def)
  have ts3: "state_tasks s3 = upd_first (\<lambda>u. t_id u = t_id t) (mark_completed (k_now k) (output_or_empty t)) ?ts"
    by (simp add: s3_def ts2)
  have "open_task u" if "u \<in> set (state_tasks s3)" for u
    using upd_others[OF d ids that[unfolded ts3]] op
    by (auto simp: open_task_def mark_completed_def split: if_splits)
  moreover have "s_status s3 = s_status (g_state gs)" "s_requires_human s3 = s_requires_human (g_state gs)"
    using fr by (simp_all add: s3_def frame_eq_def s1_def)
  moreover have "s_agent_outputs s3 \<noteq> []" using validator_outputs[OF ag[unfolded r]] c(1) by (simp add: s3_def s1_def)
  ultimately show "on_course (Supervisor, gs')"
    using c sound_plan_upd[OF c(2) same] by (intro on_courseI) (simp_all add: gs' ts3 stage_def)
qed

text \<open>One node execution keeps the course, and only synthesis ends it.\<close>

lemma course_step:
  assumes "on_course (nd, gs)" "exec_node n nd k gs w = (Inr gs', es, w')"
  shows "case next_node nd gs' of None \<Rightarrow> run_completed gs' | Some nd' \<Rightarrow> on_course (nd', gs')"
proof (cases nd)
  case Supervisor
  then show ?thesis
    using assms supervisor_planned[of gs k] supervisor_unplanned[of gs k] by (cases "s_plan (g_state gs)") auto
next
  case Planner then show ?thesis using assms planner_course by auto
next
  case Retrieval then show ?thesis using work_course[OF assms(1) _ assms(2)] by (simp add: work_node_def)
next
  case Tool_exec then show ?thesis using work_course[OF assms(1) _ assms(2)] by (simp add: work_node_def)
next
  case Validator then show ?thesis using assms validator_course[of gs k w gs' es w'] by (simp add: validator_router_def)
next
  case Synthesis then show ?thesis using assms synthesis_completed[of gs k] by simp
qed (use assms in \<open>auto simp: on_course_def stage_def split: if_splits\<close>)

text \<open>What a run on course raises.\<close>

lemma course_raises:
  assumes "on_course (nd, gs)" "exec_node n nd k gs w = (Inl (e, s'), es, w')"
  shows "bad e"
proof (cases nd)
  case Planner
  define s1 where "s1 = increment_step (k_now k) (Some ''planner_agent'') (g_state gs)"
  have pv: "planner_validate_input s1" using assms(1) Planner by (auto simp: on_course_def stage_def s1_def split: if_splits)
  obtain r s2 w2 where ag: "n_planner n k s1 None w = (r, s2, w2)" by (metis prod_cases3)
  obtain result where r: "r = Inr result" using planner_answers ag by (cases r) auto
  from planner_delivers[OF pv ag[unfolded r]] obtain d p where "ag_status result = AgentStatus.SUCCESS"
      "map_of (dict_or_empty (ag_output result)) ''execution_plan'' = Some d" "n_plan_validate n d = Inr p" by blast
  then show ?thesis using assms(2) Planner ag r by (simp add: planner_node_def Let_def s1_def[symmetric])
next
  case Retrieval
  then show ?thesis using assms(2) retriever_raises
    by (auto simp: retrieval_node_def Let_def split: option.splits prod.splits sum.splits if_splits)
next
  case Tool_exec
  then show ?thesis using assms(2) tool_answers
    by (auto simp: tool_node_def Let_def split: option.splits prod.splits sum.splits if_splits)
next
  case Validator
  have pl: "s_plan (g_state gs) \<noteq> None" using assms(1) Validator by (auto simp: on_course_def split: if_splits)
  note c = course_planned[OF assms(1) pl]
  define s1 where "s1 = increment_step (k_now k) (Some ''validator_agent'') (g_state gs)"
  obtain t where act: "active_task (g_state gs) (g_current_task_id gs) = Some t"
    using c(3) Validator by (auto simp: stage_def Let_def)
  obtain r s2 w2 where ag: "n_validator n k s1 (Some t) w = (r, s2, w2)" by (metis prod_cases3)
  obtain result where r: "r = Inr result" using critic_answers ag by (cases r) auto
  have "s_agent_outputs s1 \<noteq> []" using c(1) by (simp add: s1_def)
  from critic_accepts[OF this ag[unfolded r]] have "accepts result" .
  then show ?thesis
    using act assms(2) Validator ag r
    by (auto simp: validator_node_def validator_outcome_def accepts_def Let_def s1_def[symmetric] split: prod.splits)
qed (use assms(2) in \<open>auto split: prod.splits\<close>)

lemma course_loop:
  assumes "on_course (nd, gs)" "graph_loop n ks fuel i nd gs w = (r, es, w')"
  shows "case r of Finished gs' \<Rightarrow> run_completed gs' | Raised e s' \<Rightarrow> bad e | Out_of_steps s' \<Rightarrow> True"
  using assms
proof (induction fuel arbitrary: i nd gs w r es)
  case (Suc fuel)
  obtain a es2 w2 where ex: "exec_node n nd (ks i) gs w = (a, es2, w2)" by (metis prod_cases3)
  show ?case
  proof (cases a)
    case (Inl p)
    then show ?thesis using Suc.prems ex course_raises[OF Suc.prems(1)] by (cases p) auto
  next
    case (Inr gs2)
    note step = course_step[OF Suc.prems(1) ex[unfolded Inr]]
    show ?thesis
    proof (cases "next_node nd gs2")
      case None
      then show ?thesis using Suc.prems ex Inr step by auto
    next
      case (Some nd2)
      then have "on_course (nd2, gs2)" using step by simp
      then show ?thesis using Suc.prems(2) ex Inr Some Suc.IH[of nd2 gs2] by (auto split: prod.splits)
    qed
  qed
qed auto

end

section \<open>Providers that plan and accept\<close>

definition plans_well :: "('w, PlannedDecompositionSchema) LLMRouter \<Rightarrow> nat \<Rightarrow> bool" where
  "plans_well router m \<longleftrightarrow>
     (\<forall>req w. \<exists>d resp w'. generate_structured router req None w = (Inr (d, resp), w') \<and> valid_dag (pd_tasks d)
        \<and> length (pd_tasks d) \<le> m
        \<and> list_all (\<lambda>t. pt_id t \<noteq> [] \<and> pt_title t \<noteq> [] \<and> pt_task_type t \<noteq> TaskType.PLANNING) (pd_tasks d))"

definition always_accepts :: "('w, CriticEvaluationSchema) LLMRouter \<Rightarrow> bool" where
  "always_accepts router \<longleftrightarrow>
     (\<forall>req w. \<exists>c resp w'. generate_structured router req None w = (Inr (c, resp), w')
        \<and> ce_status c = ValidationStatus.VALID \<and> \<not> ce_needs_human_review c)"

text \<open>What the retrieval agent raises: the query of a task is no text, or its parameters do not validate.\<close>

definition malformed_query :: "exc \<Rightarrow> bool" where
  "malformed_query e \<longleftrightarrow> e_class e = Foreign ''AttributeError'' \<or> (\<exists>f. e = validation_failure f)"

lemma retrieval_raises:
  assumes "retrieval_execute to_int retrieve k s t w = (Inl e, s', w')"
  shows "malformed_query e"
proof -
  have v: "malformed_query e" if "retrieval_validate_input s t = Inl e"
    using that by (auto simp: retrieval_validate_input_def malformed_query_def mk_Foreign_def Let_def split: pyval.splits if_splits)
  have q: "malformed_query e" if "new_RetrievalQuery to_int a b c = Inl e" for a b c
    using that by (auto simp: new_RetrievalQuery_def malformed_query_def split: pyval.splits option.splits if_splits)
  show ?thesis
    using assms v q by (auto simp: retrieval_execute_def Let_def split: sum.splits prod.splits bool.splits)
qed

lemma outputs_logs [simp]:
  "s_agent_outputs (add_tool_result now a v s) = s_agent_outputs s"
  "s_agent_outputs (add_validation_result now r s) = s_agent_outputs s"
  "s_agent_outputs (add_retrieved_context now d s) = s_agent_outputs s"
  by (simp_all add: add_tool_result_def add_validation_result_def add_retrieved_context_def)

lemma outputs_fold [simp]: "s_agent_outputs (fold (add_retrieved_context now) ds s) = s_agent_outputs s"
  by (induction ds arbitrary: s) simp_all

locale accepting_providers = plan_library validate for validate +
  fixes planner_llm :: "('w, PlannedDecompositionSchema) LLMRouter"
    and critic_llm :: "('w, CriticEvaluationSchema) LLMRouter" and m :: nat
  assumes planner_plans: "plans_well planner_llm m" and critic_accepts_all: "always_accepts critic_llm"

sublocale accepting_providers \<subseteq> lenient "default_nodes planner_llm critic_llm to_int retrieve reg tracer sink validate"
    malformed_query
  for to_int retrieve reg tracer sink
proof (rule lenient.intro[OF supervised_default], rule lenient_axioms.intro)
  let ?n = "default_nodes planner_llm critic_llm to_int retrieve reg tracer sink validate"
  fix k s w e s' w' r task t
  show "n_planner ?n k s None w \<noteq> (Inl e, s', w')"
    by (auto simp: default_nodes_def planner_execute_def split: prod.splits sum.splits)
  show "n_validator ?n k s task w \<noteq> (Inl e, s', w')"
    by (auto simp: default_nodes_def validator_execute_def Let_def split: prod.splits sum.splits)
  show "n_tool_executor ?n k s task w \<noteq> (Inl e, s', w')"
    by (auto simp: default_nodes_def tool_agent_execute_def Let_def split: prod.splits sum.splits pyval.splits)
  show "n_retriever ?n k s task w = (Inl e, s', w') \<Longrightarrow> malformed_query e"
    by (simp add: default_nodes_def) (rule retrieval_raises)
  show "n_retriever ?n k s task w = (Inr r, s', w') \<Longrightarrow> s_agent_outputs s' = s_agent_outputs s"
    by (auto simp: default_nodes_def retrieval_execute_def Let_def split: sum.splits prod.splits bool.splits)
  show "n_tool_executor ?n k s task w = (Inr r, s', w') \<Longrightarrow> s_agent_outputs s' = s_agent_outputs s"
    by (auto simp: default_nodes_def tool_agent_execute_def Let_def split: if_splits prod.splits sum.splits pyval.splits)
  show "n_validator ?n k s task w = (Inr r, s', w') \<Longrightarrow> s_agent_outputs s' = s_agent_outputs s"
    by (auto simp: default_nodes_def validator_execute_def Let_def split: if_splits prod.splits sum.splits)
  show "accepts r" if "s_agent_outputs s \<noteq> []" "n_validator ?n k s (Some t) w = (Inr r, s', w')"
  proof -
    obtain c resp w1 where g: "generate_structured critic_llm
        (two_message_request validator_system_prompt (validator_user_prompt s (Some t)) (1/10)) None w = (Inr (c, resp), w1)"
      "ce_status c = ValidationStatus.VALID" "\<not> ce_needs_human_review c"
      using critic_accepts_all by (fastforce simp: always_accepts_def)
    have "validator_validate_input s (Some t)" using that(1) by (simp add: validator_validate_input_def)
    then show ?thesis using that(2) g
      by (auto simp: default_nodes_def validator_execute_def Let_def verdict_of_def accepts_def agent_success_def
          validation_data_def verdict_valid_def dump_validation_def dget_def)
  qed
  show "ag_status r = AgentStatus.SUCCESS \<and> (\<exists>d p. map_of (dict_or_empty (ag_output r)) ''execution_plan'' = Some d
        \<and> n_plan_validate ?n d = Inr p \<and> sound_plan (p_tasks p))"
    if "planner_validate_input s" "n_planner ?n k s None w = (Inr r, s', w')"
  proof -
    obtain d resp w1 where g: "generate_structured planner_llm
        (two_message_request planner_system_prompt (planner_user_prompt s) (1/5)) None w = (Inr (d, resp), w1)"
      and d: "valid_dag (pd_tasks d)"
        "list_all (\<lambda>t. pt_id t \<noteq> [] \<and> pt_title t \<noteq> [] \<and> pt_task_type t \<noteq> TaskType.PLANNING) (pd_tasks d)"
      using planner_plans by (fastforce simp: plans_well_def)
    have titles: "\<not> list_ex (\<lambda>t. pt_title t = []) (pd_tasks d)" using d(2) by (auto simp: list_all_iff list_ex_iff)
    have v: "validate_plan_dag d = Inr ()" using d(1) by (simp add: validate_plan_dag_eq)
    have r: "ag_status r = AgentStatus.SUCCESS" "ag_output r = Some [(''execution_plan'', PDict (dump_plan (domain_plan k d)))]"
      using that g v titles by (auto simp: default_nodes_def planner_execute_def agent_success_def)
    have "validate (PDict (dump_plan (domain_plan k d))) = Inr (domain_plan k d)"
      using revalidates d(2) by (auto simp: revalidates_dumps_def titled_def list_all_iff)
    moreover have "sound_plan (p_tasks (domain_plan k d))"
      using domain_plan_dag(1)[OF d(1), of k] d by (auto simp: sound_plan_def no_planning_def list_all_iff valid_dag_def)
    ultimately show ?thesis using r by (simp add: default_nodes_def)
  qed
qed

context accepting_providers
begin

lemma lenient_default: "lenient (default_nodes planner_llm critic_llm to_int retrieve reg tracer sink validate) malformed_query"
  by (rule lenient_axioms)

end

lemma accepted_graph:
  assumes "revalidates_dumps validate" "plans_well planner_llm m" "always_accepts critic_llm"
    and "s_plan s = None" "s_status s \<noteq> ExecutionStatus.FAILED" "\<not> s_requires_human s" "planner_validate_input s"
    and "9 * m + 4 \<le> limit"
  shows "case fst (run_graph (default_nodes planner_llm critic_llm to_int retrieve reg tracer sink validate) ks limit
             (start_state s None) w) of
           Finished gs' \<Rightarrow> run_completed gs'
         | Raised e s' \<Rightarrow> malformed_query e
         | Out_of_steps s' \<Rightarrow> False"
proof -
  let ?n = "default_nodes planner_llm critic_llm to_int retrieve reg tracer sink validate"
  have ap: "accepting_providers validate planner_llm critic_llm m"
    by (intro accepting_providers.intro plan_library.intro accepting_providers_axioms.intro assms(1-3))
  have small: "small_decompositions planner_llm m"
    unfolding small_decompositions_def
  proof (intro allI impI)
    fix req w d resp w'
    assume "generate_structured planner_llm req None w = (Inr (d, resp), w')"
    then show "length (pd_tasks d) \<le> m \<and> list_all (\<lambda>t. pt_task_type t \<noteq> TaskType.PLANNING) (pd_tasks d)"
      using assms(2)[unfolded plans_well_def, rule_format, of req w] by (auto simp: list_all_iff)
  qed
  have oc: "on_course (Supervisor, start_state s None)"
    using assms(4-7) by (simp add: on_course_def start_state_def)
  obtain r es w' where run: "run_graph ?n ks limit (start_state s None) w = (r, es, w')" by (metis prod_cases3)
  have "returns r" using default_run_returns[OF assms(1) small assms(4,8)] run by (metis fst_conv)
  then show ?thesis
    using lenient.course_loop[OF accepting_providers.lenient_default[OF ap] oc run[unfolded run_graph_def]] run
    by (cases r) auto
qed


section \<open>A witness\<close>

lemma ex_plans_well: "plans_well (ex_router ex_decomposition) 2"
proof -
  have "valid_dag (pd_tasks ex_decomposition)" using ex_valid by (simp add: validate_plan_dag_eq)
  then show ?thesis by (simp add: plans_well_def ex_router_generate ex_decomposition_def ex_item_def)
qed

lemma ex_accepts: "always_accepts (ex_router (ex_verdict ValidationStatus.VALID))"
  by (simp add: always_accepts_def ex_router_generate ex_verdict_def)

interpretation accepted: accepting_providers load_plan "ex_router ex_decomposition" "ex_router (ex_verdict ValidationStatus.VALID)" 2
  by (intro accepting_providers.intro accepting_providers_axioms.intro load.plan_library_axioms ex_plans_well ex_accepts)

text \<open>The tool of the example is replaced by one that always fails: the run is completed all the same.\<close>

definition broken_tool :: "unit Tool" where
  "broken_tool = ex_tool\<lparr>tl_run := (\<lambda>d w. (Inl (mk_Foreign ''RuntimeError'' ''boom''), 1, w))\<rparr>"

definition broken_nodes :: "unit nodes" where
  "broken_nodes = default_nodes (ex_router ex_decomposition) (ex_router (ex_verdict ValidationStatus.VALID)) ex_to_int ex_retrieve
     [(''echo'', broken_tool)] True True load_plan"


end
