(* ===== verification/Benchmarks.thy ===== *)
theory Benchmarks
  imports Evaluation "HOL-Library.Sublist"
begin

text \<open>
  The deterministic benchmarks (\<open>src/benchmarks/runner.py\<close>): a scripted model provider, three tools and
  one document drive the whole framework through the scenarios of \<open>src/benchmarks/scenarios\<close>, whose final
  states the evaluation engine scores. The world of a run is the provider's counter and the state store.
\<close>

section \<open>The world and the tools\<close>

record bench_world =
  bw_retry_counter :: nat
  bw_store :: InMemoryStateStore

text \<open>The input model has no field, so every dictionary is accepted and dumped as the empty one.\<close>

definition bench_tool :: "string \<Rightarrow> string \<Rightarrow> exc + dict \<Rightarrow> 'w Tool" where
  "bench_tool name description outcome =
     \<lparr>tl_metadata = \<lparr>tm_name = name, tm_description = description, tm_version = ''0.1.0'', tm_timeout_seconds = 30,
        tm_requires_permissions = [], tm_tags = []\<rparr>,
      tl_schema = (\<lambda>d. Inr []), tl_run = (\<lambda>d w. (outcome, 0, w))\<rparr>"

definition CalcTool :: "bench_world Tool" where
  "CalcTool = bench_tool ''calc'' ''calc tool'' (Inr [(''result'', PStr ''ratio: 1.45'')])"

definition EchoTool :: "bench_world Tool" where
  "EchoTool = bench_tool ''echo'' ''echo tool'' (Inr [(''result'', PStr ''echo: ok'')])"

definition FaultyTool :: "bench_world Tool" where
  "FaultyTool = bench_tool ''faulty_tool'' ''faulty tool'' (Inl (mk_Foreign ''RuntimeError'' ''Script crashed''))"

fun register_all :: "'w Tool list \<Rightarrow> 'w ToolRegistry \<Rightarrow> exc + 'w ToolRegistry" where
  "register_all [] reg = Inr reg"
| "register_all (t # ts) reg =
     (case register_tool t reg of Inl e \<Rightarrow> Inl e | Inr reg' \<Rightarrow> register_all ts reg')"

section \<open>The scripted provider\<close>

definition fake_response :: "string \<Rightarrow> LLMResponse" where
  "fake_response content =
     \<lparr>r_content = content, r_structured_data = None, r_model = ''fake-model'', r_provider = ''benchmark_fake'',
      r_usage = \<lparr>u_prompt_tokens = 0, u_completion_tokens = 0, u_total_tokens = 0\<rparr>,
      r_finish_reason = None, r_latency_ms = 0, r_raw_response = None\<rparr>"

text \<open>The planned items that \<open>model_validate\<close> makes of the dictionaries; the \<open>status\<close> entry is no field.\<close>

definition bench_item :: "string \<Rightarrow> string \<Rightarrow> TaskType \<Rightarrow> string list \<Rightarrow> dict \<Rightarrow> PlannedTaskItem" where
  "bench_item i title ty deps input =
     \<lparr>pt_id = i, pt_title = title, pt_description = [], pt_task_type = ty, pt_assigned_agent = AgentRole.CUSTOM,
      pt_dependencies = deps, pt_input_data = input\<rparr>"

definition tool_call :: "string \<Rightarrow> dict" where
  "tool_call name = [(''tool_name'', PStr name), (''parameters'', PDict [])]"

definition fake_plan :: "string \<Rightarrow> PlannedDecompositionSchema" where
  "fake_plan req_text =
     (if sublist ''financial'' req_text then
        \<lparr>pd_rationale = ''3-step financial analysis'',
         pd_tasks =
           [bench_item ''task-1'' ''Fetch Data'' TaskType.RETRIEVAL [] [(''query'', PStr ''vacation policy'')],
            bench_item ''task-2'' ''Calculate Ratios'' TaskType.TOOL_EXECUTION [''task-1''] (tool_call ''calc''),
            bench_item ''task-3'' ''Summarize'' TaskType.SYNTHESIS [''task-2''] []]\<rparr>
      else if sublist ''faulty'' req_text then
        \<lparr>pd_rationale = ''Faulty script execution'',
         pd_tasks = [bench_item ''task-1'' ''Run Script'' TaskType.TOOL_EXECUTION [] (tool_call ''faulty_tool'')]\<rparr>
      else
        let retrieves = sublist ''vacation'' req_text \<or> sublist ''retrieve'' req_text in
        \<lparr>pd_rationale = ''Standard single-task plan'',
         pd_tasks = [bench_item ''task-1'' ''Primary Task'' (if retrieves then TaskType.RETRIEVAL else TaskType.TOOL_EXECUTION) []
           (if retrieves then [(''query'', PStr ''vacation policy'')] else tool_call ''echo'')]\<rparr>)"

definition bench_valid :: "string \<Rightarrow> CriticEvaluationSchema" where
  "bench_valid feedback =
     \<lparr>ce_is_valid = True, ce_status = ValidationStatus.VALID, ce_score = 1, ce_feedback = feedback, ce_issues = [],
      ce_needs_retry = False, ce_needs_human_review = False\<rparr>"

definition bench_retry :: CriticEvaluationSchema where
  "bench_retry =
     \<lparr>ce_is_valid = False, ce_status = ValidationStatus.NEEDS_RETRY, ce_score = 4/10,
      ce_feedback = ''Retry needed for schema'', ce_issues = [''Format flaw''], ce_needs_retry = True,
      ce_needs_human_review = False\<rparr>"

definition bench_escalate :: CriticEvaluationSchema where
  "bench_escalate =
     \<lparr>ce_is_valid = False, ce_status = ValidationStatus.NEEDS_HUMAN_REVIEW, ce_score = 5/10,
      ce_feedback = ''Escalate to human review'', ce_issues = [''Risk ceiling''], ce_needs_retry = False,
      ce_needs_human_review = True\<rparr>"

text \<open>The critique of a request and the new value of the counter.\<close>

definition fake_critique :: "string \<Rightarrow> nat \<Rightarrow> CriticEvaluationSchema \<times> nat" where
  "fake_critique req_text counter =
     (if sublist ''strict schema'' req_text then
        (if counter + 1 = 1 then bench_retry else bench_valid ''Valid on retry'', counter + 1)
      else if sublist ''deploy configuration'' req_text then
        (if counter + 1 = 1 then bench_escalate else bench_valid ''Valid after approved modification'', counter + 1)
      else if sublist ''transfer funds'' req_text \<or> sublist ''delete production'' req_text then (bench_escalate, counter)
      else (bench_valid ''All criteria met'', counter))"

definition fake_structured :: "(string \<Rightarrow> nat \<Rightarrow> 'x \<times> nat) \<Rightarrow> (bench_world, 'x) provider" where
  "fake_structured answer q w =
     (if q_messages q = [] then (Inl (mk_Foreign ''IndexError'' ''list index out of range''), w)
      else case answer (py_lower (msg_content (last (q_messages q)))) (bw_retry_counter w) of
             (x, n) \<Rightarrow> (Inr (x, fake_response ''{}''), w\<lparr>bw_retry_counter := n\<rparr>))"

section \<open>The runner\<close>

text \<open>The router takes the fallback of the default settings; its only provider never fails.\<close>

definition bench_router :: "(string \<Rightarrow> nat \<Rightarrow> 'x \<times> nat) \<Rightarrow> (bench_world, 'x) LLMRouter" where
  "bench_router answer =
     new_router [(''benchmark_fake'', fake_structured answer)] (Some ''benchmark_fake'') None None ''gemini'' ''groq'' True"

definition bench_documents :: doc_store where
  "bench_documents =
     add_documents
       [\<lparr>doc_id = ''doc_policy_001'', doc_content = ''Enterprise Vacation Policy: 25 days annual leave.'', doc_metadata = []\<rparr>] []"

definition bench_store :: "bench_world store_ops" where
  "bench_store =
     \<lparr>st_save_state = (\<lambda>s w. (None, w\<lparr>bw_store := im_save_state s (bw_store w)\<rparr>)),
      st_save_checkpoint = (\<lambda>c w. (None, w\<lparr>bw_store := im_save_checkpoint c (bw_store w)\<rparr>))\<rparr>"

definition bench_nodes ::
    "(pyval \<Rightarrow> int option) \<Rightarrow> (pyval \<Rightarrow> exc + ExecutionPlan) \<Rightarrow> bench_world ToolRegistry \<Rightarrow> bench_world nodes" where
  "bench_nodes to_int validate reg =
     default_nodes (bench_router (\<lambda>t n. (fake_plan t, n))) (bench_router fake_critique) to_int
       (\<lambda>q w. (Inr (retrieve_in_memory q bench_documents), w)) reg True True validate"

definition bench_runtime ::
    "(pyval \<Rightarrow> int option) \<Rightarrow> (pyval \<Rightarrow> exc + ExecutionPlan) \<Rightarrow> (nat \<Rightarrow> exc) \<Rightarrow> bench_world ToolRegistry \<Rightarrow> bench_world runtime" where
  "bench_runtime to_int validate graph_error reg =
     \<lparr>rt_nodes = bench_nodes to_int validate reg, rt_store = bench_store, rt_max_steps = 50, rt_graph_error = graph_error\<rparr>"

definition bench_decision_status :: "string \<Rightarrow> HumanRequestStatus" where
  "bench_decision_status expected =
     (if expected = ''approve'' then HumanRequestStatus.APPROVED
      else if expected \<in> {''modify'', ''modified''} then HumanRequestStatus.MODIFIED
      else HumanRequestStatus.REJECTED)"

definition bench_decision :: "tick \<Rightarrow> string \<Rightarrow> OrchestrationState \<Rightarrow> exc + HumanDecision" where
  "bench_decision k expected s =
     (if s_human_requests s = [] then Inl (mk_Foreign ''IndexError'' ''list index out of range'')
      else Inr \<lparr>d_request_id = h_request_id (last (s_human_requests s)), d_status = bench_decision_status expected,
                d_decision_note = Some (''Benchmark decision: '' @ expected),
                d_modified_payload = Some [(''parameters'', PDict [])],
                d_reviewer_id = Some ''benchmark_reviewer'', d_resolved_at = k_now k\<rparr>)"

text \<open>
  The state a scenario ends in. \<open>clock phase i\<close> is the clock of the run (0), the resumption (1) and the
  evaluation (2); everything is made anew, the world included.
\<close>

definition bench_final ::
    "bench_world runtime \<Rightarrow> (nat \<Rightarrow> nat \<Rightarrow> tick) \<Rightarrow> BenchmarkScenario \<Rightarrow> exc + OrchestrationState" where
  "bench_final rt clock b =
     (case run rt (clock 0 0) (\<lambda>i. clock 0 (Suc i)) (bs_request b) (Some (''corr-'' @ bs_benchmark_id b))
            (Some (''sess-'' @ bs_benchmark_id b)) (bs_custom_context b) \<lparr>bw_retry_counter = 0, bw_store = im_empty\<rparr> of
        (Inl e, _) \<Rightarrow> Inl e
      | (Inr s, _, w) \<Rightarrow>
          (if s_requires_human s \<and> opt_truthy (bs_expected_hitl_decision b) then
             (case bench_decision (clock 1 0) (str_or (bs_expected_hitl_decision b) []) s of
                Inl e \<Rightarrow> Inl e
              | Inr d \<Rightarrow> fst (resume_with_human_decision rt (clock 1 0) (\<lambda>i. clock 1 (Suc i)) s d w))
           else Inr s))"

definition run_scenario ::
    "(pyval \<Rightarrow> int option) \<Rightarrow> (pyval \<Rightarrow> exc + ExecutionPlan) \<Rightarrow> (nat \<Rightarrow> exc) \<Rightarrow> (nat \<Rightarrow> nat \<Rightarrow> tick)
     \<Rightarrow> BenchmarkScenario \<Rightarrow> exc + EvaluationResult" where
  "run_scenario to_int validate graph_error clock b =
     (case register_all [CalcTool, EchoTool, FaultyTool] [] of
        Inl e \<Rightarrow> Inl e
      | Inr reg \<Rightarrow>
          (case bench_final (bench_runtime to_int validate graph_error reg) clock b of
             Inl e \<Rightarrow> Inl e
           | Inr s \<Rightarrow> evaluate (new_engine None) (clock 2 0) s (Some b)))"

text \<open>\<open>run_all\<close>: an exception ends the whole suite.\<close>

fun run_all ::
    "(BenchmarkScenario \<Rightarrow> exc + EvaluationResult) \<Rightarrow> BenchmarkScenario list \<Rightarrow> exc + EvaluationResult list" where
  "run_all run1 [] = Inr []"
| "run_all run1 (b # bs) =
     (case run1 b of
        Inl e \<Rightarrow> Inl e
      | Inr r \<Rightarrow> (case run_all run1 bs of Inl e \<Rightarrow> Inl e | Inr rs \<Rightarrow> Inr (r # rs)))"

text \<open>\<open>load_scenarios\<close>: the files in the order of their paths; \<open>load\<close> is \<open>json.load\<close> with \<open>model_validate\<close>.\<close>

fun load_each :: "('j \<Rightarrow> exc + BenchmarkScenario) \<Rightarrow> 'j list \<Rightarrow> exc + BenchmarkScenario list" where
  "load_each load [] = Inr []"
| "load_each load (j # js) =
     (case load j of
        Inl e \<Rightarrow> Inl e
      | Inr b \<Rightarrow> (case load_each load js of Inl e \<Rightarrow> Inl e | Inr bs \<Rightarrow> Inr (b # bs)))"

definition load_scenarios :: "('j \<Rightarrow> exc + BenchmarkScenario) \<Rightarrow> (string \<times> 'j) list \<Rightarrow> exc + BenchmarkScenario list" where
  "load_scenarios load files = load_each load (map snd (sort_key fst files))"

text \<open>The last line of the report, and the exit code of the script.\<close>

record bench_summary =
  total_scenarios :: nat
  passed_scenarios :: nat
  average_score :: rat

definition benchmark_summary :: "EvaluationResult list \<Rightarrow> bench_summary" where
  "benchmark_summary results =
     \<lparr>total_scenarios = length results, passed_scenarios = length (filter ev_passed results),
      average_score = (if results = [] then 0
        else sum_list (map ev_overall_score results) / of_nat (length results))\<rparr>"

definition exit_code :: "EvaluationResult list \<Rightarrow> nat" where
  "exit_code results = (if \<not> list_all ev_passed results then 1 else 0)"

section \<open>The scenarios of the repository\<close>

text \<open>The files of \<open>src/benchmarks/scenarios\<close>.\<close>

definition benchmark_001 :: BenchmarkScenario where
  "benchmark_001 =
     \<lparr>bs_benchmark_id = ''benchmark_001_simple_rag'', bs_name = ''Single-Step Semantic Retrieval'',
      bs_description = ''Validates single retrieval query execution and Hit@1 document extraction.'',
      bs_request = ''Retrieve the enterprise vacation policy.'', bs_expected_status = ''completed'',
      bs_expected_tasks_count = Some 1, bs_expected_hitl_decision = None,
      bs_expected_ground_truth_doc_ids = Some [''doc_policy_001''], bs_min_required_score = 85/100, bs_custom_context = None\<rparr>"

definition benchmark_002 :: BenchmarkScenario where
  "benchmark_002 =
     \<lparr>bs_benchmark_id = ''benchmark_002_dependency_dag'', bs_name = ''Multi-Step Sequential DAG Execution'',
      bs_description = ''Validates 3-step sequential DAG execution with topological dependency ordering.'',
      bs_request = ''Analyze financial records and summarize insights.'', bs_expected_status = ''completed'',
      bs_expected_tasks_count = Some 3, bs_expected_hitl_decision = None,
      bs_expected_ground_truth_doc_ids = None, bs_min_required_score = 85/100, bs_custom_context = None\<rparr>"

definition benchmark_003 :: BenchmarkScenario where
  "benchmark_003 =
     \<lparr>bs_benchmark_id = ''benchmark_003_validator_retry'', bs_name = ''Critic Rejection and Bounded Retry Loop'',
      bs_description = ''Validates retry loop triggered by critic rejection followed by eventual successful completion.'',
      bs_request = ''Process data with strict schema validation.'', bs_expected_status = ''completed'',
      bs_expected_tasks_count = Some 1, bs_expected_hitl_decision = None,
      bs_expected_ground_truth_doc_ids = None, bs_min_required_score = 80/100, bs_custom_context = None\<rparr>"

definition benchmark_004 :: BenchmarkScenario where
  "benchmark_004 =
     \<lparr>bs_benchmark_id = ''benchmark_004_hitl_approval'', bs_name = ''Human-in-the-Loop Escalation and Approval'',
      bs_description = ''Validates state pausing upon human escalation and resumption following human approval.'',
      bs_request = ''Transfer funds to vendor account.'', bs_expected_status = ''completed'',
      bs_expected_tasks_count = None, bs_expected_hitl_decision = Some ''approve'',
      bs_expected_ground_truth_doc_ids = None, bs_min_required_score = 85/100, bs_custom_context = None\<rparr>"

definition benchmark_005 :: BenchmarkScenario where
  "benchmark_005 =
     \<lparr>bs_benchmark_id = ''benchmark_005_hitl_rejection'', bs_name = ''Human-in-the-Loop Rejection and Safe Termination'',
      bs_description = ''Validates state termination upon human reviewer rejection.'',
      bs_request = ''Delete production database records.'', bs_expected_status = ''failed'',
      bs_expected_tasks_count = None, bs_expected_hitl_decision = Some ''reject'',
      bs_expected_ground_truth_doc_ids = None, bs_min_required_score = 85/100, bs_custom_context = None\<rparr>"

definition benchmark_006 :: BenchmarkScenario where
  "benchmark_006 =
     \<lparr>bs_benchmark_id = ''benchmark_006_modified_retry'', bs_name = ''Human-in-the-Loop Modification and Re-execution'',
      bs_description = ''Validates state modification by reviewer followed by task re-execution and success.'',
      bs_request = ''Deploy configuration with altered parameters.'', bs_expected_status = ''completed'',
      bs_expected_tasks_count = None, bs_expected_hitl_decision = Some ''modify'',
      bs_expected_ground_truth_doc_ids = None, bs_min_required_score = 85/100, bs_custom_context = None\<rparr>"

definition benchmark_007 :: BenchmarkScenario where
  "benchmark_007 =
     \<lparr>bs_benchmark_id = ''benchmark_007_tool_failure'', bs_name = ''Tool Execution Failure Handling'',
      bs_description = ''Validates retry and failure capture when tool execution encounters errors.'',
      bs_request = ''Execute faulty external script.'', bs_expected_status = ''failed'',
      bs_expected_tasks_count = Some 1, bs_expected_hitl_decision = None,
      bs_expected_ground_truth_doc_ids = None, bs_min_required_score = 75/100, bs_custom_context = None\<rparr>"

definition suite :: "BenchmarkScenario list" where
  "suite = [benchmark_001, benchmark_002, benchmark_003, benchmark_004, benchmark_005, benchmark_006, benchmark_007]"

text \<open>Every reading of the clock differs from the others, and so do the identifiers.\<close>

definition bench_clock :: "nat \<Rightarrow> nat \<Rightarrow> tick" where
  "bench_clock p i = \<lparr>k_now = i, k_elapsed = 0, k_uid = (\<lambda>j. show_nat p @ ''-'' @ show_nat i @ ''-'' @ show_nat j)\<rparr>"

definition bench_run :: "BenchmarkScenario \<Rightarrow> exc + EvaluationResult" where
  "bench_run = run_scenario ex_to_int load_plan (\<lambda>n. mk_Foreign ''GraphRecursionError'' []) bench_clock"


section \<open>What holds of every benchmark run\<close>

lemma bench_plan_small:
  "length (pd_tasks (fake_plan t)) \<le> 3" "list_all (\<lambda>i. pt_task_type i \<noteq> TaskType.PLANNING) (pd_tasks (fake_plan t))"
  by (simp_all add: fake_plan_def Let_def bench_item_def)

text \<open>The planner's check accepts every scripted plan.\<close>

lemma bench_plan_valid: "validate_plan_dag (fake_plan t) = Inr ()"
proof -
  have fin: "validate_plan_dag (fake_plan ''financial'') = Inr ()" by code_simp
  have fau: "validate_plan_dag (fake_plan ''faulty'') = Inr ()" by code_simp
  have vac: "validate_plan_dag (fake_plan ''vacation'') = Inr ()" by code_simp
  have oth: "validate_plan_dag (fake_plan []) = Inr ()" by code_simp
  have no: "\<not> sublist ''financial'' ''faulty''" "sublist ''faulty'' ''faulty''" "sublist ''financial'' ''financial''"
    "\<not> sublist ''financial'' ''vacation''" "\<not> sublist ''faulty'' ''vacation''" "sublist ''vacation'' ''vacation''"
    by code_simp+
  consider "fake_plan t = fake_plan ''financial''" | "fake_plan t = fake_plan ''faulty''"
    | "fake_plan t = fake_plan ''vacation''" | "fake_plan t = fake_plan []"
    unfolding fake_plan_def Let_def
    by (cases "sublist ''financial'' t"; cases "sublist ''faulty'' t";
        cases "sublist ''vacation'' t \<or> sublist ''retrieve'' t") (simp_all add: no)
  then show ?thesis using fin fau vac oth by cases (simp_all only:)
qed

lemma bench_answer:
  assumes "generate_structured (bench_router answer) req None w = (Inr (x, resp), w')"
  shows "\<exists>t n n'. answer t n = (x, n')"
proof -
  have nr: "\<not> is_retryable_failure (mk_Foreign c m)" for c m
    by (simp add: is_retryable_failure_def mk_Foreign_def isinstance_simps)
  have "fst (answer (py_lower (msg_content (last (q_messages req)))) (bw_retry_counter w)) = x" using assms
    by (auto simp: generate_structured_def bench_router_def new_router_def primary_of_def route_loop.simps get_provider_def
        fake_structured_def nr Let_def split: if_splits prod.splits)
  then show ?thesis by (metis prod.collapse)
qed

lemma bench_small: "small_decompositions (bench_router (\<lambda>t n. (fake_plan t, n))) 3"
  unfolding small_decompositions_def
proof (intro allI impI)
  fix req w d resp w'
  assume "generate_structured (bench_router (\<lambda>t n. (fake_plan t, n))) req None w = (Inr (d, resp), w')"
  from bench_answer[OF this] show "length (pd_tasks d) \<le> 3 \<and> list_all (\<lambda>t. pt_task_type t \<noteq> TaskType.PLANNING) (pd_tasks d)"
    using bench_plan_small by auto
qed

text \<open>Whatever a scenario asks, the scripted run ends within the 50 node executions the runtime allows.\<close>

theorem benchmark_run_returns:
  assumes "revalidates_dumps validate" "s_plan s = None"
  shows "returns (fst (run_graph (bench_nodes to_int validate reg) ks 50 (start_state s None) w))"
  unfolding bench_nodes_def by (rule default_run_returns[OF assms(1) bench_small assms(2)]) simp

text \<open>The scorers do not look at the expected status of a scenario, nor at its expected number of tasks.\<close>

lemma expectation_ignored:
  "evaluate default_scorers k s (Some (b\<lparr>bs_expected_status := x, bs_expected_tasks_count := c\<rparr>))
     = evaluate default_scorers k s (Some b)"
proof -
  let ?b = "b\<lparr>bs_expected_status := x, bs_expected_tasks_count := c\<rparr>"
  have "plan_feasibility s (Some ?b) = plan_feasibility s (Some b)" unfolding plan_feasibility_def ..
  moreover have "retrieval_relevance s (Some ?b) = retrieval_relevance s (Some b)"
  proof -
    have "ground_truth (Some ?b) = ground_truth (Some b)" by (simp add: ground_truth_def)
    then show ?thesis unfolding retrieval_relevance_def by (simp only:)
  qed
  moreover have "validator_fidelity s (Some ?b) = validator_fidelity s (Some b)" unfolding validator_fidelity_def ..
  moreover have "hitl_compliance s (Some ?b) = hitl_compliance s (Some b)"
  proof -
    have e: "bs_expected_hitl_decision ?b = bs_expected_hitl_decision b" by simp
    show ?thesis unfolding hitl_compliance_def option.case e ..
  qed
  ultimately have "run_scorer sc s (Some ?b) = run_scorer sc s (Some b)" if "sc \<in> set default_scorers" for sc
    using that by (auto simp: default_scorers_def run_scorer_def)
  then have m: "map (\<lambda>sc. run_scorer sc s (Some ?b)) default_scorers = map (\<lambda>sc. run_scorer sc s (Some b)) default_scorers"
    by (rule map_cong[OF refl])
  have sel: "bs_min_required_score ?b = bs_min_required_score b" "bs_benchmark_id ?b = bs_benchmark_id b" "bs_name ?b = bs_name b"
    by simp_all
  show ?thesis unfolding evaluate_def m option.case option.map sel ..
qed

theorem benchmark_run_returns_witness:
  "returns (fst (run_graph (bench_nodes ex_to_int load_plan []) ex_tick 50 (start_state ex_state None)
     \<lparr>bw_retry_counter = 0, bw_store = im_empty\<rparr>))"
  by (rule benchmark_run_returns[OF load_revalidates]) (simp add: ex_state_def create_initial_def)

end
