(* ===== verification/Otel.thy ===== *)
theory Otel
  imports Tracing
begin

text \<open>
  The OpenTelemetry adapter (\<open>observability/tracing/opentelemetry_adapter.py\<close>). The OpenTelemetry SDK is a
  parameter: a function that answers each call the adapter makes, with an exception or with the handle of
  a span, and whose own state is any type. The clock readings are rationals, so \<open>int(t * 1e9)\<close> is exact.
\<close>

section \<open>The calls of the SDK\<close>

datatype otel_kind = CLIENT | SERVER | INTERNAL

datatype otel_status = Status_error string | Status_ok

datatype 'h otel_call =
    Create_provider string
  | Add_custom_exporter
  | Add_otlp_exporter string pyval rat
  | Get_tracer string string
  | Start_otel_span string "otel_kind option" int dict
  | Set_status 'h otel_status
  | Add_otel_event 'h pyval pyval int
  | End_otel_span 'h int
  | Shutdown_provider

type_synonym ('h, 'k) sdk = "'h otel_call \<Rightarrow> 'k \<Rightarrow> (exc + 'h) \<times> 'k"

record 'h OpenTelemetryTracer =
  ot_base :: tracer
  ot_service_name :: string
  ot_otlp_endpoint :: "string option"
  ot_otlp_headers :: pyval
  ot_timeout_seconds :: rat
  ot_enabled :: bool
  ot_active :: "(string \<times> 'h) list"
  ot_has_provider :: bool
  ot_has_tracer :: bool

type_synonym ('h, 'k) otel_state = "'h OpenTelemetryTracer \<times> 'k"

section \<open>Calls in sequence, and what is caught\<close>

definition call_sdk :: "('h, 'k) sdk \<Rightarrow> 'h otel_call \<Rightarrow> ('h, 'k) otel_state \<Rightarrow> (exc + 'h) \<times> ('h, 'k) otel_state" where
  "call_sdk sdk c st = (case sdk c (snd st) of (x, k) \<Rightarrow> (x, fst st, k))"

definition and_then :: "('s \<Rightarrow> (exc + 'a) \<times> 's) \<Rightarrow> ('a \<Rightarrow> 's \<Rightarrow> (exc + 'b) \<times> 's) \<Rightarrow> 's \<Rightarrow> (exc + 'b) \<times> 's" where
  "and_then f g st = (case f st of (Inl e, st1) \<Rightarrow> (Inl e, st1) | (Inr x, st1) \<Rightarrow> g x st1)"

definition change :: "('s \<Rightarrow> 's) \<Rightarrow> 's \<Rightarrow> (exc + unit) \<times> 's" where
  "change f st = (Inr (), f st)"

text \<open>\<open>try: ... except Exception: <handler>\<close>; the handlers log and go on.\<close>

definition catching :: "('s \<Rightarrow> (exc + 'a) \<times> 's) \<Rightarrow> ('s \<Rightarrow> 's) \<Rightarrow> 's \<Rightarrow> (exc + unit) \<times> 's" where
  "catching f handler st =
     (case f st of
        (Inr _, st1) \<Rightarrow> (Inr (), st1)
      | (Inl e, st1) \<Rightarrow> if is_exception e then (Inr (), handler st1) else (Inl e, st1))"

section \<open>Construction\<close>

definition otlp_exporter :: "('h, 'k) sdk \<Rightarrow> ('h, 'k) otel_state \<Rightarrow> (exc + unit) \<times> ('h, 'k) otel_state" where
  "otlp_exporter sdk st =
     (let t = fst st in
      catching (call_sdk sdk (Add_otlp_exporter (str_or (ot_otlp_endpoint t) [])
          (if truthy (ot_otlp_headers t) then ot_otlp_headers t else PDict []) (ot_timeout_seconds t))) id st)"

definition init_otel_provider :: "('h, 'k) sdk \<Rightarrow> bool \<Rightarrow> ('h, 'k) otel_state \<Rightarrow> (exc + unit) \<times> ('h, 'k) otel_state" where
  "init_otel_provider sdk custom_exporter st =
     (let t = fst st in
      catching
        (and_then (call_sdk sdk (Create_provider (ot_service_name t))) (\<lambda>_.
         and_then (change (apfst (\<lambda>t. t\<lparr>ot_has_provider := True\<rparr>))) (\<lambda>_.
         and_then (if custom_exporter then and_then (call_sdk sdk Add_custom_exporter) (\<lambda>_. change id)
                   else if opt_truthy (ot_otlp_endpoint t) then otlp_exporter sdk
                   else change id) (\<lambda>_.
         and_then (call_sdk sdk (Get_tracer ''enterprise_orchestrator'' ''0.1.0'')) (\<lambda>_.
         change (apfst (\<lambda>t. t\<lparr>ot_has_tracer := True\<rparr>)))))))
        (apfst (\<lambda>t. t\<lparr>ot_enabled := False\<rparr>)) st)"

text \<open>\<open>has_otel\<close> tells whether the package could be imported.\<close>

definition new_otel_tracer ::
    "bool \<Rightarrow> ('h, 'k) sdk \<Rightarrow> string \<Rightarrow> string option \<Rightarrow> pyval \<Rightarrow> rat \<Rightarrow> bool \<Rightarrow> redactor option \<Rightarrow> bool \<Rightarrow> 'k
     \<Rightarrow> (exc + unit) \<times> ('h, 'k) otel_state" where
  "new_otel_tracer has_otel sdk service_name otlp_endpoint otlp_headers timeout_seconds custom_exporter r enabled k =
     (let t = \<lparr>ot_base = new_tracer r, ot_service_name = service_name, ot_otlp_endpoint = otlp_endpoint,
               ot_otlp_headers = otlp_headers, ot_timeout_seconds = timeout_seconds, ot_enabled = enabled \<and> has_otel,
               ot_active = [], ot_has_provider = False, ot_has_tracer = False\<rparr>
      in if ot_enabled t then init_otel_provider sdk custom_exporter (t, k) else (Inr (), t, k))"

section \<open>Recording\<close>

definition map_span_kind :: "SpanKind \<Rightarrow> otel_kind" where
  "map_span_kind kind =
     (if kind \<in> {LLM, TOOL, RETRIEVAL} then CLIENT else if kind = WORKFLOW then SERVER else INTERNAL)"

text \<open>\<open>int(x)\<close> of a float, and \<open>int(v * 1e9)\<close>, whose \<open>TypeError\<close> is only logged.\<close>

definition int_of_float :: "rat \<Rightarrow> int" where
  "int_of_float x = (if x < 0 then - \<lfloor>- x\<rfloor> else \<lfloor>x\<rfloor>)"

definition nanoseconds :: "rat \<Rightarrow> int" where
  "nanoseconds t = int_of_float (t * 1000000000)"

definition nanoseconds_of :: "pyval \<Rightarrow> exc + int" where
  "nanoseconds_of v =
     (case num_of v of
        Some t \<Rightarrow> Inr (nanoseconds t)
      | None \<Rightarrow> Inl (mk_Foreign ''TypeError''
          (case v of
             PStr _ \<Rightarrow> ''cannot multiply sequence by non-int of type float''
           | PList _ \<Rightarrow> ''cannot multiply sequence by non-int of type float''
           | _ \<Rightarrow> ''unsupported operand types for *'')))"

definition otel_record_start :: "('h, 'k) sdk \<Rightarrow> Span \<Rightarrow> ('h, 'k) otel_state \<Rightarrow> (exc + unit) \<times> ('h, 'k) otel_state" where
  "otel_record_start sdk s st =
     (let t = fst st in
      if \<not> ot_enabled t \<or> \<not> ot_has_tracer t then (Inr (), st)
      else catching
        (and_then (call_sdk sdk (Start_otel_span (spn_name s) (Some (map_span_kind (spn_kind s)))
             (nanoseconds (spn_start_time s)) (redact_dict (tc_redactor (ot_base t)) (spn_attributes s)))) (\<lambda>h.
         change (apfst (\<lambda>t. t\<lparr>ot_active := AList.update (spn_span_id s) h (ot_active t)\<rparr>)))) id st)"

definition end_or_start :: "Span \<Rightarrow> rat" where
  "end_or_start s = (case spn_end_time s of Some t \<Rightarrow> if t = 0 then spn_start_time s else t | None \<Rightarrow> spn_start_time s)"

fun add_otel_events ::
    "('h, 'k) sdk \<Rightarrow> 'h \<Rightarrow> Span \<Rightarrow> dict list \<Rightarrow> ('h, 'k) otel_state \<Rightarrow> (exc + unit) \<times> ('h, 'k) otel_state" where
  "add_otel_events sdk h s [] st = (Inr (), st)"
| "add_otel_events sdk h s (ev # evs) st =
     (let attrs = redact (tc_redactor (ot_base (fst st))) (dget ev ''attributes'' (PDict [])) in
      case nanoseconds_of (dget ev ''timestamp'' (PFloat (end_or_start s))) of
        Inl e \<Rightarrow> (Inl e, st)
      | Inr ns \<Rightarrow>
          and_then (call_sdk sdk (Add_otel_event h (dget ev ''name'' (PStr ''event'')) attrs ns))
            (\<lambda>_. add_otel_events sdk h s evs) st)"

definition otel_record_end :: "('h, 'k) sdk \<Rightarrow> Span \<Rightarrow> ('h, 'k) otel_state \<Rightarrow> (exc + unit) \<times> ('h, 'k) otel_state" where
  "otel_record_end sdk s st =
     (let t = fst st;
          otel_span = map_of (ot_active t) (spn_span_id s);
          t1 = t\<lparr>ot_base := record_end s (ot_base t), ot_active := AList.delete (spn_span_id s) (ot_active t)\<rparr>
      in case otel_span of
           None \<Rightarrow> (Inr (), t1, snd st)
         | Some h \<Rightarrow>
             if \<not> ot_enabled t then (Inr (), t1, snd st)
             else catching
               (and_then (call_sdk sdk (Set_status h
                    (if spn_status s = ERROR then Status_error (str_or (spn_error_message s) ''Error'') else Status_ok))) (\<lambda>_.
                and_then (add_otel_events sdk h s (spn_events s)) (\<lambda>_.
                call_sdk sdk (End_otel_span h (nanoseconds (end_or_start s)))))) id (t1, snd st))"

section \<open>The inherited operations, reading and closing\<close>

definition otel_start_span ::
    "('h, 'k) sdk \<Rightarrow> scope_args \<Rightarrow> string option \<Rightarrow> string option \<Rightarrow> fresh \<Rightarrow> ('h, 'k) otel_state
     \<Rightarrow> (exc + Span) \<times> ('h, 'k) otel_state" where
  "otel_start_span sdk a trace_id parent_span_id fr st =
     (let s = start_span a trace_id parent_span_id fr (ot_base (fst st))
      in and_then (otel_record_start sdk s) (\<lambda>_ st1. (Inr s, st1)) st)"

definition otel_end_span ::
    "('h, 'k) sdk \<Rightarrow> Span \<Rightarrow> SpanStatus \<Rightarrow> string option \<Rightarrow> rat \<Rightarrow> ('h, 'k) otel_state
     \<Rightarrow> (exc + unit) \<times> ('h, 'k) otel_state" where
  "otel_end_span sdk s status error now = otel_record_end sdk (finish_span status error now s)"

definition otel_get_spans :: "string option \<Rightarrow> string option \<Rightarrow> 'h OpenTelemetryTracer \<Rightarrow> Span list" where
  "otel_get_spans trace_id run_id t = get_spans trace_id run_id (ot_base t)"

definition otel_clear :: "'h OpenTelemetryTracer \<Rightarrow> 'h OpenTelemetryTracer" where
  "otel_clear t = t\<lparr>ot_base := clear_spans (ot_base t), ot_active := []\<rparr>"

definition otel_shutdown :: "('h, 'k) sdk \<Rightarrow> ('h, 'k) otel_state \<Rightarrow> (exc + unit) \<times> ('h, 'k) otel_state" where
  "otel_shutdown sdk st =
     (if ot_has_provider (fst st) then catching (call_sdk sdk Shutdown_provider) id st else (Inr (), st))"

section \<open>Telemetry never fails the traced code\<close>

text \<open>What the code that traces can do with its tracer; the spans it ends are the values it holds.\<close>

datatype trace_op =
    T_start scope_args "string option" "string option" fresh
  | T_end Span SpanStatus "string option" rat
  | T_context "TraceContext option"
  | T_clear
  | T_shutdown

text \<open>The operations on the in-memory tracer, and on the adapter; only a start has an answer.\<close>

fun memory_op :: "trace_op \<Rightarrow> tracer \<Rightarrow> Span option \<times> tracer" where
  "memory_op (T_start a t p fr) tr = (Some (start_span a t p fr tr), tr)"
| "memory_op (T_end s status error now) tr = (None, end_span s status error now tr)"
| "memory_op (T_context c) tr = (None, tr\<lparr>tc_context := c\<rparr>)"
| "memory_op T_clear tr = (None, clear_spans tr)"
| "memory_op T_shutdown tr = (None, tr)"

fun otel_op :: "('h, 'k) sdk \<Rightarrow> trace_op \<Rightarrow> ('h, 'k) otel_state \<Rightarrow> (exc + Span option) \<times> ('h, 'k) otel_state" where
  "otel_op sdk (T_start a t p fr) st = and_then (otel_start_span sdk a t p fr) (\<lambda>s st1. (Inr (Some s), st1)) st"
| "otel_op sdk (T_end s status error now) st = and_then (otel_end_span sdk s status error now) (\<lambda>_ st1. (Inr None, st1)) st"
| "otel_op sdk (T_context c) st = (Inr None, apfst (\<lambda>t. t\<lparr>ot_base := ot_base t\<lparr>tc_context := c\<rparr>\<rparr>) st)"
| "otel_op sdk T_clear st = (Inr None, apfst otel_clear st)"
| "otel_op sdk T_shutdown st = and_then (otel_shutdown sdk) (\<lambda>_ st1. (Inr None, st1)) st"

fun memory_ops :: "trace_op list \<Rightarrow> tracer \<Rightarrow> Span option list \<times> tracer" where
  "memory_ops [] tr = ([], tr)"
| "memory_ops (x # xs) tr =
     (case memory_op x tr of (s, tr1) \<Rightarrow> case memory_ops xs tr1 of (ss, tr2) \<Rightarrow> (s # ss, tr2))"

text \<open>The answers up to the first exception that reaches the traced code, if one does.\<close>

fun otel_ops ::
    "('h, 'k) sdk \<Rightarrow> trace_op list \<Rightarrow> ('h, 'k) otel_state \<Rightarrow> Span option list \<times> exc option \<times> ('h, 'k) otel_state" where
  "otel_ops sdk [] st = ([], None, st)"
| "otel_ops sdk (x # xs) st =
     (case otel_op sdk x st of
        (Inl e, st1) \<Rightarrow> ([], Some e, st1)
      | (Inr s, st1) \<Rightarrow> (case otel_ops sdk xs st1 of (ss, e, st2) \<Rightarrow> (s # ss, e, st2)))"

text \<open>The SDK raises exceptions, it does not end the process.\<close>

definition at_worst_exception :: "exc + 'a \<Rightarrow> bool" where
  "at_worst_exception x \<longleftrightarrow> (case x of Inl e \<Rightarrow> is_exception e | Inr _ \<Rightarrow> True)"

lemma at_worst_exception_simps [simp]:
  "at_worst_exception (Inl e) \<longleftrightarrow> is_exception e" "at_worst_exception (Inr a)"
  by (simp_all add: at_worst_exception_def)

definition raises_only_exceptions :: "('h, 'k) sdk \<Rightarrow> bool" where
  "raises_only_exceptions sdk \<longleftrightarrow> (\<forall>c k. at_worst_exception (fst (sdk c k)))"

text \<open>
  A step is quiet with respect to a part of the state when, whatever it calls, it keeps that part and lets
  nothing but exceptions pass. Quiet steps are closed under sequence, and caught they pass nothing.
\<close>

definition quiet :: "('s \<Rightarrow> 'b) \<Rightarrow> ('s \<Rightarrow> (exc + 'a) \<times> 's) \<Rightarrow> bool" where
  "quiet p f \<longleftrightarrow> (\<forall>st. p (snd (f st)) = p st \<and> at_worst_exception (fst (f st)))"

named_theorems quiet_steps

lemma quietD: "quiet p f \<Longrightarrow> f st = (x, st') \<Longrightarrow> p st' = p st \<and> at_worst_exception x"
  unfolding quiet_def by (metis fst_conv snd_conv)

lemma quiet_at: "(\<And>t. quiet p (g t)) \<Longrightarrow> quiet p (\<lambda>st. g (r st) st)"
  unfolding quiet_def by blast

lemma quiet_and_then [quiet_steps]:
  assumes "quiet p f" "\<And>x. quiet p (g x)"
  shows "quiet p (and_then f g)"
  unfolding quiet_def
proof
  fix st
  obtain y st1 where f: "f st = (y, st1)" by (metis prod.exhaust)
  show "p (snd (and_then f g st)) = p st \<and> at_worst_exception (fst (and_then f g st))"
  proof (cases y)
    case (Inl e)
    then show ?thesis using quietD[OF assms(1) f] by (simp add: and_then_def f)
  next
    case (Inr a)
    then show ?thesis using quietD[OF assms(1) f] assms(2)[of a] by (simp add: and_then_def f quiet_def)
  qed
qed

lemma quiet_change: "(\<And>st. p (h st) = p st) \<Longrightarrow> quiet p (change h)"
  by (simp add: quiet_def change_def)

lemma catching_quiet:
  assumes "quiet p f" "\<And>st. p (h st) = p st"
  shows "fst (catching f h st) = Inr () \<and> p (snd (catching f h st)) = p st"
proof -
  obtain y st1 where f: "f st = (y, st1)" by (metis prod.exhaust)
  show ?thesis using assms(2) quietD[OF assms(1) f] by (cases y) (simp_all add: catching_def f)
qed

lemma quiet_catching [quiet_steps]: "quiet p f \<Longrightarrow> (\<And>st. p (h st) = p st) \<Longrightarrow> quiet p (catching f h)"
  by (simp add: quiet_def[of p "catching f h"] catching_quiet)

lemma quiet_if [quiet_steps]: "quiet p f \<Longrightarrow> quiet p g \<Longrightarrow> quiet p (if b then f else g)"
  by simp

text \<open>The tracer inside the adapter.\<close>

abbreviation inner :: "('h, 'k) otel_state \<Rightarrow> tracer" where
  "inner st \<equiv> ot_base (fst st)"

lemma inner_unchanged [simp]:
  "inner (apfst (\<lambda>t. t\<lparr>ot_has_provider := b\<rparr>) st) = inner st" "inner (apfst (\<lambda>t. t\<lparr>ot_has_tracer := b\<rparr>) st) = inner st"
  "inner (apfst (\<lambda>t. t\<lparr>ot_enabled := b\<rparr>) st) = inner st" "inner (apfst (\<lambda>t. t\<lparr>ot_active := g t\<rparr>) st) = inner st"
  by simp_all

lemma quiet_fields [quiet_steps]:
  "quiet inner (change (apfst (\<lambda>t. t\<lparr>ot_has_provider := b\<rparr>)))" "quiet inner (change (apfst (\<lambda>t. t\<lparr>ot_has_tracer := b\<rparr>)))"
  "quiet inner (change (apfst (\<lambda>t. t\<lparr>ot_active := g t\<rparr>)))" "quiet inner (change id)"
  by (rule quiet_change, simp)+

lemma quiet_call [quiet_steps]: "raises_only_exceptions sdk \<Longrightarrow> quiet inner (call_sdk sdk c)"
  by (simp add: quiet_def call_sdk_def raises_only_exceptions_def case_prod_beta)

lemma quiet_add_otel_events [quiet_steps]: "raises_only_exceptions sdk \<Longrightarrow> quiet inner (add_otel_events sdk h s evs)"
proof (induction evs)
  case Nil
  then show ?case by (simp add: quiet_def)
next
  case (Cons ev evs)
  have e: "at_worst_exception (nanoseconds_of v)" for v
    by (simp add: nanoseconds_of_def is_exception_def mk_Foreign_def split: option.split)
  have q: "quiet inner (\<lambda>st. case x of Inl e \<Rightarrow> (Inl e, st)
      | Inr ns \<Rightarrow> and_then (call_sdk sdk (Add_otel_event h n a ns)) (\<lambda>_. add_otel_events sdk h s evs) st)"
    if "at_worst_exception x" for x n a
    using that quiet_and_then[OF quiet_call[OF Cons.prems] Cons.IH[OF Cons.prems]] by (cases x) (simp_all add: quiet_def)
  show ?case unfolding quiet_def
  proof
    fix st
    show "inner (snd (add_otel_events sdk h s (ev # evs) st)) = inner st
        \<and> at_worst_exception (fst (add_otel_events sdk h s (ev # evs) st))"
      using q[OF e, unfolded quiet_def] unfolding add_otel_events.simps Let_def by blast
  qed
qed

lemma quiet_otlp [quiet_steps]: "raises_only_exceptions sdk \<Longrightarrow> quiet inner (otlp_exporter sdk)"
  unfolding otlp_exporter_def Let_def by (rule quiet_at, intro quiet_steps) simp_all

text \<open>Construction and each operation pass nothing, and do to the tracer inside what the in-memory tracer does.\<close>

lemma init_quiet:
  assumes "raises_only_exceptions sdk"
  shows "fst (init_otel_provider sdk custom st) = Inr () \<and> inner (snd (init_otel_provider sdk custom st)) = inner st"
  unfolding init_otel_provider_def Let_def
  by (rule catching_quiet) (intro quiet_steps assms, rule inner_unchanged)

lemma start_quiet:
  assumes "raises_only_exceptions sdk"
  shows "fst (otel_record_start sdk s st) = Inr () \<and> inner (snd (otel_record_start sdk s st)) = inner st"
proof (cases "\<not> ot_enabled (fst st) \<or> \<not> ot_has_tracer (fst st)")
  case True
  then show ?thesis unfolding otel_record_start_def Let_def by simp
next
  case False
  show ?thesis unfolding otel_record_start_def Let_def if_not_P[OF False]
    by (rule catching_quiet) (intro quiet_steps assms, rule id_apply[THEN arg_cong])
qed

lemma end_quiet:
  assumes "raises_only_exceptions sdk"
  shows "fst (otel_record_end sdk s st) = Inr () \<and> inner (snd (otel_record_end sdk s st)) = record_end s (inner st)"
proof -
  define st1 where "st1 = ((fst st)\<lparr>ot_base := record_end s (inner st), ot_active := AList.delete (spn_span_id s) (ot_active (fst st))\<rparr>, snd st)"
  have i: "inner st1 = record_end s (inner st)" by (simp add: st1_def)
  have "fst (catching (and_then (call_sdk sdk c) (\<lambda>_. and_then (add_otel_events sdk h s evs) (\<lambda>_. call_sdk sdk d))) id st1) = Inr ()
      \<and> inner (snd (catching (and_then (call_sdk sdk c) (\<lambda>_. and_then (add_otel_events sdk h s evs) (\<lambda>_. call_sdk sdk d))) id st1)) = inner st1"
    for c d evs h by (rule catching_quiet) (intro quiet_steps assms, rule id_apply[THEN arg_cong])
  then show ?thesis unfolding otel_record_end_def Let_def st1_def[symmetric]
    by (cases "map_of (ot_active (fst st)) (spn_span_id s)"; cases "ot_enabled (fst st)") (simp_all only: option.case if_True if_False i fst_conv snd_conv st1_def[symmetric] not_True_eq_False not_False_eq_True simp_thms)
qed

lemma shutdown_quiet:
  assumes "raises_only_exceptions sdk"
  shows "fst (otel_shutdown sdk st) = Inr () \<and> inner (snd (otel_shutdown sdk st)) = inner st"
proof (cases "ot_has_provider (fst st)")
  case True
  show ?thesis unfolding otel_shutdown_def if_P[OF True]
    by (rule catching_quiet) (intro quiet_steps assms, rule id_apply[THEN arg_cong])
qed (simp add: otel_shutdown_def)

lemma and_then_Inr: "fst (f st) = Inr x \<Longrightarrow> and_then f g st = g x (snd (f st))"
  unfolding and_then_def by (cases "f st") simp

lemma op_simulates:
  assumes "raises_only_exceptions sdk"
  shows "fst (otel_op sdk x st) = Inr (fst (memory_op x (inner st))) \<and> inner (snd (otel_op sdk x st)) = snd (memory_op x (inner st))"
proof (cases x)
  case (T_start a t p fr)
  then show ?thesis
    using start_quiet[OF assms, of "start_span a t p fr (inner st)" st]
    by (simp add: otel_start_span_def and_then_Inr Let_def)
next
  case (T_end s status error now)
  then show ?thesis
    using end_quiet[OF assms, of "finish_span status error now s" st]
    by (simp add: otel_end_span_def end_span_def and_then_Inr)
next
  case T_shutdown
  then show ?thesis using shutdown_quiet[OF assms, of st] by (simp add: and_then_Inr)
qed (simp_all add: otel_clear_def)

lemma ops_simulate:
  assumes "raises_only_exceptions sdk"
  shows "\<exists>st'. otel_ops sdk xs st = (fst (memory_ops xs (inner st)), None, st') \<and> inner st' = snd (memory_ops xs (inner st))"
proof (induction xs arbitrary: st)
  case (Cons x xs)
  obtain st1 where one: "otel_op sdk x st = (Inr (fst (memory_op x (inner st))), st1)" "inner st1 = snd (memory_op x (inner st))"
    using op_simulates[OF assms, of x st] by (metis prod.collapse)
  obtain st2 where "otel_ops sdk xs st1 = (fst (memory_ops xs (inner st1)), None, st2)" "inner st2 = snd (memory_ops xs (inner st1))"
    using Cons by blast
  then show ?case using one by (simp add: case_prod_beta)
qed simp

lemma new_otel_quiet:
  assumes "raises_only_exceptions sdk" "new_otel_tracer has_otel sdk service endpoint hdrs timeout custom r enabled k = (x, st)"
  shows "x = Inr () \<and> inner st = new_tracer r"
proof -
  define t where "t = (\<lparr>ot_base = new_tracer r, ot_service_name = service, ot_otlp_endpoint = endpoint, ot_otlp_headers = hdrs,
      ot_timeout_seconds = timeout, ot_enabled = enabled \<and> has_otel, ot_active = [], ot_has_provider = False,
      ot_has_tracer = False\<rparr> :: 'a OpenTelemetryTracer)"
  have "inner (t, k) = new_tracer r" by (simp add: t_def)
  moreover have "(if ot_enabled t then init_otel_provider sdk custom (t, k) else (Inr (), t, k)) = (x, st)"
    using assms(2) unfolding new_otel_tracer_def Let_def t_def .
  ultimately show ?thesis
    using init_quiet[OF assms(1), of custom "(t, k)"] by (cases "ot_enabled t") (simp_all only: if_True if_False prod.inject fst_conv snd_conv, auto)
qed

text \<open>C37: telemetry is isolated: whatever the OpenTelemetry SDK does, at construction and at every later call,
  as long as it only raises exceptions, no exception reaches the traced code, each span is started exactly as by
  the in-memory tracer, and after any sequence of operations the finished spans that can be retrieved are those
  the in-memory tracer would hold.\<close>

theorem otel_failure_isolated:
  assumes "raises_only_exceptions sdk"
    and "new_otel_tracer has_otel sdk service endpoint hdrs timeout custom r enabled k = (x, st)"
  shows "x = Inr ()
    \<and> (\<exists>t' k'. otel_ops sdk ops st = (fst (memory_ops ops (new_tracer r)), None, t', k')
        \<and> otel_get_spans trace_id run_id t' = get_spans trace_id run_id (snd (memory_ops ops (new_tracer r))))"
proof -
  have x: "x = Inr ()" "inner st = new_tracer r" using new_otel_quiet[OF assms] by simp_all
  obtain st' where "otel_ops sdk ops st = (fst (memory_ops ops (new_tracer r)), None, st')"
    "inner st' = snd (memory_ops ops (new_tracer r))"
    using ops_simulate[OF assms(1), of ops st] unfolding x(2) by blast
  then show ?thesis using x(1) by (cases st') (simp add: otel_get_spans_def)
qed

text \<open>An SDK that fails at every third call.\<close>

definition ex_sdk :: "(nat, nat) sdk" where
  "ex_sdk c n = (if n mod 3 = 2 then Inl (mk_Foreign ''RuntimeError'' ''exporter'') else Inr n, Suc n)"

definition ex_ops :: "trace_op list" where
  "ex_ops =
     [T_start (ex_args ''a'') None None (ex_ids 1), T_end (start_span (ex_args ''a'') None None (ex_ids 1) (new_tracer None)) OK None 2]"

theorem otel_failure_isolated_witness:
  "\<exists>t' k'. otel_ops ex_sdk ex_ops (snd (new_otel_tracer True ex_sdk ''svc'' None PNone 5 False None True 0))
     = (fst (memory_ops ex_ops (new_tracer None)), None, t', k')
     \<and> otel_get_spans None None t' = get_spans None None (snd (memory_ops ex_ops (new_tracer None)))"
proof -
  have "raises_only_exceptions ex_sdk"
    by (simp add: raises_only_exceptions_def ex_sdk_def is_exception_def mk_Foreign_def)
  from otel_failure_isolated[OF this surjective_pairing, of True "''svc''" None PNone 5 False None True 0 ex_ops None None]
  show ?thesis by blast
qed

section \<open>What leaves the process\<close>

text \<open>The SDK with a log of the calls it was given.\<close>

definition logged :: "('h, 'k) sdk \<Rightarrow> ('h, 'h otel_call list \<times> 'k) sdk" where
  "logged sdk c lk = (case sdk c (snd lk) of (x, k) \<Rightarrow> (x, fst lk @ [c], k))"

fun call_shielded :: "'h otel_call \<Rightarrow> bool" where
  "call_shielded (Start_otel_span name kind start attrs) = shielded default_redactor (PDict attrs)"
| "call_shielded (Add_otel_event h name attrs ns) = shielded default_redactor attrs"
| "call_shielded c = True"

abbreviation calls :: "('h, 'h otel_call list \<times> 'k) otel_state \<Rightarrow> 'h otel_call list" where
  "calls st \<equiv> fst (snd st)"

text \<open>Steps that keep a condition on the state; one step may depend on the state it starts from.\<close>

definition keeps :: "('s \<Rightarrow> bool) \<Rightarrow> ('s \<Rightarrow> 'x \<times> 's) \<Rightarrow> bool" where
  "keeps I f \<longleftrightarrow> (\<forall>st. I st \<longrightarrow> I (snd (f st)))"

lemma keepsD: "keeps I f \<Longrightarrow> I st \<Longrightarrow> f st = (x, st') \<Longrightarrow> I st'"
  unfolding keeps_def by (metis snd_conv)

lemma keeps_and_then:
  assumes "keeps I f" "\<And>x. keeps I (g x)"
  shows "keeps I (and_then f g)"
  unfolding keeps_def
proof (intro allI impI)
  fix st assume st: "I st"
  obtain y st1 where f: "f st = (y, st1)" by (metis prod.exhaust)
  show "I (snd (and_then f g st))"
    using keepsD[OF assms(1) st f] assms(2) by (cases y) (simp_all add: and_then_def f keeps_def)
qed

lemma keeps_catching:
  assumes "keeps I f" "keeps I (change h)"
  shows "keeps I (catching f h)"
  unfolding keeps_def
proof (intro allI impI)
  fix st assume st: "I st"
  obtain y st1 where f: "f st = (y, st1)" by (metis prod.exhaust)
  show "I (snd (catching f h st))"
    using keepsD[OF assms(1) st f] assms(2) by (cases y) (simp_all add: catching_def f keeps_def change_def)
qed

lemma keeps_at: "(\<And>st0. I st0 \<Longrightarrow> keeps I (g st0)) \<Longrightarrow> keeps I (\<lambda>st. g st st)"
  unfolding keeps_def by blast

lemma keeps_if: "keeps I f \<Longrightarrow> keeps I g \<Longrightarrow> keeps I (if b then f else g)"
  by simp

text \<open>The condition here: the default redactor is in place and every call made so far is shielded.\<close>

definition sent_shielded :: "('h, 'h otel_call list \<times> 'k) otel_state \<Rightarrow> bool" where
  "sent_shielded st \<longleftrightarrow> tc_redactor (inner st) = default_redactor \<and> list_all call_shielded (fst (snd st))"

lemma sends_call: "call_shielded c \<Longrightarrow> keeps sent_shielded (call_sdk (logged sdk) c)"
  by (simp add: keeps_def sent_shielded_def call_sdk_def logged_def case_prod_beta)

lemma sends_change:
  "(\<And>t. tc_redactor (ot_base (h t)) = tc_redactor (ot_base t)) \<Longrightarrow> keeps sent_shielded (change (apfst h))"
  by (simp add: keeps_def sent_shielded_def change_def)

lemma sends_fields:
  "keeps sent_shielded (change (apfst (\<lambda>t. t\<lparr>ot_has_provider := b\<rparr>)))" "keeps sent_shielded (change (apfst (\<lambda>t. t\<lparr>ot_has_tracer := b\<rparr>)))"
  "keeps sent_shielded (change (apfst (\<lambda>t. t\<lparr>ot_active := f t\<rparr>)))" "keeps sent_shielded (change (apfst (\<lambda>t. t\<lparr>ot_enabled := b\<rparr>)))"
  by (rule sends_change, simp)+

lemma sends_id: "keeps sent_shielded (change id)"
  by (simp add: keeps_def change_def)

lemmas sends = sends_call keeps_and_then keeps_catching keeps_if sends_fields sends_id

lemma sends_init: "keeps sent_shielded (init_otel_provider (logged sdk) custom)"
proof -
  have o: "keeps sent_shielded (otlp_exporter (logged sdk))"
    unfolding otlp_exporter_def Let_def by (rule keeps_at) (intro sends, simp)
  show ?thesis unfolding init_otel_provider_def Let_def by (rule keeps_at) (intro sends o; simp)
qed

lemma shielded_redact_dict: "shielded default_redactor (PDict (redact_dict default_redactor d))"
  using redact_shielded[of "PDict d"] by (simp only: redact_PDict)

lemma sends_start:
  fixes sdk :: "('h, 'k) sdk"
  shows "keeps sent_shielded (otel_record_start (logged sdk) s)"
  unfolding keeps_def
proof (intro allI impI)
  fix st :: "('h, 'h otel_call list \<times> 'k) otel_state"
  assume st: "sent_shielded st"
  show "sent_shielded (snd (otel_record_start (logged sdk) s st))"
  proof (cases "\<not> ot_enabled (fst st) \<or> \<not> ot_has_tracer (fst st)")
    case True
    then show ?thesis unfolding otel_record_start_def Let_def if_P[OF True] using st by simp
  next
    case False
    have "keeps sent_shielded (catching
        (and_then (call_sdk (logged sdk) (Start_otel_span n kd ns (redact_dict default_redactor d)))
          (\<lambda>h. change (apfst (\<lambda>t. t\<lparr>ot_active := AList.update (spn_span_id s) h (ot_active t)\<rparr>)))) id)" for n kd ns d
      by (intro sends) (simp add: shielded_redact_dict del: shielded.simps)
    moreover have "tc_redactor (inner st) = default_redactor" using st by (simp add: sent_shielded_def)
    ultimately show ?thesis unfolding otel_record_start_def Let_def if_not_P[OF False] using st by (simp only: keeps_def)
  qed
qed

lemma sends_events: "keeps sent_shielded (add_otel_events (logged sdk) h s evs)"
proof (induction evs)
  case (Cons ev evs)
  have "keeps sent_shielded (\<lambda>st. case x of Inl e \<Rightarrow> (Inl e, st)
      | Inr ns \<Rightarrow> and_then (call_sdk (logged sdk) (Add_otel_event h n (redact default_redactor v) ns))
          (\<lambda>_. add_otel_events (logged sdk) h s evs) st)" for x :: "exc + int" and n v
  proof (cases x)
    case (Inr ns)
    have "keeps sent_shielded (and_then (call_sdk (logged sdk) (Add_otel_event h n (redact default_redactor v) ns))
        (\<lambda>_. add_otel_events (logged sdk) h s evs))"
      by (intro sends Cons.IH) (simp add: redact_shielded)
    then show ?thesis by (simp add: Inr)
  qed (simp add: keeps_def)
  then show ?case unfolding keeps_def add_otel_events.simps Let_def sent_shielded_def by metis
qed (simp add: keeps_def)

lemma sends_end:
  fixes sdk :: "('h, 'k) sdk"
  shows "keeps sent_shielded (otel_record_end (logged sdk) s)"
  unfolding keeps_def
proof (intro allI impI)
  fix st :: "('h, 'h otel_call list \<times> 'k) otel_state"
  assume st: "sent_shielded st"
  define st1 where "st1 = ((fst st)\<lparr>ot_base := record_end s (inner st), ot_active := AList.delete (spn_span_id s) (ot_active (fst st))\<rparr>, snd st)"
  have i: "sent_shielded st1" using st by (simp add: st1_def sent_shielded_def record_end_def)
  have "keeps sent_shielded (catching (and_then (call_sdk (logged sdk) (Set_status h v)) (\<lambda>_.
      and_then (add_otel_events (logged sdk) h s evs) (\<lambda>_. call_sdk (logged sdk) (End_otel_span h ns)))) id)" for h v evs ns
    by (intro sends sends_events) simp_all
  then show "sent_shielded (snd (otel_record_end (logged sdk) s st))" using i unfolding otel_record_end_def Let_def st1_def[symmetric]
    by (cases "map_of (ot_active (fst st)) (spn_span_id s)"; cases "ot_enabled (fst st)")
       (simp_all only: option.case if_True if_False keeps_def fst_conv snd_conv st1_def[symmetric] not_True_eq_False not_False_eq_True simp_thms)
qed

lemma sends_shutdown: "keeps sent_shielded (otel_shutdown (logged sdk))"
proof -
  have "keeps sent_shielded (catching (call_sdk (logged sdk) Shutdown_provider) id)" by (intro sends) simp
  then show ?thesis unfolding keeps_def otel_shutdown_def by simp
qed

lemma keeps_answer: "keeps I f \<Longrightarrow> keeps I (and_then f (\<lambda>x st. (Inr (g x), st)))"
  by (rule keeps_and_then) (simp_all add: keeps_def)

lemma sends_op: "keeps sent_shielded (otel_op (logged sdk) x)"
proof (cases x)
  case (T_start a t p fr)
  have "keeps sent_shielded (and_then (otel_record_start (logged sdk) s) (\<lambda>_ st1. (Inr s, st1)))" for s
    using keeps_answer[OF sends_start, where g = "\<lambda>_. s"] .
  then have "keeps sent_shielded (otel_start_span (logged sdk) a t p fr)"
    unfolding keeps_def otel_start_span_def Let_def by blast
  from keeps_answer[OF this, where g = Some] show ?thesis unfolding keeps_def T_start otel_op.simps .
next
  case (T_end s status error now)
  have "keeps sent_shielded (and_then (otel_record_end (logged sdk) s) (\<lambda>_ st1. (Inr (None :: Span option), st1)))" for s
    using keeps_answer[OF sends_end, where g = "\<lambda>_. None"] .
  then show ?thesis unfolding keeps_def T_end otel_op.simps otel_end_span_def by blast
next
  case T_shutdown
  have "keeps sent_shielded (and_then (otel_shutdown (logged sdk)) (\<lambda>_ st1. (Inr (None :: Span option), st1)))"
    using keeps_answer[OF sends_shutdown, where g = "\<lambda>_. None"] .
  then show ?thesis unfolding keeps_def T_shutdown otel_op.simps by blast
qed (simp_all add: keeps_def sent_shielded_def otel_clear_def clear_spans_def)

lemma sends_ops: "sent_shielded st \<Longrightarrow> sent_shielded (snd (snd (otel_ops (logged sdk) xs st)))"
proof (induction xs arbitrary: st)
  case (Cons x xs)
  obtain y st1 where o: "otel_op (logged sdk) x st = (y, st1)" by (metis prod.exhaust)
  have "sent_shielded st1" using keepsD[OF sends_op Cons.prems o] .
  then show ?case using Cons.IH[of st1] o by (cases y) (simp_all add: case_prod_beta)
qed simp

text \<open>C38: the spans and events handed to the OpenTelemetry SDK show no credential: with the default redactor, in
  every call made at construction and by any sequence of operations, whatever the SDK answers and whatever
  attributes and events the traced code put on its spans, the attributes have every sensitive field masked and
  no bearer token or key assignment in their texts.\<close>

theorem otel_attributes_shielded:
  "let st = snd (new_otel_tracer has_otel (logged sdk) service endpoint hdrs timeout custom None enabled ([], k))
   in list_all call_shielded (fst (snd (snd (snd (otel_ops (logged sdk) ops st)))))"
proof -
  define t where "t = (\<lparr>ot_base = new_tracer None, ot_service_name = service, ot_otlp_endpoint = endpoint, ot_otlp_headers = hdrs,
      ot_timeout_seconds = timeout, ot_enabled = enabled \<and> has_otel, ot_active = [], ot_has_provider = False,
      ot_has_tracer = False\<rparr> :: 'a OpenTelemetryTracer)"
  define st where "st = snd (new_otel_tracer has_otel (logged sdk) service endpoint hdrs timeout custom None enabled ([], k))"
  have t: "sent_shielded (t, [], k)" by (simp add: sent_shielded_def t_def new_tracer_def)
  have "st = snd (if ot_enabled t then init_otel_provider (logged sdk) custom (t, [], k) else (Inr (), t, [], k))"
    unfolding st_def new_otel_tracer_def Let_def t_def ..
  then have "sent_shielded st"
    using t sends_init[of sdk custom] unfolding keeps_def by (cases "ot_enabled t") simp_all
  then show ?thesis
    using sends_ops[of st sdk ops] unfolding st_def[symmetric] Let_def by (simp add: sent_shielded_def)
qed

text \<open>The text of the exception that ends a span is handed over as it is: only attributes are redacted.\<close>

lemma error_text_not_redacted:
  fixes sdk :: "('h, 'k) sdk" and t :: "'h OpenTelemetryTracer"
  assumes "map_of (ot_active t) (spn_span_id s) = Some h" "ot_enabled t" "spn_end_time s = None" "e \<noteq> []"
    "sdk (Set_status h (Status_error e)) k = (Inl x, k')" "is_exception x"
  shows "fst (snd (snd (otel_end_span (logged sdk) s ERROR (Some e) now (t, cs, k)))) = cs @ [Set_status h (Status_error e)]"
proof -
  let ?f = "finish_span ERROR (Some e) now s"
  have "spn_span_id ?f = spn_span_id s" "spn_status ?f = ERROR" "spn_error_message ?f = Some e"
    using assms(3,4) by (simp_all add: finish_span_def opt_truthy_def opt_str_def)
  then show ?thesis using assms(1,2,4-6)
    by (simp add: otel_end_span_def otel_record_end_def Let_def catching_def and_then_def call_sdk_def logged_def str_or_def)
qed

end
