(* ===== verification/Api_Telemetry.thy ===== *)
theory Api_Telemetry
  imports Api_Routes Otel Prometheus
begin

text \<open>
  The probes, the telemetry endpoints and the event stream (\<open>api/routes/health.py\<close>, \<open>metrics.py\<close>,
  \<open>events.py\<close>) with the tracer they are injected with, and a reader of the event stream as the
  specification of server-sent events defines one. \<open>json.loads\<close> and the text of a time are arguments.
\<close>

section \<open>The probes (api/routes/health.py)\<close>

record HealthResponse =
  ht_status :: string
  ht_version :: string
  ht_timestamp :: time

record ReadinessResponse =
  rd_status :: string
  rd_state_store_type :: string
  rd_vector_store_type :: string
  rd_default_llm_provider :: string

definition liveness_check :: "time \<Rightarrow> HealthResponse" where
  "liveness_check now = \<lparr>ht_status = ''ok'', ht_version = ''0.1.0'', ht_timestamp = now\<rparr>"

definition readiness_check :: "FrameworkSettings \<Rightarrow> ReadinessResponse" where
  "readiness_check s =
     \<lparr>rd_status = ''ready'', rd_state_store_type = fs_state_store_type s,
      rd_vector_store_type = fs_vector_store_type s, rd_default_llm_provider = fs_llm_provider s\<rparr>"

section \<open>The injected tracer (api/dependencies.py)\<close>

datatype 'h tracer_choice = Memory_tracer tracer | Otel_tracer "'h OpenTelemetryTracer"

fun tracer_spans :: "string option \<Rightarrow> 'h tracer_choice \<Rightarrow> Span list" where
  "tracer_spans run_id (Memory_tracer tr) = get_spans None run_id tr"
| "tracer_spans run_id (Otel_tracer t) = otel_get_spans None run_id t"

text \<open>\<open>get_tracer\<close>: a new adapter for every call, or the tracer of the process (\<open>global\<close>).\<close>

definition otlp_headers_of :: "(string \<Rightarrow> exc + pyval) \<Rightarrow> string option \<Rightarrow> exc + pyval" where
  "otlp_headers_of loads text =
     (if opt_truthy text then
        (case loads (str_or text []) of
           Inr v \<Rightarrow> Inr v
         | Inl e \<Rightarrow> if is_exception e then Inr (PDict []) else Inl e)
      else Inr PNone)"

definition get_tracer ::
    "bool \<Rightarrow> ('h, 'k) sdk \<Rightarrow> (string \<Rightarrow> exc + pyval) \<Rightarrow> tracer \<Rightarrow> FrameworkSettings \<Rightarrow> 'k
     \<Rightarrow> (exc + 'h tracer_choice) \<times> 'k" where
  "get_tracer has_otel sdk loads global s k =
     (if fs_otel_enabled s then
        (case otlp_headers_of loads (fs_otel_exporter_otlp_headers s) of
           Inl e \<Rightarrow> (Inl e, k)
         | Inr hdrs \<Rightarrow>
             (case new_otel_tracer has_otel sdk (fs_otel_service_name s) (fs_otel_exporter_otlp_endpoint s) hdrs
                     (fs_otel_exporter_timeout_seconds s) False None True k of
                (Inl e, _, k') \<Rightarrow> (Inl e, k')
              | (Inr _, t, k') \<Rightarrow> (Inr (Otel_tracer t), k')))
      else (Inr (Memory_tracer global), k))"

section \<open>Metrics (api/routes/metrics.py)\<close>

record text_response =
  tx_content :: string
  tx_media_type :: string

definition get_prometheus_metrics ::
    "FrameworkSettings \<Rightarrow> authenticator \<Rightarrow> rat \<Rightarrow> headers \<Rightarrow> (string \<times> string) list \<Rightarrow> MetricsRegistry
     \<Rightarrow> rate_limiter \<Rightarrow> (failure + text_response) \<times> rate_limiter" where
  "get_prometheus_metrics s auth now h described registry l =
     (case verify_prometheus_access s auth now h l of
        (Inl e, l1) \<Rightarrow> (Inl e, l1)
      | (Inr _, l1) \<Rightarrow>
          (Inr \<lparr>tx_content = serialize_registry (new_serializer None) described registry,
                tx_media_type = ''text/plain; version=0.0.4; charset=utf-8''\<rparr>, l1))"

definition get_metrics_endpoint ::
    "FrameworkSettings \<Rightarrow> rat \<Rightarrow> AuthenticatedIdentity \<Rightarrow> MetricsRegistry \<Rightarrow> rate_limiter
     \<Rightarrow> (failure + (string \<times> rat) list \<times> (string \<times> rat) list \<times> (string \<times> hist_summary) list) \<times> rate_limiter" where
  "get_metrics_endpoint s now identity registry l =
     (case route_guard METRICS_READ s now identity l of
        (Inl e, l1) \<Rightarrow> (Inl e, l1)
      | (Inr _, l1) \<Rightarrow> (Inr (get_snapshot registry), l1))"

record span_summary =
  sm_name :: string
  sm_kind :: string
  sm_duration_ms :: "rat option"
  sm_status :: string
  sm_error :: "string option"

record run_metrics =
  rx_run_id :: string
  rx_status :: string
  rx_current_step :: nat
  rx_total_tasks :: nat
  rx_completed_tasks :: nat
  rx_requires_human :: bool
  rx_spans_count :: nat
  rx_spans :: "span_summary list"

definition span_summary_of :: "Span \<Rightarrow> span_summary" where
  "span_summary_of s =
     \<lparr>sm_name = spn_name s, sm_kind = span_kind_value (spn_kind s), sm_duration_ms = spn_duration_ms s,
      sm_status = span_status_value (spn_status s), sm_error = spn_error_message s\<rparr>"

definition run_metrics_of :: "string \<Rightarrow> Span list \<Rightarrow> OrchestrationState \<Rightarrow> run_metrics" where
  "run_metrics_of run_id spans s =
     (let tasks = (case s_plan s of None \<Rightarrow> [] | Some p \<Rightarrow> p_tasks p) in
      \<lparr>rx_run_id = run_id, rx_status = execution_status_value (s_status s), rx_current_step = s_current_step s,
       rx_total_tasks = length tasks,
       rx_completed_tasks = length (filter (\<lambda>t. task_status_value (t_status t) = ''completed'') tasks),
       rx_requires_human = s_requires_human s, rx_spans_count = length spans, rx_spans = map span_summary_of spans\<rparr>)"

definition get_run_metrics ::
    "'w backend_config \<Rightarrow> FrameworkSettings \<Rightarrow> rat \<Rightarrow> AuthenticatedIdentity \<Rightarrow> 'h tracer_choice \<Rightarrow> string
     \<Rightarrow> rate_limiter \<times> 'w backend \<Rightarrow> (failure + run_metrics) \<times> rate_limiter \<times> 'w backend" where
  "get_run_metrics cfg s now identity tr run_id st =
     (case route_guard METRICS_READ s now identity (fst st) of
        (Inl e, l1) \<Rightarrow> (Inl e, l1, snd st)
      | (Inr _, l1) \<Rightarrow>
          (case with_state cfg run_id
                  (\<lambda>x b. (Inr (run_metrics_of run_id (tracer_spans (Some run_id) tr) x), b)) (snd st) of
             (r, b) \<Rightarrow> (r, l1, b)))"

section \<open>The event stream (api/routes/events.py)\<close>

text \<open>\<open>json.dumps(v)\<close>: as in the ledger, but in the order of the entries.\<close>

primrec json_text :: "pyval \<Rightarrow> string option" where
  "json_text PNone = Some ''null''"
| "json_text (PBool b) = Some (if b then ''true'' else ''false'')"
| "json_text (PInt i) = Some (show_int i)"
| "json_text (PFloat r) = Some (repr_float r)"
| "json_text (PStr s) = Some (json_str s)"
| "json_text (PTime t) = None"
| "json_text (PList vs) = map_option (\<lambda>ss. ''['' @ join_with '', '' ss @ '']'') (all_some (map json_text vs))"
| "json_text (PDict d) =
     map_option (\<lambda>ss. ''{'' @ join_with '', '' ss @ ''}'')
       (all_some (map (\<lambda>(k, v). map_option (\<lambda>s. json_str k @ '': '' @ s) v) (map (map_prod id json_text) d)))"

definition event_dict :: "(time \<Rightarrow> string) \<Rightarrow> event \<Rightarrow> pyval" where
  "event_dict isoformat e =
     PDict [(''event'', PStr (ev_event e)), (''run_id'', PStr (ev_run_id e)),
            (''timestamp'', PStr (isoformat (ev_timestamp e))), (''data'', PDict (ev_data e))]"

definition sse_chunk :: "(time \<Rightarrow> string) \<Rightarrow> event \<Rightarrow> exc + string" where
  "sse_chunk isoformat e =
     (case json_text (event_dict isoformat e) of
        None \<Rightarrow> Inl (mk_Foreign ''TypeError'' ''Object of type datetime is not JSON serializable'')
      | Some payload \<Rightarrow> Inr (''event: '' @ ev_event e @ [CHR 0x0A] @ ''data: '' @ payload @ [CHR 0x0A, CHR 0x0A]))"

text \<open>
  \<open>_sse_generator\<close> over the events of the subscription, each with the answer of \<open>is_disconnected\<close> when it
  arrives: the chunks yielded, and the exception that ends the stream, if one does.
\<close>

fun sse_generator :: "(time \<Rightarrow> string) \<Rightarrow> (event \<times> bool) list \<Rightarrow> string list \<times> exc option" where
  "sse_generator isoformat [] = ([], None)"
| "sse_generator isoformat ((e, disconnected) # es) =
     (if disconnected then ([], None)
      else case sse_chunk isoformat e of
        Inl x \<Rightarrow> ([], Some x)
      | Inr chunk \<Rightarrow> (case sse_generator isoformat es of (cs, x) \<Rightarrow> (chunk # cs, x)))"

record stream_response =
  sr_media_type :: string
  sr_headers :: "(string \<times> string) list"

definition stream_run_events ::
    "'w backend_config \<Rightarrow> AuthenticatedIdentity \<Rightarrow> string \<Rightarrow> 'w backend \<Rightarrow> (failure + stream_response) \<times> 'w backend" where
  "stream_run_events cfg identity run_id b =
     (case require_permission RUNS_STREAM identity of
        Inl e \<Rightarrow> (Inl (Raised_exc e), b)
      | Inr _ \<Rightarrow>
          with_state cfg run_id (\<lambda>_ b1. (Inr
            \<lparr>sr_media_type = ''text/event-stream'',
             sr_headers = [(''Cache-Control'', ''no-cache''), (''Connection'', ''keep-alive''), (''X-Accel-Buffering'', ''no'')]\<rparr>,
            b1)) b)"

section \<open>The stream reads back\<close>

text \<open>Characters that end a line of an event stream.\<close>

definition line_end :: "char \<Rightarrow> bool" where
  "line_end c \<longleftrightarrow> c = CHR 0x0A \<or> c = CHR 0x0D"

definition one_line :: "string \<Rightarrow> bool" where
  "one_line s \<longleftrightarrow> list_all (\<lambda>c. \<not> line_end c) s"

lemma one_line_simps [simp]:
  "one_line []" "one_line (c # s) \<longleftrightarrow> \<not> line_end c \<and> one_line s" "one_line (s @ t) \<longleftrightarrow> one_line s \<and> one_line t"
  by (simp_all add: one_line_def)

lemma one_line_concat: "(\<And>s. s \<in> set ss \<Longrightarrow> one_line s) \<Longrightarrow> one_line (concat ss)"
  by (induction ss) simp_all

lemma one_line_join: "one_line sep \<Longrightarrow> (\<And>s. s \<in> set ss \<Longrightarrow> one_line s) \<Longrightarrow> one_line (join_with sep ss)"
  by (induction sep ss rule: join_with.induct) simp_all

lemma one_line_newline: "one_line s \<Longrightarrow> CHR 0x0A \<notin> set s" "one_line s \<Longrightarrow> CHR 0x0D \<notin> set s"
  by (auto simp: one_line_def list_all_iff line_end_def)

text \<open>No character of a JSON text ends a line: in strings they are escaped.\<close>

lemma line_end_code: "line_end c \<Longrightarrow> of_char c < (14 :: nat)"
  by (auto simp: line_end_def)

lemma hex_digit_plain: "k < 16 \<Longrightarrow> \<not> line_end (hex_digit k)"
  using line_end_code[of "hex_digit k"] by (auto simp: hex_digit_def of_char_of split: if_splits)

lemma one_line_json_char: "one_line (json_char c)"
proof -
  have "(of_char c :: nat) div 16 < 16" "(of_char c :: nat) mod 16 < 16"
    using nat_of_char_less_256[of c] by linarith+
  note plain = this[THEN hex_digit_plain]
  from plain show ?thesis by (simp add: json_char_def Let_def) (auto simp: line_end_def)
qed

lemma one_line_json_str: "one_line (json_str s)"
  by (auto simp: json_str_def line_end_def one_line_json_char intro!: one_line_concat)

lemma number_not_line_end: "number_char c \<Longrightarrow> \<not> line_end c"
  using number_char_plain(2) by (auto simp: line_end_def number_char_def is_digit_def)

lemma one_line_number: "list_all number_char s \<Longrightarrow> one_line s"
  by (simp add: one_line_def list_all_iff number_not_line_end)

lemma one_line_show_int: "one_line (show_int i)"
  using one_line_number[OF show_nat_number] by (auto simp: show_int_def line_end_def)

lemma one_line_repr_float: "one_line (repr_float v)"
proof -
  have "list_all number_char (rev (dropWhile P (rev (frac_digits n r))))" if "0 \<le> r" "r < 1" for n r and P
    using frac_digits_number[OF that, of n] by (auto simp: list_all_iff number_char_def dest: set_dropWhileD)
  moreover have "0 \<le> \<bar>v\<bar> - of_int \<lfloor>\<bar>v\<bar>\<rfloor>" "\<bar>v\<bar> - of_int \<lfloor>\<bar>v\<bar>\<rfloor> < 1" by (simp_all, linarith)
  ultimately show ?thesis using one_line_number[OF show_nat_number] one_line_number
    by (simp add: repr_float_def Let_def) (simp add: line_end_def)
qed

lemma all_some_elems: "all_some xs = Some ys \<Longrightarrow> y \<in> set ys \<Longrightarrow> Some y \<in> set xs"
  by (induction xs arbitrary: ys rule: all_some.induct) auto

lemma json_text_one_line: "json_text v = Some s \<Longrightarrow> one_line s"
proof (induction v arbitrary: s)
  case (PList vs)
  then obtain ss where ss: "all_some (map json_text vs) = Some ss" "s = ''['' @ join_with '', '' ss @ '']''" by auto
  have "one_line t" if "t \<in> set ss" for t using all_some_elems[OF ss(1) that] PList.IH by fastforce
  then show ?case using ss(2) by (simp add: line_end_def one_line_join)
next
  case (PDict d)
  let ?entry = "\<lambda>(k, v). map_option (\<lambda>s. json_str k @ '': '' @ s) v"
  obtain ss where ss: "all_some (map ?entry (map (map_prod id json_text) d)) = Some ss" "s = ''{'' @ join_with '', '' ss @ ''}''"
    using PDict.prems by auto
  have "one_line t" if t: "t \<in> set ss" for t
  proof -
    obtain k v s' where "(k, v) \<in> set d" "json_text v = Some s'" "t = json_str k @ '': '' @ s'"
      using all_some_elems[OF ss(1) t] by (auto dest!: sym[of "Some t"])
    then show ?thesis using PDict.IH[of "(k, v)" v s'] by (simp add: one_line_json_str line_end_def)
  qed
  then show ?case using ss(2) by (simp add: line_end_def one_line_join)
qed (auto simp: line_end_def one_line_show_int one_line_repr_float one_line_json_str split: if_splits)

text \<open>
  A client's reader of the stream: fields line by line, an event at each blank line, with the lines of
  its data joined; an unfinished event at the end is dropped, unknown fields are ignored.
\<close>

definition read_field :: "string \<Rightarrow> string \<times> string" where
  "read_field l =
     (let value = tl (dropWhile (\<lambda>c. c \<noteq> CHR '':'') l)
      in (takeWhile (\<lambda>c. c \<noteq> CHR '':'') l, case value of c # cs \<Rightarrow> if c = CHR '' '' then cs else value | [] \<Rightarrow> []))"

fun read_events :: "string list \<Rightarrow> string \<Rightarrow> string list \<Rightarrow> (string \<times> string) list" where
  "read_events [] name data = []"
| "read_events (l # ls) name data =
     (if l = [] then
        (if data = [] then read_events ls [] []
         else (if name = [] then ''message'' else name, join_with [CHR 0x0A] data) # read_events ls [] [])
      else case read_field l of (field, value) \<Rightarrow>
        if field = ''event'' then read_events ls value data
        else if field = ''data'' then read_events ls name (data @ [value])
        else read_events ls name data)"

definition read_stream :: "string \<Rightarrow> (string \<times> string) list" where
  "read_stream s = read_events (split_on (CHR 0x0A) s) [] []"

lemma read_field_event: "read_field (''event: '' @ v) = (''event'', v)" "read_field (''data: '' @ v) = (''data'', v)"
  by (simp_all add: read_field_def)

lemma read_chunk:
  assumes "one_line name" "one_line payload" "name \<noteq> []"
  shows "read_stream ((''event: '' @ name @ [CHR 0x0A] @ ''data: '' @ payload @ [CHR 0x0A, CHR 0x0A]) @ rest)
    = (name, payload) # read_stream rest"
proof -
  have l: "CHR 0x0A \<notin> set (''event: '' @ name)" "CHR 0x0A \<notin> set (''data: '' @ payload)" "CHR 0x0A \<notin> set []"
    using assms(1,2) one_line_newline by auto
  have "split_on (CHR 0x0A) ((''event: '' @ name) @ CHR 0x0A # (''data: '' @ payload) @ CHR 0x0A # [] @ CHR 0x0A # rest)
      = (''event: '' @ name) # (''data: '' @ payload) # [] # split_on (CHR 0x0A) rest"
    by (simp only: split_on_append[OF l(1)] split_on_append[OF l(2)] split_on_append[OF l(3)])
  then have "read_stream ((''event: '' @ name @ [CHR 0x0A] @ ''data: '' @ payload @ [CHR 0x0A, CHR 0x0A]) @ rest)
      = read_events ((''event: '' @ name) # (''data: '' @ payload) # [] # split_on (CHR 0x0A) rest) [] []"
    unfolding read_stream_def by simp
  also have "\<dots> = (name, payload) # read_stream rest"
    using assms(3) read_field_event(1)[of name] read_field_event(2)[of payload] by (simp add: read_stream_def)
  finally show ?thesis .
qed

text \<open>C39: the event stream is framed correctly: as long as the names of the events are single lines, a client
  reads back from the chunks exactly the events sent, in their order, each with its name and the JSON text of
  the whole event, whatever texts, line breaks or markup their data hold; the stream stops early only when the
  client has gone or an event cannot be serialized, and in no other way.\<close>

theorem event_stream_reads_back:
  assumes "\<forall>(e, gone)\<in>set es. one_line (ev_event e) \<and> ev_event e \<noteq> []"
    and "sse_generator isoformat es = (chunks, x)"
  shows "CHR 0x0D \<notin> set (concat chunks)
    \<and> map Some (map snd (read_stream (concat chunks))) = map (\<lambda>(e, _). json_text (event_dict isoformat e)) (take (length chunks) es)
    \<and> map fst (read_stream (concat chunks)) = map (\<lambda>(e, _). ev_event e) (take (length chunks) es)
    \<and> (length chunks < length es \<longrightarrow>
         (let (e, gone) = es ! length chunks in if gone then x = None else x \<noteq> None \<and> json_text (event_dict isoformat e) = None))"
  using assms
proof (induction es arbitrary: chunks)
  case Nil
  then show ?case by (simp add: read_stream_def)
next
  case (Cons p es)
  obtain e gone where p: "p = (e, gone)" by (cases p)
  show ?case
  proof (cases "gone \<or> json_text (event_dict isoformat e) = None")
    case True
    then have "chunks = [] \<and> (if gone then x = None else x \<noteq> None \<and> json_text (event_dict isoformat e) = None)"
      using Cons.prems(2) by (cases gone) (simp_all add: p sse_chunk_def, fastforce)
    then show ?thesis by (simp add: p read_stream_def)
  next
    case False
    then obtain payload where j: "json_text (event_dict isoformat e) = Some payload" "\<not> gone" by auto
    define chunk where "chunk = ''event: '' @ ev_event e @ [CHR 0x0A] @ ''data: '' @ payload @ [CHR 0x0A, CHR 0x0A]"
    have c: "sse_chunk isoformat e = Inr chunk" by (simp add: sse_chunk_def j chunk_def)
    obtain cs where cs: "sse_generator isoformat es = (cs, x)" "chunks = chunk # cs"
      using Cons.prems(2) by (auto simp: p c j(2) split: prod.splits)
    have name: "one_line (ev_event e)" "ev_event e \<noteq> []" using Cons.prems(1) p by auto
    have read: "read_stream (chunk @ concat cs) = (ev_event e, payload) # read_stream (concat cs)"
      using read_chunk[OF name(1) json_text_one_line[OF j(1)] name(2)] by (simp only: chunk_def)
    have cr: "CHR 0x0D \<notin> set chunk"
      using one_line_newline(2)[OF name(1)] one_line_newline(2)[OF json_text_one_line[OF j(1)]] by (simp add: chunk_def)
    show ?thesis using Cons.IH[OF _ cs(1)] Cons.prems(1) cr read by (simp add: cs(2) p j(1))
  qed
qed

definition ex_stream :: "(event \<times> bool) list" where
  "ex_stream =
     [(\<lparr>ev_event = ''run_status'', ev_run_id = ''r'', ev_timestamp = 1, ev_data = [(''current_step'', PInt 2)]\<rparr>, False),
      (\<lparr>ev_event = ''error'', ev_run_id = ''r'', ev_timestamp = 2,
        ev_data = [(''message'', PStr ([CHR 0x0A, CHR 0x0A] @ ''event: run_completed''))]\<rparr>, False),
      (\<lparr>ev_event = ''run_completed'', ev_run_id = ''r'', ev_timestamp = 3, ev_data = []\<rparr>, True)]"

theorem event_stream_reads_back_witness:
  "map fst (read_stream (concat (fst (sse_generator show_nat ex_stream)))) = [''run_status'', ''error'']"
proof -
  have "length (fst (sse_generator show_nat ex_stream)) = 2" by code_simp
  moreover have "\<forall>(e, gone)\<in>set ex_stream. one_line (ev_event e) \<and> ev_event e \<noteq> []"
    by (simp add: ex_stream_def line_end_def)
  ultimately show ?thesis
    using event_stream_reads_back[OF _ surjective_pairing, of ex_stream show_nat] by (simp add: ex_stream_def)
qed

section \<open>Telemetry of a run\<close>

lemma run_metrics_bounds:
  "rx_completed_tasks (run_metrics_of run_id spans s) \<le> rx_total_tasks (run_metrics_of run_id spans s)"
  "length (rx_spans (run_metrics_of run_id spans s)) = rx_spans_count (run_metrics_of run_id spans s)"
  by (simp_all add: run_metrics_of_def Let_def)

text \<open>
  With the adapter enabled every request is given a new one, which holds no spans: the telemetry of a run
  shows none, whatever was traced before.
\<close>

lemma otel_tracer_is_empty:
  assumes "raises_only_exceptions sdk" "fs_otel_enabled s" "get_tracer has_otel sdk loads global s k = (Inr tr, k')"
  shows "tracer_spans run_id tr = []"
proof -
  obtain hdrs where h: "otlp_headers_of loads (fs_otel_exporter_otlp_headers s) = Inr hdrs"
    using assms(2,3) by (auto simp: get_tracer_def split: sum.splits)
  obtain x t k1 where n: "new_otel_tracer has_otel sdk (fs_otel_service_name s) (fs_otel_exporter_otlp_endpoint s) hdrs
      (fs_otel_exporter_timeout_seconds s) False None True k = (x, t, k1)" by (metis prod.exhaust)
  have "x = Inr ()" "inner (t, k1) = new_tracer None" using new_otel_quiet[OF assms(1) n] by simp_all
  moreover have "tr = Otel_tracer t"
    using assms(2,3) calculation(1) by (simp add: get_tracer_def h n)
  ultimately show ?thesis by (simp add: otel_get_spans_def get_spans_def new_tracer_def Let_def)
qed

end
