(* ===== verification/Deployment.thy ===== *)
theory Deployment
  imports Api_Telemetry Wiring
begin

text \<open>
  The objects a request of the deployed API is served with (\<open>api/dependencies.py\<close>): the runtime, the
  execution backend and the service are built anew for every request, the runtime with the default
  wiring of \<open>OrchestrationRuntime.__init__\<close>. The theorems say what this means for the runs.
\<close>

section \<open>The injected runtime\<close>

text \<open>
  \<open>OrchestrationRuntime(state_store, metrics, tracer, audit_sink)\<close>: a router without providers, an empty
  document store, an empty tool registry. \<open>LLMRouter()\<close> reads its own settings from the environment.
\<close>

definition default_router :: "FrameworkSettings \<Rightarrow> ('w, 'x) LLMRouter" where
  "default_router s =
     new_router [] None None None (fs_llm_provider s) (fs_fallback_provider s) (fs_llm_enable_fallback s)"

definition get_runtime ::
    "FrameworkSettings \<Rightarrow> (pyval \<Rightarrow> int option) \<Rightarrow> (pyval \<Rightarrow> exc + ExecutionPlan) \<Rightarrow> (nat \<Rightarrow> exc) \<Rightarrow> 'w store_ops \<Rightarrow> 'w runtime" where
  "get_runtime s to_int validate graph_error ops =
     \<lparr>rt_nodes = default_nodes (default_router s) (default_router s) to_int
        (\<lambda>q w. (Inr (retrieve_in_memory q []), w)) [] True True validate,
      rt_store = ops, rt_max_steps = 50, rt_graph_error = graph_error\<rparr>"

section \<open>The injected backend and service\<close>

text \<open>The reading side of the store is passed beside its writing side; no event publisher is given.\<close>

definition get_execution_backend ::
    "FrameworkSettings \<Rightarrow> 'w runtime \<Rightarrow> (string \<Rightarrow> 'w \<Rightarrow> (exc + OrchestrationState option) \<times> 'w)
     \<Rightarrow> (string \<Rightarrow> 'w \<Rightarrow> (exc + Checkpoint list) \<times> 'w) \<Rightarrow> (string \<Rightarrow> string) \<Rightarrow> 'w \<Rightarrow> 'w backend_config \<times> 'w backend" where
  "get_execution_backend s rt get_state list_checkpoints sha256_hex w =
     (\<lparr>bc_runtime = rt, bc_store = rt_store rt, bc_get_state = get_state, bc_list_checkpoints = list_checkpoints,
       bc_max_concurrency = nat (fs_execution_max_concurrency s), bc_max_queue_size = nat (fs_execution_max_queue_size s),
       bc_publisher = False, bc_span_tracer = True, bc_audit_sink = True, bc_sha256_hex = sha256_hex\<rparr>,
      new_backend w)"

record 'w OrchestrationService =
  sv_config :: "'w backend_config"
  sv_backend :: "'w backend"
  sv_channels :: channels
  sv_max_subscribers_per_run :: int

definition get_orchestration_service :: "FrameworkSettings \<Rightarrow> 'w backend_config \<times> 'w backend \<Rightarrow> 'w OrchestrationService" where
  "get_orchestration_service s eb =
     \<lparr>sv_config = fst eb, sv_backend = snd eb, sv_channels = no_channels,
      sv_max_subscribers_per_run = fs_max_sse_subscribers_per_run s\<rparr>"

text \<open>The service of one request when the store is the in-memory one: \<open>InMemoryStateStore()\<close> is new, too.\<close>

definition memory_store_ops :: "InMemoryStateStore store_ops" where
  "memory_store_ops = \<lparr>st_save_state = (\<lambda>s w. (None, im_save_state s w)), st_save_checkpoint = (\<lambda>cp w. (None, im_save_checkpoint cp w))\<rparr>"

definition memory_service ::
    "FrameworkSettings \<Rightarrow> (pyval \<Rightarrow> int option) \<Rightarrow> (pyval \<Rightarrow> exc + ExecutionPlan) \<Rightarrow> (nat \<Rightarrow> exc) \<Rightarrow> (string \<Rightarrow> string)
     \<Rightarrow> InMemoryStateStore OrchestrationService" where
  "memory_service s to_int validate graph_error sha256_hex =
     get_orchestration_service s
       (get_execution_backend s (get_runtime s to_int validate graph_error memory_store_ops)
          (\<lambda>r w. (Inr (im_get_state w r), w)) (\<lambda>r w. (Inr (im_list_checkpoints w r), w)) sha256_hex im_empty)"

section \<open>What a run comes to\<close>

text \<open>Without providers every request to the router raises the same error, which the planner reports.\<close>

lemma default_router_raises:
  "generate_structured (default_router s) req None w
     = (Inl (provider_not_found (str_or (Some (fs_llm_provider s)) ''gemini'')), w)"
  by (simp add: generate_structured_def default_router_def new_router_def primary_of_def str_or_def
      route_loop.simps get_provider_def)

definition no_provider :: "FrameworkSettings \<Rightarrow> tick \<Rightarrow> OrchestrationState \<Rightarrow> AgentResult" where
  "no_provider s k x =
     (if \<not> planner_validate_input x then
        agent_failure ''planner_agent'' ''State request is empty or invalid for planning.'' False (latency_ms k) []
      else planner_failed k (provider_not_found (str_or (Some (fs_llm_provider s)) ''gemini'')))"

lemma planner_without_provider: "planner_execute (default_router s) k x t w = (Inr (no_provider s k x), x, w)"
  by (simp add: planner_execute_def no_provider_def default_router_raises)

lemma no_provider_status: "ag_status (no_provider s k x) \<noteq> AgentStatus.SUCCESS"
  by (simp add: no_provider_def planner_failed_def agent_failure_def)

text \<open>The graph: supervisor, planner, supervisor, failure.\<close>

lemma unprovided_graph:
  assumes "n_planner n = planner_execute (default_router s)" "s_status x = ExecutionStatus.RUNNING" "s_plan x = None" "\<not> s_requires_human x"
  shows "\<exists>gs es. run_graph n ks 50 (start_state x None) w = (Finished gs, es, w)
    \<and> s_status (g_state gs) = ExecutionStatus.FAILED \<and> s_plan (g_state gs) = None
    \<and> s_final_response (g_state gs) = s_final_response x"
proof -
  define x1 where "x1 = increment_step (k_now (ks 0)) (Some ''supervisor'') x"
  define gs1 where "gs1 = (start_state x None)\<lparr>g_state := x1, g_next_action := Some To_planner\<rparr>"
  have one: "supervisor_node (ks 0) (start_state x None) = gs1"
    using assms by (simp add: supervisor_node_def gs1_def x1_def start_state_def increment_step_def Let_def)
  define x2 where "x2 = increment_step (k_now (ks 1)) (Some ''planner_agent'') x1"
  define x3 where "x3 = fail_run (k_now (ks 1)) (''Planner failed: '' @ fmt_opt (ag_error (no_provider s (ks 1) x2))) x2"
  define gs2 where "gs2 = gs1\<lparr>g_state := x3, g_error := ag_error (no_provider s (ks 1) x2), g_next_action := Some To_failed\<rparr>"
  obtain es where two: "planner_node n (ks 1) gs1 w = (Inr gs2, es, w)"
    using no_provider_status[of s "ks 1" x2]
    by (simp add: planner_node_def Let_def assms(1) planner_without_provider gs2_def x3_def x2_def gs1_def)
  define gs3 where "gs3 = supervisor_node (ks 2) gs2"
  have three: "g_next_action gs3 = Some To_failed" "s_status (g_state gs3) = ExecutionStatus.FAILED"
    "g_state gs3 = increment_step (k_now (ks 2)) (Some ''supervisor'') x3"
    by (simp_all add: gs3_def supervisor_node_def Let_def gs2_def gs1_def start_state_def x3_def)
  define gs4 where "gs4 = failed_node (ks 3) gs3"
  have four: "g_state gs4 = g_state gs3" using three(2) by (simp add: gs4_def failed_node_def Let_def)
  have r1: "supervisor_router gs1 = Planner" "supervisor_router gs3 = Failed_node"
    using three(1) by (simp_all add: supervisor_router_def gs1_def)
  have "run_graph n ks (Suc (Suc (Suc (Suc m)))) (start_state x None) w = (Finished gs4, es, w)" for m
    using one two r1 by (simp add: run_graph_def gs3_def gs4_def eval_nat_numeral)
  from this[of 46] have "run_graph n ks 50 (start_state x None) w = (Finished gs4, es, w)" by (simp add: eval_nat_numeral)
  then show ?thesis
    using four three(2,3) assms(3)
    by (auto simp: x3_def x2_def x1_def fail_run_def increment_step_def record_error_def set_status_def touch_def meta_touch_def Let_def)
qed

definition never_fails :: "'w store_ops \<Rightarrow> bool" where
  "never_fails ops \<longleftrightarrow> (\<forall>x w. fst (st_save_state ops x w) = None) \<and> (\<forall>cp w. fst (st_save_checkpoint ops cp w) = None)"

lemma persist_never_fails: "never_fails (rt_store rt) \<Longrightarrow> \<exists>w'. persist rt cp x w = (None, w')"
  unfolding never_fails_def persist_def by (metis (mono_tags, lifting) option.case(1) prod.case prod.collapse)

text \<open>C35: a run on the runtime the deployed API injects always ends failed, without a plan and without an
  answer, whatever is asked, whichever provider the settings name and whatever the stores hold: the
  injected router has no provider. It does return, as a failed state that was saved, not as an error.\<close>

theorem injected_run_fails:
  assumes "never_fails ops" "request \<noteq> []"
  shows "\<exists>x es w'. run (get_runtime s to_int validate graph_error ops) k ks request corr sess custom w = (Inr x, es, w')
    \<and> s_status x = ExecutionStatus.FAILED \<and> s_plan x = None \<and> s_final_response x = None"
proof -
  define rt where "rt = get_runtime s to_int validate graph_error ops"
  define x0 where "x0 = create_initial (k_now k) (k_uid k 0) request corr sess 3 custom"
  have rt: "never_fails (rt_store rt)" "rt_max_steps rt = 50" "n_planner (rt_nodes rt) = planner_execute (default_router s)"
    using assms(1) by (simp_all add: rt_def get_runtime_def default_nodes_def)
  obtain w1 where p1: "persist rt (snapshot k 1 x0) x0 w = (None, w1)" using persist_never_fails[OF rt(1)] by blast
  have x0: "s_status x0 = ExecutionStatus.RUNNING" "s_plan x0 = None" "\<not> s_requires_human x0" "s_final_response x0 = None"
    by (simp_all add: x0_def create_initial_def)
  obtain gs es where g: "run_graph (rt_nodes rt) ks 50 (start_state x0 None) w1 = (Finished gs, es, w1)"
    "s_status (g_state gs) = ExecutionStatus.FAILED" "s_plan (g_state gs) = None" "s_final_response (g_state gs) = None"
    using unprovided_graph[OF rt(3) x0(1-3)] x0(4) by metis
  obtain w2 where p2: "persist rt (snapshot k 2 (g_state gs)) (g_state gs) w1 = (None, w2)"
    using persist_never_fails[OF rt(1)] by blast
  obtain es2 where "run_try rt k ks corr sess x0 w1 = (Inr (g_state gs), g_state gs, es2, w2)"
    using p2 by (simp add: run_try_def ainvoke_def rt(2) g(1) Let_def)
  then show ?thesis unfolding rt_def[symmetric]
    using assms(2) p1 g(2-4) by (simp add: run_def Let_def x0_def[symmetric])
qed

lemma memory_store_never_fails: "never_fails memory_store_ops"
  by (simp add: never_fails_def memory_store_ops_def)

theorem injected_run_fails_witness:
  "\<exists>s x es w'. ex_settings [] = Inr s
    \<and> run (get_runtime s (\<lambda>_. None) load_plan (\<lambda>_. mk_Foreign ''GraphRecursionError'' []) memory_store_ops)
       (ex_named_tick ''r'') (\<lambda>_. ex_named_tick ''r'') ''hi'' None None None im_empty
     = (Inr x, es, w') \<and> s_status x = ExecutionStatus.FAILED"
proof -
  obtain s where "ex_settings [] = Inr s" using ex_settings_built[of "[]"] by (auto simp: list_all_iff)
  then show ?thesis
    using injected_run_fails[OF memory_store_never_fails, of "''hi''" s "\<lambda>_. None" load_plan "\<lambda>_. mk_Foreign ''GraphRecursionError'' []"
        "ex_named_tick ''r''" "\<lambda>_. ex_named_tick ''r''" None None None im_empty]
    by fastforce
qed

section \<open>Requests share nothing in memory\<close>

lemma memory_service_world:
  "b_world (sv_backend (memory_service s to_int validate graph_error sha256_hex)) = im_empty"
  "bc_get_state (sv_config (memory_service s to_int validate graph_error sha256_hex)) = (\<lambda>r w. (Inr (im_get_state w r), w))"
  by (simp_all add: memory_service_def get_orchestration_service_def get_execution_backend_def new_backend_def)

lemma fresh_memory_unknown:
  "fst (with_state (sv_config (memory_service s to_int validate graph_error sha256_hex)) run_id f
     (sv_backend (memory_service s to_int validate graph_error sha256_hex))) = Inl (run_not_found run_id)"
  by (simp add: with_state_def get_from_store_def memory_service_world im_get_state_def im_empty_def)


section \<open>The end of the application (api/app.py)\<close>

text \<open>
  The telemetry part of \<open>app_lifespan\<close> after the backend's shutdown: the tracer of the application, if one was
  set, or else a new one, is shut down; only the adapter has a \<open>shutdown\<close>. \<open>settings\<close> is what \<open>get_settings\<close>
  returns, which is cached. The deadline only bounds the wait: the call itself goes on in its thread.
\<close>

definition lifespan_tracer ::
    "bool \<Rightarrow> ('h, 'k) sdk \<Rightarrow> (string \<Rightarrow> exc + pyval) \<Rightarrow> tracer \<Rightarrow> exc + FrameworkSettings \<Rightarrow> 'h tracer_choice option \<Rightarrow> 'k
     \<Rightarrow> (exc + 'h tracer_choice option) \<times> 'k" where
  "lifespan_tracer has_otel sdk loads global settings app_tracer k =
     (case app_tracer of
        Some t \<Rightarrow> (Inr (Some t), k)
      | None \<Rightarrow>
          (case settings of
             Inl e \<Rightarrow> (if is_exception e then Inr None else Inl e, k)
           | Inr s \<Rightarrow>
               if \<not> fs_otel_enabled s then (Inr None, k)
               else (case get_tracer has_otel sdk loads global s k of
                  (Inr t, k') \<Rightarrow> (Inr (Some t), k')
                | (Inl e, k') \<Rightarrow> (if is_exception e then Inr None else Inl e, k'))))"

definition lifespan_shutdown ::
    "bool \<Rightarrow> ('h, 'k) sdk \<Rightarrow> (string \<Rightarrow> exc + pyval) \<Rightarrow> tracer \<Rightarrow> exc + FrameworkSettings \<Rightarrow> 'h tracer_choice option \<Rightarrow> 'k
     \<Rightarrow> (exc + unit) \<times> 'k" where
  "lifespan_shutdown has_otel sdk loads global settings app_tracer k =
     (case lifespan_tracer has_otel sdk loads global settings app_tracer k of
        (Inr (Some (Otel_tracer t)), k1) \<Rightarrow>
          (case settings of
             Inl e \<Rightarrow> (if is_exception e then Inr () else Inl e, k1)
           | Inr _ \<Rightarrow> (case otel_shutdown sdk (t, k1) of (x, _, k2) \<Rightarrow> (x, k2)))
      | (Inr _, k1) \<Rightarrow> (Inr (), k1)
      | (Inl e, k1) \<Rightarrow> (Inl e, k1))"

lemma otlp_headers_quiet: "\<forall>text. at_worst_exception (loads text) \<Longrightarrow> at_worst_exception (otlp_headers_of loads text)"
  using spec[of "\<lambda>t. at_worst_exception (loads t)" "str_or text []"]
  by (cases "loads (str_or text [])") (auto simp: otlp_headers_of_def)

text \<open>Whatever the exporter does, it cannot keep the application from ending.\<close>

lemma lifespan_shutdown_quiet:
  assumes "raises_only_exceptions sdk" "\<forall>text. at_worst_exception (loads text)" "at_worst_exception settings"
  shows "fst (lifespan_shutdown has_otel sdk loads global settings app_tracer k) = Inr ()"
proof -
  have t: "at_worst_exception (fst (get_tracer has_otel sdk loads global s k))" for s
  proof (cases "otlp_headers_of loads (fs_otel_exporter_otlp_headers s)")
    case (Inl e)
    then show ?thesis using otlp_headers_quiet[OF assms(2), of "fs_otel_exporter_otlp_headers s"] by (simp add: get_tracer_def)
  next
    case (Inr hdrs)
    obtain x st where n: "new_otel_tracer has_otel sdk (fs_otel_service_name s) (fs_otel_exporter_otlp_endpoint s) hdrs
        (fs_otel_exporter_timeout_seconds s) False None True k = (x, st)" by (metis prod.exhaust)
    then show ?thesis using new_otel_quiet[OF assms(1) n] Inr
      by (cases st) (simp add: get_tracer_def n[simplified])
  qed
  have l: "isl (fst (lifespan_tracer has_otel sdk loads global settings app_tracer k)) = False"
  proof (cases app_tracer)
    case None
    show ?thesis
    proof (cases settings)
      case (Inl e)
      then show ?thesis using None assms(3) by (simp add: lifespan_tracer_def)
    next
      case (Inr s)
      obtain y k' where g: "get_tracer has_otel sdk loads global s k = (y, k')" by (metis prod.exhaust)
      have "at_worst_exception y" using t[of s] g by simp
      then show ?thesis by (cases y) (simp_all add: lifespan_tracer_def None Inr g)
    qed
  qed (simp add: lifespan_tracer_def)
  obtain z k1 where lt: "lifespan_tracer has_otel sdk loads global settings app_tracer k = (z, k1)" by (metis prod.exhaust)
  then obtain found where z: "z = Inr found" using l by (cases z) simp_all
  have s: "fst (otel_shutdown sdk st) = Inr ()" for st :: "('a, 'b) otel_state" using shutdown_quiet[OF assms(1)] by blast
  show ?thesis
  proof (cases found)
    case (Some c)
    show ?thesis
    proof (cases c)
      case (Otel_tracer t)
      obtain st where sh: "otel_shutdown sdk (t, k1) = (Inr (), st)" using s[of "(t, k1)"] by (metis prod.collapse)
      have l: "lifespan_tracer has_otel sdk loads global settings app_tracer k = (Inr (Some (Otel_tracer t)), k1)"
        using lt z Some Otel_tracer by simp
      show ?thesis unfolding lifespan_shutdown_def l using assms(3)
        by (cases settings; cases st) (simp_all add: sh)
    qed (simp add: lifespan_shutdown_def lt z Some)
  qed (simp add: lifespan_shutdown_def lt z)
qed

end
