(* ===== verification/Embeddings.thy ===== *)
theory Embeddings
  imports Vector_Store Tracing Complex_Main
begin

text \<open>
  The embedding providers (\<open>retrieval/embeddings.py\<close>). Floats are real numbers here, as the code takes a
  square root; SHA-256 is an argument, as a number. The sentence-transformers library is a parameter: its
  import, the construction of a model and the calls on one, each with an exception or a result.
\<close>

section \<open>FakeEmbeddingProvider\<close>

definition new_fake_embedding :: "int \<Rightarrow> exc + nat" where
  "new_fake_embedding dimension =
     (if dimension \<le> 0 then Inl (value_error ''dimension must be greater than 0'') else Inr (nat dimension))"

definition hash_value :: "(string \<Rightarrow> nat) \<Rightarrow> string \<Rightarrow> nat \<Rightarrow> real" where
  "hash_value sha256 content i = real (sha256 (content @ ''_'' @ show_nat i) mod 10000) / 5000 - 1"

definition hash_vector :: "(string \<Rightarrow> nat) \<Rightarrow> nat \<Rightarrow> string \<Rightarrow> real list" where
  "hash_vector sha256 dimension content =
     (let raw_values = map (hash_value sha256 content) [0..<dimension];
          norm = sqrt (sum_list (map (\<lambda>x. x * x) raw_values))
      in if 0 < norm then map (\<lambda>x. x / norm) raw_values else replicate dimension 0)"

definition fake_embed_text :: "(string \<Rightarrow> nat) \<Rightarrow> nat \<Rightarrow> string \<Rightarrow> real list" where
  "fake_embed_text sha256 dimension = hash_vector sha256 dimension"

definition fake_embed_documents :: "(string \<Rightarrow> nat) \<Rightarrow> nat \<Rightarrow> string list \<Rightarrow> real list list" where
  "fake_embed_documents sha256 dimension texts = map (hash_vector sha256 dimension) texts"

section \<open>LocalSentenceTransformerEmbeddingProvider\<close>

text \<open>\<open>em_import\<close> is the exception the import raises, if it does.\<close>

record ('m, 'k) embedding_lib =
  em_import :: "exc option"
  em_load :: "string \<Rightarrow> string option \<Rightarrow> 'k \<Rightarrow> (exc + 'm) \<times> 'k"
  em_dimension :: "'m \<Rightarrow> 'k \<Rightarrow> (exc + nat option) \<times> 'k"
  em_encode_text :: "'m \<Rightarrow> string \<Rightarrow> 'k \<Rightarrow> (exc + real list) \<times> 'k"
  em_encode :: "'m \<Rightarrow> string list \<Rightarrow> 'k \<Rightarrow> (exc + real list list) \<times> 'k"

record 'm LocalEmbeddingProvider =
  lp_model_name :: string
  lp_device :: "string option"
  lp_model :: "'m option"
  lp_dimension :: "nat option"

definition new_local_embedding :: "string \<Rightarrow> string option \<Rightarrow> 'm LocalEmbeddingProvider" where
  "new_local_embedding model_name device =
     \<lparr>lp_model_name = model_name, lp_device = device, lp_model = None, lp_dimension = None\<rparr>"

definition import_error :: "exc \<Rightarrow> bool" where
  "import_error e \<longleftrightarrow> e_class e \<in> Foreign ` {''ImportError'', ''ModuleNotFoundError''}"

definition dependency_missing :: exc where
  "dependency_missing =
     mk_ConfigurationError (''sentence-transformers is not installed. Please run '' @ [CHR 0x27]
         @ ''pip install sentence-transformers'' @ [CHR 0x27] @ ''.'') ''DEPENDENCY_MISSING'' False []"

definition model_load_failed :: "string \<Rightarrow> exc \<Rightarrow> exc" where
  "model_load_failed model_name e =
     (if is_exception e then
        mk_ConfigurationError (''Failed to load local embedding model '' @ [CHR 0x27] @ model_name @ [CHR 0x27]
          @ '': '' @ e_message e) ''MODEL_LOAD_FAILED'' False []
      else e)"

text \<open>The model is stored before its dimension is asked for, so it stays when that raises.\<close>

definition load_model ::
    "('m, 'k) embedding_lib \<Rightarrow> 'm LocalEmbeddingProvider \<times> 'k \<Rightarrow> (exc + 'm) \<times> 'm LocalEmbeddingProvider \<times> 'k" where
  "load_model lib st =
     (case st of (p, k) \<Rightarrow>
        case lp_model p of
          Some m \<Rightarrow> (Inr m, p, k)
        | None \<Rightarrow>
            (case em_import lib of
               Some e \<Rightarrow> (Inl (if import_error e then dependency_missing else e), p, k)
             | None \<Rightarrow>
                 (case em_load lib (lp_model_name p) (if opt_truthy (lp_device p) then lp_device p else None) k of
                    (Inl e, k1) \<Rightarrow> (Inl (model_load_failed (lp_model_name p) e), p, k1)
                  | (Inr m, k1) \<Rightarrow>
                      (case em_dimension lib m k1 of
                         (Inl e, k2) \<Rightarrow> (Inl (model_load_failed (lp_model_name p) e), p\<lparr>lp_model := Some m\<rparr>, k2)
                       | (Inr d, k2) \<Rightarrow> (Inr m, p\<lparr>lp_model := Some m, lp_dimension := d\<rparr>, k2)))))"

definition local_dimension ::
    "('m, 'k) embedding_lib \<Rightarrow> 'm LocalEmbeddingProvider \<times> 'k \<Rightarrow> (exc + nat option) \<times> 'm LocalEmbeddingProvider \<times> 'k" where
  "local_dimension lib st =
     (if lp_dimension (fst st) \<noteq> None then (Inr (lp_dimension (fst st)), st)
      else case load_model lib st of
        (Inl e, st1) \<Rightarrow> (Inl e, st1)
      | (Inr m, p, k) \<Rightarrow>
          (case em_dimension lib m k of
             (Inl e, k1) \<Rightarrow> (Inl e, p, k1)
           | (Inr d, k1) \<Rightarrow> (Inr d, p\<lparr>lp_dimension := d\<rparr>, k1)))"

definition local_embed_text ::
    "('m, 'k) embedding_lib \<Rightarrow> string \<Rightarrow> 'm LocalEmbeddingProvider \<times> 'k
     \<Rightarrow> (exc + real list) \<times> 'm LocalEmbeddingProvider \<times> 'k" where
  "local_embed_text lib content st =
     (case load_model lib st of
        (Inl e, st1) \<Rightarrow> (Inl e, st1)
      | (Inr m, p, k) \<Rightarrow> (case em_encode_text lib m content k of (r, k1) \<Rightarrow> (r, p, k1)))"

definition local_embed_documents ::
    "('m, 'k) embedding_lib \<Rightarrow> string list \<Rightarrow> 'm LocalEmbeddingProvider \<times> 'k
     \<Rightarrow> (exc + real list list) \<times> 'm LocalEmbeddingProvider \<times> 'k" where
  "local_embed_documents lib texts st =
     (if texts = [] then (Inr [], st)
      else case load_model lib st of
        (Inl e, st1) \<Rightarrow> (Inl e, st1)
      | (Inr m, p, k) \<Rightarrow> (case em_encode lib m texts k of (r, k1) \<Rightarrow> (r, p, k1)))"

section \<open>Unit vectors\<close>

definition dot :: "real list \<Rightarrow> real list \<Rightarrow> real" where
  "dot u v = sum_list (map2 (*) u v)"

lemma square_sum_nonneg: "0 \<le> sum_list (map (\<lambda>x. x * x) (u :: real list))"
  by (rule sum_list_nonneg) auto

lemma dot_self: "dot u u = sum_list (map (\<lambda>x. x * x) u)"
  by (induction u) (simp_all add: dot_def)

lemma dot_bound: "2 * \<bar>dot u v\<bar> \<le> dot u u + dot v v"
proof (induction u v rule: list_induct2')
  case (4 x u y v)
  have "0 \<le> (x + y) * (x + y)" "0 \<le> (x - y) * (x - y)" by simp_all
  then have "2 * \<bar>x * y\<bar> \<le> x * x + y * y" by (simp add: algebra_simps abs_if)
  moreover have "\<bar>x * y + dot u v\<bar> \<le> \<bar>x * y\<bar> + \<bar>dot u v\<bar>" by (rule abs_triangle_ineq)
  ultimately show ?case using 4 by (simp add: dot_def)
qed (simp_all add: dot_def dot_self[unfolded dot_def] square_sum_nonneg)

lemma sum_list_scaled: "sum_list (map (\<lambda>x. x / c * (x / c)) xs) = sum_list (map (\<lambda>x. x * x) xs) / (c * c)" for c :: real
  by (induction xs) (simp_all add: add_divide_distrib)

lemma hash_vector_shape:
  "length (hash_vector sha256 d t) = d \<and> (dot (hash_vector sha256 d t) (hash_vector sha256 d t) = 1 \<or> hash_vector sha256 d t = replicate d 0)"
proof -
  define raw where "raw = map (hash_value sha256 t) [0..<d]"
  define n where "n = sqrt (sum_list (map (\<lambda>x. x * x) raw))"
  have v: "hash_vector sha256 d t = (if 0 < n then map (\<lambda>x. x / n) raw else replicate d 0)"
    by (simp add: hash_vector_def raw_def n_def Let_def)
  have "dot (map (\<lambda>x. x / n) raw) (map (\<lambda>x. x / n) raw) = 1" if "0 < n"
  proof -
    have "n * n = sum_list (map (\<lambda>x. x * x) raw)" by (simp add: n_def square_sum_nonneg)
    then have "sum_list (map (\<lambda>x. x / n * (x / n)) raw) = 1" unfolding sum_list_scaled using that by (metis divide_self_if less_irrefl mult_eq_0_iff)
    then show ?thesis unfolding dot_self map_map o_def .
  qed
  moreover have "length raw = d" by (simp add: raw_def)
  ultimately show ?thesis by (simp add: v)
qed

lemma hash_value_range: "- 1 \<le> hash_value sha256 t i \<and> hash_value sha256 t i < 1"
proof -
  have "sha256 (t @ ''_'' @ show_nat i) mod 10000 < 10000" by simp
  then have "real (sha256 (t @ ''_'' @ show_nat i) mod 10000) < 10000" by linarith
  then show ?thesis by (simp add: hash_value_def)
qed



section \<open>The model is loaded once\<close>

text \<open>The library with a count of the models it has constructed.\<close>

definition counting :: "('m, 'k) embedding_lib \<Rightarrow> ('m, nat \<times> 'k) embedding_lib" where
  "counting lib =
     \<lparr>em_import = em_import lib,
      em_load = (\<lambda>n d (c, k). case em_load lib n d k of (Inl e, k1) \<Rightarrow> (Inl e, c, k1) | (Inr m, k1) \<Rightarrow> (Inr m, Suc c, k1)),
      em_dimension = (\<lambda>m (c, k). case em_dimension lib m k of (r, k1) \<Rightarrow> (r, c, k1)),
      em_encode_text = (\<lambda>m t (c, k). case em_encode_text lib m t k of (r, k1) \<Rightarrow> (r, c, k1)),
      em_encode = (\<lambda>m ts (c, k). case em_encode lib m ts k of (r, k1) \<Rightarrow> (r, c, k1))\<rparr>"

datatype embed_op = Ask_dimension | Embed_text string | Embed_documents "string list"

fun embed_op_step :: "('m, 'k) embedding_lib \<Rightarrow> embed_op \<Rightarrow> 'm LocalEmbeddingProvider \<times> 'k \<Rightarrow> 'm LocalEmbeddingProvider \<times> 'k" where
  "embed_op_step lib Ask_dimension st = snd (local_dimension lib st)"
| "embed_op_step lib (Embed_text t) st = snd (local_embed_text lib t st)"
| "embed_op_step lib (Embed_documents ts) st = snd (local_embed_documents lib ts st)"

text \<open>The model is cached exactly when it has been constructed, once.\<close>

definition loaded_once :: "'m LocalEmbeddingProvider \<times> nat \<times> 'k \<Rightarrow> bool" where
  "loaded_once st \<longleftrightarrow> fst (snd st) = (if lp_model (fst st) = None then 0 else 1)"

lemma load_model_once: "loaded_once st \<Longrightarrow> loaded_once (snd (load_model (counting lib) st))"
  by (cases st) (auto simp: load_model_def counting_def loaded_once_def split: option.splits sum.splits prod.splits)

lemma counting_simps:
  "em_dimension (counting lib) m (c, k) = (case em_dimension lib m k of (r, k1) \<Rightarrow> (r, c, k1))"
  "em_encode_text (counting lib) m t (c, k) = (case em_encode_text lib m t k of (r, k1) \<Rightarrow> (r, c, k1))"
  "em_encode (counting lib) m ts (c, k) = (case em_encode lib m ts k of (r, k1) \<Rightarrow> (r, c, k1))"
  by (simp_all add: counting_def)

lemma local_dimension_once: "loaded_once st \<Longrightarrow> loaded_once (snd (local_dimension (counting lib) st))"
proof -
  assume st: "loaded_once st"
  obtain r p c k where l: "load_model (counting lib) st = (r, p, c, k)" by (metis prod.exhaust)
  have "loaded_once (p, c, k)" using load_model_once[OF st, of lib] l by simp
  then show ?thesis using st
    by (auto simp: local_dimension_def l counting_simps loaded_once_def split: sum.splits prod.splits)
qed

lemma embed_op_once: "loaded_once st \<Longrightarrow> loaded_once (embed_op_step (counting lib) op st)"
proof (cases op)
  case Ask_dimension
  assume "loaded_once st"
  then show ?thesis using local_dimension_once by (simp add: Ask_dimension)
next
  case (Embed_text t)
  assume st: "loaded_once st"
  obtain r p c k where l: "load_model (counting lib) st = (r, p, c, k)" by (metis prod.exhaust)
  have "loaded_once (p, c, k)" using load_model_once[OF st, of lib] l by simp
  then show ?thesis by (auto simp: Embed_text local_embed_text_def l counting_simps loaded_once_def split: sum.splits prod.splits)
next
  case (Embed_documents ts)
  assume st: "loaded_once st"
  obtain r p c k where l: "load_model (counting lib) st = (r, p, c, k)" by (metis prod.exhaust)
  have "loaded_once (p, c, k)" using load_model_once[OF st, of lib] l by simp
  then show ?thesis using st
    by (auto simp: Embed_documents local_embed_documents_def l counting_simps loaded_once_def split: sum.splits prod.splits)
qed

lemma embed_ops_once: "loaded_once st \<Longrightarrow> loaded_once (fold (embed_op_step (counting lib)) ops st)"
  by (induction ops arbitrary: st) (simp_all add: embed_op_once)

text \<open>The local model is constructed at most once, however the provider is used and whatever the library
  raises in between: after any sequence of operations the number of models constructed is one if the provider
  holds one and zero if not.\<close>

theorem model_loaded_once:
  "let (p, c, k') = fold (embed_op_step (counting lib)) ops (new_local_embedding name device, 0, k)
   in c = (if lp_model p = None then 0 else 1)"
proof -
  have "loaded_once (new_local_embedding name device, 0, k)" by (simp add: loaded_once_def new_local_embedding_def)
  from embed_ops_once[OF this, of lib ops] show ?thesis unfolding loaded_once_def case_prod_beta Let_def .
qed

text \<open>A failed load is a configuration error; a failed construction is tried again by the next call.\<close>

definition at_worst_import :: "exc option \<Rightarrow> bool" where
  "at_worst_import r \<longleftrightarrow> (case r of Some e \<Rightarrow> import_error e | None \<Rightarrow> True)"

definition em_safe :: "(exc + 'a) \<times> 'k \<Rightarrow> bool" where
  "em_safe r \<longleftrightarrow> (case fst r of Inl e \<Rightarrow> is_exception e | Inr _ \<Rightarrow> True)"

lemma configuration_error_typed: "isinstance (mk_ConfigurationError m c False []) ConfigurationError \<and> \<not> e_retryable (mk_ConfigurationError m c False [])"
  by (simp add: mk_ConfigurationError_def orchestrator_init_def)

lemma load_failure_typed:
  assumes "load_model lib (p, k) = (Inl e, st)" "at_worst_import (em_import lib)"
    "\<And>n d k. em_safe (em_load lib n d k)" "\<And>m k. em_safe (em_dimension lib m k)"
  shows "isinstance e ConfigurationError \<and> \<not> e_retryable e"
proof -
  have failed: "isinstance (model_load_failed n x) ConfigurationError \<and> \<not> e_retryable (model_load_failed n x)"
    if "is_exception x" for n x unfolding model_load_failed_def if_P[OF that] by (rule configuration_error_typed)
  have dim: "is_exception x" if "em_dimension lib m k' = (Inl x, k'')" for m k' x k''
    using assms(4)[of m k'] that by (simp add: em_safe_def)
  obtain x where "e = dependency_missing \<or> (is_exception x \<and> e = model_load_failed (lp_model_name p) x)"
    using assms(1,2) assms(3)[of "lp_model_name p" "if opt_truthy (lp_device p) then lp_device p else None" k]
    unfolding load_model_def at_worst_import_def em_safe_def
    by (auto split: option.splits sum.splits prod.splits dest: dim)
  then show ?thesis using failed configuration_error_typed unfolding dependency_missing_def by metis
qed

end
