(* ===== verification/End_To_End.thy ===== *)
theory End_To_End
  imports Deployment Completion
begin

text \<open>
  A run from the request to the answer: the endpoint hands it to the execution backend, a worker of the
  pool takes it, the runtime drives the graph with the agents of the framework, and the client that waits
  on the future gets the state, which the status endpoint then shows, too.
\<close>

section \<open>The runtime\<close>

definition completed_state :: "OrchestrationState \<Rightarrow> bool" where
  "completed_state s \<longleftrightarrow> s_status s = ExecutionStatus.COMPLETED
     \<and> ((\<forall>t\<in>set (state_tasks s). t_status t = TaskStatus.COMPLETED)
        \<or> (\<exists>t\<in>set (state_tasks s). t_task_type t = TaskType.SYNTHESIS))"

lemma run_completed_state: "run_completed gs \<longleftrightarrow> completed_state (g_state gs)"
  by (simp add: run_completed_def completed_state_def)

lemma completed_rekeyed [simp]: "completed_state (s\<lparr>s_run_id := r\<rparr>) = completed_state s"
  by (simp add: completed_state_def state_tasks_def)

text \<open>What is assumed of a runtime: the agents of the framework, providers that plan and accept, a store
  that does not fail, and room for the plans of \<open>m\<close> tasks.\<close>

definition apt_runtime :: "nat \<Rightarrow> 'w runtime \<Rightarrow> bool" where
  "apt_runtime m rt \<longleftrightarrow>
     (\<exists>planner_llm critic_llm to_int retrieve reg tracer sink validate.
        rt_nodes rt = default_nodes planner_llm critic_llm to_int retrieve reg tracer sink validate
        \<and> revalidates_dumps validate \<and> plans_well planner_llm m \<and> always_accepts critic_llm)
     \<and> never_fails (rt_store rt) \<and> 9 * m + 4 \<le> rt_max_steps rt"

lemma run_except_kept:
  assumes "never_fails (rt_store rt)"
  shows "\<exists>s' w'. run_except rt k e s w = (e, s', w')"
proof -
  define s' where "s' = fail_run (k_now k) (''Workflow execution exception: '' @ e_message e) s"
  have "fst (st_save_state (rt_store rt) s' w) = None" using assms by (simp add: never_fails_def)
  then obtain w' where "st_save_state (rt_store rt) s' w = (None, w')" by (metis prod.collapse)
  then have "run_except rt k e s w = (e, s', w')" unfolding run_except_def s'_def[symmetric] by (simp add: Let_def)
  then show ?thesis by blast
qed

lemma apt_run:
  assumes rt: "apt_runtime m rt" and q: "py_strip request \<noteq> []"
    and run: "run rt k ks request corr sess custom w = (r, es, w')"
  shows "case r of Inl e \<Rightarrow> malformed_query e
    | Inr s \<Rightarrow> completed_state s \<and> (\<exists>w0. persist rt (snapshot k 2 s) s w0 = (None, w'))"
proof -
  obtain planner_llm critic_llm to_int retrieve reg tracer sink validate where
    n: "rt_nodes rt = default_nodes planner_llm critic_llm to_int retrieve reg tracer sink validate"
      "revalidates_dumps validate" "plans_well planner_llm m" "always_accepts critic_llm"
    and nf: "never_fails (rt_store rt)" and lim: "9 * m + 4 \<le> rt_max_steps rt"
    using rt unfolding apt_runtime_def by blast
  define x0 where "x0 = create_initial (k_now k) (k_uid k 0) request corr sess 3 custom"
  have ne: "request \<noteq> []" using q by (auto simp: py_strip_def)
  have x0: "s_plan x0 = None" "s_status x0 \<noteq> ExecutionStatus.FAILED" "\<not> s_requires_human x0" "planner_validate_input x0"
    using q ne by (simp_all add: x0_def create_initial_def planner_validate_input_def)
  obtain w1 where p1: "persist rt (snapshot k 1 x0) x0 w = (None, w1)" using persist_never_fails[OF nf] by blast
  obtain st es1 where t: "run_try rt k ks corr sess x0 w1 = (r, st, es1, w')"
    using run p1 ne by (auto simp: run_def Let_def x0_def[symmetric] split: prod.splits)
  obtain o1 es2 w2 where g: "run_graph (rt_nodes rt) ks (rt_max_steps rt) (start_state x0 None) w1 = (o1, es2, w2)"
    by (rule prod_cases3)
  have good: "case o1 of Finished gs' \<Rightarrow> run_completed gs' | Raised e s' \<Rightarrow> malformed_query e | Out_of_steps s' \<Rightarrow> False"
    using accepted_graph[OF n(2-4) x0 lim, of to_int retrieve reg tracer sink ks w1] g n(1) by simp
  show ?thesis
  proof (cases o1)
    case (Finished gs)
    obtain w3 where "persist rt (snapshot k 2 (g_state gs)) (g_state gs) w2 = (None, w3)"
      using persist_never_fails[OF nf] by blast
    then show ?thesis using t g good Finished
      by (auto simp: run_try_def ainvoke_def Let_def run_completed_state)
  next
    case (Raised e s)
    obtain s' w3 where "run_except rt k e s w2 = (e, s', w3)" using run_except_kept[OF nf] by blast
    then show ?thesis using t g good Raised by (auto simp: run_try_def ainvoke_def Let_def)
  next
    case (Out_of_steps s)
    then show ?thesis using good by simp
  qed
qed

section \<open>The submission\<close>

lemma started_same:
  "b_queue (start cfg b) = b_queue b" "b_heap (start cfg b) = b_heap b" "b_jobs (start cfg b) = b_jobs b"
  "b_cancelled_runs (start cfg b) = b_cancelled_runs b"
  by (simp_all add: start_def update_metrics_def emit_def Let_def)

lemma save_same:
  assumes "save_in_store cfg s b = (e, b')"
  shows "b_queue b' = b_queue b" "b_heap b' = b_heap b" "b_cancelled_runs b' = b_cancelled_runs b"
  using assms by (auto simp: save_in_store_def split: prod.splits)

definition item_of :: "run_request \<Rightarrow> nat \<Rightarrow> work_item" where
  "item_of q f = \<lparr>wi_run_id = rq_run_id q,
     wi_payload = Run_item (rq_request q) (rq_correlation_id q) (rq_session_id q) (rq_custom_context q),
     wi_future = f, wi_key_hash = None\<rparr>"

lemma unkeyed_submission:
  assumes nk: "\<not> opt_truthy (rq_idempotency_key q)" and run: "submit_run cfg k q b = (Inr (job, f), b1)"
  shows "f = length (b_heap b)" "b_heap b1 = b_heap b @ [Fut_pending]" "b_queue b1 = b_queue b @ [Some (item_of q f)]"
    "b_cancelled_runs b1 = b_cancelled_runs b" "map_of (b_jobs b1) (rq_run_id q) = Some job" "\<not> j_is_cancelled job"
    "j_run_id job = rq_run_id q"
proof -
  obtain s b2 where a: "submit_admit cfg k q b = (Inr (Admitted None None s), start cfg b)"
    and sv: "save_in_store cfg s (start cfg b) = (None, b2)" and e: "submit_enqueue cfg k q None None b2 = (Inr (job, f), b1)"
    using run nk by (auto simp: submit_run_def submit_admit_def check_capacity_def Let_def split: if_splits option.splits prod.splits)
  note e' = e[unfolded submit_enqueue_def Let_def, simplified] and b2 = save_same[OF sv] started_same[of cfg b]
  show "f = length (b_heap b)" "b_heap b1 = b_heap b @ [Fut_pending]" "b_queue b1 = b_queue b @ [Some (item_of q f)]"
    "b_cancelled_runs b1 = b_cancelled_runs b" "map_of (b_jobs b1) (rq_run_id q) = Some job" "\<not> j_is_cancelled job"
    "j_run_id job = rq_run_id q"
    using e' b2 by (auto simp: item_of_def new_job_def update_metrics_def emit_def publish_event_def update_conv' split: if_splits)
qed

section \<open>The worker\<close>

text \<open>A backend over the in-memory store whose runtime is apt and uses the same store.\<close>

definition apt_config :: "nat \<Rightarrow> InMemoryStateStore backend_config \<Rightarrow> bool" where
  "apt_config m cfg \<longleftrightarrow>
     (\<exists>rt concurrency capacity sha256_hex publisher. cfg = in_memory_config rt concurrency capacity sha256_hex publisher
        \<and> apt_runtime m rt \<and> rt_store rt = bc_store cfg)"

lemma copy_in_memory:
  "\<exists>w'. copy_checkpoints (in_memory_config rt c q h p) r cps w = (None, w')"
  by (induction cps arbitrary: w) (simp_all add: in_memory_config_def)

lemma im_saved: "im_get_state (im_save_state s w) (s_run_id s) = Some s"
  by (simp add: im_get_state_def im_save_state_def update_conv')

lemma im_get_checkpoint: "im_get_state (im_save_checkpoint cp w) r = im_get_state w r"
  by (simp add: im_get_state_def im_save_checkpoint_def)

lemma rekey_in_memory:
  assumes "im_get_state (b_world b) (s_run_id s) = Some s"
  shows "\<exists>b'. rekey_run (in_memory_config rt c q h p) r s b = (Inr (s\<lparr>s_run_id := r\<rparr>), b')
    \<and> im_get_state (b_world b') r = Some (s\<lparr>s_run_id := r\<rparr>) \<and> b_heap b' = b_heap b \<and> b_jobs b' = b_jobs b"
proof (cases "s_run_id s = r")
  case True
  then have "s\<lparr>s_run_id := r\<rparr> = s" by simp
  then show ?thesis using True assms by (simp add: rekey_run_def)
next
  case False
  let ?cfg = "in_memory_config rt c q h p"
  obtain w' where cp: "copy_checkpoints ?cfg r (im_list_checkpoints (b_world b) (s_run_id s)) (b_world b) = (None, w')"
    using copy_in_memory by blast
  let ?s = "s\<lparr>s_run_id := r\<rparr>" and ?b = "emit [Relabel_spans (s_run_id s) r] (b\<lparr>b_world := w'\<rparr>)"
  have "rekey_run ?cfg r s b = (Inr ?s, ?b\<lparr>b_world := im_save_state ?s w'\<rparr>)"
    using False cp by (simp add: rekey_run_def Let_def save_in_store_def in_memory_config_def emit_def)
  then show ?thesis using im_saved[of ?s w'] by (simp add: emit_def)
qed

lemma result_delivered:
  assumes it: "wi_key_hash it = None" "wi_run_id it = r" and f: "wi_future it < length (b_heap b)" "b_heap b ! wi_future it = Fut_pending"
    and j: "map_of (b_jobs b) r = Some j" and s: "s_status s = ExecutionStatus.COMPLETED"
  shows "await_future (b_heap (handle_result cfg k it s b)) (wi_future it) = Some (Inr s)"
    "b_world (handle_result cfg k it s b) = b_world b"
    "map_option j_status (map_of (b_jobs (handle_result cfg k it s b)) r) = Some JobStatus.COMPLETED"
  using assms
  by (simp_all add: handle_result_def Let_def complete_key_def opt_truthy_def opt_str_def set_future_def upd_job_def emit_def
      publish_event_def await_future_def settle_nth map_of_upd_key)

lemma exception_delivered:
  assumes "wi_key_hash it = None" "wi_future it < length (b_heap b)" "b_heap b ! wi_future it = Fut_pending"
  shows "await_future (b_heap (handle_exception cfg k it e b)) (wi_future it) = Some (Inl e)"
  using assms
  by (simp add: handle_exception_def Let_def fail_key_def opt_truthy_def opt_str_def set_future_def upd_job_def emit_def
      publish_event_def await_future_def settle_nth)

lemma released [simp]:
  "b_heap (release_worker i r x b) = b_heap b" "b_world (release_worker i r x b) = b_world b"
  "b_jobs (release_worker i r x b) = b_jobs b"
  by (simp_all add: release_worker_def set_worker_def update_metrics_def emit_def)

text \<open>The outcome a client can see: the state of the completed run, in the future and in the store, or the
  error of a malformed query, in the future.\<close>

definition run_answered :: "'w backend_config \<Rightarrow> string \<Rightarrow> nat \<Rightarrow> 'w backend \<Rightarrow> bool" where
  "run_answered cfg r f b \<longleftrightarrow>
     (case await_future (b_heap b) f of
        None \<Rightarrow> False
      | Some (Inl e) \<Rightarrow> malformed_query e
      | Some (Inr s) \<Rightarrow> s_run_id s = r \<and> completed_state s \<and> map_option j_status (get_job b r) = Some JobStatus.COMPLETED
          \<and> (case fst (get_run_status cfg r b) of Inl _ \<Rightarrow> False | Inr x \<Rightarrow> st_run_id x = r \<and> st_status x = ''completed''))"

lemma finish_answers:
  assumes cfg: "cfg = in_memory_config rt c q h p"
    and it: "wi_key_hash it = None" "wi_run_id it = r" and f: "wi_future it < length (b_heap b)" "b_heap b ! wi_future it = Fut_pending"
    and j: "map_of (b_jobs b) r = Some j"
    and d: "d = Failed e \<and> malformed_query e
      \<or> d = Returned s \<and> completed_state s \<and> im_get_state (b_world b) (s_run_id s) = Some s"
  shows "run_answered cfg r (wi_future it) (finish_item cfg k i it d b)"
  using d
proof (elim disjE conjE)
  assume "d = Failed e" "malformed_query e"
  then show ?thesis using exception_delivered[OF it(1) f, of cfg k e] by (simp add: run_answered_def finish_item_def Let_def)
next
  assume "d = Returned s" and s: "completed_state s" "im_get_state (b_world b) (s_run_id s) = Some s"
  let ?s = "s\<lparr>s_run_id := r\<rparr>"
  obtain b' where b': "rekey_run cfg r s b = (Inr ?s, b')" "im_get_state (b_world b') r = Some ?s"
    "b_heap b' = b_heap b" "b_jobs b' = b_jobs b"
    using rekey_in_memory[OF s(2)] unfolding cfg by blast
  have st: "s_status ?s = ExecutionStatus.COMPLETED" using s(1) by (simp add: completed_state_def)
  define b2 where "b2 = handle_result cfg k it ?s b'"
  have b2: "await_future (b_heap b2) (wi_future it) = Some (Inr ?s)" "b_world b2 = b_world b'"
    "map_option j_status (map_of (b_jobs b2) r) = Some JobStatus.COMPLETED"
    unfolding b2_def using result_delivered[OF it _ _ _ st, of b' j cfg k] f j b'(3,4) by simp_all
  define b3 where "b3 = release_worker i r Waiting b2"
  have fin: "finish_item cfg k i it d b = b3"
    using \<open>d = Returned s\<close> b'(1) it(2) by (simp add: finish_item_def Let_def b3_def b2_def)
  have b3: "b_heap b3 = b_heap b2" "b_jobs b3 = b_jobs b2" "im_get_state (b_world b3) r = Some ?s"
    using b2(2) b'(2) by (simp_all add: b3_def)
  have "fst (get_run_status cfg r b3) = Inr (state_to_status_response ?s (map_option j_status (get_job b3 r)))"
    using b3(3) by (simp add: get_run_status_def with_state_def get_from_store_def cfg in_memory_config_def get_job_def)
  moreover have "st_status (state_to_status_response ?s l) = ''completed''" "st_run_id (state_to_status_response ?s l) = r" for l
    using st by (simp_all add: state_to_status_response_def Let_def)
  ultimately show ?thesis
    using b2(1,3) s(1) unfolding fin run_answered_def b3(1) get_job_def b3(2) by simp
qed

lemma iteration_answers:
  assumes cfg: "apt_config m cfg" and q: "py_strip (rq_request q) \<noteq> []" "b_queue b = Some (item_of q f) # qs"
    and w: "i < length (b_workers b)" "b_workers b ! i = Waiting"
    and f: "f < length (b_heap b)" "b_heap b ! f = Fut_pending"
    and j: "map_of (b_jobs b) (rq_run_id q) = Some j" "\<not> j_is_cancelled j" "rq_run_id q \<notin> b_cancelled_runs b"
  shows "run_answered cfg (rq_run_id q) f (worker_iteration cfg k ks i b)"
proof -
  obtain rt c qn h p where c: "cfg = in_memory_config rt c qn h p" and rt: "apt_runtime m rt" "rt_store rt = bc_store cfg"
    using cfg unfolding apt_config_def by blast
  let ?it = "item_of q f" and ?r = "rq_run_id q"
  define b1 where "b1 = take_item cfg k i b"
  have b1: "b1 = set_worker i (Executing ?it False) (update_metrics
      (upd_job ?r (\<lambda>j. j\<lparr>j_status := JobStatus.RUNNING, j_started_at := Some (k_now k)\<rparr>)
        (b\<lparr>b_queue := qs, b_active_tasks := AList.update ?r i (b_active_tasks b)\<rparr>)))"
    using q(2) j by (simp add: b1_def take_item_def job_cancelled_def item_of_def begin_item_def Let_def)
  have sel: "b_workers b1 ! i = Executing ?it False" "b_heap b1 = b_heap b" "\<exists>j. map_of (b_jobs b1) ?r = Some j"
    using w j(1) by (simp_all add: b1 set_worker_def update_metrics_def emit_def upd_job_def map_of_upd_key)
  obtain r es v where run: "run rt k ks (rq_request q) (rq_correlation_id q) (rq_session_id q) (rq_custom_context q) (b_world b1) = (r, es, v)"
    by (rule prod_cases3)
  define d where "d = (case r of Inl e \<Rightarrow> Failed e | Inr s \<Rightarrow> Returned s)"
  have ex: "execute_payload cfg k ks (wi_payload ?it) (b_world b1) = (d, es, v)"
    using run by (simp add: execute_payload_def item_of_def c in_memory_config_def d_def split: sum.splits)
  define b2 where "b2 = emit (map Telemetry es) (b1\<lparr>b_world := v\<rparr>)"
  have b2: "b_heap b2 = b_heap b" "b_jobs b2 = b_jobs b1" "b_world b2 = v" using sel by (simp_all add: b2_def emit_def)
  have it: "wi_key_hash ?it = None" "wi_run_id ?it = ?r" "wi_future ?it = f" by (simp_all add: item_of_def)
  have iter: "worker_iteration cfg k ks i b = finish_item cfg k i ?it d b2"
    using sel(1) ex by (simp add: worker_iteration_def Let_def b1_def[symmetric] b2_def)
  note good = apt_run[OF rt(1) q(1) run]
  have saved: "im_get_state v (s_run_id s) = Some s" if "persist rt (snapshot k 2 s) s w0 = (None, v)" for s w0
    using that rt(2) im_saved[of s w0] by (auto simp: persist_def c in_memory_config_def im_get_checkpoint)
  obtain e s where "d = Failed e \<and> malformed_query e
      \<or> d = Returned s \<and> completed_state s \<and> im_get_state (b_world b2) (s_run_id s) = Some s"
    using good saved b2(3) by (cases r) (auto simp: d_def)
  then show ?thesis unfolding iter
    using finish_answers[OF c it(1,2) _ _ _ , of b2 _ d] f b2(1,2) sel(3) it(3) by auto
qed

section \<open>From the request to the answer\<close>

text \<open>C3: a submitted run is answered: when providers plan and accept, the request is not blank and has no
  idempotency key, and the queue was empty, one iteration of any free worker after the endpoint has
  accepted the request settles the future the client waits on. It holds the state of the completed run
  under the identifier the client was given, and the status endpoint reports that run as completed; or
  else the error of a malformed retrieval query.\<close>

theorem submitted_run_completes:
  assumes "apt_config m cfg" "py_strip (cr_request p) \<noteq> []"
    and "\<not> opt_truthy header_key" "\<not> opt_truthy (cr_idempotency_key p)"
    and "b_queue b = []" "k_uid k 2 \<notin> b_cancelled_runs b"
    and "create_run_submit cfg k identity header_key p b = (Inr (job, f), b1)"
    and "i < length (b_workers b1)" "b_workers b1 ! i = Waiting"
  shows "run_answered cfg (j_run_id job) f (worker_iteration cfg k2 ks i b1)"
proof -
  define q where "q = (run_request_of identity header_key p)\<lparr>rq_run_id := k_uid k 2\<rparr>"
  have q: "\<not> opt_truthy (rq_idempotency_key q)" "rq_run_id q = k_uid k 2" "rq_request q = cr_request p"
    using assms(3,4) by (simp_all add: q_def run_request_of_def)
  have s: "submit_run cfg k q (ensure_started cfg b) = (Inr (job, f), b1)"
    using assms(7) by (auto simp: create_run_submit_def service_submit_run_def q_def split: prod.splits sum.splits if_splits)
  have same: "b_queue (ensure_started cfg b) = []" "b_cancelled_runs (ensure_started cfg b) = b_cancelled_runs b"
    using assms(5) by (simp_all add: ensure_started_def started_same)
  note u = unkeyed_submission[OF q(1) s, unfolded same]
  show ?thesis
    unfolding u(7) using u assms(1,2,6,8,9) q(2,3)
    by (intro iteration_answers[where m = m and qs = "[]" and j = job]) simp_all
qed

section \<open>A witness\<close>

text \<open>The tool registry and the document store are empty, as in the deployed runtime.\<close>

definition ex_apt_runtime :: "InMemoryStateStore runtime" where
  "ex_apt_runtime =
     \<lparr>rt_nodes = default_nodes (ex_router ex_decomposition) (ex_router (ex_verdict ValidationStatus.VALID)) ex_to_int
        (\<lambda>q w. (Inr (retrieve_in_memory q []), w)) [] True True load_plan,
      rt_store = memory_store_ops, rt_max_steps = 50, rt_graph_error = (\<lambda>n. mk_Foreign ''GraphRecursionError'' [])\<rparr>"

definition ex_apt_config :: "InMemoryStateStore backend_config" where
  "ex_apt_config = in_memory_config ex_apt_runtime 1 1 (\<lambda>s. s) True"

lemma ex_apt: "apt_config 2 ex_apt_config"
proof -
  have "apt_runtime 2 ex_apt_runtime"
    unfolding apt_runtime_def ex_apt_runtime_def
    using memory_store_never_fails load_revalidates ex_plans_well ex_accepts by fastforce
  moreover have "rt_store ex_apt_runtime = bc_store ex_apt_config"
    by (simp add: ex_apt_runtime_def ex_apt_config_def in_memory_config_def memory_store_ops_def)
  ultimately show ?thesis unfolding apt_config_def ex_apt_config_def by blast
qed

definition ex_plain_body :: CreateRunRequest where
  "ex_plain_body = ex_create_body\<lparr>cr_idempotency_key := None\<rparr>"

lemma ex_plain_accepted:
  "\<exists>job f b1. create_run_submit ex_apt_config (ex_named_tick ''a'') (ex_identity OPERATOR) None ex_plain_body (new_backend im_empty)
     = (Inr (job, f), b1) \<and> b_workers b1 = [Waiting]"
  by (simp add: create_run_submit_def service_submit_run_def run_request_of_def ex_plain_body_def ex_create_body_def
      submit_run_def submit_admit_def ensure_started_def start_def new_backend_def ex_apt_config_def in_memory_config_def
      update_metrics_def emit_def Let_def opt_truthy_def opt_str_def check_capacity_def queue_full_def save_in_store_def
      submit_enqueue_def publish_event_def ex_named_tick_def)

theorem submitted_run_completes_witness:
  "\<exists>job f b1. create_run_submit ex_apt_config (ex_named_tick ''a'') (ex_identity OPERATOR) None ex_plain_body (new_backend im_empty)
       = (Inr (job, f), b1)
     \<and> run_answered ex_apt_config (j_run_id job) f (worker_iteration ex_apt_config (ex_tick 0) ex_tick 0 b1)"
proof -
  obtain job f b1 where acc: "create_run_submit ex_apt_config (ex_named_tick ''a'') (ex_identity OPERATOR) None ex_plain_body
      (new_backend im_empty) = (Inr (job, f), b1)" and w: "b_workers b1 = [Waiting]" using ex_plain_accepted by blast
  have p: "py_strip (cr_request ex_plain_body) \<noteq> []" "\<not> opt_truthy (cr_idempotency_key ex_plain_body)" "\<not> opt_truthy None"
    by (simp_all add: ex_plain_body_def ex_create_body_def py_strip_def py_space_def opt_truthy_def opt_str_def)
  show ?thesis
    using submitted_run_completes[OF ex_apt p(1,3,2) _ _ acc, of 0 "ex_tick 0" ex_tick] acc w by (simp add: new_backend_def)
qed

end
