(* ===== verification/Spec2Isabelle.thy ===== *)
theory Spec2Isabelle
  imports Authenticators Rate_Limiter Backend_Theorems Vector_Store Api_Routes
    Providers Postgres_Store Tracing Prometheus Evaluation
    Completion Benchmarks Otel Api_Telemetry Deployment Embeddings End_To_End
begin

text \<open>
  A model of the Enterprise Multi-Agent Orchestration Framework (package
  \<open>src/src/enterprise_orchestrator\<close>; the paths below are relative to it) and the properties that make
  it correct.

  \<^bold>\<open>The program.\<close> A request becomes a run: the planner agent asks a language model for a graph of tasks,
  the supervisor dispatches the ready tasks to the retrieval and tool agents, the validator agent judges
  each output (accept, retry, or ask a human), and a synthesis node composes the answer. The runtime
  drives this graph, saves the state and a checkpoint after each step and reports to telemetry. Around it
  stand an execution engine (a bounded queue served by worker coroutines, with idempotency keys,
  cancellation and shutdown), a service that publishes run events to subscribers, and an HTTP API with
  authentication, role based permissions, rate limits and request checks.

  \<^bold>\<open>Theories and sources.\<close>
  \<^item> \<open>Prelude\<close>, \<open>PyValue\<close>, \<open>Py_Text\<close>: Python's dictionaries as association lists, updates in a list, text
    functions on ASCII text, and the JSON-like values of \<open>Dict[str, Any]\<close>.
  \<^item> \<open>Errors\<close> (\<open>errors/exceptions.py\<close>): the exception classes as a datatype with its hierarchy; every
    operation that can raise returns \<open>exc + 'a\<close>. \<open>Http\<close> adds the exceptions of the transport layer.
  \<^item> \<open>Core_State\<close> (\<open>core/\<close>, \<open>validation/models.py\<close>): tasks, plans, human requests, the orchestration state
    and their methods.
  \<^item> \<open>Plan_Graph\<close> (\<open>agents/planner.py\<close>, \<open>validate_plan_dag\<close>), \<open>Llm_Router\<close> (\<open>providers/router.py\<close>),
    \<open>Tools\<close> (\<open>tools/\<close>), \<open>Document_Store\<close> (\<open>agents/retrieval.py\<close>), \<open>Agents\<close> (the \<open>execute\<close> methods of
    \<open>agents/\<close>).
  \<^item> \<open>Providers\<close> (\<open>providers/gemini.py\<close>, \<open>providers/groq.py\<close>): the two members of the router.
  \<^item> \<open>Telemetry\<close> (\<open>observability/\<close>): the calls made to telemetry as values, and the metrics registry;
    \<open>Redaction\<close> (\<open>observability/audit/\<close>: patterns, redactor, audit sinks), \<open>Tracing\<close>
    (\<open>observability/tracing/\<close>: spans, context, scopes), \<open>Otel\<close> (\<open>tracing/opentelemetry_adapter.py\<close>),
    \<open>Prometheus\<close> (the text format of the metrics).
  \<^item> \<open>Nodes\<close>, \<open>Workflow\<close> (\<open>orchestration/nodes.py\<close>, the graph of \<open>orchestration/runtime.py\<close>),
    \<open>Supervision\<close>, \<open>Wiring\<close>: what a run relies on from its agents as locales, the invariant and the
    measure under these contracts, and their interpretation on the four agents of the framework.
  \<^item> \<open>State_Store\<close> (\<open>memory/\<close>: in memory and SQLite), \<open>Postgres_Store\<close> (\<open>memory/postgres.py\<close>),
    \<open>Runtime\<close> (\<open>run\<close>, \<open>resume_with_human_decision\<close>), \<open>Workflow_Theorems\<close>;
    \<open>Evaluation\<close> (\<open>evaluation/\<close>: the scorers of finished runs); \<open>Completion\<close>: a run with sound plans and
    an accepting validator completes; \<open>End_To_End\<close>: a run from the request to the answer.
  \<^item> \<open>Idempotency\<close>, \<open>Execution_Backend\<close> (\<open>execution/\<close>); \<open>Backend_Invariant\<close> and \<open>Backend_Theorems\<close> hold the
    step relation of the engine, its invariant and its properties.
  \<^item> \<open>Access_Control\<close>, \<open>Authenticators\<close>, \<open>Rate_Limiter\<close> (\<open>security/\<close>).
  \<^item> \<open>Chunking\<close>, \<open>Vector_Store\<close>, \<open>Embeddings\<close> (\<open>retrieval/\<close>).
  \<^item> \<open>Settings\<close> (\<open>config/settings.py\<close>), \<open>Api_Access\<close> (\<open>api/dependencies.py\<close>, \<open>api/middleware.py\<close>,
    \<open>api/app.py\<close>), \<open>Event_Service\<close> (\<open>services/orchestration_service.py\<close>), \<open>Api_Routes\<close>
    (\<open>api/schemas.py\<close>, the run and review routes), \<open>Api_Telemetry\<close> (the health, metrics and event
    routes), \<open>Deployment\<close> (what \<open>api/dependencies.py\<close> injects, the lifespan of \<open>api/app.py\<close>).
  \<^item> \<open>Benchmarks\<close> (\<open>scripts/run_benchmarks.py\<close>): the suite that scores the framework.

  \<^bold>\<open>State and effects.\<close> The records have the fields of the classes. What agents, tools, providers and
  stores act on is a type variable \<open>'w\<close> threaded through the calls. Telemetry calls are collected as a
  list of values, so that what a run reports can be stated. Futures live in a heap, as several callers
  share one. Coroutines switch only where an \<open>await\<close> suspends; the code between two such points is one
  step, and the engine's behaviours are all interleavings of these steps (\<open>b_step\<close>, \<open>b_reach\<close>).
  Times and random identifiers come from a \<open>tick\<close>, an argument of each operation.

  \<^bold>\<open>What the theorems show.\<close> A run returns, respects dependencies and retry budgets, is accounted and
  saved, and balances its spans; the plan check accepts exactly the acyclic plans; the stores agree;
  every idle pool has answered every submission and the engine stays within its bounds; admitted
  identities are entitled to exactly what their roles give, and the chain of authenticators fails closed;
  the limiter never exceeds its window and its clean-up cannot be observed; chunking loses no text and
  a saved index is read back; channels stay bounded and keep lifecycle events; review decisions are
  guarded. A run whose planner proposes sound plans and whose validator accepts every output completes
  all its tasks; submitted to the API, it is answered so by any free worker. Failures of the OpenTelemetry
  library never reach the code that is traced, and the event stream a client receives can be split back
  into its events. Some theorems state situations the code does not handle as it means to: the
  dependencies inject a runtime without providers, so every run submitted through them fails, and each
  request gets an in-memory store of its own.

  \<^bold>\<open>Bounds.\<close> The graph library stops a run after 50 node executions (\<open>rt_max_steps\<close>, a parameter of the
  runtime record). \<open>fresh_run_returns\<close> shows that a plan of at most \<open>m\<close> tasks needs at most \<open>9m + 4\<close>
  when each task may be retried as often as its budget allows, so the limit of the library is reached only
  by plans of six tasks and more. The loops of the program are structural recursions, the chunk loop
  is a partial function shown to return, and the work-list of the plan check is a \<open>while\<close> loop shown to end.
  A channel holds 100 events, as in the code.

  \<^bold>\<open>Parameters.\<close> SHA-256, the token decoder, JSON encoding and decoding, float parsing, the formatting of
  times, the vector library, the embedding model of sentence-transformers, the OpenTelemetry SDK, the
  drivers of the databases, the HTTP calls of the model providers, language models, tools and the graph
  library's error are arguments of the definitions that use them; what is relied on is a hypothesis of the
  theorems. Text is ASCII, floats are exact rationals, sets of roles are iterated in the order of
  declaration.

  \<^bold>\<open>Not modelled.\<close> The abstract base classes (\<open>memory/base.py\<close>, \<open>providers/base.py\<close> and the like) and the
  \<open>__init__.py\<close> files hold no behaviour of their own: their contracts are the locales and the records of
  operations. The smoke test scripts call live services and print. Of the modelled parts, the printed
  tables of the benchmark script, the registration of routers and of the CORS middleware with the web
  framework, and log messages whose text nothing reads are left out.
\<close>

end
